(* ===== verification/Farm_Prelude.thy ===== *)
theory Farm_Prelude
  imports Complex_Main "HOL-Library.Char_ord" "HOL-Library.List_Lexorder"
    "HOL-Library.Product_Lexorder"
begin

text \<open>
  Shared vocabulary of the device-farmer development.

  The control plane keeps all of its state in PostgreSQL and every decision is a statement
  evaluated there, so the generic material is about tables: a table is a list of rows (records),
  an \<^verbatim>\<open>UPDATE ... WHERE\<close> is \<open>update_where\<close>, an \<^verbatim>\<open>ORDER BY ... LIMIT\<close> is \<open>order_limit\<close>, a nullable
  comparison is a three-valued \<open>tri\<close>. Identifiers (UUIDs) are opaque and only ever compared, so
  they are natural numbers; instants and durations are integers counting microseconds, the
  resolution of \<^verbatim>\<open>timestamptz\<close> and \<^verbatim>\<open>interval\<close>. Failing statements return a value of a sum type.
\<close>

section \<open>Identifiers, instants, results\<close>

type_synonym uuid = nat
type_synonym timestamp = int
type_synonym interval = int

named_theorems tbl_simps \<open>rewrite rules for the table operations\<close>

text \<open>Durations are written in microseconds.\<close>

definition seconds :: "int \<Rightarrow> interval" where
  "seconds n = n * 1000000"

definition minutes :: "int \<Rightarrow> interval" where
  "minutes n = seconds (60 * n)"

definition hours :: "int \<Rightarrow> interval" where
  "hours n = minutes (60 * n)"

lemmas duration_defs = seconds_def minutes_def hours_def

text \<open>A statement either raises or returns.\<close>

primrec bindR :: "'e + 'a \<Rightarrow> ('a \<Rightarrow> 'e + 'b) \<Rightarrow> 'e + 'b" where
  "bindR (Inl e) f = Inl e"
| "bindR (Inr x) f = f x"

lemma bindR_eq_Inr: "bindR m f = Inr y \<longleftrightarrow> (\<exists>x. m = Inr x \<and> f x = Inr y)"
  by (cases m) auto

lemma bindR_eq_Inl: "bindR m f = Inl e \<longleftrightarrow> m = Inl e \<or> (\<exists>x. m = Inr x \<and> f x = Inl e)"
  by (cases m) auto

section \<open>Tables\<close>

definition update_where :: "('r \<Rightarrow> bool) \<Rightarrow> ('r \<Rightarrow> 'r) \<Rightarrow> 'r list \<Rightarrow> 'r list" where
  "update_where P f rows = map (\<lambda>r. if P r then f r else r) rows"

definition order_limit :: "('r \<Rightarrow> 'k::linorder) \<Rightarrow> nat \<Rightarrow> 'r list \<Rightarrow> 'r list" where
  "order_limit key n rows = take n (sort_key key rows)"

text \<open>A row source is keyed when no two rows share the key: a primary key or a unique index.\<close>

definition keyed :: "('r \<Rightarrow> 'k) \<Rightarrow> 'r list \<Rightarrow> bool" where
  "keyed key rows = distinct (map key rows)"

lemma update_where_Nil [tbl_simps, simp]: "update_where P f [] = []"
  by (simp add: update_where_def)

lemma update_where_Cons [tbl_simps, simp]:
  "update_where P f (r # rows) = (if P r then f r else r) # update_where P f rows"
  by (simp add: update_where_def)

lemma set_update_where [tbl_simps]:
  "set (update_where P f rows) = (\<lambda>r. if P r then f r else r) ` set rows"
  by (simp add: update_where_def)

lemma length_update_where [tbl_simps, simp]: "length (update_where P f rows) = length rows"
  by (simp add: update_where_def)

lemma map_update_where:
  assumes "\<And>r. r \<in> set rows \<Longrightarrow> P r \<Longrightarrow> key (f r) = key r"
  shows "map key (update_where P f rows) = map key rows"
  using assms by (auto simp: update_where_def)

lemma update_where_id:
  assumes "\<And>r. r \<in> set rows \<Longrightarrow> P r \<Longrightarrow> f r = r"
  shows "update_where P f rows = rows"
  using assms by (induction rows) auto

lemma update_where_none:
  assumes "\<And>r. r \<in> set rows \<Longrightarrow> \<not> P r"
  shows "update_where P f rows = rows"
  using assms by (induction rows) auto

lemma update_where_cong:
  assumes "\<And>r. r \<in> set rows \<Longrightarrow> P r = Q r" and "\<And>r. r \<in> set rows \<Longrightarrow> P r \<Longrightarrow> f r = g r"
  shows "update_where P f rows = update_where Q g rows"
  using assms by (auto simp: update_where_def)

lemma update_where_filter:
  assumes "\<And>r. P r \<Longrightarrow> \<not> Q r" and "\<And>r. P r \<Longrightarrow> \<not> Q (f r)"
  shows "filter Q (update_where P f rows) = filter Q rows"
  using assms by (induction rows) auto

lemma set_order_limit: "set (order_limit key n rows) \<subseteq> set rows"
  by (metis order_limit_def set_sort set_take_subset)

lemma in_order_limitD: "r \<in> set (order_limit key n rows) \<Longrightarrow> r \<in> set rows"
  using set_order_limit by fast

lemma length_order_limit: "length (order_limit key n rows) \<le> n"
  by (simp add: order_limit_def)

lemma keyed_eqD:
  assumes "keyed key rows" and "r \<in> set rows" and "s \<in> set rows" and "key r = key s"
  shows "r = s"
  using assms by (auto simp: keyed_def distinct_map inj_on_def)

lemma keyed_update_where:
  assumes "keyed key rows" and "\<And>r. r \<in> set rows \<Longrightarrow> P r \<Longrightarrow> key (f r) = key r"
  shows "keyed key (update_where P f rows)"
  using assms by (simp add: keyed_def map_update_where)

lemma keyed_append_single:
  "keyed key (rows @ [r]) \<longleftrightarrow> keyed key rows \<and> key r \<notin> key ` set rows"
  by (auto simp: keyed_def)

lemma keyed_filter: "keyed key rows \<Longrightarrow> keyed key (filter P rows)"
  by (auto simp: keyed_def distinct_map inj_on_def)

lemma find_keyed:
  assumes "keyed key rows" and "r \<in> set rows" and "key r = k"
  shows "List.find (\<lambda>r. key r = k) rows = Some r"
proof -
  obtain s where s: "List.find (\<lambda>r. key r = k) rows = Some s"
    using assms(2,3) by (cases "List.find (\<lambda>r. key r = k) rows") (auto simp: find_None_iff)
  then have "s \<in> set rows" and "key s = k"
    by (auto simp: find_Some_iff)
  with assms have "s = r" by (intro keyed_eqD [OF assms(1)]) auto
  with s show ?thesis by simp
qed

lemma filter_keyed:
  assumes "keyed key rows" and "r \<in> set rows" and "P r"
    and "\<And>s. P s \<Longrightarrow> key s = key r"
  shows "filter P rows = [r]"
  using assms
proof (induction rows)
  case Nil
  then show ?case by simp
next
  case (Cons x xs)
  have kx: "keyed key xs" and nx: "key x \<notin> key ` set xs"
    using Cons.prems(1) by (auto simp: keyed_def)
  show ?case
  proof (cases "x = r")
    case True
    then have "filter P xs = []"
      using nx Cons.prems(4) by (auto simp: filter_empty_conv) (metis image_eqI)
    with True Cons.prems(3) show ?thesis by simp
  next
    case False
    then have r: "r \<in> set xs" using Cons.prems(2) by simp
    then have "\<not> P x" using nx Cons.prems(4) by force
    with Cons.IH [OF kx r Cons.prems(3,4)] show ?thesis by simp
  qed
qed

lemma find_SomeD: "List.find P xs = Some x \<Longrightarrow> x \<in> set xs \<and> P x"
  by (auto simp: find_Some_iff)

text \<open>A keyed lookup after an update that keeps the key.\<close>

lemma find_update_where:
  assumes "\<And>r. key (f r) = key r"
  shows "List.find (\<lambda>r. key r = k) (update_where (\<lambda>r. key r = i) f rows) =
    (if k = i then map_option f (List.find (\<lambda>r. key r = k) rows) else List.find (\<lambda>r. key r = k) rows)"
  using assms by (induction rows) auto

lemma find_update_where_set:
  assumes "\<And>r. key (f r) = key r"
  shows "List.find (\<lambda>r. key r = k) (update_where (\<lambda>r. key r \<in> A) f rows) =
    (if k \<in> A then map_option f (List.find (\<lambda>r. key r = k) rows) else List.find (\<lambda>r. key r = k) rows)"
  using assms by (induction rows) auto

lemma find_append: "List.find P (xs @ ys) = (case List.find P xs of Some x \<Rightarrow> Some x | None \<Rightarrow> List.find P ys)"
  by (induction xs) auto

lemma list_all2_image:
  assumes "list_all2 R xs ys" and "x \<in> set xs" shows "\<exists>y\<in>set ys. R x y"
  using assms by (induction rule: list_all2_induct) auto

lemma list_all2_preimage:
  assumes "list_all2 R xs ys" and "y \<in> set ys" shows "\<exists>x\<in>set xs. R x y"
  using assms by (induction rule: list_all2_induct) auto

section \<open>Nullable comparisons\<close>

text \<open>
  SQL booleans are three-valued: \<open>None\<close> is \<^verbatim>\<open>NULL\<close>. A \<^verbatim>\<open>WHERE\<close> and an \<^verbatim>\<open>IF\<close> take their branch only
  when the condition is true, so \<open>holds\<close> reads a \<open>tri\<close>.
\<close>

type_synonym tri = "bool option"

definition holds :: "tri \<Rightarrow> bool" where
  "holds t \<longleftrightarrow> t = Some True"

definition tri_not :: "tri \<Rightarrow> tri" where
  "tri_not t = map_option Not t"

fun tri_or :: "tri \<Rightarrow> tri \<Rightarrow> tri" where
  "tri_or (Some True) u = Some True"
| "tri_or t (Some True) = Some True"
| "tri_or (Some False) u = u"
| "tri_or None u = None"

definition tri_eq :: "'a option \<Rightarrow> 'a option \<Rightarrow> tri" where
  "tri_eq x y = (case (x, y) of (Some a, Some b) \<Rightarrow> Some (a = b) | _ \<Rightarrow> None)"

lemma tri_or_False [simp]: "tri_or (Some False) u = u"
  by (cases u; cases "the u") auto

text \<open>\<^verbatim>\<open>x = ANY (set)\<close>: a disjunction of comparisons, false on the empty set.\<close>

definition eq_any :: "'a option \<Rightarrow> 'a option list \<Rightarrow> tri" where
  "eq_any x ys = foldr (\<lambda>y t. tri_or (tri_eq x y) t) ys (Some False)"

lemma eq_any_Null:
  assumes "ys \<noteq> []" shows "eq_any None ys = None"
proof -
  have "eq_any None (y # zs) = None" for y and zs :: "'a option list"
    by (induction zs arbitrary: y) (auto simp: eq_any_def tri_eq_def)
  then show ?thesis using assms by (cases ys) auto
qed

lemma eq_any_Some: "holds (eq_any (Some x) (map Some ys)) \<longleftrightarrow> x \<in> set ys"
proof (induction ys)
  case Nil
  show ?case by (simp add: eq_any_def holds_def)
next
  case (Cons y ys)
  have step: "eq_any (Some x) (map Some (y # ys)) =
      tri_or (Some (x = y)) (eq_any (Some x) (map Some ys))"
    by (simp add: eq_any_def tri_eq_def)
  show ?case using Cons.IH unfolding step holds_def
    by (cases "x = y"; cases "eq_any (Some x) (map Some ys)") auto
qed

section \<open>Rendering numbers\<close>

fun nat_str :: "nat \<Rightarrow> string" where
  "nat_str n = (if n < 10 then [char_of (48 + n)] else nat_str (n div 10) @ [char_of (48 + n mod 10)])"

declare nat_str.simps [simp del]

definition int_str :: "int \<Rightarrow> string" where
  "int_str i = (if i < 0 then CHR ''-'' # nat_str (nat (- i)) else nat_str (nat i))"

lemma nat_str_not_Nil: "nat_str n \<noteq> []"
  by (subst nat_str.simps) simp

text \<open>\<^verbatim>\<open>strings.Join\<close>.\<close>

fun join :: "string \<Rightarrow> string list \<Rightarrow> string" where
  "join sep [] = []"
| "join sep [x] = x"
| "join sep (x # y # xs) = x @ sep @ join sep (y # xs)"

section \<open>Values of a jsonb detail object\<close>

text \<open>
  \<^verbatim>\<open>farm.events.detail\<close> and \<^verbatim>\<open>farm.recovery_attempts.detail\<close> are flat JSON objects; the values that
  occur are null, booleans, integers, numerics with three decimals, strings, string arrays,
  instants and intervals rendered as text. The last value written under a key wins, as in
  \<^verbatim>\<open>jsonb || jsonb\<close>.
\<close>

datatype jval = JNull | JBool bool | JInt int | JMilli int | JStr string | JStrs "string list"
  | JTime timestamp | JSpan interval

type_synonym jobject = "(string \<times> jval) list"

definition jset :: "string \<Rightarrow> jval \<Rightarrow> jobject \<Rightarrow> jobject" where
  "jset k v o' = filter (\<lambda>(k', _). k' \<noteq> k) o' @ [(k, v)]"

definition jget :: "jobject \<Rightarrow> string \<Rightarrow> jval option" where
  "jget o' k = map_of o' k"

definition jmerge :: "jobject \<Rightarrow> jobject \<Rightarrow> jobject" where
  "jmerge a b = foldl (\<lambda>acc (k, v). jset k v acc) a b"

lemma map_of_filter_neq: "map_of (filter (\<lambda>(k', _). k' \<noteq> k) xs) j = (if j = k then None else map_of xs j)"
  by (induction xs) auto

lemma jget_jset [simp]: "jget (jset k v o') j = (if j = k then Some v else jget o' j)"
  unfolding jget_def jset_def by (auto simp: map_of_filter_neq map_add_def split: option.splits)

definition jopt_str :: "string option \<Rightarrow> jval" where
  "jopt_str x = (case x of None \<Rightarrow> JNull | Some s \<Rightarrow> JStr s)"

definition jopt_time :: "timestamp option \<Rightarrow> jval" where
  "jopt_time x = (case x of None \<Rightarrow> JNull | Some t \<Rightarrow> JTime t)"

text \<open>\<^verbatim>\<open>round(x::numeric, 3)\<close> of a number of microseconds read as seconds: half away from zero.\<close>

definition round_millis :: "interval \<Rightarrow> int" where
  "round_millis us = (if us \<ge> 0 then (us + 500) div 1000 else - ((- us + 500) div 1000))"

end
