(* ===== verification/Farm_Schema.thy ===== *)
theory Farm_Schema
  imports Farm_Prelude
begin

text \<open>
  The tables of \<^verbatim>\<open>migrations/*.sql\<close> that the modelled code reads or writes, one record per table
  and one record \<open>farm\<close> for the database. Columns whose CHECK constraint closes their domain and
  that the code only compares are datatypes (lease state, health, ADB state); columns the code
  handles as open text stay strings (\<^verbatim>\<open>release_reason\<close>, \<^verbatim>\<open>disruption_policy\<close>, \<^verbatim>\<open>blast_radius\<close>).
\<close>

section \<open>Column domains\<close>

datatype lease_state = Held | Suspect | Expired | Released

datatype health = HUnknown | HBooting | HHealthy | HDegraded | HOffline | HUnauthorized
  | HMissing | HRecovering | HQuarantined | HRetired | HParked

datatype conn_state = StateDevice | StateOffline | StateUnauthorized | StateAuthorizing
  | StateConnecting | StateDetached | StateNoPermissions | StateBootloader | StateRecovery
  | StateSideload | StateRescue | StateHost | StateAbsent | StateUnknown

datatype job_state = Queued | Allocating | Running | Succeeded | Failed | Cancelled

text \<open>
  A job's selector is a JSON object over a closed vocabulary; a key outside it is carried as
  \<open>SelUnknown\<close>, because the allocator refuses it by name. JSON null is \<open>None\<close>.
\<close>

datatype selector_item =
    SelModel "string option" | SelModelIn "string option list" | SelManufacturer "string option"
  | SelSdkMin int | SelSdkMax int | SelAndroidRelease "string option" | SelAbi "string option"
  | SelLabels "(string \<times> string) list" | SelHostIn "string option list"
  | SelNotHostIn "string option list" | SelUnknown string

section \<open>Rows\<close>

record host_row =
  ho_id :: string
  ho_admin_state :: string
  ho_adb_endpoint :: string
  ho_node_endpoint :: "string option"

record hub_row =
  hb_id :: int
  hb_host :: string
  hb_usb_path :: string

record power_domain_row =
  pd_id :: int
  pd_kind :: string
  pd_control :: string

record slot_row =
  s_id :: int
  s_host :: string
  s_hub :: int
  s_power_domain :: "int option"
  s_usb_path :: string
  s_rack_slot :: "string option"
  s_state :: string
  s_rearm_at :: timestamp

definition s_adb_devpath :: "slot_row \<Rightarrow> string" where
  "s_adb_devpath s = ''usb:'' @ s_usb_path s"

record device_row =
  d_id :: uuid
  d_manufacturer :: "string option"
  d_model :: "string option"
  d_android_release :: "string option"
  d_sdk_int :: "int option"
  d_abis :: "string list"
  d_labels :: "(string \<times> string) list"
  d_current_slot :: "int option"
  d_host :: "string option"
  d_pool :: string
  d_admin_state :: string
  d_current_lease :: "uuid option"
  d_fence_floor :: int
  d_failure_score :: int
  d_last_released_at :: "timestamp option"

record runtime_row =
  r_device :: uuid
  r_host :: "string option"
  r_slot :: "int option"
  r_adb_state :: conn_state
  r_health :: health
  r_health_since :: timestamp
  r_transport_id :: "int option"
  r_host_epoch :: "int option"
  r_consec_bad :: int
  r_consec_good :: int
  r_flap_credits :: rat
  r_flap_updated_at :: timestamp
  r_ladder_tier :: int
  r_suppress_until :: "timestamp option"
  r_last_seen_at :: "timestamp option"
  r_updated_at :: timestamp
  r_battery_pct :: "int option"
  r_charge_gate :: "string option"

record tenant_row =
  tn_id :: string
  tn_max_devices :: int

record queue_row =
  qu_id :: string
  qu_priority :: int
  qu_max_devices :: int

text \<open>
  A step of a job's document, as far as the control plane reads it, and the progress a runner leaves in
  \<^verbatim>\<open>farm.jobs.checkpoint\<close>.
\<close>

record spec_step =
  ss_id :: string
  ss_kind :: string
  ss_continue :: bool
  ss_detail :: jobject                      \<comment> \<open>what a step's row shows of its payload\<close>

record checkpoint =
  ck_Version :: int
  ck_Attempt :: int
  ck_Fence :: int
  ck_DeviceID :: uuid
  ck_SpecHash :: string
  ck_LastIndex :: int
  ck_Completed :: "(int \<times> string) list"
  ck_InFlight :: "(int \<times> string \<times> string) option"

record job_row =
  j_id :: uuid
  j_tenant :: string
  j_queue :: string
  j_pool :: string
  j_state :: job_state
  j_selector :: "selector_item list"
  j_pin_device :: "uuid option"
  j_protected :: bool
  j_policy :: string
  j_expected_duration :: "interval option"
  j_max_runtime :: "interval option"
  j_ttl :: interval
  j_grace :: interval
  j_created_at :: timestamp
  j_started_at :: "timestamp option"
  j_finished_at :: "timestamp option"
  j_spec :: "spec_step list option"         \<comment> \<open>the spec's steps; None when they are missing or no array\<close>
  j_checkpoint :: "checkpoint option"       \<comment> \<open>None when it is empty or does not parse\<close>
  j_attempt :: int
  j_max_attempts :: int
  j_resumable :: bool
  j_error :: "string option"

record lease_row =
  l_id :: uuid
  l_fence :: int
  l_device :: uuid
  l_slot :: "int option"
  l_job :: uuid
  l_tenant :: string
  l_queue :: string
  l_holder :: string
  l_holder_instance :: uuid
  l_holder_epoch :: int
  l_holder_principal :: "string option"
  l_state :: lease_state
  l_protected :: bool
  l_policy :: string
  l_ttl :: interval
  l_grace :: interval
  l_acquired_at :: timestamp
  l_heartbeat_at :: timestamp
  l_heartbeat_seq :: int
  l_expires_at :: timestamp
  l_reclaimable_at :: timestamp
  l_witness_at :: "timestamp option"
  l_witness_extensions :: int
  l_released_at :: "timestamp option"
  l_release_reason :: "string option"

record gap_row =
  g_component :: string
  g_started_at :: timestamp
  g_ended_at :: timestamp

record reaper_state_row =
  rs_quiesce_until :: timestamp
  rs_armed_at :: timestamp
  rs_enabled :: bool
  rs_last_refusal :: "string option"
  rs_last_refusal_at :: "timestamp option"

record event_row =
  e_at :: timestamp
  e_kind :: string
  e_device :: "uuid option"
  e_slot :: "int option"
  e_lease :: "uuid option"
  e_job :: "uuid option"
  e_actor :: "string option"
  e_detail :: jobject

record audit_row =
  au_actor :: string
  au_action :: string
  au_subject :: string
  au_reason :: "string option"
  au_detail :: jobject

record tier_row =
  t_tier :: int
  t_name :: string
  t_blast_radius :: string
  t_requires_policy :: string
  t_cooldown :: interval
  t_max_per_hour :: int
  t_enabled :: bool

record attempt_row =
  a_id :: int
  a_device :: "uuid option"
  a_slot :: "int option"
  a_hub :: "int option"
  a_host :: "string option"
  a_tier :: int
  a_started_at :: timestamp
  a_finished_at :: "timestamp option"
  a_outcome :: "string option"
  a_refusal :: "string option"
  a_detail :: jobject

record quarantine_row =
  q_id :: int
  q_scope :: string
  q_device :: "uuid option"
  q_slot :: "int option"
  q_power_domain :: "int option"
  q_hub :: "int option"
  q_host :: "string option"
  q_reason :: string
  q_opened_at :: timestamp
  q_closed_at :: "timestamp option"
  q_auto :: bool

text \<open>Deliberate holds, \<^verbatim>\<open>farm.device_parks\<close> of migration 00008: an open row has no \<^verbatim>\<open>closed_at\<close>.\<close>

record park_row =
  pk_id :: int
  pk_device :: uuid
  pk_reason :: string
  pk_opened_by :: string
  pk_opened_at :: timestamp
  pk_auto :: bool
  pk_closed_at :: "timestamp option"
  pk_closed_by :: "string option"
  pk_close_reason :: "string option"

text \<open>What a runner records of its work, \<^verbatim>\<open>farm.job_steps\<close> and \<^verbatim>\<open>farm.job_attempts\<close> of migration 00004.\<close>

record step_kind_row =
  sk_kind :: string
  sk_idempotent :: bool
  sk_needs_artifact :: bool

datatype step_state = StepPending | StepRunning | StepOk | StepFailed | StepSkipped | StepAborted

record step_row =
  st_job :: uuid
  st_attempt :: int
  st_index :: int
  st_id :: string
  st_kind :: string
  st_state :: step_state
  st_started_at :: "timestamp option"
  st_finished_at :: "timestamp option"
  st_exit_code :: "int option"
  st_output :: "string option"
  st_error :: "string option"
  st_detail :: jobject

record job_attempt_row =
  ja_id :: int
  ja_job :: uuid
  ja_attempt :: int
  ja_device :: "uuid option"
  ja_lease :: "uuid option"
  ja_fence :: "int option"
  ja_started_at :: timestamp
  ja_finished_at :: "timestamp option"
  ja_outcome :: "string option"
  ja_error :: "string option"

text \<open>Bulk execution, \<^verbatim>\<open>farm.bulk_runs\<close> and \<^verbatim>\<open>farm.bulk_targets\<close> of migration 00003.\<close>

record bulk_run_row =
  br_id :: uuid
  br_created_at :: timestamp
  br_timeout :: interval
  br_state :: string
  br_finished_at :: "timestamp option"

record bulk_target_row =
  bt_run :: uuid
  bt_device :: uuid
  bt_state :: string
  bt_started_at :: "timestamp option"
  bt_finished_at :: "timestamp option"
  bt_error :: "string option"

section \<open>The database\<close>

text \<open>
  Identity columns and \<^verbatim>\<open>farm.fence_seq\<close> are kept as the last value handed out. The sequence is a
  bigint in the database; exhausting it takes 2^63 grants and is not modelled.
\<close>

record farm =
  hosts :: "host_row list"
  hubs :: "hub_row list"
  power_domains :: "power_domain_row list"
  slots :: "slot_row list"
  devices :: "device_row list"
  runtimes :: "runtime_row list"
  tenants :: "tenant_row list"
  queues :: "queue_row list"
  jobs :: "job_row list"
  leases :: "lease_row list"
  heartbeats :: "(string \<times> timestamp) list"
  gaps :: "gap_row list"
  reaper_state :: reaper_state_row
  events :: "event_row list"
  audit_log :: "audit_row list"
  tiers_tbl :: "tier_row list"
  attempts :: "attempt_row list"
  attempt_seq :: int
  quarantines :: "quarantine_row list"
  quarantine_seq :: int
  parks :: "park_row list"
  park_seq :: int
  step_kinds :: "step_kind_row list"
  job_steps :: "step_row list"
  job_attempts :: "job_attempt_row list"
  job_attempt_seq :: int
  bulk_runs :: "bulk_run_row list"
  bulk_targets :: "bulk_target_row list"
  fence_seq :: int

section \<open>Lease rows: liveness, CHECK constraints, vocabulary\<close>

definition is_live :: "lease_row \<Rightarrow> bool" where
  "is_live l \<longleftrightarrow> l_state l = Held \<or> l_state l = Suspect"

text \<open>The closed domain of \<^verbatim>\<open>farm.leases.release_reason\<close>: there is no connectivity value in it.\<close>

definition release_reasons :: "string list" where
  "release_reasons = [''completed'', ''failed'', ''job_cancelled'', ''max_runtime'',
     ''operator_revoked'', ''holder_expired'', ''device_retired'']"

text \<open>The CHECK constraints of \<^verbatim>\<open>farm.leases\<close>; a NULL reason passes its CHECK, as in SQL.\<close>

definition lease_checks :: "lease_row \<Rightarrow> bool" where
  "lease_checks l \<longleftrightarrow>
     l_ttl l \<ge> minutes 10 \<and> l_grace l \<ge> minutes 5 \<and>
     l_reclaimable_at l \<ge> l_expires_at l \<and>
     (case l_release_reason l of None \<Rightarrow> True | Some r \<Rightarrow> r \<in> set release_reasons)"

text \<open>Errors a statement may raise, by what the Go layer distinguishes about them.\<close>

datatype sql_error =
    CheckViolation     \<comment> \<open>23514, a CHECK constraint or a guard trigger\<close>
  | UniqueViolation    \<comment> \<open>23505\<close>
  | NoDataFound        \<comment> \<open>P0002\<close>
  | WrongTenant        \<comment> \<open>DF001\<close>
  | WrongPrincipal     \<comment> \<open>DF002\<close>
  | ReservedPrincipal  \<comment> \<open>DF003\<close>
  | Forbidden          \<comment> \<open>42501, insufficient_privilege\<close>
  | TxAborted          \<comment> \<open>25P02, a statement after an error in the same transaction\<close>

section \<open>Lookups by primary key\<close>

definition device_by_id :: "farm \<Rightarrow> uuid \<Rightarrow> device_row option" where
  "device_by_id db i = List.find (\<lambda>d. d_id d = i) (devices db)"

definition slot_by_id :: "farm \<Rightarrow> int \<Rightarrow> slot_row option" where
  "slot_by_id db i = List.find (\<lambda>s. s_id s = i) (slots db)"

definition host_by_id :: "farm \<Rightarrow> string \<Rightarrow> host_row option" where
  "host_by_id db i = List.find (\<lambda>h. ho_id h = i) (hosts db)"

definition runtime_by_device :: "farm \<Rightarrow> uuid \<Rightarrow> runtime_row option" where
  "runtime_by_device db i = List.find (\<lambda>r. r_device r = i) (runtimes db)"

definition job_by_id :: "farm \<Rightarrow> uuid \<Rightarrow> job_row option" where
  "job_by_id db i = List.find (\<lambda>j. j_id j = i) (jobs db)"

definition lease_by_id :: "farm \<Rightarrow> uuid \<Rightarrow> lease_row option" where
  "lease_by_id db i = List.find (\<lambda>l. l_id l = i) (leases db)"

text \<open>The slot a device sits in, following \<^verbatim>\<open>devices.current_slot_id\<close>.\<close>

definition slot_of_device :: "farm \<Rightarrow> device_row \<Rightarrow> slot_row option" where
  "slot_of_device db d = Option.bind (d_current_slot d) (slot_by_id db)"

definition append_event :: "event_row \<Rightarrow> farm \<Rightarrow> farm" where
  "append_event e db = db\<lparr>events := events db @ [e]\<rparr>"

lemma append_event_frame [simp]:
  "leases (append_event e db) = leases db" "devices (append_event e db) = devices db"
  "runtimes (append_event e db) = runtimes db" "slots (append_event e db) = slots db"
  "jobs (append_event e db) = jobs db" "fence_seq (append_event e db) = fence_seq db"
  "gaps (append_event e db) = gaps db" "reaper_state (append_event e db) = reaper_state db"
  "heartbeats (append_event e db) = heartbeats db" "hosts (append_event e db) = hosts db"
  "quarantines (append_event e db) = quarantines db" "attempts (append_event e db) = attempts db"
  "attempt_seq (append_event e db) = attempt_seq db" "tiers_tbl (append_event e db) = tiers_tbl db"
  "quarantine_seq (append_event e db) = quarantine_seq db"
  "parks (append_event e db) = parks db" "park_seq (append_event e db) = park_seq db"
  "events (append_event e db) = events db @ [e]"
  by (simp_all add: append_event_def)

lemma is_live_cases: "is_live l \<or> l_state l = Expired \<or> l_state l = Released"
  by (cases "l_state l") (auto simp: is_live_def)

end
