(* ===== verification/Lease_Sql.thy ===== *)
theory Lease_Sql
  imports Farm_Schema
begin

text \<open>
  The lease functions of the database, each in its newest definition: the guard, ledger and
  device-pointer triggers, \<^verbatim>\<open>farm.lease_acquire\<close> (00019), \<^verbatim>\<open>lease_renew\<close>, \<^verbatim>\<open>lease_witness\<close>,
  \<^verbatim>\<open>lease_release\<close>, \<^verbatim>\<open>lease_mark_suspect\<close> (00002), \<^verbatim>\<open>lease_reclaim\<close> and \<^verbatim>\<open>reaper_arm\<close> (00012),
  \<^verbatim>\<open>lease_expire_max_runtime\<close> (00005) and \<^verbatim>\<open>component_beat\<close> (00002). Each takes the server's
  \<open>now\<close> and returns either the error it raises, which rolls the statement back, or the rows it
  returns and the new database. Statements are serialised, so \<^verbatim>\<open>SKIP LOCKED\<close> skips nothing and rows
  that tie in an \<^verbatim>\<open>ORDER BY\<close> keep their table order.
\<close>

section \<open>Triggers on farm.leases\<close>

definition trg_leases_guard :: "lease_row \<Rightarrow> lease_row \<Rightarrow> sql_error option" where
  "trg_leases_guard old new =
     (if l_device new \<noteq> l_device old \<or> l_fence new \<noteq> l_fence old \<or> l_job new \<noteq> l_job old
         \<or> l_acquired_at new \<noteq> l_acquired_at old then Some CheckViolation
      else if l_holder_principal old \<noteq> None \<and> l_holder_principal new \<noteq> l_holder_principal old
      then Some CheckViolation
      else if l_expires_at new < l_expires_at old then Some CheckViolation
      else if l_reclaimable_at new < l_reclaimable_at old then Some CheckViolation
      else if \<not> is_live old \<and> is_live new then Some CheckViolation
      else None)"

definition lease_ended_by :: "string option \<Rightarrow> string" where
  "lease_ended_by r =
     (if r \<in> {Some ''completed'', Some ''failed'', Some ''job_cancelled''} then ''job''
      else if r = Some ''max_runtime'' then ''deadline''
      else if r \<in> {Some ''operator_revoked'', Some ''device_retired''} then ''operator''
      else if r = Some ''holder_expired'' then ''reaper''
      else ''unaccounted'')"

definition state_text :: "lease_state \<Rightarrow> string" where
  "state_text s = (case s of Held \<Rightarrow> ''held'' | Suspect \<Rightarrow> ''suspect'' | Expired \<Rightarrow> ''expired''
     | Released \<Rightarrow> ''released'')"

definition lease_ended_event :: "timestamp \<Rightarrow> lease_row \<Rightarrow> event_row" where
  "lease_ended_event now l =
     (let ended = (case l_released_at l of Some t \<Rightarrow> t | None \<Rightarrow> now);
          held = ended - l_acquired_at l;
          ender = lease_ended_by (l_release_reason l)
      in \<lparr>e_at = ended, e_kind = ''lease_ended'', e_device = Some (l_device l), e_slot = l_slot l,
          e_lease = Some (l_id l), e_job = Some (l_job l), e_actor = Some ender,
          e_detail =
            [(''release_reason'', jopt_str (l_release_reason l)), (''ended_by'', JStr ender),
             (''terminal_state'', JStr (state_text (l_state l))),
             (''tenant_id'', JStr (l_tenant l)), (''queue_id'', JStr (l_queue l)),
             (''fence'', JInt (l_fence l)), (''holder'', JStr (l_holder l)),
             (''holder_epoch'', JInt (l_holder_epoch l)), (''protected'', JBool (l_protected l)),
             (''held_seconds'', JMilli (round_millis held)), (''held'', JSpan held),
             (''acquired_at'', JTime (l_acquired_at l)), (''ended_at'', JTime ended),
             (''last_heartbeat_at'', JTime (l_heartbeat_at l)),
             (''heartbeat_seq'', JInt (l_heartbeat_seq l)),
             (''heartbeat_age_s'', JMilli (round_millis (ended - l_heartbeat_at l))),
             (''expires_at'', JTime (l_expires_at l)),
             (''reclaimable_at'', JTime (l_reclaimable_at l)),
             (''witness_at'', jopt_time (l_witness_at l)),
             (''witness_extensions'', JInt (l_witness_extensions l))]\<rparr>)"

definition trg_leases_ledger :: "timestamp \<Rightarrow> lease_row \<Rightarrow> farm \<Rightarrow> farm" where
  "trg_leases_ledger now l db =
     (if \<exists>e\<in>set (events db). e_kind e = ''lease_ended'' \<and> e_lease e = Some (l_id l) then db
      else append_event (lease_ended_event now l) db)"

definition trg_leases_sync_device_insert :: "lease_row \<Rightarrow> farm \<Rightarrow> farm" where
  "trg_leases_sync_device_insert l db =
     db\<lparr>devices := update_where (\<lambda>d. d_id d = l_device l)
          (\<lambda>d. d\<lparr>d_current_lease := Some (l_id l), d_fence_floor := max (d_fence_floor d) (l_fence l)\<rparr>)
          (devices db)\<rparr>"

definition trg_leases_sync_device_update :: "timestamp \<Rightarrow> lease_row \<Rightarrow> farm \<Rightarrow> farm" where
  "trg_leases_sync_device_update now l db =
     db\<lparr>devices := update_where
          (\<lambda>d. d_id d = l_device l \<and> d_current_lease d = Some (l_id l))
          (\<lambda>d. d\<lparr>d_current_lease := None, d_last_released_at := Some now\<rparr>) (devices db)\<rparr>"

text \<open>
  The AFTER triggers of one updated row, in the alphabetical order PostgreSQL fires them in. Both
  act only on a live row that became terminal.
\<close>

definition after_lease_update :: "timestamp \<Rightarrow> lease_row \<times> lease_row \<Rightarrow> farm \<Rightarrow> farm" where
  "after_lease_update now rows db =
     (let (old, new) = rows in
      if is_live old \<and> \<not> is_live new
      then trg_leases_sync_device_update now new (trg_leases_ledger now new db)
      else db)"

section \<open>UPDATE farm.leases\<close>

text \<open>
  One \<^verbatim>\<open>UPDATE farm.leases SET ... WHERE ... RETURNING *\<close>: the BEFORE guard and the CHECK constraints
  on every matching row, the row triggers after all of them, the new rows returned. The partial
  unique indexes need no check here: no statement changes a key and the guard keeps a row from
  becoming live.
\<close>

definition lease_update_error :: "(lease_row \<Rightarrow> lease_row) \<Rightarrow> lease_row \<Rightarrow> sql_error option" where
  "lease_update_error f l =
     (case trg_leases_guard l (f l) of
        Some e \<Rightarrow> Some e
      | None \<Rightarrow> if lease_checks (f l) then None else Some CheckViolation)"

definition update_leases ::
  "timestamp \<Rightarrow> (lease_row \<Rightarrow> bool) \<Rightarrow> (lease_row \<Rightarrow> lease_row) \<Rightarrow> farm
   \<Rightarrow> sql_error + lease_row list \<times> farm" where
  "update_leases now P f db =
     (let hit = filter P (leases db) in
      case List.find (\<lambda>l. lease_update_error f l \<noteq> None) hit of
        Some l \<Rightarrow> Inl (the (lease_update_error f l))
      | None \<Rightarrow>
          Inr (map f hit,
               fold (after_lease_update now) (map (\<lambda>l. (l, f l)) hit)
                 (db\<lparr>leases := update_where P f (leases db)\<rparr>)))"

section \<open>nextval('farm.fence_seq') over the devices of a set of rows\<close>

fun bump_rows :: "(device_row \<Rightarrow> bool) \<Rightarrow> int \<Rightarrow> device_row list \<Rightarrow> device_row list \<times> int" where
  "bump_rows P n [] = ([], n)"
| "bump_rows P n (d # ds) =
     (if P d then let (ds', m) = bump_rows P (n + 1) ds in (d\<lparr>d_fence_floor := n + 1\<rparr> # ds', m)
      else let (ds', m) = bump_rows P n ds in (d # ds', m))"

definition bump_floors :: "(device_row \<Rightarrow> bool) \<Rightarrow> farm \<Rightarrow> farm" where
  "bump_floors P db =
     (let (ds, n) = bump_rows P (fence_seq db) (devices db)
      in db\<lparr>devices := ds, fence_seq := n\<rparr>)"

definition rearm_slots :: "(slot_row \<Rightarrow> bool) \<Rightarrow> timestamp \<Rightarrow> farm \<Rightarrow> farm" where
  "rearm_slots P t db = db\<lparr>slots := update_where P (\<lambda>s. s\<lparr>s_rearm_at := t\<rparr>) (slots db)\<rparr>"

section \<open>Allocation predicates\<close>

definition selector_unknown_keys :: "selector_item list \<Rightarrow> string list" where
  "selector_unknown_keys sel =
     sort (List.map_filter (\<lambda>i. case i of SelUnknown k \<Rightarrow> Some k | _ \<Rightarrow> None) sel)"

text \<open>
  One key of the selector. The \<^verbatim>\<open>IF ... THEN RETURN false\<close> of the source is taken only when its
  condition is true, so a condition that is NULL lets the device pass.
\<close>

fun selector_item_ok :: "device_row \<Rightarrow> selector_item \<Rightarrow> bool" where
  "selector_item_ok d (SelModel v) = (d_model d = v)"
| "selector_item_ok d (SelManufacturer v) = (d_manufacturer d = v)"
| "selector_item_ok d (SelAndroidRelease v) = (d_android_release d = v)"
| "selector_item_ok d (SelModelIn vs) = (\<not> holds (tri_not (eq_any (d_model d) vs)))"
| "selector_item_ok d (SelSdkMin n) = (case d_sdk_int d of None \<Rightarrow> False | Some k \<Rightarrow> \<not> k < n)"
| "selector_item_ok d (SelSdkMax n) = (case d_sdk_int d of None \<Rightarrow> False | Some k \<Rightarrow> \<not> k > n)"
| "selector_item_ok d (SelAbi v) = (\<not> holds (tri_not (eq_any v (map Some (d_abis d)))))"
| "selector_item_ok d (SelLabels kvs) = list_all (\<lambda>(k, v). map_of (d_labels d) k = Some v) kvs"
| "selector_item_ok d (SelHostIn hs) = (\<not> holds (tri_not (eq_any (d_host d) hs)))"
| "selector_item_ok d (SelNotHostIn hs) = (\<not> holds (eq_any (d_host d) hs))"
| "selector_item_ok d (SelUnknown k) = True"

definition device_matches :: "farm \<Rightarrow> uuid \<Rightarrow> selector_item list \<Rightarrow> bool" where
  "device_matches db dev sel =
     (if sel = [] then True
      else case device_by_id db dev of
             None \<Rightarrow> False
           | Some d \<Rightarrow> list_all (selector_item_ok d) sel)"

definition placeable :: "timestamp \<Rightarrow> farm \<Rightarrow> device_row \<Rightarrow> bool" where
  "placeable now db d \<longleftrightarrow>
     d_admin_state d = ''enabled'' \<and> d_current_lease d = None \<and>
     (case Option.bind (d_host d) (host_by_id db) of
        None \<Rightarrow> False | Some h \<Rightarrow> ho_admin_state h = ''enabled'') \<and>
     (case runtime_by_device db (d_id d) of
        None \<Rightarrow> False | Some r \<Rightarrow> r_adb_state r = StateDevice \<and> r_health r = HHealthy) \<and>
     (case slot_of_device db d of
        None \<Rightarrow> False | Some s \<Rightarrow> s_state s = ''active'' \<and> s_rearm_at s \<le> now)"

definition placement_key :: "device_row \<Rightarrow> int \<times> (nat \<times> int) \<times> uuid" where
  "placement_key d =
     (d_failure_score d,
      (case d_last_released_at d of None \<Rightarrow> (0, 0) | Some t \<Rightarrow> (1, t)), d_id d)"

definition placement_candidates :: "timestamp \<Rightarrow> farm \<Rightarrow> job_row \<Rightarrow> device_row list" where
  "placement_candidates now db j =
     sort_key placement_key
       (filter (\<lambda>d. d_pool d = j_pool j \<and> placeable now db d \<and>
                    (case j_pin_device j of None \<Rightarrow> True | Some p \<Rightarrow> d_id d = p) \<and>
                    device_matches db (d_id d) (j_selector j)) (devices db))"

text \<open>
  The allocation loop: take the first candidate, re-check it under its lock, reject it and go on
  when the re-check fails.
\<close>

definition choose_device :: "timestamp \<Rightarrow> farm \<Rightarrow> job_row \<Rightarrow> device_row option" where
  "choose_device now db j =
     List.find (\<lambda>d. case device_by_id db (d_id d) of None \<Rightarrow> False | Some d' \<Rightarrow> placeable now db d')
       (placement_candidates now db j)"

section \<open>farm.lease_acquire\<close>

record acquired =
  aq_lease :: uuid
  aq_device :: uuid
  aq_slot :: "int option"
  aq_fence :: int
  aq_expires_at :: timestamp
  aq_reclaimable_at :: timestamp
  aq_reattached :: bool

definition acquired_of :: "bool \<Rightarrow> lease_row \<Rightarrow> acquired" where
  "acquired_of re l = \<lparr>aq_lease = l_id l, aq_device = l_device l, aq_slot = l_slot l,
     aq_fence = l_fence l, aq_expires_at = l_expires_at l,
     aq_reclaimable_at = l_reclaimable_at l, aq_reattached = re\<rparr>"

definition control_plane_principal :: string where
  "control_plane_principal = ''system:control-plane''"

definition reattach_class :: "string option \<Rightarrow> lease_row \<Rightarrow> string" where
  "reattach_class caller l =
     (if caller = None then ''unattributed''
      else if l_holder_principal l \<noteq> None then ''principal_match'' else ''adopted'')"

definition reattach_row ::
  "timestamp \<Rightarrow> string \<Rightarrow> uuid \<Rightarrow> string option \<Rightarrow> lease_row \<Rightarrow> lease_row" where
  "reattach_row now holder inst caller l =
     l\<lparr>l_holder := holder, l_holder_instance := inst, l_holder_epoch := l_holder_epoch l + 1,
       l_holder_principal :=
         (case l_holder_principal l of Some p \<Rightarrow> Some p | None \<Rightarrow> caller),
       l_state := Held, l_heartbeat_at := now,
       l_expires_at := max (l_expires_at l) (now + l_ttl l),
       l_reclaimable_at := max (l_reclaimable_at l) (now + l_ttl l + l_grace l),
       l_witness_extensions := 0\<rparr>"

definition reattached_event ::
  "timestamp \<Rightarrow> string \<Rightarrow> uuid \<Rightarrow> string option \<Rightarrow> lease_row \<Rightarrow> event_row" where
  "reattached_event now holder inst caller l =
     \<lparr>e_at = now, e_kind = ''lease_reattached'', e_device = Some (l_device l), e_slot = l_slot l,
      e_lease = Some (l_id l), e_job = Some (l_job l),
      e_actor = Some (case caller of Some p \<Rightarrow> p | None \<Rightarrow> control_plane_principal),
      e_detail = [(''authorised'', JStr (reattach_class caller l)), (''fence'', JInt (l_fence l)),
        (''holder_epoch'', JInt (l_holder_epoch l + 1)), (''prior_holder'', JStr (l_holder l)),
        (''prior_principal'', jopt_str (l_holder_principal l)), (''new_holder'', JStr holder),
        (''instance_changed'', JBool (l_holder_instance l \<noteq> inst)),
        (''prior_state'', JStr (state_text (l_state l)))]\<rparr>"

text \<open>Phase 1. \<open>may_log\<close> says whether the calling role holds INSERT on \<^verbatim>\<open>farm.events\<close>.\<close>

definition lease_reattach ::
  "timestamp \<Rightarrow> bool \<Rightarrow> string \<Rightarrow> uuid \<Rightarrow> string option \<Rightarrow> lease_row \<Rightarrow> farm
   \<Rightarrow> sql_error + acquired list \<times> farm" where
  "lease_reattach now may_log holder inst caller existing db =
     (if caller \<noteq> None \<and> l_holder_principal existing \<noteq> None
         \<and> caller \<noteq> l_holder_principal existing then Inl WrongPrincipal
      else bindR (update_leases now (\<lambda>l. l_id l = l_id existing)
                    (reattach_row now holder inst caller) db)
             (\<lambda>(rows, db'). Inr (map (acquired_of True) rows,
                if may_log then append_event (reattached_event now holder inst caller existing) db'
                else db')))"

definition new_lease_row ::
  "timestamp \<Rightarrow> uuid \<Rightarrow> int \<Rightarrow> device_row \<Rightarrow> job_row \<Rightarrow> string \<Rightarrow> uuid \<Rightarrow> string option \<Rightarrow> lease_row" where
  "new_lease_row now new_id fence d j holder inst caller =
     \<lparr>l_id = new_id, l_fence = fence, l_device = d_id d, l_slot = d_current_slot d, l_job = j_id j,
      l_tenant = j_tenant j, l_queue = j_queue j, l_holder = holder, l_holder_instance = inst,
      l_holder_epoch = 0,
      l_holder_principal = Some (case caller of Some p \<Rightarrow> p | None \<Rightarrow> control_plane_principal),
      l_state = Held,
      l_protected = (j_protected j \<or>
        (case j_expected_duration j of None \<Rightarrow> False | Some x \<Rightarrow> x > minutes 30)),
      l_policy = j_policy j, l_ttl = j_ttl j, l_grace = j_grace j, l_acquired_at = now,
      l_heartbeat_at = now, l_heartbeat_seq = 0, l_expires_at = now + j_ttl j,
      l_reclaimable_at = now + j_ttl j + j_grace j, l_witness_at = None,
      l_witness_extensions = 0, l_released_at = None, l_release_reason = None\<rparr>"

text \<open>
  Phase 2. The fence default is evaluated before the conflict test, so a lost race still consumes
  a sequence value.
\<close>

definition lease_allocate ::
  "timestamp \<Rightarrow> uuid \<Rightarrow> job_row \<Rightarrow> string \<Rightarrow> uuid \<Rightarrow> string option \<Rightarrow> farm
   \<Rightarrow> sql_error + acquired list \<times> farm" where
  "lease_allocate now new_id j holder inst caller db =
     (case choose_device now db j of
        None \<Rightarrow> Inr ([], db)
      | Some d \<Rightarrow>
          (let fence = fence_seq db + 1;
               l = new_lease_row now new_id fence d j holder inst caller;
               db1 = db\<lparr>fence_seq := fence\<rparr>
           in if \<exists>l'\<in>set (leases db). is_live l' \<and> l_device l' = d_id d then Inr ([], db1)
              else if \<exists>l'\<in>set (leases db). l_id l' = new_id \<or> l_fence l' = fence
                        \<or> is_live l' \<and> l_job l' = j_id j then Inl UniqueViolation
              else if \<not> lease_checks l then Inl CheckViolation
              else Inr ([acquired_of False l],
                        trg_leases_sync_device_insert l (db1\<lparr>leases := leases db1 @ [l]\<rparr>))))"

definition lease_acquire ::
  "timestamp \<Rightarrow> uuid \<Rightarrow> bool \<Rightarrow> uuid \<Rightarrow> string \<Rightarrow> uuid \<Rightarrow> string option \<Rightarrow> string option \<Rightarrow> farm
   \<Rightarrow> sql_error + acquired list \<times> farm" where
  "lease_acquire now new_id may_log job holder inst tenant caller db =
     (if caller = Some control_plane_principal then Inl ReservedPrincipal
      else case job_by_id db job of
        None \<Rightarrow> Inl NoDataFound
      | Some j \<Rightarrow>
          if tenant \<noteq> None \<and> tenant \<noteq> Some (j_tenant j) then Inl WrongTenant
          else if selector_unknown_keys (j_selector j) \<noteq> [] then Inl CheckViolation
          else case List.find (\<lambda>l. l_job l = job \<and> is_live l) (leases db) of
                 Some existing \<Rightarrow> lease_reattach now may_log holder inst caller existing db
               | None \<Rightarrow> lease_allocate now new_id j holder inst caller db)"

section \<open>farm.lease_renew, farm.lease_witness, farm.lease_release\<close>

definition renew_row :: "timestamp \<Rightarrow> lease_row \<Rightarrow> lease_row" where
  "renew_row now l = l\<lparr>l_heartbeat_at := now, l_heartbeat_seq := l_heartbeat_seq l + 1,
     l_expires_at := max (l_expires_at l) (now + l_ttl l),
     l_reclaimable_at := max (l_reclaimable_at l) (now + l_ttl l + l_grace l),
     l_state := Held, l_witness_extensions := 0\<rparr>"

definition lease_renew ::
  "timestamp \<Rightarrow> uuid \<Rightarrow> int \<Rightarrow> uuid \<Rightarrow> farm
   \<Rightarrow> sql_error + (timestamp \<times> timestamp \<times> bool) list \<times> farm" where
  "lease_renew now lid fence inst db =
     (let pre = filter (\<lambda>l. l_id l = lid) (leases db) in
      bindR (update_leases now
               (\<lambda>l. l_id l = lid \<and> l_fence l = fence \<and> l_holder_instance l = inst \<and> is_live l)
               (renew_row now) db)
        (\<lambda>(upd, db').
           Inr (concat (map (\<lambda>u. map (\<lambda>p. (l_expires_at u, l_reclaimable_at u, l_state p = Suspect))
                                   (filter (\<lambda>p. l_id p = l_id u) pre)) upd), db')))"

definition witness_row :: "timestamp \<Rightarrow> lease_row \<Rightarrow> lease_row" where
  "witness_row now l = l\<lparr>l_witness_at := Some now,
     l_witness_extensions := l_witness_extensions l + 1,
     l_reclaimable_at := max (l_reclaimable_at l) (now + l_grace l)\<rparr>"

definition lease_witness ::
  "timestamp \<Rightarrow> uuid \<Rightarrow> int \<Rightarrow> int \<Rightarrow> farm \<Rightarrow> sql_error + timestamp option \<times> farm" where
  "lease_witness now lid fence cap db =
     bindR (update_leases now
              (\<lambda>l. l_id l = lid \<and> l_fence l = fence \<and> is_live l \<and> l_witness_extensions l < cap \<and>
                   (case device_by_id db (l_device l) of
                      None \<Rightarrow> False | Some d \<Rightarrow> l_fence l \<ge> d_fence_floor d))
              (witness_row now) db)
       (\<lambda>(rows, db'). Inr (map_option l_reclaimable_at (case rows of [] \<Rightarrow> None | r # _ \<Rightarrow> Some r), db'))"

definition close_row :: "lease_state \<Rightarrow> timestamp \<Rightarrow> string \<Rightarrow> lease_row \<Rightarrow> lease_row" where
  "close_row st now reason l =
     l\<lparr>l_state := st, l_released_at := Some now, l_release_reason := Some reason\<rparr>"

definition lease_release ::
  "timestamp \<Rightarrow> uuid \<Rightarrow> int \<Rightarrow> string \<Rightarrow> interval \<Rightarrow> farm \<Rightarrow> sql_error + bool \<times> farm" where
  "lease_release now lid fence reason rearm db =
     bindR (update_leases now (\<lambda>l. l_id l = lid \<and> l_fence l = fence \<and> is_live l)
              (close_row Released now reason) db)
       (\<lambda>(rows, db'). case rows of
            [] \<Rightarrow> Inr (False, db')
          | l # _ \<Rightarrow>
              Inr (True, (case l_slot l of None \<Rightarrow> id
                           | Some s \<Rightarrow> rearm_slots (\<lambda>r. s_id r = s) (now + rearm))
                         (bump_floors (\<lambda>d. d_id d = l_device l) db')))"

section \<open>The sweeps\<close>

definition lease_mark_suspect ::
  "timestamp \<Rightarrow> nat \<Rightarrow> farm \<Rightarrow> sql_error + (uuid \<times> uuid \<times> uuid \<times> bool) list \<times> farm" where
  "lease_mark_suspect now batch db =
     (let due = order_limit l_expires_at batch
                  (filter (\<lambda>l. l_state l = Held \<and> l_expires_at l < now) (leases db));
          ids = map l_id due
      in bindR (update_leases now
                  (\<lambda>l. l_id l \<in> set ids \<and> l_state l = Held \<and> l_expires_at l < now)
                  (\<lambda>l. l\<lparr>l_state := Suspect\<rparr>) db)
           (\<lambda>(rows, db'). Inr (map (\<lambda>l. (l_id l, l_device l, l_job l, l_protected l)) rows, db')))"

text \<open>The candidate condition of \<^verbatim>\<open>farm.lease_reclaim\<close>.\<close>

definition reclaimable :: "timestamp \<Rightarrow> gap_row list \<Rightarrow> lease_row \<Rightarrow> bool" where
  "reclaimable now gs l \<longleftrightarrow>
     l_state l = Suspect \<and> l_reclaimable_at l < now \<and> \<not> l_protected l \<and>
     (case l_witness_at l of None \<Rightarrow> True | Some w \<Rightarrow> w < now - l_grace l) \<and>
     \<not> (\<exists>g\<in>set gs. g_ended_at g > l_heartbeat_at l \<and> g_ended_at g > now - hours 6)"

definition reaper_gate_open :: "timestamp \<Rightarrow> farm \<Rightarrow> bool" where
  "reaper_gate_open now db \<longleftrightarrow>
     rs_enabled (reaper_state db) \<and> \<not> now < rs_quiesce_until (reaper_state db)
     \<and> rs_last_refusal_at (reaper_state db) = None"

record reclaimed =
  rc_lease :: uuid
  rc_device :: uuid
  rc_slot :: "int option"
  rc_job :: uuid
  rc_old_fence :: int
  rc_new_floor :: int

definition lease_reclaim ::
  "timestamp \<Rightarrow> nat \<Rightarrow> interval \<Rightarrow> farm \<Rightarrow> sql_error + reclaimed list \<times> farm" where
  "lease_reclaim now batch rearm db =
     (if \<not> reaper_gate_open now db then Inr ([], db)
      else
        (let ids = map l_id (order_limit l_reclaimable_at batch
                     (filter (reclaimable now (gaps db)) (leases db)))
         in bindR (update_leases now
                     (\<lambda>l. l_id l \<in> set ids \<and> l_state l = Suspect \<and> l_reclaimable_at l < now)
                     (close_row Expired now ''holder_expired'') db)
              (\<lambda>(closed, db1).
                 (let db2 = bump_floors (\<lambda>d. d_id d \<in> l_device ` set closed) db1;
                      db3 = rearm_slots (\<lambda>s. Some (s_id s) \<in> l_slot ` set closed) (now + rearm) db2
                  in Inr (concat (map (\<lambda>c. map (\<lambda>d.
                              \<lparr>rc_lease = l_id c, rc_device = l_device c, rc_slot = l_slot c,
                               rc_job = l_job c, rc_old_fence = l_fence c,
                               rc_new_floor = d_fence_floor d\<rparr>)
                            (filter (\<lambda>d. d_id d = l_device c) (devices db2))) closed), db3)))))"

definition max_runtime_elapsed :: "timestamp \<Rightarrow> farm \<Rightarrow> lease_row \<Rightarrow> bool" where
  "max_runtime_elapsed now db l \<longleftrightarrow>
     is_live l \<and>
     (case job_by_id db (l_job l) of
        None \<Rightarrow> False
      | Some j \<Rightarrow> (case j_max_runtime j of None \<Rightarrow> False | Some m \<Rightarrow> l_acquired_at l + m \<le> now))"

definition lease_expire_max_runtime ::
  "timestamp \<Rightarrow> nat \<Rightarrow> interval \<Rightarrow> farm \<Rightarrow> sql_error + (uuid \<times> uuid \<times> uuid \<times> int) list \<times> farm" where
  "lease_expire_max_runtime now batch rearm db =
     (let ids = map l_id (order_limit l_acquired_at batch
                  (filter (max_runtime_elapsed now db) (leases db)))
      in bindR (update_leases now (\<lambda>l. l_id l \<in> set ids) (close_row Expired now ''max_runtime'') db)
           (\<lambda>(closed, db1).
              (let db2 = bump_floors (\<lambda>d. d_id d \<in> l_device ` set closed) db1;
                   db3 = db2\<lparr>devices := update_where (\<lambda>d. d_id d \<in> l_device ` set closed)
                           (\<lambda>d. d\<lparr>d_last_released_at := Some now\<rparr>) (devices db2)\<rparr>;
                   db4 = rearm_slots (\<lambda>s. Some (s_id s) \<in> l_slot ` set closed) (now + rearm) db3
               in Inr (map (\<lambda>c. (l_id c, l_device c, l_job c, l_fence c)) closed, db4))))"

section \<open>farm.reaper_arm and farm.component_beat\<close>

definition component_beat :: "timestamp \<Rightarrow> string \<Rightarrow> farm \<Rightarrow> farm" where
  "component_beat now cmp db =
     db\<lparr>heartbeats := (if cmp \<in> fst ` set (heartbeats db)
          then update_where (\<lambda>(c, _). c = cmp) (\<lambda>_. (cmp, now)) (heartbeats db)
          else heartbeats db @ [(cmp, now)])\<rparr>"

definition unbeaten_components :: "string list \<Rightarrow> farm \<Rightarrow> string list" where
  "unbeaten_components comps db = sort (filter (\<lambda>c. map_of (heartbeats db) c = None) comps)"

text \<open>The watched components that have beaten, with their beats, oldest first.\<close>

definition watched_beats :: "string list \<Rightarrow> farm \<Rightarrow> (string \<times> timestamp) list" where
  "watched_beats comps db =
     sort_key snd (List.map_filter (\<lambda>c. map_option (Pair c) (map_of (heartbeats db) c)) comps)"

definition arm_refusal_text :: "string list \<Rightarrow> string" where
  "arm_refusal_text unbeaten =
     ''refused to arm: watched component(s) '' @ join '', '' unbeaten @
     '' have never written a heartbeat; the reaper cannot tell their silence from an outage it should refund, '' @
     ''so nothing is reclaimed until every one of them has beaten''"

record arm_result =
  ar_armed :: bool
  ar_gap :: interval
  ar_unbeaten :: "string list"

definition arm_refuse :: "timestamp \<Rightarrow> string list \<Rightarrow> string list \<Rightarrow> farm \<Rightarrow> farm" where
  "arm_refuse now comps unbeaten db =
     (let txt = arm_refusal_text unbeaten in
      if rs_last_refusal (reaper_state db) = Some txt then db
      else append_event
             \<lparr>e_at = now, e_kind = ''reaper_arm_refused'', e_device = None, e_slot = None,
              e_lease = None, e_job = None, e_actor = Some ''farm.reaper_arm'',
              e_detail = [(''unbeaten'', JStrs unbeaten), (''components'', JStrs comps),
                          (''refusal'', JStr txt)]\<rparr>
             (db\<lparr>reaper_state := (reaper_state db)
                   \<lparr>rs_last_refusal := Some txt, rs_last_refusal_at := Some now\<rparr>\<rparr>))"

definition refund_row :: "interval \<Rightarrow> lease_row \<Rightarrow> lease_row" where
  "refund_row gap l = l\<lparr>l_expires_at := l_expires_at l + gap,
     l_reclaimable_at := l_reclaimable_at l + gap\<rparr>"

definition quiesce_of :: "timestamp \<Rightarrow> lease_row list \<Rightarrow> timestamp" where
  "quiesce_of now ls =
     (case map l_ttl (filter is_live ls) of
        [] \<Rightarrow> now + minutes 15
      | t # ts \<Rightarrow> now + fold max ts t)"

definition arm_quiesce :: "timestamp \<Rightarrow> interval \<Rightarrow> farm \<Rightarrow> farm" where
  "arm_quiesce now gap db =
     (let standing = rs_last_refusal (reaper_state db);
          quiesce = quiesce_of now (leases db);
          db' = db\<lparr>reaper_state := (reaper_state db)\<lparr>rs_quiesce_until := quiesce,
                  rs_armed_at := now, rs_last_refusal := None, rs_last_refusal_at := None\<rparr>\<rparr>
      in case standing of
           None \<Rightarrow> db'
         | Some txt \<Rightarrow>
             append_event \<lparr>e_at = now, e_kind = ''reaper_armed'', e_device = None, e_slot = None,
               e_lease = None, e_job = None, e_actor = Some ''farm.reaper_arm'',
               e_detail = [(''cleared_refusal'', JStr txt), (''gap'', JSpan gap),
                           (''quiesce_until'', JTime quiesce)]\<rparr> db')"

definition reaper_arm ::
  "timestamp \<Rightarrow> string list \<Rightarrow> interval \<Rightarrow> farm \<Rightarrow> sql_error + arm_result \<times> farm" where
  "reaper_arm now comps gap_floor db =
     (let unbeaten = unbeaten_components comps db in
      if unbeaten \<noteq> [] then
        Inr (\<lparr>ar_armed = False, ar_gap = 0, ar_unbeaten = unbeaten\<rparr>, arm_refuse now comps unbeaten db)
      else
        (case watched_beats comps db of
           (cmp, prev) # _ \<Rightarrow>
             if now - prev > gap_floor then
               bindR (update_leases now is_live (refund_row (now - prev))
                        (db\<lparr>gaps := gaps db @
                            [\<lparr>g_component = cmp, g_started_at = prev, g_ended_at = now\<rparr>]\<rparr>))
                 (\<lambda>(_, db'). Inr (\<lparr>ar_armed = True, ar_gap = now - prev, ar_unbeaten = []\<rparr>,
                                  arm_quiesce now (now - prev) db'))
             else Inr (\<lparr>ar_armed = True, ar_gap = 0, ar_unbeaten = []\<rparr>, arm_quiesce now 0 db)
         | [] \<Rightarrow> Inr (\<lparr>ar_armed = True, ar_gap = 0, ar_unbeaten = []\<rparr>, arm_quiesce now 0 db)))"

end
