(* ===== verification/Lease_Invariant.thy ===== *)
theory Lease_Invariant
  imports Lease_Sql
begin

text \<open>
  The invariant of the lease tables and its preservation. \<open>lease_wf\<close> collects what the schema's
  indexes, foreign keys, CHECK constraints and triggers are there to keep: at most one live lease
  per device and per job, the device's pointer agreeing with the live lease, a live lease sitting
  exactly at its device's fence floor and an ended one strictly below it. Three shapes of change
  cover every lease function: touching live rows, closing live rows while raising the floor, and
  inserting one row.
\<close>

section \<open>What an UPDATE of farm.leases does\<close>

lemma after_lease_update_frame [simp]:
  "leases (after_lease_update now p db) = leases db"
  "slots (after_lease_update now p db) = slots db"
  "jobs (after_lease_update now p db) = jobs db"
  "fence_seq (after_lease_update now p db) = fence_seq db"
  "runtimes (after_lease_update now p db) = runtimes db"
  "gaps (after_lease_update now p db) = gaps db"
  "hosts (after_lease_update now p db) = hosts db"
  "reaper_state (after_lease_update now p db) = reaper_state db"
  "heartbeats (after_lease_update now p db) = heartbeats db"
  by (simp_all add: after_lease_update_def trg_leases_sync_device_update_def trg_leases_ledger_def
      split: prod.split)

lemma fold_after_frame [simp]:
  "leases (fold (after_lease_update now) ps db) = leases db"
  "slots (fold (after_lease_update now) ps db) = slots db"
  "jobs (fold (after_lease_update now) ps db) = jobs db"
  "fence_seq (fold (after_lease_update now) ps db) = fence_seq db"
  "runtimes (fold (after_lease_update now) ps db) = runtimes db"
  "gaps (fold (after_lease_update now) ps db) = gaps db"
  "hosts (fold (after_lease_update now) ps db) = hosts db"
  "reaper_state (fold (after_lease_update now) ps db) = reaper_state db"
  "heartbeats (fold (after_lease_update now) ps db) = heartbeats db"
  by (induction ps arbitrary: db) simp_all

lemma fold_after_live:
  assumes "\<forall>(old, new)\<in>set ps. is_live new \<or> \<not> is_live old"
  shows "fold (after_lease_update now) ps db = db"
  using assms by (induction ps arbitrary: db) (auto simp: after_lease_update_def)

text \<open>The device pointer after a batch of row triggers.\<close>

definition ends_on :: "(lease_row \<times> lease_row) list \<Rightarrow> device_row \<Rightarrow> bool" where
  "ends_on ps d \<longleftrightarrow> (\<exists>(old, new)\<in>set ps. is_live old \<and> \<not> is_live new \<and>
      d_id d = l_device new \<and> d_current_lease d = Some (l_id new))"

definition unlink_device :: "timestamp \<Rightarrow> device_row \<Rightarrow> device_row" where
  "unlink_device now d = d\<lparr>d_current_lease := None, d_last_released_at := Some now\<rparr>"

lemma devices_trg_leases_ledger [simp]: "devices (trg_leases_ledger now l db) = devices db"
  by (simp add: trg_leases_ledger_def)

lemma devices_after_lease_update:
  "devices (after_lease_update now p db) = update_where (ends_on [p]) (unlink_device now) (devices db)"
  by (cases p) (auto simp: after_lease_update_def trg_leases_sync_device_update_def ends_on_def
      unlink_device_def update_where_def intro!: map_cong)

lemma devices_fold_after:
  "devices (fold (after_lease_update now) ps db) = update_where (ends_on ps) (unlink_device now) (devices db)"
proof (induction ps arbitrary: db)
  case Nil
  show ?case by (simp add: update_where_def ends_on_def)
next
  case (Cons p ps)
  have "update_where (ends_on ps) (unlink_device now) (update_where (ends_on [p]) (unlink_device now) ds)
      = update_where (ends_on (p # ps)) (unlink_device now) ds" for ds
    by (induction ds) (auto simp: ends_on_def unlink_device_def)
  then show ?case by (simp add: Cons devices_after_lease_update)
qed

text \<open>An update that succeeds: the rows it returns and every table it may have touched.\<close>

lemma update_leases_InrD:
  assumes "update_leases now P f db = Inr (rows, db')"
  shows "rows = map f (filter P (leases db))"
    and "db' = fold (after_lease_update now) (map (\<lambda>l. (l, f l)) (filter P (leases db)))
                 (db\<lparr>leases := update_where P f (leases db)\<rparr>)"
    and "\<And>l. l \<in> set (leases db) \<Longrightarrow> P l \<Longrightarrow> lease_update_error f l = None"
  using assms by (auto simp: update_leases_def Let_def find_None_iff split: option.splits)

lemma update_leases_eq:
  assumes "\<And>l. l \<in> set (leases db) \<Longrightarrow> P l \<Longrightarrow> lease_update_error f l = None"
  shows "update_leases now P f db = Inr (map f (filter P (leases db)),
     fold (after_lease_update now) (map (\<lambda>l. (l, f l)) (filter P (leases db)))
       (db\<lparr>leases := update_where P f (leases db)\<rparr>))"
proof -
  have "List.find (\<lambda>l. lease_update_error f l \<noteq> None) (filter P (leases db)) = None"
    using assms by (auto simp: find_None_iff)
  then show ?thesis by (simp add: update_leases_def Let_def)
qed

lemma update_leases_live_eq:
  assumes "\<And>l. l \<in> set (leases db) \<Longrightarrow> P l \<Longrightarrow> lease_update_error f l = None"
    and "\<And>l. l \<in> set (leases db) \<Longrightarrow> P l \<Longrightarrow> is_live (f l)"
  shows "update_leases now P f db = Inr (map f (filter P (leases db)),
     db\<lparr>leases := update_where P f (leases db)\<rparr>)"
  using assms by (simp add: update_leases_eq) (rule fold_after_live, auto)

lemma lease_update_error_None:
  "lease_update_error f l = None \<longleftrightarrow> trg_leases_guard l (f l) = None \<and> lease_checks (f l)"
  by (auto simp: lease_update_error_def split: option.splits)

lemma trg_leases_guard_None:
  "trg_leases_guard old new = None \<longleftrightarrow>
     l_device new = l_device old \<and> l_fence new = l_fence old \<and> l_job new = l_job old \<and>
     l_acquired_at new = l_acquired_at old \<and>
     (l_holder_principal old = None \<or> l_holder_principal new = l_holder_principal old) \<and>
     l_expires_at old \<le> l_expires_at new \<and> l_reclaimable_at old \<le> l_reclaimable_at new \<and>
     (is_live new \<longrightarrow> is_live old)"
  by (auto simp: trg_leases_guard_def)

section \<open>The invariant\<close>

definition lease_ok :: "device_row list \<Rightarrow> int \<Rightarrow> lease_row \<Rightarrow> bool" where
  "lease_ok ds n l \<longleftrightarrow> lease_checks l \<and> l_fence l \<le> n \<and>
     (\<not> is_live l \<longrightarrow> l_release_reason l \<noteq> None \<and> l_released_at l \<noteq> None) \<and>
     (\<exists>d\<in>set ds. d_id d = l_device l \<and>
        (if is_live l then d_fence_floor d = l_fence l \<and> d_current_lease d = Some (l_id l)
         else l_fence l < d_fence_floor d))"

definition device_ok :: "lease_row list \<Rightarrow> int \<Rightarrow> device_row \<Rightarrow> bool" where
  "device_ok ls n d \<longleftrightarrow> d_fence_floor d \<le> n \<and>
     (case d_current_lease d of
        None \<Rightarrow> True
      | Some i \<Rightarrow> \<exists>l\<in>set ls. l_id l = i \<and> l_device l = d_id d \<and> is_live l)"

definition job_ok :: "job_row \<Rightarrow> bool" where
  "job_ok j \<longleftrightarrow> j_ttl j \<ge> minutes 10 \<and> j_grace j \<ge> minutes 5"

definition lease_wf :: "farm \<Rightarrow> bool" where
  "lease_wf db \<longleftrightarrow>
     keyed l_id (leases db) \<and> keyed l_fence (leases db) \<and> keyed d_id (devices db) \<and>
     keyed l_device (filter is_live (leases db)) \<and> keyed l_job (filter is_live (leases db)) \<and>
     list_all (lease_ok (devices db) (fence_seq db)) (leases db) \<and>
     list_all (device_ok (leases db) (fence_seq db)) (devices db) \<and>
     list_all job_ok (jobs db)"

lemma lease_wfD:
  assumes "lease_wf db"
  shows "keyed l_id (leases db)" "keyed l_fence (leases db)" "keyed d_id (devices db)"
    "keyed l_device (filter is_live (leases db))" "keyed l_job (filter is_live (leases db))"
    "\<And>l. l \<in> set (leases db) \<Longrightarrow> lease_ok (devices db) (fence_seq db) l"
    "\<And>d. d \<in> set (devices db) \<Longrightarrow> device_ok (leases db) (fence_seq db) d"
    "\<And>j. j \<in> set (jobs db) \<Longrightarrow> job_ok j"
  using assms by (auto simp: lease_wf_def list_all_iff)

lemma lease_okD:
  assumes "lease_ok ds n l"
  shows "lease_checks l" "l_fence l \<le> n"
    "\<not> is_live l \<Longrightarrow> l_release_reason l \<noteq> None \<and> l_released_at l \<noteq> None"
  using assms by (auto simp: lease_ok_def)

lemma one_live_per_device:
  assumes "lease_wf db" and "l \<in> set (leases db)" and "l' \<in> set (leases db)"
    and "is_live l" and "is_live l'" and "l_device l = l_device l'"
  shows "l = l'"
  using assms keyed_eqD [OF lease_wfD(4) [OF assms(1)], of l l'] by simp

lemma one_live_per_job:
  assumes "lease_wf db" and "l \<in> set (leases db)" and "l' \<in> set (leases db)"
    and "is_live l" and "is_live l'" and "l_job l = l_job l'"
  shows "l = l'"
  using assms keyed_eqD [OF lease_wfD(5) [OF assms(1)], of l l'] by simp

lemma lease_device:
  assumes "lease_wf db" and "l \<in> set (leases db)" and "d \<in> set (devices db)" and "d_id d = l_device l"
  shows "if is_live l then d_fence_floor d = l_fence l \<and> d_current_lease d = Some (l_id l)
         else l_fence l < d_fence_floor d"
proof -
  obtain d' where "d' \<in> set (devices db)" and "d_id d' = l_device l" and
    *: "if is_live l then d_fence_floor d' = l_fence l \<and> d_current_lease d' = Some (l_id l)
        else l_fence l < d_fence_floor d'"
    using lease_wfD(6) [OF assms(1,2)] by (auto simp: lease_ok_def)
  with assms have "d' = d" by (intro keyed_eqD [OF lease_wfD(3) [OF assms(1)]]) auto
  with * show ?thesis by (metis (full_types))
qed

lemma device_exists:
  assumes "lease_wf db" and "l \<in> set (leases db)"
  obtains d where "d \<in> set (devices db)" and "d_id d = l_device l"
  using lease_wfD(6) [OF assms] by (auto simp: lease_ok_def)

lemma device_by_id_wf:
  assumes "lease_wf db" and "d \<in> set (devices db)"
  shows "device_by_id db (d_id d) = Some d"
  using find_keyed [OF lease_wfD(3) [OF assms(1)] assms(2)] by (simp add: device_by_id_def)

lemma lease_by_id_wf:
  assumes "lease_wf db" and "l \<in> set (leases db)"
  shows "lease_by_id db (l_id l) = Some l"
  using find_keyed [OF lease_wfD(1) [OF assms(1)] assms(2)] by (simp add: lease_by_id_def)

lemma filter_id_wf:
  assumes "lease_wf db" and "l \<in> set (leases db)" and "P l"
  shows "filter (\<lambda>l'. l_id l' = l_id l \<and> P l') (leases db) = [l]"
  by (rule filter_keyed [OF lease_wfD(1) [OF assms(1)] assms(2)]) (use assms(3) in auto)

text \<open>The invariant reads only four fields of the database.\<close>

lemma lease_wf_cong:
  assumes "leases db' = leases db" "devices db' = devices db" "jobs db' = jobs db"
    "fence_seq db' = fence_seq db"
  shows "lease_wf db' = lease_wf db"
  using assms by (simp add: lease_wf_def)

lemma lease_ok_mono: "lease_ok ds n l \<Longrightarrow> n \<le> m \<Longrightarrow> lease_ok ds m l"
  by (auto simp: lease_ok_def)

lemma device_ok_mono: "device_ok ls n d \<Longrightarrow> n \<le> m \<Longrightarrow> device_ok ls m d"
  by (auto simp: device_ok_def)

lemma lease_wf_fence_seq:
  assumes "lease_wf db" and "fence_seq db \<le> n" shows "lease_wf (db\<lparr>fence_seq := n\<rparr>)"
  using assms by (auto simp: lease_wf_def list_all_iff intro: lease_ok_mono device_ok_mono)

section \<open>Shape 1: touching live rows\<close>

definition keeps_identity :: "(lease_row \<Rightarrow> lease_row) \<Rightarrow> lease_row \<Rightarrow> bool" where
  "keeps_identity f l \<longleftrightarrow> l_id (f l) = l_id l \<and> l_fence (f l) = l_fence l \<and>
     l_device (f l) = l_device l \<and> l_job (f l) = l_job l"

lemma filter_live_update:
  assumes "\<And>l. l \<in> set ls \<Longrightarrow> P l \<Longrightarrow> is_live (f l) = is_live l"
    and "\<And>l. l \<in> set ls \<Longrightarrow> P l \<Longrightarrow> key (f l) = key l"
  shows "map key (filter is_live (update_where P f ls)) = map key (filter is_live ls)"
  using assms by (induction ls) auto

lemma lease_wf_touch:
  assumes wf: "lease_wf db"
    and P: "\<And>l. l \<in> set (leases db) \<Longrightarrow> P l \<Longrightarrow>
              is_live l \<and> is_live (f l) \<and> keeps_identity f l \<and> lease_checks (f l)"
  shows "lease_wf (db\<lparr>leases := update_where P f (leases db)\<rparr>)"
proof -
  let ?ls = "update_where P f (leases db)"
  have id: "l_id (f l) = l_id l" "l_fence (f l) = l_fence l" "l_device (f l) = l_device l"
    "l_job (f l) = l_job l" "is_live (f l) = is_live l" if "l \<in> set (leases db)" "P l" for l
    using P [OF that] by (auto simp: keeps_identity_def)
  have keys: "keyed l_id ?ls" "keyed l_fence ?ls"
    using wf id by (auto intro!: keyed_update_where dest: lease_wfD(1,2))
  have live: "keyed l_device (filter is_live ?ls)" "keyed l_job (filter is_live ?ls)"
    using wf filter_live_update [of "leases db" P f l_device] filter_live_update [of "leases db" P f l_job] id
    by (simp_all add: keyed_def lease_wf_def)
  have lok: "lease_ok (devices db) (fence_seq db) (f l)" if "l \<in> set (leases db)" "P l" for l
    using lease_wfD(6) [OF wf that(1)] P [OF that] by (auto simp: lease_ok_def keeps_identity_def)
  have dok: "device_ok ?ls (fence_seq db) d" if "d \<in> set (devices db)" for d
  proof -
    have "\<exists>l'\<in>set ?ls. l_id l' = l_id l \<and> l_device l' = l_device l \<and> is_live l'"
      if "l \<in> set (leases db)" "is_live l" for l
      using that id [of l]
      by (intro bexI [of _ "if P l then f l else l"]) (auto simp: set_update_where)
    with lease_wfD(7) [OF wf that] show ?thesis
      by (fastforce simp: device_ok_def split: option.splits)
  qed
  show ?thesis
    using wf keys live lok dok lease_wfD(6) [OF wf]
    by (auto simp: lease_wf_def list_all_iff set_update_where)
qed

section \<open>Shape 2: closing live rows and raising their devices' floors\<close>

lemma keyed_live_close:
  assumes "keyed key (filter is_live ls)" and "\<And>l. P l \<Longrightarrow> \<not> is_live (f l)"
  shows "keyed key (filter is_live (update_where P f ls))"
proof -
  have "filter is_live (update_where P f ls) = filter (\<lambda>l. \<not> P l) (filter is_live ls)"
    using assms(2) by (induction ls) auto
  then show ?thesis using keyed_filter [OF assms(1)] by simp
qed

text \<open>How one device row changes while the leases selected by \<open>P\<close> are closed.\<close>

definition floor_step ::
  "(lease_row \<Rightarrow> bool) \<Rightarrow> lease_row list \<Rightarrow> int \<Rightarrow> int \<Rightarrow> device_row \<Rightarrow> device_row \<Rightarrow> bool" where
  "floor_step P ls n m d d' \<longleftrightarrow> d_id d' = d_id d \<and>
     (if \<exists>l\<in>set ls. P l \<and> l_device l = d_id d
      then d_current_lease d' = None \<and> n < d_fence_floor d' \<and> d_fence_floor d' \<le> m
      else d_current_lease d' = d_current_lease d \<and> d_fence_floor d' = d_fence_floor d)"

lemma lease_wf_close:
  assumes wf: "lease_wf db"
    and P: "\<And>l. l \<in> set (leases db) \<Longrightarrow> P l \<Longrightarrow> is_live l"
    and f: "\<And>l. P l \<Longrightarrow> \<not> is_live (f l) \<and> keeps_identity f l \<and>
              l_release_reason (f l) \<noteq> None \<and> l_released_at (f l) \<noteq> None"
    and chk: "\<And>l. l \<in> set (leases db) \<Longrightarrow> P l \<Longrightarrow> lease_checks (f l)"
    and ls: "leases db' = update_where P f (leases db)"
    and ds: "list_all2 (floor_step P (leases db) (fence_seq db) (fence_seq db')) (devices db) (devices db')"
    and js: "jobs db' = jobs db" and seq: "fence_seq db \<le> fence_seq db'"
  shows "lease_wf db'"
proof -
  have dkeys: "map d_id (devices db') = map d_id (devices db)"
    using ds by (induction rule: list_all2_induct) (auto simp: floor_step_def)
  have keys: "keyed l_id (leases db')" "keyed l_fence (leases db')"
    using wf f by (auto simp: ls keeps_identity_def intro!: keyed_update_where dest: lease_wfD(1,2))
  have live: "keyed l_device (filter is_live (leases db'))" "keyed l_job (filter is_live (leases db'))"
    using lease_wfD(4,5) [OF wf] f by (auto simp: ls intro: keyed_live_close)
  have img: "\<exists>d'\<in>set (devices db'). floor_step P (leases db) (fence_seq db) (fence_seq db') d d'"
    if "d \<in> set (devices db)" for d
    using list_all2_image [OF ds that] .
  have pre: "\<exists>d\<in>set (devices db). floor_step P (leases db) (fence_seq db) (fence_seq db') d d'"
    if "d' \<in> set (devices db')" for d'
    using list_all2_preimage [OF ds that] .
  have lok: "lease_ok (devices db') (fence_seq db') (if P l then f l else l)"
    if l: "l \<in> set (leases db)" for l
  proof -
    obtain d where d: "d \<in> set (devices db)" "d_id d = l_device l"
      using device_exists [OF wf l] by blast
    obtain d' where d': "d' \<in> set (devices db')"
      and step: "floor_step P (leases db) (fence_seq db) (fence_seq db') d d'"
      using img [OF d(1)] by blast
    have ok: "lease_ok (devices db) (fence_seq db) l" by (rule lease_wfD(6) [OF wf l])
    have dl: "if is_live l then d_fence_floor d = l_fence l \<and> d_current_lease d = Some (l_id l)
       else l_fence l < d_fence_floor d" by (rule lease_device [OF wf l d])
    have only: "P l" if "is_live l" "l' \<in> set (leases db)" "P l'" "l_device l' = d_id d" for l'
      using one_live_per_device [OF wf l that(2)] that P d by auto
    show ?thesis
      using l ok dl step d d' seq f [of l] chk [OF l] only
      by (auto simp: lease_ok_def floor_step_def keeps_identity_def
          split: if_splits intro!: bexI [of _ d'])
  qed
  have lok': "lease_ok (devices db') (fence_seq db') l" if "l \<in> set (leases db')" for l
    using that lok unfolding ls set_update_where by blast
  have dok: "device_ok (leases db') (fence_seq db') d'" if d': "d' \<in> set (devices db')" for d'
  proof -
    obtain d where d: "d \<in> set (devices db)"
      and step: "floor_step P (leases db) (fence_seq db) (fence_seq db') d d'"
      using pre [OF d'] by blast
    have "device_ok (leases db) (fence_seq db) d" by (rule lease_wfD(7) [OF wf d])
    then show ?thesis using step seq
      by (force simp: device_ok_def floor_step_def ls set_update_where split: option.splits if_splits)
  qed
  show ?thesis
    using keys live lok' dok lease_wfD(3,8) [OF wf] dkeys
    by (auto simp: lease_wf_def list_all_iff js keyed_def)
qed

text \<open>How one device row changes when the sequence moves from \<open>n\<close> to \<open>m\<close>.\<close>

definition bumped :: "(device_row \<Rightarrow> bool) \<Rightarrow> int \<Rightarrow> int \<Rightarrow> device_row \<Rightarrow> device_row \<Rightarrow> bool" where
  "bumped P n m d d' \<longleftrightarrow>
     (if P d then \<exists>v. n < v \<and> v \<le> m \<and> d' = d\<lparr>d_fence_floor := v\<rparr> else d' = d)"

lemma bumped_mono: "bumped P n m d d' \<Longrightarrow> n' \<le> n \<Longrightarrow> bumped P n' m d d'"
  by (auto simp: bumped_def split: if_splits intro: order.strict_trans1)

lemma bump_rows_spec:
  assumes "bump_rows P n ds = (ds', m)"
  shows "n \<le> m \<and> list_all2 (bumped P n m) ds ds'"
  using assms
proof (induction P n ds arbitrary: ds' m rule: bump_rows.induct)
  case (1 P n)
  then show ?case by simp
next
  case (2 P n d ds)
  show ?case
  proof (cases "P d")
    case True
    obtain es k where es: "bump_rows P (n + 1) ds = (es, k)" by fastforce
    have "n + 1 \<le> k" and *: "list_all2 (bumped P (n + 1) k) ds es"
      using "2.IH"(1) [OF True es] by auto
    have "list_all2 (bumped P n k) ds es"
      using * by (rule list_all2_mono) (erule bumped_mono, simp)
    moreover have "bumped P n k d (d\<lparr>d_fence_floor := n + 1\<rparr>)"
      using True \<open>n + 1 \<le> k\<close> by (auto simp: bumped_def intro!: exI [of _ "n + 1"])
    ultimately show ?thesis using "2.prems" es True \<open>n + 1 \<le> k\<close> by auto
  next
    case False
    have "bumped P n m d d" using False by (simp add: bumped_def)
    then show ?thesis using "2.prems" "2.IH"(2) False by (auto split: prod.splits)
  qed
qed

lemma bump_floors_frame [simp]:
  "leases (bump_floors P db) = leases db" "slots (bump_floors P db) = slots db"
  "jobs (bump_floors P db) = jobs db" "runtimes (bump_floors P db) = runtimes db"
  "gaps (bump_floors P db) = gaps db" "reaper_state (bump_floors P db) = reaper_state db"
  "hosts (bump_floors P db) = hosts db" "heartbeats (bump_floors P db) = heartbeats db"
  "events (bump_floors P db) = events db"
  by (simp_all add: bump_floors_def split: prod.split)

lemma bump_floors_devices:
  "fence_seq db \<le> fence_seq (bump_floors P db) \<and>
   list_all2 (bumped P (fence_seq db) (fence_seq (bump_floors P db)))
     (devices db) (devices (bump_floors P db))"
proof -
  obtain ds m where "bump_rows P (fence_seq db) (devices db) = (ds, m)" by fastforce
  then show ?thesis using bump_rows_spec [of P "fence_seq db" "devices db" ds m]
    by (simp add: bump_floors_def)
qed

lemma rearm_slots_frame [simp]:
  "leases (rearm_slots P t db) = leases db" "devices (rearm_slots P t db) = devices db"
  "jobs (rearm_slots P t db) = jobs db" "fence_seq (rearm_slots P t db) = fence_seq db"
  "runtimes (rearm_slots P t db) = runtimes db" "gaps (rearm_slots P t db) = gaps db"
  "reaper_state (rearm_slots P t db) = reaper_state db" "events (rearm_slots P t db) = events db"
  by (simp_all add: rearm_slots_def)

lemma lease_wf_rearm [simp]: "lease_wf (rearm_slots P t db) = lease_wf db"
  by (rule lease_wf_cong) simp_all

lemma close_row_simps [simp]:
  "l_id (close_row st now r l) = l_id l" "l_fence (close_row st now r l) = l_fence l"
  "l_device (close_row st now r l) = l_device l" "l_job (close_row st now r l) = l_job l"
  "l_slot (close_row st now r l) = l_slot l" "l_state (close_row st now r l) = st"
  "l_released_at (close_row st now r l) = Some now" "l_release_reason (close_row st now r l) = Some r"
  "l_expires_at (close_row st now r l) = l_expires_at l"
  "l_reclaimable_at (close_row st now r l) = l_reclaimable_at l"
  "l_protected (close_row st now r l) = l_protected l"
  by (simp_all add: close_row_def)

lemma close_row_live: "is_live (close_row st now r l) \<longleftrightarrow> st = Held \<or> st = Suspect"
  by (simp add: is_live_def)

lemma close_row_checks:
  "lease_checks l \<Longrightarrow> lease_checks (close_row st now r l) \<longleftrightarrow> r \<in> set release_reasons"
  by (auto simp: lease_checks_def close_row_def)

lemma close_row_error:
  assumes "lease_checks l" and "is_live l" and "st = Released \<or> st = Expired"
  shows "lease_update_error (close_row st now r) l = None \<longleftrightarrow> r \<in> set release_reasons"
  using assms
  by (auto simp: lease_update_error_None trg_leases_guard_None close_row_checks) (auto simp: close_row_def)

lemma lease_wf_close_and_bump:
  assumes wf: "lease_wf db" and st: "st = Released \<or> st = Expired"
    and P: "\<And>l. l \<in> set (leases db) \<Longrightarrow> P l \<Longrightarrow> is_live l"
    and upd: "update_leases now P (close_row st now r) db = Inr (rows, db1)"
    and Q: "\<And>d. d \<in> set (devices db) \<Longrightarrow> Q d \<longleftrightarrow> d_id d \<in> l_device ` set rows"
    and Qcong: "\<And>d. Q (unlink_device now d) = Q d"
  shows "lease_wf (bump_floors Q db1)"
proof (rule lease_wf_close [OF wf P, where f = "close_row st now r" and P = P])
  note D = update_leases_InrD [OF upd]
  let ?ps = "map (\<lambda>l. (l, close_row st now r l)) (filter P (leases db))"
  have rows: "l_device ` set rows = {l_device l | l. l \<in> set (leases db) \<and> P l}"
    by (auto simp: D(1) image_image)
  have ends: "ends_on ?ps d \<longleftrightarrow> (\<exists>l\<in>set (leases db). P l \<and> l_device l = d_id d)"
    if d: "d \<in> set (devices db)" for d
  proof
    show "ends_on ?ps d \<Longrightarrow> \<exists>l\<in>set (leases db). P l \<and> l_device l = d_id d"
      by (auto simp: ends_on_def)
  next
    assume "\<exists>l\<in>set (leases db). P l \<and> l_device l = d_id d"
    then obtain l where l: "l \<in> set (leases db)" "P l" "l_device l = d_id d" by blast
    then show "ends_on ?ps d"
      using lease_device [OF wf l(1) d] P [OF l(1,2)] st
      by (auto simp: ends_on_def close_row_live intro!: bexI [of _ l])
  qed
  have dev1: "devices db1 = update_where (ends_on ?ps) (unlink_device now) (devices db)"
    by (simp add: D(2) devices_fold_after)
  have seq1: "fence_seq db1 = fence_seq db" by (simp add: D(2))
  show "leases (bump_floors Q db1) = update_where P (close_row st now r) (leases db)"
    by (simp add: D(2))
  show "jobs (bump_floors Q db1) = jobs db" by (simp add: D(2))
  show "fence_seq db \<le> fence_seq (bump_floors Q db1)"
    using bump_floors_devices [of db1 Q] by (simp add: seq1)
  show "lease_checks (close_row st now r l)" if "l \<in> set (leases db)" "P l" for l
    using D(3) [OF that] by (simp add: lease_update_error_None)
  show "\<not> is_live (close_row st now r l) \<and> keeps_identity (close_row st now r) l \<and>
      l_release_reason (close_row st now r l) \<noteq> None \<and> l_released_at (close_row st now r l) \<noteq> None" for l
    using st by (auto simp: close_row_live keeps_identity_def)
  have "list_all2 (floor_step P (leases db) (fence_seq db) (fence_seq (bump_floors Q db1)))
          (devices db) (devices (bump_floors Q db1))"
  proof (rule list_all2_all_nthI)
    have L: "list_all2 (bumped Q (fence_seq db) (fence_seq (bump_floors Q db1)))
        (devices db1) (devices (bump_floors Q db1))"
      using bump_floors_devices [of db1 Q] by (simp add: seq1)
    then show "length (devices db) = length (devices (bump_floors Q db1))"
      using list_all2_lengthD dev1 by fastforce
    fix i assume i: "i < length (devices db)"
    let ?d = "devices db ! i" and ?d' = "devices (bump_floors Q db1) ! i"
    have mem: "?d \<in> set (devices db)" using i by simp
    define e where "e = devices db1 ! i"
    have e: "e = (if ends_on ?ps ?d then unlink_device now ?d else ?d)"
      using i by (simp add: dev1 update_where_def e_def)
    have "i < length (devices db1)" using i dev1 by simp
    from list_all2_nthD [OF L this]
    have bump: "bumped Q (fence_seq db) (fence_seq (bump_floors Q db1)) e ?d'"
      by (simp add: e_def)
    have q: "Q e \<longleftrightarrow> ends_on ?ps ?d"
      using Q [OF mem] ends [OF mem] Qcong by (auto simp: e rows)
    show "floor_step P (leases db) (fence_seq db) (fence_seq (bump_floors Q db1)) ?d ?d'"
    proof (cases "ends_on ?ps ?d")
      case True
      then show ?thesis using bump q ends [OF mem] e
        by (auto simp: bumped_def floor_step_def unlink_device_def)
    next
      case False
      then show ?thesis using bump q ends [OF mem] e by (auto simp: bumped_def floor_step_def)
    qed
  qed
  then show "list_all2 (floor_step P (leases db) (fence_seq db) (fence_seq (bump_floors Q db1)))
          (devices db) (devices (bump_floors Q db1))" .
qed

section \<open>Shape 3: inserting one live row\<close>

lemma lease_wf_insert:
  assumes wf: "lease_wf db" and d: "d \<in> set (devices db)" "l_device l = d_id d"
    and live: "is_live l" and chk: "lease_checks l" and fence: "l_fence l = fence_seq db + 1"
    and free: "\<forall>l'\<in>set (leases db). \<not> (is_live l' \<and> l_device l' = d_id d)"
    and new: "\<forall>l'\<in>set (leases db). l_id l' \<noteq> l_id l \<and> \<not> (is_live l' \<and> l_job l' = l_job l)"
  shows "lease_wf (trg_leases_sync_device_insert l (db\<lparr>fence_seq := fence_seq db + 1, leases := leases db @ [l]\<rparr>))"
    (is "lease_wf ?db'")
proof -
  let ?g = "\<lambda>x. if d_id x = d_id d then x\<lparr>d_current_lease := Some (l_id l),
      d_fence_floor := max (d_fence_floor x) (l_fence l)\<rparr> else x"
  have ds: "devices ?db' = map ?g (devices db)"
    by (auto simp: trg_leases_sync_device_insert_def update_where_def d(2))
  have ls: "leases ?db' = leases db @ [l]" and js: "jobs ?db' = jobs db" and
    seq: "fence_seq ?db' = fence_seq db + 1"
    by (simp_all add: trg_leases_sync_device_insert_def)
  have below: "l_fence l' \<le> fence_seq db" if "l' \<in> set (leases db)" for l'
    using lease_wfD(6) [OF wf that] by (auto simp: lease_ok_def)
  have same: "x = d" if "x \<in> set (devices db)" "d_id x = d_id d" for x
    using keyed_eqD [OF lease_wfD(3) [OF wf] that(1) d(1) that(2)] .
  have floor: "max (d_fence_floor d) (l_fence l) = l_fence l"
    using lease_wfD(7) [OF wf d(1)] fence by (auto simp: device_ok_def)
  have old: "lease_ok (devices ?db') (fence_seq ?db') l'" if l': "l' \<in> set (leases db)" for l'
  proof -
    obtain x where x: "x \<in> set (devices db)" "d_id x = l_device l'"
      using device_exists [OF wf l'] by blast
    have ok: "lease_ok (devices db) (fence_seq db) l'" by (rule lease_wfD(6) [OF wf l'])
    have gx: "?g x \<in> set (devices ?db')" using x(1) unfolding ds by auto
    have "\<not> is_live l'" if "d_id x = d_id d" using that free l' x by auto
    then show ?thesis
      using ok x below [OF l'] lease_device [OF wf l' x] fence
      unfolding lease_ok_def seq
      by (auto intro!: bexI [OF _ gx] split: if_splits)
  qed
  have gd: "?g d \<in> set (devices ?db')" using d(1) unfolding ds by auto
  have nw: "lease_ok (devices ?db') (fence_seq ?db') l"
    using live chk fence d floor unfolding lease_ok_def seq by (auto intro!: bexI [OF _ gd])
  have dok: "device_ok (leases ?db') (fence_seq ?db') y" if "y \<in> set (devices ?db')" for y
  proof -
    from that obtain x where x: "x \<in> set (devices db)" "y = ?g x" unfolding ds by auto
    have "device_ok (leases db) (fence_seq db) x" by (rule lease_wfD(7) [OF wf x(1)])
    then show ?thesis using x same live d fence
      by (auto simp: device_ok_def ls seq split: option.splits)
  qed
  have keys: "keyed l_id (leases ?db')" "keyed l_fence (leases ?db')" "keyed d_id (devices ?db')"
    using lease_wfD(1,2,3) [OF wf] new below fence
    by (force simp: ls ds keyed_append_single, force simp: ls keyed_append_single,
        simp add: ds keyed_def o_def if_distrib cong: if_cong)
  have lk: "keyed l_device (filter is_live (leases ?db'))" "keyed l_job (filter is_live (leases ?db'))"
    using lease_wfD(4,5) [OF wf] free new live d by (auto simp: ls keyed_append_single)
  show ?thesis
    using keys lk old nw dok lease_wfD(8) [OF wf] by (auto simp: lease_wf_def list_all_iff ls js)
qed

end
