(* ===== verification/Lease_Correct.thy ===== *)
theory Lease_Correct
  imports Lease_Invariant
begin

text \<open>
  What each lease function does on a well-formed database, and that it keeps the invariant. On
  such a database none of the routine functions raises: the guard trigger and the CHECK
  constraints never fire for renew, witness, the suspect sweep, reclaim, max-runtime expiry or
  the gap refund, and a release raises exactly for a reason outside the seven.
\<close>

section \<open>Rows that keep the guard and the checks quiet\<close>

lemma renew_row_simps [simp]:
  "l_id (renew_row now l) = l_id l" "l_fence (renew_row now l) = l_fence l"
  "l_device (renew_row now l) = l_device l" "l_job (renew_row now l) = l_job l"
  "l_state (renew_row now l) = Held" "l_holder_instance (renew_row now l) = l_holder_instance l"
  "l_expires_at (renew_row now l) = max (l_expires_at l) (now + l_ttl l)"
  "l_reclaimable_at (renew_row now l) = max (l_reclaimable_at l) (now + l_ttl l + l_grace l)"
  "l_witness_extensions (renew_row now l) = 0"
  by (simp_all add: renew_row_def)

lemma lease_checks_bounds:
  "lease_checks l \<Longrightarrow> 0 < l_ttl l \<and> 0 < l_grace l \<and> l_expires_at l \<le> l_reclaimable_at l"
  by (auto simp: lease_checks_def duration_defs)

lemma renew_row_ok:
  assumes "lease_checks l" and "is_live l"
  shows "lease_update_error (renew_row now) l = None" and "is_live (renew_row now l)"
    and "keeps_identity (renew_row now) l" and "lease_checks (renew_row now l)"
  using assms lease_checks_bounds [OF assms(1)]
  by (auto simp: lease_update_error_None trg_leases_guard_None is_live_def keeps_identity_def)
    (auto simp: lease_checks_def renew_row_def)

lemma witness_row_ok:
  assumes "lease_checks l" and "is_live l"
  shows "lease_update_error (witness_row now) l = None" and "is_live (witness_row now l)"
    and "keeps_identity (witness_row now) l" and "lease_checks (witness_row now l)"
  using assms by (auto simp: lease_update_error_None trg_leases_guard_None is_live_def
      keeps_identity_def lease_checks_def witness_row_def)

lemma suspect_row_ok:
  assumes "lease_checks l" and "is_live l"
  shows "lease_update_error (\<lambda>l. l\<lparr>l_state := Suspect\<rparr>) l = None" and "is_live (l\<lparr>l_state := Suspect\<rparr>)"
    and "keeps_identity (\<lambda>l. l\<lparr>l_state := Suspect\<rparr>) l" and "lease_checks (l\<lparr>l_state := Suspect\<rparr>)"
  using assms by (auto simp: lease_update_error_None trg_leases_guard_None is_live_def
      keeps_identity_def lease_checks_def)

lemma refund_row_ok:
  assumes "lease_checks l" and "is_live l" and "0 \<le> gap"
  shows "lease_update_error (refund_row gap) l = None" and "is_live (refund_row gap l)"
    and "keeps_identity (refund_row gap) l" and "lease_checks (refund_row gap l)"
  using assms by (auto simp: lease_update_error_None trg_leases_guard_None is_live_def
      keeps_identity_def lease_checks_def refund_row_def)

lemma reattach_row_ok:
  assumes "lease_checks l" and "is_live l"
  shows "lease_update_error (reattach_row now h i c) l = None" and "is_live (reattach_row now h i c l)"
    and "keeps_identity (reattach_row now h i c) l" and "lease_checks (reattach_row now h i c l)"
  using assms lease_checks_bounds [OF assms(1)]
  by (auto simp: lease_update_error_None trg_leases_guard_None is_live_def keeps_identity_def
      lease_checks_def reattach_row_def split: option.splits)

lemma wf_lease_checks: "lease_wf db \<Longrightarrow> l \<in> set (leases db) \<Longrightarrow> lease_checks l"
  using lease_wfD(6) lease_okD(1) by blast

text \<open>A statement that touches live rows with a quiet row function.\<close>

lemma touch_live:
  assumes wf: "lease_wf db"
    and live: "\<And>l. l \<in> set (leases db) \<Longrightarrow> P l \<Longrightarrow> is_live l"
    and ok: "\<And>l. lease_checks l \<Longrightarrow> is_live l \<Longrightarrow>
               lease_update_error f l = None \<and> is_live (f l) \<and> keeps_identity f l \<and> lease_checks (f l)"
  shows "update_leases now P f db =
           Inr (map f (filter P (leases db)), db\<lparr>leases := update_where P f (leases db)\<rparr>)"
    and "lease_wf (db\<lparr>leases := update_where P f (leases db)\<rparr>)"
proof -
  have q: "lease_update_error f l = None \<and> is_live (f l) \<and> keeps_identity f l \<and> lease_checks (f l)"
    if "l \<in> set (leases db)" "P l" for l
    using ok [OF wf_lease_checks [OF wf that(1)] live [OF that]] .
  show "update_leases now P f db =
      Inr (map f (filter P (leases db)), db\<lparr>leases := update_where P f (leases db)\<rparr>)"
    by (rule update_leases_live_eq) (use q in auto)
  show "lease_wf (db\<lparr>leases := update_where P f (leases db)\<rparr>)"
    by (rule lease_wf_touch [OF wf]) (use q live in auto)
qed

section \<open>Renew\<close>

definition renewable :: "uuid \<Rightarrow> int \<Rightarrow> uuid \<Rightarrow> lease_row \<Rightarrow> bool" where
  "renewable lid fence inst l \<longleftrightarrow>
     l_id l = lid \<and> l_fence l = fence \<and> l_holder_instance l = inst \<and> is_live l"

definition renewed :: "timestamp \<Rightarrow> uuid \<Rightarrow> int \<Rightarrow> uuid \<Rightarrow> farm \<Rightarrow> farm" where
  "renewed now lid fence inst db =
     db\<lparr>leases := update_where (renewable lid fence inst) (renew_row now) (leases db)\<rparr>"

lemma lease_renew_eq:
  assumes wf: "lease_wf db"
  shows "lease_renew now lid fence inst db =
    (case List.find (renewable lid fence inst) (leases db) of
       None \<Rightarrow> Inr ([], db)
     | Some l \<Rightarrow> Inr ([(max (l_expires_at l) (now + l_ttl l),
                       max (l_reclaimable_at l) (now + l_ttl l + l_grace l), l_state l = Suspect)],
                     renewed now lid fence inst db))"
proof -
  have upd: "update_leases now (renewable lid fence inst) (renew_row now) db =
      Inr (map (renew_row now) (filter (renewable lid fence inst) (leases db)),
           renewed now lid fence inst db)"
    unfolding renewed_def by (rule touch_live(1) [OF wf]) (auto simp: renewable_def renew_row_ok)
  show ?thesis
  proof (cases "List.find (renewable lid fence inst) (leases db)")
    case None
    then have "filter (renewable lid fence inst) (leases db) = []"
      by (auto simp: find_None_iff filter_empty_conv)
    moreover from this have "renewed now lid fence inst db = db"
      by (simp add: renewed_def update_where_none filter_empty_conv)
    ultimately show ?thesis
      using upd None by (simp add: lease_renew_def renewable_def [abs_def])
  next
    case (Some l)
    then have l: "l \<in> set (leases db)" "renewable lid fence inst l" by (auto dest: find_SomeD)
    then have "l_id l = lid" by (simp add: renewable_def)
    have "filter (renewable lid fence inst) (leases db) = [l]"
      using l by (intro filter_keyed [OF lease_wfD(1) [OF wf]]) (auto simp: renewable_def)
    moreover have "filter (\<lambda>p. l_id p = lid) (leases db) = [l]"
      using l \<open>l_id l = lid\<close> by (intro filter_keyed [OF lease_wfD(1) [OF wf]]) auto
    ultimately show ?thesis
      using upd Some \<open>l_id l = lid\<close> by (simp add: lease_renew_def renewable_def [abs_def])
  qed
qed

lemma lease_wf_renewed: "lease_wf db \<Longrightarrow> lease_wf (renewed now lid fence inst db)"
  unfolding renewed_def by (rule touch_live(2)) (auto simp: renewable_def renew_row_ok)

lemma lease_wf_renew:
  "lease_wf db \<Longrightarrow> lease_renew now lid fence inst db = Inr (rows, db') \<Longrightarrow> lease_wf db'"
  by (auto simp: lease_renew_eq lease_wf_renewed split: option.splits)

section \<open>Witness\<close>

definition witnessable :: "farm \<Rightarrow> uuid \<Rightarrow> int \<Rightarrow> int \<Rightarrow> lease_row \<Rightarrow> bool" where
  "witnessable db lid fence cap l \<longleftrightarrow>
     l_id l = lid \<and> l_fence l = fence \<and> is_live l \<and> l_witness_extensions l < cap \<and>
     (case device_by_id db (l_device l) of None \<Rightarrow> False | Some d \<Rightarrow> l_fence l \<ge> d_fence_floor d)"

text \<open>In a well-formed farm a live lease sits at its device's floor, so the floor test passes.\<close>

lemma witnessable_live:
  assumes wf: "lease_wf db" and l: "l \<in> set (leases db)"
  shows "witnessable db lid fence cap l \<longleftrightarrow>
     l_id l = lid \<and> l_fence l = fence \<and> is_live l \<and> l_witness_extensions l < cap"
proof -
  obtain d where d: "d \<in> set (devices db)" "d_id d = l_device l" using device_exists [OF wf l] by blast
  then have "device_by_id db (l_device l) = Some d" using device_by_id_wf [OF wf d(1)] by simp
  then show ?thesis using lease_device [OF wf l d] by (auto simp: witnessable_def)
qed

lemma lease_witness_eq:
  assumes wf: "lease_wf db"
  shows "lease_witness now lid fence cap db =
    (case List.find (witnessable db lid fence cap) (leases db) of
       None \<Rightarrow> Inr (None, db)
     | Some l \<Rightarrow> Inr (Some (max (l_reclaimable_at l) (now + l_grace l)),
           db\<lparr>leases := update_where (witnessable db lid fence cap) (witness_row now) (leases db)\<rparr>))"
proof -
  have upd: "update_leases now (witnessable db lid fence cap) (witness_row now) db =
      Inr (map (witness_row now) (filter (witnessable db lid fence cap) (leases db)),
           db\<lparr>leases := update_where (witnessable db lid fence cap) (witness_row now) (leases db)\<rparr>)"
    by (rule touch_live(1) [OF wf]) (auto simp: witnessable_def witness_row_ok)
  show ?thesis
  proof (cases "List.find (witnessable db lid fence cap) (leases db)")
    case None
    then have n: "\<forall>l\<in>set (leases db). \<not> witnessable db lid fence cap l" by (auto simp: find_None_iff)
    then have "filter (witnessable db lid fence cap) (leases db) = []"
      and "update_where (witnessable db lid fence cap) (witness_row now) (leases db) = leases db"
      by (auto simp: filter_empty_conv intro: update_where_none)
    then show ?thesis using upd None by (simp add: lease_witness_def witnessable_def [abs_def])
  next
    case (Some l)
    then have l: "l \<in> set (leases db)" "witnessable db lid fence cap l" by (auto dest: find_SomeD)
    then have "filter (witnessable db lid fence cap) (leases db) = [l]"
      by (intro filter_keyed [OF lease_wfD(1) [OF wf]]) (auto simp: witnessable_def)
    then show ?thesis using upd Some
      by (simp add: lease_witness_def witnessable_def [abs_def]) (simp add: witness_row_def)
  qed
qed

lemma lease_wf_witness:
  assumes wf: "lease_wf db" and res: "lease_witness now lid fence cap db = Inr (r, db')"
  shows "lease_wf db'"
proof -
  have "lease_wf (db\<lparr>leases := update_where (witnessable db lid fence cap) (witness_row now) (leases db)\<rparr>)"
    by (rule touch_live(2) [OF wf]) (auto simp: witnessable_def witness_row_ok)
  then show ?thesis using res wf by (auto simp: lease_witness_eq split: option.splits)
qed

section \<open>Release\<close>

lemma lease_release_reason_refused:
  assumes wf: "lease_wf db" and "l \<in> set (leases db)" and "l_id l = lid" and "l_fence l = fence"
    and "is_live l" and "reason \<notin> set release_reasons"
  shows "lease_release now lid fence reason rearm db = Inl CheckViolation"
proof -
  let ?P = "\<lambda>l'. l_id l' = lid \<and> l_fence l' = fence \<and> is_live l'"
  have hit: "filter ?P (leases db) = [l]"
    using assms by (intro filter_keyed [OF lease_wfD(1) [OF wf]]) auto
  have g: "trg_leases_guard l (close_row Released now reason l) = None"
    using \<open>is_live l\<close> by (auto simp: trg_leases_guard_None) (simp_all add: close_row_def)
  have "\<not> lease_checks (close_row Released now reason l)"
    using assms close_row_checks [OF wf_lease_checks [OF wf assms(2)]] by simp
  then show ?thesis
    using hit g by (simp add: lease_release_def update_leases_def Let_def lease_update_error_def)
qed

lemma lease_release_cases:
  assumes wf: "lease_wf db" and reason: "reason \<in> set release_reasons"
  shows "\<exists>db1. update_leases now (\<lambda>l. l_id l = lid \<and> l_fence l = fence \<and> is_live l)
            (close_row Released now reason) db =
          Inr (map (close_row Released now reason)
                 (filter (\<lambda>l. l_id l = lid \<and> l_fence l = fence \<and> is_live l) (leases db)), db1)"
  by (subst update_leases_eq) (use reason wf_lease_checks [OF wf] in \<open>auto simp: close_row_error\<close>)

lemma lease_release_domain:
  assumes "lease_wf db" and "reason \<in> set release_reasons"
  shows "\<exists>b db'. lease_release now lid fence reason rearm db = Inr (b, db')"
proof -
  obtain rows db1 where "update_leases now (\<lambda>l. l_id l = lid \<and> l_fence l = fence \<and> is_live l)
      (close_row Released now reason) db = Inr (rows, db1)"
    using lease_release_cases [OF assms] by blast
  then show ?thesis by (cases rows) (auto simp: lease_release_def)
qed

lemma lease_wf_release:
  assumes wf: "lease_wf db" and res: "lease_release now lid fence reason rearm db = Inr (b, db')"
  shows "lease_wf db'"
proof -
  let ?P = "\<lambda>l. l_id l = lid \<and> l_fence l = fence \<and> is_live l"
  obtain rows db1 where upd: "update_leases now ?P (close_row Released now reason) db = Inr (rows, db1)"
    using res by (auto simp: lease_release_def bindR_eq_Inr)
  show ?thesis
  proof (cases rows)
    case Nil
    then have none: "filter ?P (leases db) = []" using update_leases_InrD(1) [OF upd] by simp
    then have "update_where ?P (close_row Released now reason) (leases db) = leases db"
      by (intro update_where_none) (auto simp: filter_empty_conv)
    then have "db1 = db" using update_leases_InrD(2) [OF upd] none by simp
    then show ?thesis using res wf upd Nil by (simp add: lease_release_def)
  next
    case (Cons l ls)
    then have "filter ?P (leases db) \<noteq> []" using update_leases_InrD(1) [OF upd] by auto
    then obtain x where x: "x \<in> set (leases db)" "?P x" by (auto simp: filter_empty_conv)
    then have "filter ?P (leases db) = [x]"
      by (intro filter_keyed [OF lease_wfD(1) [OF wf]]) auto
    then have "rows = [l]" using update_leases_InrD(1) [OF upd] Cons by auto
    then have "lease_wf (bump_floors (\<lambda>d. d_id d = l_device l) db1)"
      by (intro lease_wf_close_and_bump [OF wf _ _ upd]) (auto simp: unlink_device_def)
    then show ?thesis using res upd Cons
      by (auto simp: lease_release_def split: option.splits)
  qed
qed

text \<open>What a release that returned did: it closed the one row at (id, fence) or nothing at all.\<close>

lemma lease_release_leases:
  assumes res: "lease_release now lid fence reason rearm db = Inr (b, db')"
  shows "leases db' = update_where (\<lambda>l. l_id l = lid \<and> l_fence l = fence \<and> is_live l)
           (close_row Released now reason) (leases db)"
    and "b \<longleftrightarrow> (\<exists>l\<in>set (leases db). l_id l = lid \<and> l_fence l = fence \<and> is_live l)"
    and "\<not> b \<Longrightarrow> db' = db"
proof -
  let ?P = "\<lambda>l. l_id l = lid \<and> l_fence l = fence \<and> is_live l"
  obtain rows db1 where upd: "update_leases now ?P (close_row Released now reason) db = Inr (rows, db1)"
    using res by (auto simp: lease_release_def bindR_eq_Inr)
  note D = update_leases_InrD [OF upd]
  have b: "b \<longleftrightarrow> rows \<noteq> []" and dbr: "rows = [] \<Longrightarrow> db' = db1"
    and ls: "leases db' = leases db1"
    using res upd by (auto simp: lease_release_def split: list.splits option.splits)
  show "leases db' = update_where ?P (close_row Released now reason) (leases db)"
    by (simp add: ls D(2))
  show "b \<longleftrightarrow> (\<exists>l\<in>set (leases db). ?P l)" by (auto simp: b D(1) filter_empty_conv)
  show "\<not> b \<Longrightarrow> db' = db"
  proof -
    assume "\<not> b"
    then have "filter ?P (leases db) = []" using b D(1) by simp
    moreover from this have "update_where ?P (close_row Released now reason) (leases db) = leases db"
      by (intro update_where_none) (auto simp: filter_empty_conv)
    ultimately show ?thesis using dbr \<open>\<not> b\<close> b D(2) by simp
  qed
qed

section \<open>The suspect sweep\<close>

definition suspects :: "timestamp \<Rightarrow> nat \<Rightarrow> farm \<Rightarrow> uuid set" where
  "suspects now batch db = l_id ` set (order_limit l_expires_at batch
     (filter (\<lambda>l. l_state l = Held \<and> l_expires_at l < now) (leases db)))"

lemma lease_mark_suspect_eq:
  assumes wf: "lease_wf db"
  shows "\<exists>rows. lease_mark_suspect now batch db =
      Inr (rows, db\<lparr>leases := update_where (\<lambda>l. l_id l \<in> suspects now batch db \<and> l_state l = Held \<and>
        l_expires_at l < now) (\<lambda>l. l\<lparr>l_state := Suspect\<rparr>) (leases db)\<rparr>)"
    and "lease_wf (db\<lparr>leases := update_where (\<lambda>l. l_id l \<in> suspects now batch db \<and> l_state l = Held \<and>
        l_expires_at l < now) (\<lambda>l. l\<lparr>l_state := Suspect\<rparr>) (leases db)\<rparr>)"
proof -
  let ?P = "\<lambda>l. l_id l \<in> suspects now batch db \<and> l_state l = Held \<and> l_expires_at l < now"
  have upd: "update_leases now ?P (\<lambda>l. l\<lparr>l_state := Suspect\<rparr>) db =
     Inr (map (\<lambda>l. l\<lparr>l_state := Suspect\<rparr>) (filter ?P (leases db)),
       db\<lparr>leases := update_where ?P (\<lambda>l. l\<lparr>l_state := Suspect\<rparr>) (leases db)\<rparr>)"
    by (rule touch_live(1) [OF wf]) (use suspect_row_ok in \<open>auto simp: is_live_def\<close>)
  show "\<exists>rows. lease_mark_suspect now batch db =
      Inr (rows, db\<lparr>leases := update_where ?P (\<lambda>l. l\<lparr>l_state := Suspect\<rparr>) (leases db)\<rparr>)"
    using upd by (simp add: lease_mark_suspect_def suspects_def Let_def)
  show "lease_wf (db\<lparr>leases := update_where ?P (\<lambda>l. l\<lparr>l_state := Suspect\<rparr>) (leases db)\<rparr>)"
    by (rule touch_live(2) [OF wf]) (use suspect_row_ok in \<open>auto simp: is_live_def\<close>)
qed

section \<open>Reclaim and max-runtime expiry\<close>

text \<open>The invariant reads three columns of a device row.\<close>

lemma lease_wf_devices_view:
  assumes wf: "lease_wf db"
    and view: "map (\<lambda>d. (d_id d, d_current_lease d, d_fence_floor d)) ds =
               map (\<lambda>d. (d_id d, d_current_lease d, d_fence_floor d)) (devices db)"
  shows "lease_wf (db\<lparr>devices := ds\<rparr>)"
proof -
  let ?v = "\<lambda>d. (d_id d, d_current_lease d, d_fence_floor d)"
  have ids: "map d_id ds = map d_id (devices db)"
    using arg_cong [OF view, of "map fst"] by (simp add: o_def)
  have vs: "?v ` set ds = ?v ` set (devices db)"
    using arg_cong [OF view, of set] by simp
  have a: "\<exists>d'\<in>set (devices db). ?v d' = ?v d" if "d \<in> set ds" for d
    using that vs by (metis (no_types, lifting) image_iff)
  have b: "\<exists>d'\<in>set ds. ?v d' = ?v d" if "d \<in> set (devices db)" for d
    using that vs by (metis (no_types, lifting) image_iff)
  have "lease_ok ds (fence_seq db) l" if "lease_ok (devices db) (fence_seq db) l" for l
  proof -
    from that obtain d where d: "d \<in> set (devices db)" "d_id d = l_device l"
      "if is_live l then d_fence_floor d = l_fence l \<and> d_current_lease d = Some (l_id l)
       else l_fence l < d_fence_floor d" by (auto simp: lease_ok_def)
    from b [OF d(1)] obtain d' where "d' \<in> set ds" "?v d' = ?v d" by blast
    with d that show ?thesis by (auto simp: lease_ok_def intro!: bexI [of _ d'])
  qed
  moreover have "device_ok (leases db) (fence_seq db) d" if "d \<in> set ds" for d
  proof -
    from a [OF that] obtain d' where "d' \<in> set (devices db)" "?v d' = ?v d" by blast
    with lease_wfD(7) [OF wf, of d'] show ?thesis by (auto simp: device_ok_def split: option.splits)
  qed
  ultimately show ?thesis using wf ids by (auto simp: lease_wf_def list_all_iff keyed_def)
qed

text \<open>A sweep that closes live rows with a reason of the domain: it succeeds, and keeps the invariant.\<close>

lemma sweep_succeeds:
  assumes wf: "lease_wf db" and st: "st = Released \<or> st = Expired" and r: "r \<in> set release_reasons"
    and P: "\<And>l. l \<in> set (leases db) \<Longrightarrow> P l \<Longrightarrow> is_live l"
  obtains db1 where "update_leases now P (close_row st now r) db =
      Inr (map (close_row st now r) (filter P (leases db)), db1)"
    and "leases db1 = update_where P (close_row st now r) (leases db)"
    and "lease_wf (bump_floors (\<lambda>d. d_id d \<in> l_device `
           set (map (close_row st now r) (filter P (leases db)))) db1)"
proof -
  have "lease_update_error (close_row st now r) l = None" if "l \<in> set (leases db)" "P l" for l
    using close_row_error [OF wf_lease_checks [OF wf that(1)] P [OF that] st] r by simp
  then obtain db1 where upd: "update_leases now P (close_row st now r) db =
      Inr (map (close_row st now r) (filter P (leases db)), db1)"
    using update_leases_eq by metis
  show ?thesis
    by (rule that [OF upd], simp add: update_leases_InrD(2) [OF upd],
        rule lease_wf_close_and_bump [OF wf st P upd]) (auto simp: unlink_device_def)
qed

definition reclaim_ids :: "timestamp \<Rightarrow> nat \<Rightarrow> farm \<Rightarrow> uuid set" where
  "reclaim_ids now batch db = l_id ` set (order_limit l_reclaimable_at batch
     (filter (reclaimable now (gaps db)) (leases db)))"

text \<open>On a well-formed farm a selected id names a row that meets the whole candidate condition.\<close>

lemma reclaim_ids_reclaimable:
  assumes wf: "lease_wf db" and l: "l \<in> set (leases db)" and i: "l_id l \<in> reclaim_ids now batch db"
  shows "reclaimable now (gaps db) l"
proof -
  from i obtain l' where l': "l' \<in> set (order_limit l_reclaimable_at batch
      (filter (reclaimable now (gaps db)) (leases db)))" "l_id l = l_id l'"
    by (auto simp: reclaim_ids_def)
  then have "l' \<in> set (leases db)" "reclaimable now (gaps db) l'" by (auto dest!: in_order_limitD)
  with keyed_eqD [OF lease_wfD(1) [OF wf] l this(1) l'(2)] show ?thesis by simp
qed

lemma lease_reclaim_closed:
  assumes "reaper_gate_open now db = False"
  shows "lease_reclaim now batch rearm db = Inr ([], db)"
  using assms by (simp add: lease_reclaim_def)

lemma lease_reclaim_open:
  assumes wf: "lease_wf db" and gate: "reaper_gate_open now db"
  shows "\<exists>rows db'. lease_reclaim now batch rearm db = Inr (rows, db') \<and> lease_wf db' \<and>
     leases db' = update_where (\<lambda>l. l_id l \<in> reclaim_ids now batch db)
       (close_row Expired now ''holder_expired'') (leases db)"
proof -
  let ?P = "\<lambda>l. l_id l \<in> reclaim_ids now batch db \<and> l_state l = Suspect \<and> l_reclaimable_at l < now"
  let ?f = "close_row Expired now ''holder_expired''"
  obtain db1 where upd: "update_leases now ?P ?f db = Inr (map ?f (filter ?P (leases db)), db1)"
    and ls: "leases db1 = update_where ?P ?f (leases db)"
    and ok: "lease_wf (bump_floors (\<lambda>d. d_id d \<in> l_device ` set (map ?f (filter ?P (leases db)))) db1)"
    by (rule sweep_succeeds [OF wf, where st = Expired and r = "''holder_expired''" and P = ?P and now = now])
      (auto simp: is_live_def release_reasons_def)
  have "update_where ?P ?f (leases db) =
      update_where (\<lambda>l. l_id l \<in> reclaim_ids now batch db) ?f (leases db)"
    by (rule update_where_cong) (auto dest: reclaim_ids_reclaimable [OF wf] simp: reclaimable_def)
  then show ?thesis using upd ok gate ls
    by (simp add: lease_reclaim_def Let_def reclaim_ids_def)
qed

definition overrun_ids :: "timestamp \<Rightarrow> nat \<Rightarrow> farm \<Rightarrow> uuid set" where
  "overrun_ids now batch db = l_id ` set (order_limit l_acquired_at batch
     (filter (max_runtime_elapsed now db) (leases db)))"

lemma overrun_ids_elapsed:
  assumes wf: "lease_wf db" and l: "l \<in> set (leases db)" and i: "l_id l \<in> overrun_ids now batch db"
  shows "max_runtime_elapsed now db l"
proof -
  from i obtain l' where l': "l' \<in> set (order_limit l_acquired_at batch
      (filter (max_runtime_elapsed now db) (leases db)))" "l_id l = l_id l'"
    by (auto simp: overrun_ids_def)
  then have "l' \<in> set (leases db)" "max_runtime_elapsed now db l'" by (auto dest!: in_order_limitD)
  with keyed_eqD [OF lease_wfD(1) [OF wf] l this(1) l'(2)] show ?thesis by simp
qed

lemma lease_expire_max_runtime_eq:
  assumes wf: "lease_wf db"
  shows "\<exists>rows db'. lease_expire_max_runtime now batch rearm db = Inr (rows, db') \<and> lease_wf db' \<and>
     leases db' = update_where (\<lambda>l. l_id l \<in> overrun_ids now batch db)
       (close_row Expired now ''max_runtime'') (leases db)"
proof -
  let ?P = "\<lambda>l. l_id l \<in> overrun_ids now batch db"
  let ?f = "close_row Expired now ''max_runtime''"
  have live: "is_live l" if "l \<in> set (leases db)" "?P l" for l
    using overrun_ids_elapsed [OF wf that] by (simp add: max_runtime_elapsed_def)
  obtain db1 where upd: "update_leases now ?P ?f db = Inr (map ?f (filter ?P (leases db)), db1)"
    and ls: "leases db1 = update_where ?P ?f (leases db)"
    and ok: "lease_wf (bump_floors (\<lambda>d. d_id d \<in> l_device ` set (map ?f (filter ?P (leases db)))) db1)"
    by (rule sweep_succeeds [OF wf, where st = Expired and r = "''max_runtime''" and P = ?P and now = now])
      (use live in \<open>auto simp: release_reasons_def\<close>)
  define db2 where "db2 = bump_floors (\<lambda>d. d_id d \<in> l_device ` set (map ?f (filter ?P (leases db)))) db1"
  have "lease_wf (db2\<lparr>devices := update_where (\<lambda>d. d_id d \<in> l_device ` set (map ?f (filter ?P (leases db))))
      (\<lambda>d. d\<lparr>d_last_released_at := Some now\<rparr>) (devices db2)\<rparr>)"
    using ok unfolding db2_def [symmetric]
    by (rule lease_wf_devices_view) (auto simp: update_where_def)
  then show ?thesis using upd ls
    by (simp add: lease_expire_max_runtime_def Let_def overrun_ids_def db2_def)
qed

section \<open>Arming\<close>

lemma arm_quiesce_frame [simp]:
  "leases (arm_quiesce now g db) = leases db" "devices (arm_quiesce now g db) = devices db"
  "jobs (arm_quiesce now g db) = jobs db" "fence_seq (arm_quiesce now g db) = fence_seq db"
  "runtimes (arm_quiesce now g db) = runtimes db" "gaps (arm_quiesce now g db) = gaps db"
  "heartbeats (arm_quiesce now g db) = heartbeats db"
  by (simp_all add: arm_quiesce_def Let_def split: option.split)

lemma arm_refuse_frame [simp]:
  "leases (arm_refuse now cs u db) = leases db" "devices (arm_refuse now cs u db) = devices db"
  "jobs (arm_refuse now cs u db) = jobs db" "fence_seq (arm_refuse now cs u db) = fence_seq db"
  "runtimes (arm_refuse now cs u db) = runtimes db" "gaps (arm_refuse now cs u db) = gaps db"
  "heartbeats (arm_refuse now cs u db) = heartbeats db"
  by (simp_all add: arm_refuse_def Let_def)

text \<open>
  Arming never raises, and what it does to the leases is decided by the gap it reports: every live
  lease is refunded exactly that much.
\<close>

lemma reaper_arm_eq:
  assumes wf: "lease_wf db" and floor: "0 \<le> gap_floor"
  shows "\<exists>res db'. reaper_arm now comps gap_floor db = Inr (res, db') \<and> lease_wf db' \<and> 0 \<le> ar_gap res \<and>
     (ar_armed res \<longleftrightarrow> unbeaten_components comps db = []) \<and> devices db' = devices db \<and>
     leases db' = update_where is_live (refund_row (ar_gap res)) (leases db)"
proof -
  have z: "update_where is_live (refund_row 0) (leases db) = leases db"
    by (rule update_where_id) (simp add: refund_row_def)
  have same: "lease_wf db'" if "leases db' = leases db" "devices db' = devices db" "jobs db' = jobs db"
    "fence_seq db' = fence_seq db" for db'
    using lease_wf_cong [OF that] wf by simp
  have gap: "update_leases now is_live (refund_row g) (db\<lparr>gaps := gs\<rparr>) =
       Inr (map (refund_row g) (filter is_live (leases db)),
            db\<lparr>gaps := gs, leases := update_where is_live (refund_row g) (leases db)\<rparr>)"
    "lease_wf (db\<lparr>leases := update_where is_live (refund_row g) (leases db)\<rparr>)"
    if "0 \<le> g" for g gs
    using touch_live(1) [OF same [of "db\<lparr>gaps := gs\<rparr>"], of is_live "refund_row g" now]
      touch_live(2) [OF wf, of is_live "refund_row g"] refund_row_ok that
    by auto
  show ?thesis
  proof (cases "unbeaten_components comps db = []")
    case False
    then show ?thesis using same z by (auto simp: reaper_arm_def Let_def intro!: same)
  next
    case True
    show ?thesis
    proof (cases "watched_beats comps db")
      case Nil
      then show ?thesis using True z by (auto simp: reaper_arm_def Let_def intro!: same)
    next
      case (Cons cp cs)
      obtain c prev where cp: "cp = (c, prev)" by fastforce
      show ?thesis
      proof (cases "now - prev > gap_floor")
        case False
        then show ?thesis using True z Cons cp by (auto simp: reaper_arm_def Let_def intro!: same)
      next
        case big: True
        then have g: "0 \<le> now - prev" using floor by simp
        have "lease_wf (arm_quiesce now (now - prev) (db\<lparr>gaps := gs,
            leases := update_where is_live (refund_row (now - prev)) (leases db)\<rparr>))" for gs
          using gap(2) [OF g] by (subst lease_wf_cong
            [where db = "db\<lparr>leases := update_where is_live (refund_row (now - prev)) (leases db)\<rparr>"]) auto
        then show ?thesis using True Cons cp big g by (simp add: reaper_arm_def Let_def gap(1))
      qed
    qed
  qed
qed

section \<open>Acquire\<close>

lemma lease_reattach_eq:
  assumes wf: "lease_wf db" and e: "e \<in> set (leases db)" "is_live e"
  shows "lease_reattach now may_log holder inst caller e db =
    (if caller \<noteq> None \<and> l_holder_principal e \<noteq> None \<and> caller \<noteq> l_holder_principal e
     then Inl WrongPrincipal
     else Inr ([acquired_of True (reattach_row now holder inst caller e)],
       (if may_log then append_event (reattached_event now holder inst caller e) else id)
         (db\<lparr>leases := update_where (\<lambda>l. l_id l = l_id e) (reattach_row now holder inst caller) (leases db)\<rparr>)))"
    and "lease_wf (db\<lparr>leases := update_where (\<lambda>l. l_id l = l_id e) (reattach_row now holder inst caller)
           (leases db)\<rparr>)"
proof -
  let ?P = "\<lambda>l. l_id l = l_id e" and ?f = "reattach_row now holder inst caller"
  have live: "is_live l" if "l \<in> set (leases db)" "?P l" for l
    using keyed_eqD [OF lease_wfD(1) [OF wf] that(1) e(1) that(2)] e(2) by simp
  have hit: "filter ?P (leases db) = [e]"
    by (rule filter_keyed [OF lease_wfD(1) [OF wf] e(1)]) auto
  have upd: "update_leases now ?P ?f db =
      Inr ([?f e], db\<lparr>leases := update_where ?P ?f (leases db)\<rparr>)"
    using touch_live(1) [OF wf live, where f = ?f and now = now] reattach_row_ok hit by simp
  show "lease_wf (db\<lparr>leases := update_where ?P ?f (leases db)\<rparr>)"
    using touch_live(2) [OF wf live, where f = ?f] reattach_row_ok by simp
  show "lease_reattach now may_log holder inst caller e db =
    (if caller \<noteq> None \<and> l_holder_principal e \<noteq> None \<and> caller \<noteq> l_holder_principal e
     then Inl WrongPrincipal
     else Inr ([acquired_of True (?f e)],
       (if may_log then append_event (reattached_event now holder inst caller e) else id)
         (db\<lparr>leases := update_where ?P ?f (leases db)\<rparr>)))"
    unfolding lease_reattach_def upd by simp
qed

lemma choose_deviceD:
  assumes "choose_device now db j = Some d"
  shows "d \<in> set (devices db)" and "d_pool d = j_pool j" and "placeable now db d"
    and "case j_pin_device j of None \<Rightarrow> True | Some p \<Rightarrow> d_id d = p"
    and "device_matches db (d_id d) (j_selector j)"
  using assms unfolding choose_device_def placement_candidates_def
  by (auto dest!: find_SomeD split: option.splits)

text \<open>A grant of a new lease: the row inserted, on which device, under which fence.\<close>

lemma lease_allocate_grantD:
  assumes res: "lease_allocate now new_id j holder inst caller db = Inr (rows, db')" and ne: "rows \<noteq> []"
  obtains d where "choose_device now db j = Some d"
    and "rows = [acquired_of False (new_lease_row now new_id (fence_seq db + 1) d j holder inst caller)]"
    and "db' = trg_leases_sync_device_insert (new_lease_row now new_id (fence_seq db + 1) d j holder inst caller)
           (db\<lparr>fence_seq := fence_seq db + 1,
               leases := leases db @ [new_lease_row now new_id (fence_seq db + 1) d j holder inst caller]\<rparr>)"
    and "lease_checks (new_lease_row now new_id (fence_seq db + 1) d j holder inst caller)"
    and "\<forall>l\<in>set (leases db). \<not> (is_live l \<and> l_device l = d_id d)"
    and "\<forall>l\<in>set (leases db). l_id l \<noteq> new_id \<and> \<not> (is_live l \<and> l_job l = j_id j)"
  using assms by (auto simp: lease_allocate_def Let_def split: option.splits if_splits)

lemma new_lease_row_simps [simp]:
  "l_id (new_lease_row now i f d j h n c) = i" "l_fence (new_lease_row now i f d j h n c) = f"
  "l_device (new_lease_row now i f d j h n c) = d_id d" "l_job (new_lease_row now i f d j h n c) = j_id j"
  "l_state (new_lease_row now i f d j h n c) = Held" "is_live (new_lease_row now i f d j h n c)"
  by (simp_all add: new_lease_row_def is_live_def)

lemma lease_wf_allocate:
  assumes wf: "lease_wf db" and res: "lease_allocate now new_id j holder inst caller db = Inr (rows, db')"
  shows "lease_wf db'"
proof (cases "rows = []")
  case True
  then have "db' = db \<or> db' = db\<lparr>fence_seq := fence_seq db + 1\<rparr>"
    using res by (auto simp: lease_allocate_def Let_def split: option.splits if_splits)
  then show ?thesis using lease_wf_fence_seq [OF wf, of "fence_seq db + 1"] wf by auto
next
  case False
  from lease_allocate_grantD [OF res False] obtain d where
    d: "choose_device now db j = Some d"
    and db': "db' = trg_leases_sync_device_insert (new_lease_row now new_id (fence_seq db + 1) d j holder inst caller)
           (db\<lparr>fence_seq := fence_seq db + 1,
               leases := leases db @ [new_lease_row now new_id (fence_seq db + 1) d j holder inst caller]\<rparr>)"
    and chk: "lease_checks (new_lease_row now new_id (fence_seq db + 1) d j holder inst caller)"
    and free: "\<forall>l\<in>set (leases db). \<not> (is_live l \<and> l_device l = d_id d)"
    and new: "\<forall>l\<in>set (leases db). l_id l \<noteq> new_id \<and> \<not> (is_live l \<and> l_job l = j_id j)"
    by metis
  show ?thesis unfolding db'
    by (rule lease_wf_insert [OF wf choose_deviceD(1) [OF d]]) (use chk free new in auto)
qed

lemma lease_wf_acquire:
  assumes wf: "lease_wf db"
    and res: "lease_acquire now new_id may_log job holder inst tenant caller db = Inr (rows, db')"
  shows "lease_wf db'"
proof -
  obtain j where j: "job_by_id db job = Some j"
    using res by (auto simp: lease_acquire_def split: if_splits option.splits)
  show ?thesis
  proof (cases "List.find (\<lambda>l. l_job l = job \<and> is_live l) (leases db)")
    case None
    then have "lease_allocate now new_id j holder inst caller db = Inr (rows, db')"
      using res j by (auto simp: lease_acquire_def split: if_splits)
    then show ?thesis by (rule lease_wf_allocate [OF wf])
  next
    case (Some e)
    then have e: "e \<in> set (leases db)" "is_live e" by (auto dest: find_SomeD)
    have "lease_reattach now may_log holder inst caller e db = Inr (rows, db')"
      using res j Some by (auto simp: lease_acquire_def split: if_splits)
    then have "db' = (if may_log then append_event (reattached_event now holder inst caller e) else id)
         (db\<lparr>leases := update_where (\<lambda>l. l_id l = l_id e) (reattach_row now holder inst caller) (leases db)\<rparr>)"
      by (auto simp: lease_reattach_eq(1) [OF wf e] split: if_splits)
    then show ?thesis
      using lease_reattach_eq(2) [OF wf e, of now holder inst caller] lease_wf_cong
      by (auto simp: lease_wf_def)
  qed
qed

lemma lease_wf_component_beat: "lease_wf (component_beat now c db) = lease_wf db"
  by (rule lease_wf_cong) (simp_all add: component_beat_def)

end
