(* ===== verification/Lease_Store.thy ===== *)
theory Lease_Store
  imports Lease_Correct "HOL-Library.Word"
begin

text \<open>
  \<^verbatim>\<open>internal/lease/store.go\<close> and \<^verbatim>\<open>types.go\<close>: the Go binding over the lease functions. Every method
  is one round trip, so its model is the SQL function behind a \<open>link\<close>: the round trip either
  completes, or is lost before the statement ran, or is lost after it committed. The Go code cannot
  tell the last two apart, and both appear as an error that is neither a row nor a PostgreSQL code.
  A Go \<^verbatim>\<open>time.Duration\<close> is a signed 64-bit count of nanoseconds.
\<close>

unbundle bit_operations_syntax

type_synonym duration = int

text \<open>The value an int64 operation leaves behind.\<close>

definition int64 :: "int \<Rightarrow> int" where
  "int64 x = (x + 2 ^ 63) mod 2 ^ 64 - 2 ^ 63"

lemma int64_id: "- (2 ^ 63) \<le> x \<Longrightarrow> x < 2 ^ 63 \<Longrightarrow> int64 x = x"
  by (simp add: int64_def mod_pos_pos_trivial)

lemma int64_bounds: "- (2 ^ 63) \<le> int64 x \<and> int64 x < 2 ^ 63"
proof -
  have "0 \<le> (x + 2 ^ 63) mod 2 ^ 64" "(x + 2 ^ 63) mod 2 ^ 64 < 2 ^ 64"
    by (rule pos_mod_sign, simp, rule pos_mod_bound, simp)
  then show ?thesis unfolding int64_def by simp
qed

definition Second :: duration where "Second = 1000000000"

section \<open>Round trips\<close>

datatype link = Up | LostBefore | LostAfter

datatype db_error = Pg sql_error | Transport

datatype store_error = ErrFenced | ErrNoCapacity | ErrJobNotFound | ErrNotPermitted sql_error
  | CheckViolationError string | ErrDB db_error

definition round_trip :: "link \<Rightarrow> (farm \<Rightarrow> sql_error + 'a \<times> farm) \<Rightarrow> farm \<Rightarrow> (db_error + 'a) \<times> farm" where
  "round_trip k stmt db =
     (case k of
        LostBefore \<Rightarrow> (Inl Transport, db)
      | Up \<Rightarrow> (case stmt db of Inl e \<Rightarrow> (Inl (Pg e), db) | Inr (x, db') \<Rightarrow> (Inr x, db'))
      | LostAfter \<Rightarrow> (Inl Transport, case stmt db of Inl e \<Rightarrow> db | Inr (x, db') \<Rightarrow> db'))"

text \<open>Whatever the link does, the database either stays or takes the statement's own step.\<close>

lemma round_trip_db:
  assumes "round_trip k stmt db = (r, db')"
  shows "db' = db \<or> (\<exists>x. stmt db = Inr (x, db'))"
  using assms by (auto simp: round_trip_def split: link.splits sum.splits prod.splits)

lemma round_trip_Inr:
  "round_trip k stmt db = (Inr x, db') \<longleftrightarrow> k = Up \<and> stmt db = Inr (x, db')"
  by (auto simp: round_trip_def split: link.splits sum.splits prod.splits)

lemma round_trip_Pg:
  "round_trip k stmt db = (Inl (Pg e), db') \<longleftrightarrow> k = Up \<and> stmt db = Inl e \<and> db' = db"
  by (auto simp: round_trip_def split: link.splits sum.splits prod.splits)

section \<open>Types\<close>

definition Valid :: "string \<Rightarrow> bool" where
  "Valid r \<longleftrightarrow> r \<in> {''completed'', ''failed'', ''job_cancelled'', ''max_runtime'',
     ''operator_revoked'', ''holder_expired'', ''device_retired''}"

record lease =
  ID :: uuid
  DeviceID :: uuid
  SlotID :: "int option"
  JobID :: uuid
  Fence :: int
  Holder :: string
  HolderInstance :: uuid
  ExpiresAt :: timestamp
  ReclaimableAt :: timestamp

record acquire_result =
  ac_Lease :: lease
  Reattached :: bool

record renew_result =
  rn_ExpiresAt :: timestamp
  rn_ReclaimableAt :: timestamp
  WasSuspect :: bool

record caller =
  Tenant :: string
  Principal :: string

record arm_outcome =
  Armed :: bool
  Gap :: duration
  Unbeaten :: "string list"

section \<open>Defaults and arguments\<close>

definition DefaultRearm :: duration where "DefaultRearm = 35 * Second"
definition DefaultGapFloor :: duration where "DefaultGapFloor = 60 * Second"
definition DefaultSuspectBatch :: int where "DefaultSuspectBatch = 500"
definition DefaultReclaimBatch :: int where "DefaultReclaimBatch = 100"
definition DefaultWitnessMaxExtensions :: int where "DefaultWitnessMaxExtensions = 12"
definition ReaperComponents :: "string list" where
  "ReaperComponents = [''reaper'', ''api'', ''scheduler'']"

lemmas store_defaults = DefaultRearm_def DefaultGapFloor_def DefaultSuspectBatch_def
  DefaultReclaimBatch_def DefaultWitnessMaxExtensions_def

text \<open>\<^verbatim>\<open>if x <= 0 { x = default }\<close>.\<close>

definition or_default :: "int \<Rightarrow> int \<Rightarrow> int" where
  "or_default d x = (if x \<le> 0 then d else x)"

text \<open>A duration crosses the wire as whole microseconds, truncated.\<close>

definition intervalArg :: "duration \<Rightarrow> interval" where
  "intervalArg d = (if d < 0 then 0 else d) div 1000"

definition nullif_empty :: "string \<Rightarrow> string option" where
  "nullif_empty s = (if s = [] then None else Some s)"

lemma or_default_pos: "0 < d \<Longrightarrow> 0 < or_default d x"
  by (simp add: or_default_def)

lemma intervalArg_nonneg: "0 \<le> intervalArg d"
  by (simp add: intervalArg_def pos_imp_zdiv_nonneg_iff)

section \<open>The methods\<close>

definition AcquireAs ::
  "link \<Rightarrow> timestamp \<Rightarrow> uuid \<Rightarrow> bool \<Rightarrow> uuid \<Rightarrow> string \<Rightarrow> uuid \<Rightarrow> caller \<Rightarrow> farm
   \<Rightarrow> (store_error + acquire_result) \<times> farm" where
  "AcquireAs k now new_id may_log jobID holder inst as db =
     (case round_trip k (lease_acquire now new_id may_log jobID holder inst
              (nullif_empty (Tenant as)) (nullif_empty (Principal as))) db of
        (Inr [], db') \<Rightarrow> (Inl ErrNoCapacity, db')
      | (Inr (a # _), db') \<Rightarrow>
          (Inr \<lparr>ac_Lease = \<lparr>ID = aq_lease a, DeviceID = aq_device a, SlotID = aq_slot a, JobID = jobID,
                   Fence = aq_fence a, Holder = holder, HolderInstance = inst,
                   ExpiresAt = aq_expires_at a, ReclaimableAt = aq_reclaimable_at a\<rparr>,
                Reattached = aq_reattached a\<rparr>, db')
      | (Inl (Pg NoDataFound), db') \<Rightarrow> (Inl ErrJobNotFound, db')
      | (Inl (Pg WrongTenant), db') \<Rightarrow> (Inl (ErrNotPermitted WrongTenant), db')
      | (Inl (Pg WrongPrincipal), db') \<Rightarrow> (Inl (ErrNotPermitted WrongPrincipal), db')
      | (Inl (Pg ReservedPrincipal), db') \<Rightarrow> (Inl (ErrNotPermitted ReservedPrincipal), db')
      | (Inl e, db') \<Rightarrow> (Inl (ErrDB e), db'))"

definition Acquire ::
  "link \<Rightarrow> timestamp \<Rightarrow> uuid \<Rightarrow> bool \<Rightarrow> uuid \<Rightarrow> string \<Rightarrow> uuid \<Rightarrow> farm
   \<Rightarrow> (store_error + acquire_result) \<times> farm" where
  "Acquire k now new_id may_log jobID holder inst db =
     AcquireAs k now new_id may_log jobID holder inst \<lparr>Tenant = [], Principal = []\<rparr> db"

definition Renew ::
  "link \<Rightarrow> timestamp \<Rightarrow> uuid \<Rightarrow> int \<Rightarrow> uuid \<Rightarrow> farm \<Rightarrow> (store_error + renew_result) \<times> farm" where
  "Renew k now leaseID fence inst db =
     (case round_trip k (lease_renew now leaseID fence inst) db of
        (Inr [], db') \<Rightarrow> (Inl ErrFenced, db')
      | (Inr ((ex, rc, ws) # _), db') \<Rightarrow>
          (Inr \<lparr>rn_ExpiresAt = ex, rn_ReclaimableAt = rc, WasSuspect = ws\<rparr>, db')
      | (Inl e, db') \<Rightarrow> (Inl (ErrDB e), db'))"

text \<open>\<open>Inr None\<close> is \<^verbatim>\<open>ok = false\<close>.\<close>

definition Witness ::
  "link \<Rightarrow> timestamp \<Rightarrow> uuid \<Rightarrow> int \<Rightarrow> int \<Rightarrow> farm \<Rightarrow> (store_error + timestamp option) \<times> farm" where
  "Witness k now leaseID fence maxExtensions db =
     (case round_trip k
             (lease_witness now leaseID fence (or_default DefaultWitnessMaxExtensions maxExtensions)) db of
        (Inr t, db') \<Rightarrow> (Inr t, db')
      | (Inl e, db') \<Rightarrow> (Inl (ErrDB e), db'))"

definition Release ::
  "link \<Rightarrow> timestamp \<Rightarrow> uuid \<Rightarrow> int \<Rightarrow> string \<Rightarrow> duration \<Rightarrow> farm \<Rightarrow> (store_error + bool) \<times> farm" where
  "Release k now leaseID fence reason rearm db =
     (case round_trip k
             (lease_release now leaseID fence reason (intervalArg (or_default DefaultRearm rearm))) db of
        (Inr b, db') \<Rightarrow> (Inr b, db')
      | (Inl (Pg CheckViolation), db') \<Rightarrow> (Inl (CheckViolationError reason), db')
      | (Inl e, db') \<Rightarrow> (Inl (ErrDB e), db'))"

definition ReaperArm ::
  "link \<Rightarrow> timestamp \<Rightarrow> string list \<Rightarrow> duration \<Rightarrow> farm \<Rightarrow> (store_error + arm_outcome) \<times> farm" where
  "ReaperArm k now components gapFloor db =
     (case round_trip k (reaper_arm now (if components = [] then ReaperComponents else components)
              (intervalArg (or_default DefaultGapFloor gapFloor))) db of
        (Inr r, db') \<Rightarrow>
          (Inr \<lparr>Armed = ar_armed r, Gap = int64 (ar_gap r * 1000), Unbeaten = ar_unbeaten r\<rparr>, db')
      | (Inl e, db') \<Rightarrow> (Inl (ErrDB e), db'))"

definition MarkSuspect ::
  "link \<Rightarrow> timestamp \<Rightarrow> int \<Rightarrow> farm \<Rightarrow> (store_error + (uuid \<times> uuid \<times> uuid \<times> bool) list) \<times> farm" where
  "MarkSuspect k now limit db =
     (case round_trip k (lease_mark_suspect now (nat (or_default DefaultSuspectBatch limit))) db of
        (Inr rows, db') \<Rightarrow> (Inr rows, db')
      | (Inl e, db') \<Rightarrow> (Inl (ErrDB e), db'))"

definition Reclaim ::
  "link \<Rightarrow> timestamp \<Rightarrow> int \<Rightarrow> duration \<Rightarrow> farm \<Rightarrow> (store_error + reclaimed list) \<times> farm" where
  "Reclaim k now limit rearm db =
     (case round_trip k (lease_reclaim now (nat (or_default DefaultReclaimBatch limit))
              (intervalArg (or_default DefaultRearm rearm))) db of
        (Inr rows, db') \<Rightarrow> (Inr rows, db')
      | (Inl e, db') \<Rightarrow> (Inl (ErrDB e), db'))"

text \<open>The SQL default of the rearm argument is 35 seconds; the binding does not send it.\<close>

definition ExpireMaxRuntime ::
  "link \<Rightarrow> timestamp \<Rightarrow> int \<Rightarrow> farm \<Rightarrow> (store_error + (uuid \<times> uuid \<times> uuid) list) \<times> farm" where
  "ExpireMaxRuntime k now limit db =
     (case round_trip k (lease_expire_max_runtime now (nat (or_default DefaultReclaimBatch limit))
              (seconds 35)) db of
        (Inr rows, db') \<Rightarrow> (Inr (map (\<lambda>(l, d, j, _). (l, d, j)) rows), db')
      | (Inl e, db') \<Rightarrow> (Inl (ErrDB e), db'))"

definition ComponentBeat :: "link \<Rightarrow> timestamp \<Rightarrow> string \<Rightarrow> farm \<Rightarrow> (store_error + unit) \<times> farm" where
  "ComponentBeat k now component db =
     (case round_trip k (\<lambda>db. Inr ((), component_beat now component db)) db of
        (Inr u, db') \<Rightarrow> (Inr u, db')
      | (Inl e, db') \<Rightarrow> (Inl (ErrDB e), db'))"

lemmas store_methods = AcquireAs_def Renew_def Witness_def Release_def ReaperArm_def
  MarkSuspect_def Reclaim_def ExpireMaxRuntime_def ComponentBeat_def

section \<open>NewHolderInstance\<close>

definition hex_digit :: "8 word \<Rightarrow> char" where
  "hex_digit n = (if n < 10 then char_of (48 + unat n) else char_of (87 + unat n))"

fun hex_encode :: "8 word list \<Rightarrow> string" where
  "hex_encode [] = []"
| "hex_encode (b # bs) = hex_digit (drop_bit 4 b) # hex_digit (b AND 15) # hex_encode bs"

text \<open>\<open>None\<close> stands for an error of the random source; otherwise its 16 bytes.\<close>

definition NewHolderInstance :: "8 word list option \<Rightarrow> string option" where
  "NewHolderInstance rand =
     (case rand of
        None \<Rightarrow> None
      | Some b0 \<Rightarrow>
          (let b1 = b0[6 := (b0 ! 6 AND 15) OR 64];
               b = b1[8 := (b1 ! 8 AND 63) OR 128]
           in Some (hex_encode (take 4 b) @ ''-'' @ hex_encode (take 2 (drop 4 b)) @ ''-'' @
                    hex_encode (take 2 (drop 6 b)) @ ''-'' @ hex_encode (take 2 (drop 8 b)) @ ''-'' @
                    hex_encode (take 6 (drop 10 b)))))"

section \<open>What the methods keep\<close>

text \<open>Who holds a lease: a live row at this id, this fence and this process incarnation.\<close>

definition owns :: "farm \<Rightarrow> uuid \<Rightarrow> int \<Rightarrow> uuid \<Rightarrow> bool" where
  "owns db lid fence inst \<longleftrightarrow> (\<exists>l\<in>set (leases db). renewable lid fence inst l)"

text \<open>A method keeps whatever its statement keeps and the untouched database has.\<close>

lemma round_trip_keeps:
  assumes "round_trip k stmt db = (r, db')" and "P db" and "\<And>x db''. stmt db = Inr (x, db'') \<Longrightarrow> P db''"
  shows "P db'"
  using round_trip_db [OF assms(1)] assms(2,3) by auto

lemma Renew_trip:
  assumes "Renew k now i f h db = (r, db')"
  obtains r' where "round_trip k (lease_renew now i f h) db = (r', db')"
  using assms by (auto simp: Renew_def split: prod.splits sum.splits list.splits)

lemma Witness_trip:
  assumes "Witness k now i f n db = (r, db')"
  obtains r' where "round_trip k (lease_witness now i f (or_default DefaultWitnessMaxExtensions n)) db = (r', db')"
  using assms by (auto simp: Witness_def split: prod.splits sum.splits)

lemma Release_trip:
  assumes "Release k now i f reason rearm db = (r, db')"
  obtains r' where "round_trip k (lease_release now i f reason (intervalArg (or_default DefaultRearm rearm))) db
    = (r', db')"
  using assms
  by (auto simp: Release_def split: prod.splits sum.splits db_error.splits sql_error.splits)

lemma AcquireAs_trip:
  assumes "AcquireAs k now n m j h i as db = (r, db')"
  obtains r' where "round_trip k (lease_acquire now n m j h i (nullif_empty (Tenant as))
      (nullif_empty (Principal as))) db = (r', db')"
  using assms
  by (auto simp: AcquireAs_def split: prod.splits sum.splits list.splits db_error.splits sql_error.splits)

lemma lease_wf_Renew: "lease_wf db \<Longrightarrow> Renew k now i f h db = (r, db') \<Longrightarrow> lease_wf db'"
  by (erule Renew_trip, erule round_trip_keeps) (auto intro: lease_wf_renew)

lemma lease_wf_Witness: "lease_wf db \<Longrightarrow> Witness k now i f n db = (r, db') \<Longrightarrow> lease_wf db'"
  by (erule Witness_trip, erule round_trip_keeps) (auto intro: lease_wf_witness)

lemma lease_wf_Release: "lease_wf db \<Longrightarrow> Release k now i f reason rearm db = (r, db') \<Longrightarrow> lease_wf db'"
  by (erule Release_trip, erule round_trip_keeps) (auto intro: lease_wf_release)

lemma lease_wf_AcquireAs: "lease_wf db \<Longrightarrow> AcquireAs k now n m j h i as db = (r, db') \<Longrightarrow> lease_wf db'"
  by (erule AcquireAs_trip, erule round_trip_keeps) (auto intro: lease_wf_acquire)

lemma owns_touch:
  assumes "\<And>l. l \<in> set (leases db) \<Longrightarrow> P l \<Longrightarrow> renewable i f h (g l) = renewable i f h l"
    and "leases db' = update_where P g (leases db)"
  shows "owns db' i f h = owns db i f h"
proof -
  have "owns db' i f h = (\<exists>l\<in>set (leases db). renewable i f h (if P l then g l else l))"
    by (auto simp: owns_def assms(2) set_update_where)
  also have "\<dots> = owns db i f h"
    unfolding owns_def by (intro bex_cong refl) (simp add: assms(1))
  finally show ?thesis .
qed

lemma owns_renewed: "owns (renewed now i f h db) i' f' h' = owns db i' f' h'"
  by (rule owns_touch [where P = "renewable i f h" and g = "renew_row now"])
    (auto simp: renewed_def renewable_def is_live_def)

lemma Renew_Inr:
  assumes wf: "lease_wf db" and res: "Renew k now i f h db = (Inr r, db')"
  shows "k = Up" and "owns db i f h" and "db' = renewed now i f h db"
    and "\<exists>l\<in>set (leases db). renewable i f h l \<and> rn_ExpiresAt r = max (l_expires_at l) (now + l_ttl l) \<and>
       rn_ReclaimableAt r = max (l_reclaimable_at l) (now + l_ttl l + l_grace l) \<and>
       WasSuspect r = (l_state l = Suspect)"
proof -
  obtain x xs where rt: "round_trip k (lease_renew now i f h) db = (Inr (x # xs), db')"
    and r: "r = \<lparr>rn_ExpiresAt = fst x, rn_ReclaimableAt = fst (snd x), WasSuspect = snd (snd x)\<rparr>"
    using res by (auto simp: Renew_def split: prod.splits sum.splits list.splits)
  then show "k = Up" by (simp add: round_trip_Inr)
  from rt have rn: "lease_renew now i f h db = Inr (x # xs, db')" by (simp add: round_trip_Inr)
  then obtain l where l: "List.find (renewable i f h) (leases db) = Some l"
    by (auto simp: lease_renew_eq [OF wf] split: option.splits)
  then have l': "l \<in> set (leases db)" "renewable i f h l" by (auto dest: find_SomeD)
  then show "owns db i f h" by (auto simp: owns_def)
  show "db' = renewed now i f h db" using rn l by (simp add: lease_renew_eq [OF wf])
  show "\<exists>l\<in>set (leases db). renewable i f h l \<and> rn_ExpiresAt r = max (l_expires_at l) (now + l_ttl l) \<and>
       rn_ReclaimableAt r = max (l_reclaimable_at l) (now + l_ttl l + l_grace l) \<and>
       WasSuspect r = (l_state l = Suspect)"
    using rn l l' r by (auto simp: lease_renew_eq [OF wf])
qed

lemma Renew_fenced:
  assumes wf: "lease_wf db"
  shows "Renew k now i f h db = (Inl ErrFenced, db') \<longleftrightarrow> k = Up \<and> \<not> owns db i f h \<and> db' = db"
proof -
  have "Renew k now i f h db = (Inl ErrFenced, db') \<longleftrightarrow>
      round_trip k (lease_renew now i f h) db = (Inr [], db')"
    by (auto simp: Renew_def split: prod.splits sum.splits list.splits)
  also have "\<dots> \<longleftrightarrow> k = Up \<and> \<not> owns db i f h \<and> db' = db"
    by (auto simp: round_trip_Inr lease_renew_eq [OF wf] owns_def find_None_iff find_Some_iff
        split: option.splits)
  finally show ?thesis .
qed

lemma Renew_owns:
  assumes wf: "lease_wf db" and "Renew k now i f h db = (r, db')"
  shows "owns db' i' f' h' = owns db i' f' h'"
  using assms(2)
proof (rule Renew_trip)
  fix r' assume "round_trip k (lease_renew now i f h) db = (r', db')"
  then show ?thesis
    by (rule round_trip_keeps) (auto simp: lease_renew_eq [OF wf] owns_renewed split: option.splits)
qed

lemma owns_witnessed:
  "owns (db\<lparr>leases := update_where P (witness_row now) (leases db)\<rparr>) i f h = owns db i f h"
  by (rule owns_touch [where P = P and g = "witness_row now"])
    (auto simp: witness_row_def renewable_def is_live_def)

lemma Witness_owns:
  assumes wf: "lease_wf db" and "Witness k now i f n db = (r, db')"
  shows "owns db' i' f' h' = owns db i' f' h'"
  using assms(2)
proof (rule Witness_trip)
  fix r' assume "round_trip k (lease_witness now i f (or_default DefaultWitnessMaxExtensions n)) db = (r', db')"
  then show ?thesis
    by (rule round_trip_keeps)
      (auto simp: lease_witness_eq [OF wf] owns_witnessed split: option.splits)
qed

lemma Release_ends:
  assumes wf: "lease_wf db" and res: "Release k now i f reason rearm db = (Inr True, db')"
  shows "\<not> owns db' i f h"
proof -
  have "lease_release now i f reason (intervalArg (or_default DefaultRearm rearm)) db = Inr (True, db')"
    using res by (auto simp: Release_def round_trip_Inr split: prod.splits sum.splits db_error.splits sql_error.splits)
  from lease_release_leases [OF this] show ?thesis
    by (auto simp: owns_def renewable_def set_update_where close_row_live split: if_splits)
qed

lemma Release_spares:
  assumes "Release k now i f reason rearm db = (r, db')" and "i' \<noteq> i \<or> f' \<noteq> f"
  shows "owns db' i' f' h' = owns db i' f' h'"
  using assms(1)
proof (rule Release_trip)
  fix r' assume "round_trip k (lease_release now i f reason (intervalArg (or_default DefaultRearm rearm))) db = (r', db')"
  then show ?thesis
  proof (rule round_trip_keeps)
    fix x db'' assume "lease_release now i f reason (intervalArg (or_default DefaultRearm rearm)) db = Inr (x, db'')"
    from lease_release_leases(1) [OF this] show "owns db'' i' f' h' = owns db i' f' h'"
      by (intro owns_touch [where P = "\<lambda>l. l_id l = i \<and> l_fence l = f \<and> is_live l"
            and g = "close_row Released now reason"]) (use assms(2) in \<open>auto simp: renewable_def\<close>)
  qed simp
qed

lemma Release_shrinks:
  assumes "Release k now i f reason rearm db = (r, db')" and "owns db' i' f' h'"
  shows "owns db i' f' h'"
  using assms(1)
proof (rule Release_trip)
  fix r' assume "round_trip k (lease_release now i f reason (intervalArg (or_default DefaultRearm rearm))) db = (r', db')"
  then have "owns db' i' f' h' \<longrightarrow> owns db i' f' h'"
  proof (rule round_trip_keeps)
    fix x db'' assume "lease_release now i f reason (intervalArg (or_default DefaultRearm rearm)) db = Inr (x, db'')"
    from lease_release_leases(1) [OF this] show "owns db'' i' f' h' \<longrightarrow> owns db i' f' h'"
      by (auto simp: owns_def set_update_where renewable_def close_row_live split: if_splits)
  qed simp
  with assms(2) show ?thesis by blast
qed

lemma Release_false:
  assumes wf: "lease_wf db" and res: "Release k now i f reason rearm db = (Inr False, db')"
  shows "db' = db" and "\<not> owns db i f h"
proof -
  have rel: "lease_release now i f reason (intervalArg (or_default DefaultRearm rearm)) db = Inr (False, db')"
    using res by (auto simp: Release_def round_trip_Inr split: prod.splits sum.splits db_error.splits sql_error.splits)
  from lease_release_leases(2,3) [OF rel] show "db' = db" and "\<not> owns db i f h"
    by (auto simp: owns_def renewable_def)
qed

section \<open>The interface a holder relies on\<close>

text \<open>
  \<^verbatim>\<open>leaseOps\<close> of \<^verbatim>\<open>holder.go\<close>: the three methods a holder calls, over whatever keeps the leases, with
  what they promise about ownership. Only a renewal that matched no row is fencing; nothing but a
  completed release takes a lease from its holder.
\<close>

locale lease_ops =
  fixes renew :: "link \<Rightarrow> timestamp \<Rightarrow> uuid \<Rightarrow> int \<Rightarrow> uuid \<Rightarrow> 'db \<Rightarrow> (store_error + renew_result) \<times> 'db"
    and release :: "link \<Rightarrow> timestamp \<Rightarrow> uuid \<Rightarrow> int \<Rightarrow> string \<Rightarrow> duration \<Rightarrow> 'db \<Rightarrow> (store_error + bool) \<times> 'db"
    and witness :: "link \<Rightarrow> timestamp \<Rightarrow> uuid \<Rightarrow> int \<Rightarrow> int \<Rightarrow> 'db \<Rightarrow> (store_error + timestamp option) \<times> 'db"
    and inv :: "'db \<Rightarrow> bool"
    and owned :: "'db \<Rightarrow> uuid \<Rightarrow> int \<Rightarrow> uuid \<Rightarrow> bool"
  assumes renew_inv: "inv db \<Longrightarrow> renew k now i f h db = (r, db') \<Longrightarrow> inv db'"
    and release_inv: "inv db \<Longrightarrow> release k now i f reason rearm db = (b, db') \<Longrightarrow> inv db'"
    and witness_inv: "inv db \<Longrightarrow> witness k now i f n db = (t, db') \<Longrightarrow> inv db'"
    and renew_owned: "inv db \<Longrightarrow> renew k now i f h db = (Inr res, db') \<Longrightarrow> owned db i f h"
    and renew_fenced: "inv db \<Longrightarrow> renew k now i f h db = (Inl ErrFenced, db') \<Longrightarrow> \<not> owned db i f h \<and> db' = db"
    and renew_keeps: "inv db \<Longrightarrow> renew k now i f h db = (r, db') \<Longrightarrow> owned db' i' f' h' = owned db i' f' h'"
    and witness_keeps: "inv db \<Longrightarrow> witness k now i f n db = (t, db') \<Longrightarrow> owned db' i' f' h' = owned db i' f' h'"
    and release_ends: "inv db \<Longrightarrow> release k now i f reason rearm db = (Inr True, db') \<Longrightarrow> \<not> owned db' i f h"
    and release_false: "inv db \<Longrightarrow> release k now i f reason rearm db = (Inr False, db') \<Longrightarrow> \<not> owned db i f h \<and> db' = db"
    and release_spares: "inv db \<Longrightarrow> release k now i f reason rearm db = (b, db') \<Longrightarrow> i' \<noteq> i \<or> f' \<noteq> f \<Longrightarrow>
          owned db' i' f' h' = owned db i' f' h'"
    and release_shrinks: "inv db \<Longrightarrow> release k now i f reason rearm db = (b, db') \<Longrightarrow>
          owned db' i' f' h' \<Longrightarrow> owned db i' f' h'"

interpretation store: lease_ops Renew Release Witness lease_wf owns
proof
  fix db db' :: farm and k :: link and now :: timestamp and i i' h h' :: uuid and f f' n :: int
    and reason :: string and rearm :: duration and r :: "store_error + renew_result"
    and res :: renew_result and b :: "store_error + bool" and t :: "store_error + timestamp option"
  assume wf: "lease_wf db"
  show "Renew k now i f h db = (r, db') \<Longrightarrow> lease_wf db'" by (rule lease_wf_Renew [OF wf])
  show "Release k now i f reason rearm db = (b, db') \<Longrightarrow> lease_wf db'" by (rule lease_wf_Release [OF wf])
  show "Witness k now i f n db = (t, db') \<Longrightarrow> lease_wf db'" by (rule lease_wf_Witness [OF wf])
  show "Renew k now i f h db = (Inr res, db') \<Longrightarrow> owns db i f h" by (rule Renew_Inr(2) [OF wf])
  show "Renew k now i f h db = (Inl ErrFenced, db') \<Longrightarrow> \<not> owns db i f h \<and> db' = db"
    using Renew_fenced [OF wf] by blast
  show "Renew k now i f h db = (r, db') \<Longrightarrow> owns db' i' f' h' = owns db i' f' h'" by (rule Renew_owns [OF wf])
  show "Witness k now i f n db = (t, db') \<Longrightarrow> owns db' i' f' h' = owns db i' f' h'"
    by (rule Witness_owns [OF wf])
  show "Release k now i f reason rearm db = (Inr True, db') \<Longrightarrow> \<not> owns db' i f h"
    by (rule Release_ends [OF wf])
  show "Release k now i f reason rearm db = (Inr False, db') \<Longrightarrow> \<not> owns db i f h \<and> db' = db"
    using Release_false [OF wf] by blast
  show "Release k now i f reason rearm db = (b, db') \<Longrightarrow> i' \<noteq> i \<or> f' \<noteq> f \<Longrightarrow>
      owns db' i' f' h' = owns db i' f' h'" by (rule Release_spares)
  show "Release k now i f reason rearm db = (b, db') \<Longrightarrow> owns db' i' f' h' \<Longrightarrow> owns db i' f' h'"
    by (rule Release_shrinks)
qed

end
