(* ===== verification/Leadership.thy ===== *)
theory Leadership
  imports Lease_Store
begin

text \<open>
  Leader election by a PostgreSQL session advisory lock, as \<^verbatim>\<open>internal/scheduler/scheduler.go\<close> and
  \<^verbatim>\<open>internal/reaper/reaper.go\<close> both have it: the lock is taken on a connection the struct owns, each
  check probes that same session first, and losing the session is losing the lead. Sessions are
  numbered; the server's side is the map from lock key to the session holding it.
\<close>

type_synonym session = nat
type_synonym pg_locks = "int \<Rightarrow> session option"

record leadership =
  ld_key :: int
  ld_conn :: "session option"
  ld_held :: bool

section \<open>The server\<close>

text \<open>\<^verbatim>\<open>pg_try_advisory_lock\<close>: granted when the key is free or this session already has it.\<close>

definition try_advisory_lock :: "int \<Rightarrow> session \<Rightarrow> pg_locks \<Rightarrow> bool \<times> pg_locks" where
  "try_advisory_lock key s locks =
     (if locks key = None \<or> locks key = Some s then (True, locks(key := Some s)) else (False, locks))"

definition advisory_unlock :: "int \<Rightarrow> session \<Rightarrow> pg_locks \<Rightarrow> pg_locks" where
  "advisory_unlock key s locks = (if locks key = Some s then locks(key := None) else locks)"

text \<open>A session that ends gives up every lock it held.\<close>

definition session_ends :: "session \<Rightarrow> pg_locks \<Rightarrow> pg_locks" where
  "session_ends s locks = (\<lambda>k. if locks k = Some s then None else locks k)"

section \<open>The client\<close>

definition drop_conn :: "leadership \<Rightarrow> leadership" where
  "drop_conn l = l\<lparr>ld_conn := None, ld_held := False\<rparr>"

text \<open>
  What one \<^verbatim>\<open>ensure\<close> meets: whether the probe was answered, the connection the pool hands out if it
  is asked for one, and how the lock query fares.
\<close>

record ensure_io =
  io_probe :: bool
  io_pool :: "session option"
  io_lock :: link

datatype ensured = EnsureError | Ensured (gained: bool) (leader: bool)

definition take_lock :: "link \<Rightarrow> session \<Rightarrow> leadership \<Rightarrow> pg_locks \<Rightarrow> ensured \<times> leadership \<times> pg_locks" where
  "take_lock k s l locks =
     (case k of
        LostBefore \<Rightarrow> (EnsureError, drop_conn l, locks)
      | LostAfter \<Rightarrow> (EnsureError, drop_conn l, snd (try_advisory_lock (ld_key l) s locks))
      | Up \<Rightarrow>
          (case try_advisory_lock (ld_key l) s locks of
             (True, locks') \<Rightarrow> (Ensured True True, l\<lparr>ld_held := True\<rparr>, locks')
           | (False, locks') \<Rightarrow> (Ensured False False, drop_conn l, locks')))"

definition ensure :: "ensure_io \<Rightarrow> leadership \<Rightarrow> pg_locks \<Rightarrow> ensured \<times> leadership \<times> pg_locks" where
  "ensure io l locks =
     (case ld_conn l of
        Some s \<Rightarrow>
          if \<not> io_probe io then (Ensured False False, drop_conn l, locks)
          else if ld_held l then (Ensured False True, l, locks)
          else take_lock (io_lock io) s l locks
      | None \<Rightarrow>
          (case io_pool io of
             None \<Rightarrow> (EnsureError, l, locks)
           | Some s \<Rightarrow> take_lock (io_lock io) s (l\<lparr>ld_conn := Some s\<rparr>) locks))"

text \<open>\<open>sent\<close> says whether the unlock reached the server; either way the connection is given back.\<close>

definition release_lead :: "bool \<Rightarrow> leadership \<Rightarrow> pg_locks \<Rightarrow> leadership \<times> pg_locks" where
  "release_lead sent l locks =
     (case ld_conn l of
        None \<Rightarrow> (l, locks)
      | Some s \<Rightarrow>
          (drop_conn l, if ld_held l \<and> sent then advisory_unlock (ld_key l) s locks else locks))"

section \<open>At most one leader\<close>

text \<open>
  Any number of replicas against one server. A query is answered only while its session lives;
  the pool hands out live sessions no other replica is holding.
\<close>

record cluster =
  cl_reps :: "nat \<Rightarrow> leadership"
  cl_locks :: pg_locks
  cl_dead :: "session set"

definition replica :: "int \<Rightarrow> leadership" where
  "replica key = \<lparr>ld_key = key, ld_conn = None, ld_held = False\<rparr>"

inductive lead_step :: "cluster \<Rightarrow> cluster \<Rightarrow> bool" where
  ensures: "ensure io (cl_reps c p) (cl_locks c) = (r, l', locks') \<Longrightarrow>
    (\<And>s. ld_conn (cl_reps c p) = Some s \<Longrightarrow> io_probe io \<Longrightarrow> s \<notin> cl_dead c) \<Longrightarrow>
    (\<And>s q. io_pool io = Some s \<Longrightarrow> s \<notin> cl_dead c \<and> ld_conn (cl_reps c q) \<noteq> Some s) \<Longrightarrow>
    lead_step c (c\<lparr>cl_reps := (cl_reps c)(p := l'), cl_locks := locks'\<rparr>)"
| releases: "release_lead sent (cl_reps c p) (cl_locks c) = (l', locks') \<Longrightarrow>
    lead_step c (c\<lparr>cl_reps := (cl_reps c)(p := l'), cl_locks := locks'\<rparr>)"
| dies: "lead_step c (c\<lparr>cl_locks := session_ends s (cl_locks c), cl_dead := insert s (cl_dead c)\<rparr>)"

definition lead_ok :: "int \<Rightarrow> cluster \<Rightarrow> bool" where
  "lead_ok key c \<longleftrightarrow>
     (\<forall>p. ld_key (cl_reps c p) = key) \<and>
     (\<forall>p q s. ld_conn (cl_reps c p) = Some s \<and> ld_conn (cl_reps c q) = Some s \<longrightarrow> p = q) \<and>
     (\<forall>p. ld_held (cl_reps c p) \<longrightarrow>
        (\<exists>s. ld_conn (cl_reps c p) = Some s \<and> (s \<in> cl_dead c \<or> cl_locks c key = Some s)))"

lemma lead_okD:
  assumes "lead_ok key c"
  shows "ld_key (cl_reps c p) = key"
    and "ld_conn (cl_reps c p) = Some s \<Longrightarrow> ld_conn (cl_reps c q) = Some s \<Longrightarrow> p = q"
    and "ld_held (cl_reps c p) \<Longrightarrow>
      \<exists>s. ld_conn (cl_reps c p) = Some s \<and> (s \<in> cl_dead c \<or> cl_locks c key = Some s)"
  using assms unfolding lead_ok_def by blast+

text \<open>What \<^verbatim>\<open>ensure\<close> does to the lock table and to the struct, whatever happens on the wire.\<close>

lemmas ensure_defs = ensure_def take_lock_def try_advisory_lock_def drop_conn_def

lemma ensure_key: "ensure io l locks = (r, l', locks') \<Longrightarrow> ld_key l' = ld_key l"
  by (auto simp: ensure_defs split: link.splits if_splits option.splits)

lemma ensure_conn:
  assumes "ensure io l locks = (r, l', locks')" and "ld_conn l' = Some s"
  shows "ld_conn l = Some s \<or> ld_conn l = None \<and> io_pool io = Some s"
  using assms by (auto simp: ensure_defs split: link.splits if_splits option.splits)

lemma ensure_locks:
  assumes "ensure io l locks = (r, l', locks')"
  shows "locks' = locks \<or> (\<exists>s. locks' = locks(ld_key l := Some s) \<and> locks (ld_key l) \<in> {None, Some s})"
  using assms by (auto simp: ensure_defs split: link.splits if_splits option.splits)

lemma ensure_held:
  assumes "ensure io l locks = (r, l', locks')" and "ld_held l'" and "ld_held l \<Longrightarrow> ld_conn l \<noteq> None"
  shows "(l' = l \<and> locks' = locks) \<or> (\<exists>s. ld_conn l' = Some s \<and> locks' (ld_key l) = Some s)"
  using assms by (auto simp: ensure_defs split: link.splits if_splits option.splits)

definition conn_ok :: "leadership \<Rightarrow> bool" where
  "conn_ok l \<longleftrightarrow> (ld_held l \<longrightarrow> ld_conn l \<noteq> None)"

text \<open>What the answer says about the struct: it leads exactly when it was told so.\<close>

lemma take_lock_answer:
  assumes "take_lock k s l locks = (r, l', locks')" and "ld_conn l \<noteq> None"
  shows "r = Ensured True True \<and> ld_held l' \<and> ld_conn l' \<noteq> None \<or>
         (r = EnsureError \<or> r = Ensured False False) \<and> \<not> ld_held l'"
  using assms by (auto simp: take_lock_def try_advisory_lock_def drop_conn_def split: link.splits if_splits)

lemma ensure_split:
  assumes e: "ensure io l locks = (r, l', locks')" and ok: "conn_ok l"
  shows "r = Ensured False True \<and> l' = l \<and> locks' = locks \<and> ld_held l \<or>
         r = Ensured True True \<and> ld_held l' \<and> ld_conn l' \<noteq> None \<and> \<not> ld_held l \<or>
         (r = EnsureError \<or> r = Ensured False False) \<and> \<not> ld_held l'"
proof (cases "ld_conn l")
  case None
  then have nh: "\<not> ld_held l" using ok by (simp add: conn_ok_def)
  show ?thesis
  proof (cases "io_pool io")
    case None
    then show ?thesis using e \<open>ld_conn l = None\<close> nh by (simp add: ensure_def)
  next
    case (Some s)
    then have "take_lock (io_lock io) s (l\<lparr>ld_conn := Some s\<rparr>) locks = (r, l', locks')"
      using e \<open>ld_conn l = None\<close> by (simp add: ensure_def)
    from take_lock_answer [OF this] nh show ?thesis by auto
  qed
next
  case (Some s)
  consider "\<not> io_probe io" | "io_probe io" "ld_held l" | "io_probe io" "\<not> ld_held l" by blast
  then show ?thesis
  proof cases
    case 3
    then have "take_lock (io_lock io) s l locks = (r, l', locks')" using e Some by (simp add: ensure_def)
    from take_lock_answer [OF this] Some 3 show ?thesis by auto
  qed (use e Some in \<open>auto simp: ensure_def drop_conn_def\<close>)
qed

lemma ensure_answer:
  assumes "ensure io l locks = (r, l', locks')" and "conn_ok l"
  shows "conn_ok l'" and "ld_held l' \<longleftrightarrow> (\<exists>g. r = Ensured g True)"
    and "r = Ensured False True \<Longrightarrow> l' = l \<and> locks' = locks \<and> ld_held l"
    and "r = Ensured True ld \<Longrightarrow> \<not> ld_held l"
  using ensure_split [OF assms] assms(2) by (auto simp: conn_ok_def)

lemma lead_ok_step:
  assumes "lead_step c c'" and "lead_ok key c"
  shows "lead_ok key c'"
  using assms
proof (induction rule: lead_step.induct)
  case (ensures io c p r l' locks')
  note ok = lead_okD [OF ensures.prems] and e = ensures.hyps(1)
  have k: "ld_key (cl_reps c p) = key" by (rule ok(1))
  have hc: "ld_held (cl_reps c p) \<Longrightarrow> ld_conn (cl_reps c p) \<noteq> None" using ok(3) [of p] by auto
  have conn: "q = p" if "ld_conn l' = Some s" "ld_conn (cl_reps c q) = Some s" for q s
    using ensure_conn [OF e that(1)] that(2) ok(2) [of p s q] ensures.hyps(3) [of s q] by auto
  have lock: "locks' key = Some s" if "cl_locks c key = Some s" for s
    using ensure_locks [OF e] that by (auto simp: k)
  have held: "\<exists>s. ld_conn l' = Some s \<and> (s \<in> cl_dead c \<or> locks' key = Some s)" if "ld_held l'"
    using ensure_held [OF e that hc] ok(3) [of p] that lock by (auto simp: k)
  show ?case unfolding lead_ok_def
    using ensure_key [OF e] ok conn lock held by (auto simp: k) (metis)+
next
  case (releases sent c p l' locks')
  note ok = lead_okD [OF releases.prems]
  have l': "ld_key l' = key" "ld_conn l' = None \<or> l' = cl_reps c p" "\<not> ld_held l'"
    using releases.hyps ok(1) [of p] ok(3) [of p]
    by (auto simp: release_lead_def drop_conn_def split: option.splits)
  have conn: "q = p" if "ld_conn l' = Some s" "ld_conn (cl_reps c q) = Some s" for q s
    using l'(2) that ok(2) [of p s q] by auto
  have held: "\<exists>s. ld_conn (cl_reps c q) = Some s \<and> (s \<in> cl_dead c \<or> locks' key = Some s)"
    if q: "ld_held (cl_reps c q)" "q \<noteq> p" for q
  proof -
    from ok(3) [OF q(1)] obtain s where s: "ld_conn (cl_reps c q) = Some s"
      "s \<in> cl_dead c \<or> cl_locks c key = Some s" by blast
    have "ld_conn (cl_reps c p) \<noteq> Some s" using ok(2) [of p s q] s(1) q(2) by auto
    then have "locks' key = Some s" if "cl_locks c key = Some s"
      using releases.hyps that ok(1) [of p]
      by (auto simp: release_lead_def advisory_unlock_def split: option.splits if_splits)
    with s show ?thesis by auto
  qed
  show ?case unfolding lead_ok_def using l' ok conn held by auto
next
  case (dies c s)
  note ok = lead_okD [OF dies.prems]
  show ?case unfolding lead_ok_def using ok by (auto simp: session_ends_def) (metis ok(3))+
qed

lemma lead_ok_start: "lead_ok key \<lparr>cl_reps = \<lambda>_. replica key, cl_locks = locks, cl_dead = D\<rparr>"
  by (simp add: lead_ok_def replica_def)

lemma lead_ok_reachable:
  assumes "lead_step\<^sup>*\<^sup>* \<lparr>cl_reps = \<lambda>_. replica key, cl_locks = locks, cl_dead = D\<rparr> c"
  shows "lead_ok key c"
  using assms by (induction rule: rtranclp_induct) (auto intro: lead_ok_start lead_ok_step)

end
