(* ===== verification/Lease_Evolution.thy ===== *)
theory Lease_Evolution
  imports Lease_Store
begin

text \<open>
  How the lease table may change, one relation for every writer. \<open>evolves R\<close> says that rows keep
  their identity, that deadlines never move back, that an ended row is never touched again, that
  rows are only ever added, live, at the end, and that a live row ends only when \<open>R\<close> allows it.
  Each store method is placed under it with the weakest \<open>R\<close> that fits; for all but three of them
  that is no ending at all.
\<close>

definition row_core :: "(lease_row \<Rightarrow> lease_row \<Rightarrow> bool) \<Rightarrow> lease_row \<Rightarrow> lease_row \<Rightarrow> bool" where
  "row_core R l l' \<longleftrightarrow>
     l_id l' = l_id l \<and> l_fence l' = l_fence l \<and> l_device l' = l_device l \<and> l_job l' = l_job l \<and>
     l_acquired_at l' = l_acquired_at l \<and> l_protected l' = l_protected l \<and>
     l_expires_at l \<le> l_expires_at l' \<and> l_reclaimable_at l \<le> l_reclaimable_at l' \<and>
     (\<not> is_live l \<longrightarrow> l' = l) \<and> (is_live l \<and> \<not> is_live l' \<longrightarrow> R l l')"

text \<open>Every writer but a re-attach also keeps the process incarnation the lease belongs to.\<close>

definition row_step :: "(lease_row \<Rightarrow> lease_row \<Rightarrow> bool) \<Rightarrow> lease_row \<Rightarrow> lease_row \<Rightarrow> bool" where
  "row_step R l l' \<longleftrightarrow> row_core R l l' \<and> l_holder_instance l' = l_holder_instance l"

lemmas row_defs = row_step_def row_core_def

abbreviation rows_step :: "(lease_row \<Rightarrow> lease_row \<Rightarrow> bool) \<Rightarrow> lease_row list \<Rightarrow> lease_row list \<Rightarrow> bool" where
  "rows_step R \<equiv> list_all2 (row_step R)"

definition evolves :: "(lease_row \<Rightarrow> lease_row \<Rightarrow> bool) \<Rightarrow> lease_row list \<Rightarrow> lease_row list \<Rightarrow> bool" where
  "evolves R ls ls' \<longleftrightarrow>
     (\<exists>old new. ls' = old @ new \<and> list_all2 (row_core R) ls old \<and> list_all is_live new)"

abbreviation no_ending :: "lease_row \<Rightarrow> lease_row \<Rightarrow> bool" where
  "no_ending \<equiv> \<lambda>_ _. False"

lemma row_step_refl [simp]: "row_step R l l" "row_core R l l"
  by (simp_all add: row_defs)

lemma rows_step_refl [simp, intro]: "rows_step R ls ls"
  by (rule list.rel_refl) simp

lemma row_step_mono: "row_step R l l' \<Longrightarrow> (is_live l \<Longrightarrow> \<not> is_live l' \<Longrightarrow> R l l' \<Longrightarrow> S l l') \<Longrightarrow> row_step S l l'"
  by (auto simp: row_defs)

lemma rows_step_update:
  assumes "\<And>l. l \<in> set ls \<Longrightarrow> P l \<Longrightarrow> row_step R l (f l)"
  shows "rows_step R ls (update_where P f ls)"
  using assms by (induction ls) auto

lemma rows_step_mono:
  assumes "rows_step R ls ls'"
    and "\<And>l l'. l \<in> set ls \<Longrightarrow> is_live l \<Longrightarrow> \<not> is_live l' \<Longrightarrow> R l l' \<Longrightarrow> S l l'"
  shows "rows_step S ls ls'"
  using assms(1) by (rule list.rel_mono_strong) (auto intro: row_step_mono assms(2))

text \<open>Endings whose condition is about the ended row compose.\<close>

lemma row_core_trans:
  assumes "row_core (\<lambda>_. R) l l'" and "row_core (\<lambda>_. R) l' l''"
  shows "row_core (\<lambda>_. R) l l''"
  using assms by (cases "is_live l'") (auto simp: row_core_def)

lemma rows_step_trans:
  assumes "rows_step (\<lambda>_. R) ls ls'" and "rows_step (\<lambda>_. R) ls' ls''"
  shows "rows_step (\<lambda>_. R) ls ls''"
  using assms
  by (rule list_all2_trans [rotated, of _ _ _ "row_step (\<lambda>_. R)"])
    (auto simp: row_step_def intro: row_core_trans)

lemma evolves_rows: "rows_step R ls ls' \<Longrightarrow> evolves R ls ls'"
  unfolding evolves_def
  by (intro exI [of _ ls'] exI [of _ "[]"]) (auto elim: list_all2_mono simp: row_step_def)

lemma evolves_refl [simp]: "evolves R ls ls"
  by (rule evolves_rows) simp

lemma evolves_core_update:
  assumes "\<And>l. l \<in> set ls \<Longrightarrow> P l \<Longrightarrow> row_core R l (f l)"
  shows "evolves R ls (update_where P f ls)"
proof -
  have "list_all2 (row_core R) ls (update_where P f ls)" using assms by (induction ls) auto
  then show ?thesis unfolding evolves_def by (intro exI [of _ "update_where P f ls"] exI [of _ "[]"]) simp
qed

lemma evolves_append: "list_all is_live new \<Longrightarrow> evolves R ls (ls @ new)"
  unfolding evolves_def by (intro exI [of _ ls] exI [of _ new]) (auto intro: list.rel_refl)

text \<open>Reading the relation at one lease.\<close>

lemma evolves_row:
  assumes "evolves R ls ls'" and "l \<in> set ls"
  obtains l' where "l' \<in> set ls'" and "row_core R l l'"
proof -
  obtain old new where o: "ls' = old @ new" "list_all2 (row_core R) ls old" using assms(1) by (auto simp: evolves_def)
  from list_all2_image [OF o(2) assms(2)] obtain l' where "l' \<in> set old" "row_core R l l'" by blast
  then show ?thesis using o(1) by (intro that [of l']) auto
qed

text \<open>Along several steps rows may be added and later ended, so the composite follows single leases.\<close>

definition follows :: "(lease_row \<Rightarrow> bool) \<Rightarrow> lease_row list \<Rightarrow> lease_row list \<Rightarrow> bool" where
  "follows R ls ls' \<longleftrightarrow> (\<forall>l\<in>set ls. \<exists>l'\<in>set ls'. row_core (\<lambda>_. R) l l')"

lemma follows_refl [simp]: "follows R ls ls"
  by (auto simp: follows_def intro: row_step_refl)

lemma follows_evolves: "evolves (\<lambda>_. R) ls ls' \<Longrightarrow> follows R ls ls'"
  by (auto simp: follows_def elim: evolves_row)

lemma follows_rows: "rows_step (\<lambda>_. R) ls ls' \<Longrightarrow> follows R ls ls'"
  by (rule follows_evolves) (rule evolves_rows)

lemma follows_trans:
  assumes "follows R ls ls'" and "follows R ls' ls''" shows "follows R ls ls''"
  unfolding follows_def
proof
  fix l assume "l \<in> set ls"
  with assms(1) obtain l' where l': "l' \<in> set ls'" "row_core (\<lambda>_. R) l l'" by (auto simp: follows_def)
  with assms(2) obtain l'' where "l'' \<in> set ls''" "row_core (\<lambda>_. R) l' l''" by (auto simp: follows_def)
  with row_core_trans [OF l'(2)] show "\<exists>l'\<in>set ls''. row_core (\<lambda>_. R) l l'" by blast
qed

lemma follows_no_ending:
  assumes "evolves no_ending ls ls'" shows "follows R ls ls'"
  unfolding follows_def
proof
  fix l assume "l \<in> set ls"
  with assms obtain l' where "l' \<in> set ls'" "row_core no_ending l l'" by (rule evolves_row)
  then show "\<exists>l'\<in>set ls'. row_core (\<lambda>_. R) l l'" by (auto simp: row_core_def)
qed

section \<open>The row functions\<close>

lemma row_step_renew: "lease_checks l \<Longrightarrow> is_live l \<Longrightarrow> row_step R l (renew_row now l)"
  by (auto simp: row_defs renew_row_def is_live_def)

lemma row_step_witness: "is_live l \<Longrightarrow> row_step R l (witness_row now l)"
  by (auto simp: row_defs witness_row_def is_live_def)

lemma row_step_suspect: "is_live l \<Longrightarrow> row_step R l (l\<lparr>l_state := Suspect\<rparr>)"
  by (auto simp: row_defs is_live_def)

lemma row_step_refund: "is_live l \<Longrightarrow> 0 \<le> g \<Longrightarrow> row_step R l (refund_row g l)"
  by (auto simp: row_defs refund_row_def is_live_def)

lemma row_core_reattach: "is_live l \<Longrightarrow> row_core R l (reattach_row now h i c l)"
  by (auto simp: row_core_def reattach_row_def is_live_def)

lemma row_step_close:
  "is_live l \<Longrightarrow> R l (close_row st now r l) \<Longrightarrow> row_step R l (close_row st now r l)"
  by (auto simp: row_defs close_row_def)

section \<open>The functions\<close>

lemma renew_rows:
  assumes "lease_wf db" and "lease_renew now i f h db = Inr (r, db')"
  shows "rows_step R (leases db) (leases db')"
  using assms wf_lease_checks [OF assms(1)]
  by (auto simp: lease_renew_eq renewed_def renewable_def split: option.splits
      intro!: rows_step_update row_step_renew)

lemma witness_rows:
  assumes "lease_wf db" and "lease_witness now i f n db = Inr (r, db')"
  shows "rows_step R (leases db) (leases db')"
  using assms
  by (auto simp: lease_witness_eq witnessable_def split: option.splits
      intro!: rows_step_update row_step_witness)

lemma release_rows:
  assumes "lease_release now i f reason rearm db = Inr (b, db')"
  shows "rows_step (\<lambda>_ l'. l_id l' = i \<and> l_fence l' = f \<and> l_release_reason l' = Some reason)
           (leases db) (leases db')"
  unfolding lease_release_leases(1) [OF assms] by (auto intro!: rows_step_update row_step_close)

lemma suspect_rows:
  assumes "lease_wf db" and "lease_mark_suspect now n db = Inr (r, db')"
  shows "rows_step R (leases db) (leases db')"
  using assms(2) lease_mark_suspect_eq(1) [OF assms(1), of now n]
  by (auto simp: is_live_def intro!: rows_step_update row_step_suspect)

lemma arm_rows:
  assumes "lease_wf db" and "0 \<le> g" and "reaper_arm now cs g db = Inr (r, db')"
  shows "rows_step R (leases db) (leases db')"
  using assms(3) reaper_arm_eq [OF assms(1,2), of now cs]
  by (auto intro!: rows_step_update row_step_refund)

definition silent_too_long :: "timestamp \<Rightarrow> farm \<Rightarrow> lease_row \<Rightarrow> lease_row \<Rightarrow> bool" where
  "silent_too_long now db l l' \<longleftrightarrow> l' = close_row Expired now ''holder_expired'' l \<and>
     reaper_gate_open now db \<and> reclaimable now (gaps db) l"

definition ran_too_long :: "timestamp \<Rightarrow> farm \<Rightarrow> lease_row \<Rightarrow> lease_row \<Rightarrow> bool" where
  "ran_too_long now db l l' \<longleftrightarrow> l' = close_row Expired now ''max_runtime'' l \<and> max_runtime_elapsed now db l"

lemma reclaim_rows:
  assumes wf: "lease_wf db" and res: "lease_reclaim now n rearm db = Inr (r, db')"
  shows "rows_step (silent_too_long now db) (leases db) (leases db')"
proof (cases "reaper_gate_open now db")
  case False
  then show ?thesis using res by (simp add: lease_reclaim_closed)
next
  case True
  then have "leases db' = update_where (\<lambda>l. l_id l \<in> reclaim_ids now n db)
      (close_row Expired now ''holder_expired'') (leases db)"
    using lease_reclaim_open [OF wf True, of n rearm] res by auto
  then show ?thesis using True
    by (auto intro!: rows_step_update row_step_close dest: reclaim_ids_reclaimable [OF wf]
        simp: silent_too_long_def reclaimable_def is_live_def)
qed

lemma expire_rows:
  assumes wf: "lease_wf db" and res: "lease_expire_max_runtime now n rearm db = Inr (r, db')"
  shows "rows_step (ran_too_long now db) (leases db) (leases db')"
proof -
  have "leases db' = update_where (\<lambda>l. l_id l \<in> overrun_ids now n db)
      (close_row Expired now ''max_runtime'') (leases db)"
    using lease_expire_max_runtime_eq [OF wf, of now n rearm] res by auto
  then show ?thesis
    by (auto intro!: rows_step_update row_step_close dest: overrun_ids_elapsed [OF wf]
        simp: ran_too_long_def max_runtime_elapsed_def)
qed

lemma acquire_evolves:
  assumes wf: "lease_wf db" and res: "lease_acquire now n m j h i t c db = Inr (r, db')"
  shows "evolves no_ending (leases db) (leases db')"
proof -
  obtain jr where j: "job_by_id db j = Some jr"
    using res by (auto simp: lease_acquire_def split: if_splits option.splits)
  show ?thesis
  proof (cases "List.find (\<lambda>l. l_job l = j \<and> is_live l) (leases db)")
    case None
    then have al: "lease_allocate now n jr h i c db = Inr (r, db')"
      using res j by (auto simp: lease_acquire_def split: if_splits)
    then show ?thesis
      by (auto simp: lease_allocate_def Let_def trg_leases_sync_device_insert_def
          split: option.splits if_splits intro!: evolves_append)
  next
    case (Some e)
    then have e: "e \<in> set (leases db)" "is_live e" by (auto dest: find_SomeD)
    have "lease_reattach now m h i c e db = Inr (r, db')"
      using res j Some by (auto simp: lease_acquire_def split: if_splits)
    then have "leases db' = update_where (\<lambda>l. l_id l = l_id e) (reattach_row now h i c) (leases db)"
      by (auto simp: lease_reattach_eq(1) [OF wf e] split: if_splits)
    moreover have "is_live l" if "l \<in> set (leases db)" "l_id l = l_id e" for l
      using keyed_eqD [OF lease_wfD(1) [OF wf] that(1) e(1) that(2)] e(2) by simp
    ultimately show ?thesis by (auto intro!: evolves_core_update row_core_reattach)
  qed
qed

text \<open>A live row after an acquire: the row the caller now holds, or one that was live before.\<close>

lemma acquire_instance:
  assumes wf: "lease_wf db" and res: "lease_acquire now n m j h i t c db = Inr (r, db')"
    and l': "l' \<in> set (leases db')"
  shows "l_holder_instance l' = i \<or> l' \<in> set (leases db)"
proof -
  obtain jr where jr: "job_by_id db j = Some jr"
    using res by (auto simp: lease_acquire_def split: if_splits option.splits)
  show ?thesis
  proof (cases "List.find (\<lambda>l. l_job l = j \<and> is_live l) (leases db)")
    case None
    then have "lease_allocate now n jr h i c db = Inr (r, db')"
      using res jr by (auto simp: lease_acquire_def split: if_splits)
    then show ?thesis using l'
      by (auto simp: lease_allocate_def Let_def trg_leases_sync_device_insert_def new_lease_row_def
          split: option.splits if_splits)
  next
    case (Some e)
    then have e: "e \<in> set (leases db)" "is_live e" by (auto dest: find_SomeD)
    have "lease_reattach now m h i c e db = Inr (r, db')"
      using res jr Some by (auto simp: lease_acquire_def split: if_splits)
    then have "leases db' = update_where (\<lambda>l. l_id l = l_id e) (reattach_row now h i c) (leases db)"
      by (auto simp: lease_reattach_eq(1) [OF wf e] split: if_splits)
    then show ?thesis using l' by (auto simp: set_update_where reattach_row_def)
  qed
qed

section \<open>Ownership only shrinks\<close>

lemma owns_rows:
  assumes "rows_step R (leases db) (leases db')" and "owns db' i f h"
  shows "owns db i f h"
proof -
  obtain l' where l': "l' \<in> set (leases db')" "renewable i f h l'" using assms(2) by (auto simp: owns_def)
  from list_all2_preimage [OF assms(1) l'(1)] obtain l where "l \<in> set (leases db)" "row_step R l l'" by blast
  then show ?thesis using l'(2) unfolding owns_def
    by (intro bexI [of _ l]) (auto simp: row_defs renewable_def)
qed

section \<open>The store methods\<close>

text \<open>
  Each method, on any link: the invariant is kept and the table evolves as its statement allows.
  A link that loses the answer still leaves one of the two databases the statement could leave.
\<close>

lemma trip_rows:
  assumes "round_trip k stmt db = (r, db')" and "lease_wf db"
    and "\<And>x db''. stmt db = Inr (x, db'') \<Longrightarrow> lease_wf db'' \<and> rows_step R (leases db) (leases db'')"
  shows "lease_wf db' \<and> rows_step R (leases db) (leases db')"
  using assms(1) by (rule round_trip_keeps) (use assms(2,3) in auto)

lemma Renew_rows:
  assumes wf: "lease_wf db" and res: "Renew k now i f h db = (r, db')"
  shows "lease_wf db' \<and> rows_step no_ending (leases db) (leases db')"
  using res by (rule Renew_trip, elim trip_rows) (auto intro: wf lease_wf_renew renew_rows)

lemma Witness_rows:
  assumes wf: "lease_wf db" and res: "Witness k now i f n db = (r, db')"
  shows "lease_wf db' \<and> rows_step no_ending (leases db) (leases db')"
  using res by (rule Witness_trip, elim trip_rows) (auto intro: wf lease_wf_witness witness_rows)

lemma Release_rows:
  assumes wf: "lease_wf db" and res: "Release k now i f reason rearm db = (r, db')"
  shows "lease_wf db' \<and> rows_step (\<lambda>_ l'. l_id l' = i \<and> l_fence l' = f \<and> l_release_reason l' = Some reason)
           (leases db) (leases db')"
  using res by (rule Release_trip, elim trip_rows) (auto intro: wf lease_wf_release release_rows)

lemma AcquireAs_evolves:
  assumes wf: "lease_wf db" and res: "AcquireAs k now n m j h i as db = (r, db')"
  shows "evolves no_ending (leases db) (leases db')"
proof (rule AcquireAs_trip [OF res])
  fix r' assume "round_trip k (lease_acquire now n m j h i (nullif_empty (Tenant as))
      (nullif_empty (Principal as))) db = (r', db')"
  then show ?thesis by (rule round_trip_keeps) (auto intro: acquire_evolves [OF wf])
qed

lemma gap_floor_nonneg: "0 \<le> intervalArg (or_default DefaultGapFloor x)"
  by (rule intervalArg_nonneg)

lemma ReaperArm_rows:
  assumes wf: "lease_wf db" and res: "ReaperArm k now cs g db = (r, db')"
  shows "lease_wf db' \<and> rows_step no_ending (leases db) (leases db')"
proof -
  let ?cs = "if cs = [] then ReaperComponents else cs" and ?g = "intervalArg (or_default DefaultGapFloor g)"
  obtain r' where rt: "round_trip k (reaper_arm now ?cs ?g) db = (r', db')"
    using res by (auto simp: ReaperArm_def split: prod.splits sum.splits)
  have "lease_wf db'' \<and> rows_step no_ending (leases db) (leases db'')"
    if "reaper_arm now ?cs ?g db = Inr (x, db'')" for x db''
    using reaper_arm_eq [OF wf gap_floor_nonneg, of now ?cs g] arm_rows [OF wf gap_floor_nonneg that] that
    by auto
  then show ?thesis by (rule trip_rows [OF rt wf])
qed

lemma MarkSuspect_rows:
  assumes wf: "lease_wf db" and res: "MarkSuspect k now n db = (r, db')"
  shows "lease_wf db' \<and> rows_step no_ending (leases db) (leases db')"
proof -
  obtain r' where rt: "round_trip k (lease_mark_suspect now (nat (or_default DefaultSuspectBatch n))) db = (r', db')"
    using res by (auto simp: MarkSuspect_def split: prod.splits sum.splits)
  have "lease_wf db'' \<and> rows_step no_ending (leases db) (leases db'')"
    if "lease_mark_suspect now (nat (or_default DefaultSuspectBatch n)) db = Inr (x, db'')" for x db''
    using that suspect_rows [OF wf that] lease_mark_suspect_eq [OF wf, of now "nat (or_default DefaultSuspectBatch n)"]
    by auto
  then show ?thesis by (rule trip_rows [OF rt wf])
qed

lemma Reclaim_rows:
  assumes wf: "lease_wf db" and res: "Reclaim k now n rearm db = (r, db')"
  shows "lease_wf db' \<and> rows_step (silent_too_long now db) (leases db) (leases db')"
proof -
  let ?n = "nat (or_default DefaultReclaimBatch n)" and ?r = "intervalArg (or_default DefaultRearm rearm)"
  obtain r' where rt: "round_trip k (lease_reclaim now ?n ?r) db = (r', db')"
    using res by (auto simp: Reclaim_def split: prod.splits sum.splits)
  have "lease_wf db'' \<and> rows_step (silent_too_long now db) (leases db) (leases db'')"
    if "lease_reclaim now ?n ?r db = Inr (x, db'')" for x db''
    using that reclaim_rows [OF wf that] wf lease_reclaim_open [OF wf, of now ?n ?r]
      lease_reclaim_closed [of now db ?n ?r]
    by (cases "reaper_gate_open now db") auto
  then show ?thesis by (rule trip_rows [OF rt wf])
qed

lemma ExpireMaxRuntime_rows:
  assumes wf: "lease_wf db" and res: "ExpireMaxRuntime k now n db = (r, db')"
  shows "lease_wf db' \<and> rows_step (ran_too_long now db) (leases db) (leases db')"
proof -
  let ?n = "nat (or_default DefaultReclaimBatch n)"
  obtain r' where rt: "round_trip k (lease_expire_max_runtime now ?n (seconds 35)) db = (r', db')"
    using res by (auto simp: ExpireMaxRuntime_def split: prod.splits sum.splits)
  have "lease_wf db'' \<and> rows_step (ran_too_long now db) (leases db) (leases db'')"
    if "lease_expire_max_runtime now ?n (seconds 35) db = Inr (x, db'')" for x db''
    using that expire_rows [OF wf that] lease_expire_max_runtime_eq [OF wf, of now ?n "seconds 35"] by auto
  then show ?thesis by (rule trip_rows [OF rt wf])
qed

lemma ComponentBeat_frame:
  assumes "ComponentBeat k now c db = (r, db')"
  shows "leases db' = leases db" and "lease_wf db' = lease_wf db"
    and "reaper_state db' = reaper_state db" and "gaps db' = gaps db" and "jobs db' = jobs db"
  using assms lease_wf_component_beat [of now c db]
  by (auto simp: ComponentBeat_def round_trip_def component_beat_def split: link.splits)

section \<open>Jobs are not touched\<close>

lemma update_leases_jobs: "update_leases now P f db = Inr (rows, db') \<Longrightarrow> jobs db' = jobs db"
  by (drule update_leases_InrD(2)) simp

lemma MarkSuspect_jobs:
  assumes "MarkSuspect k now n db = (r, db')" shows "jobs db' = jobs db"
proof -
  obtain r' where "round_trip k (lease_mark_suspect now (nat (or_default DefaultSuspectBatch n))) db = (r', db')"
    using assms by (auto simp: MarkSuspect_def split: prod.splits sum.splits)
  then show ?thesis
    by (rule round_trip_keeps)
      (auto simp: lease_mark_suspect_def Let_def bindR_eq_Inr dest!: update_leases_jobs)
qed

lemma ReaperArm_jobs:
  assumes "ReaperArm k now cs g db = (r, db')" shows "jobs db' = jobs db"
proof -
  obtain r' where "round_trip k (reaper_arm now (if cs = [] then ReaperComponents else cs)
      (intervalArg (or_default DefaultGapFloor g))) db = (r', db')"
    using assms by (auto simp: ReaperArm_def split: prod.splits sum.splits)
  then show ?thesis
    by (rule round_trip_keeps)
      (auto simp: reaper_arm_def Let_def bindR_eq_Inr dest!: update_leases_jobs
        split: if_splits list.splits prod.splits)
qed

end
