(* ===== verification/Reaper_Loop.thy ===== *)
theory Reaper_Loop
  imports Leadership Lease_Evolution
begin

text \<open>
  \<^verbatim>\<open>internal/reaper/reaper.go\<close>: one cycle of the reaper, as a function of what the wire and the
  clock do to each of its calls. A cycle beats, checks its lead, arms when it has to, and only then
  sweeps: suspects, overrun jobs, silent holders. Metrics and logging are not modelled; the audit
  rows written to \<^verbatim>\<open>farm.events\<close> are.
\<close>

section \<open>Configuration and state\<close>

record reaper_config =
  rf_Component :: string
  rf_Interval :: duration
  rf_Batch :: int
  rf_GapFloor :: duration
  rf_Components :: "string list"
  rf_Rearm :: duration
  rf_CallTimeout :: duration
  rf_CensusEvery :: duration
  rf_LockKey :: int

definition ReaperDefaultLockKey :: int where "ReaperDefaultLockKey = 0x6661726d52656170"

definition reaper_applyDefaults :: "reaper_config \<Rightarrow> reaper_config" where
  "reaper_applyDefaults c =
     \<lparr>rf_Component = (if rf_Component c = [] then ''reaper'' else rf_Component c),
      rf_Interval = or_default (10 * Second) (rf_Interval c),
      rf_Batch = or_default 100 (rf_Batch c),
      rf_GapFloor = or_default (60 * Second) (rf_GapFloor c),
      rf_Components = (if rf_Components c = [] then ReaperComponents else rf_Components c),
      rf_Rearm = or_default DefaultRearm (rf_Rearm c),
      rf_CallTimeout = or_default (15 * Second) (rf_CallTimeout c),
      rf_CensusEvery = or_default (30 * Second) (rf_CensusEvery c),
      rf_LockKey = (if rf_LockKey c = 0 then ReaperDefaultLockKey else rf_LockKey c)\<rparr>"

record reaper =
  rp_cfg :: reaper_config
  rp_lead :: leadership
  rp_nextCensus :: int
  rp_armed :: bool
  rp_unbeaten :: "string list"

definition reaper_New :: "reaper_config \<Rightarrow> reaper" where
  "reaper_New cfg =
     (let c = reaper_applyDefaults cfg in
      \<lparr>rp_cfg = c, rp_lead = \<lparr>ld_key = rf_LockKey c, ld_conn = None, ld_held = False\<rparr>,
       rp_nextCensus = 0, rp_armed = False, rp_unbeaten = []\<rparr>)"

section \<open>The census\<close>

text \<open>\<^verbatim>\<open>SELECT key, count(star) ... GROUP BY key\<close>, groups in order of first appearance.\<close>

definition group_count :: "('r \<Rightarrow> 'k) \<Rightarrow> 'r list \<Rightarrow> ('k \<times> nat) list" where
  "group_count key rows = map (\<lambda>k. (k, length (filter (\<lambda>r. key r = k) rows))) (remdups (map key rows))"

definition lease_jobs :: "farm \<Rightarrow> (lease_row \<Rightarrow> bool) \<Rightarrow> (lease_row \<times> job_row) list" where
  "lease_jobs db P = concat (map (\<lambda>l. map (Pair l) (filter (\<lambda>j. j_id j = l_job l) (jobs db)))
     (filter P (leases db)))"

definition heldCensus :: "farm \<Rightarrow> ((string \<times> string) \<times> nat) list" where
  "heldCensus db = group_count (\<lambda>(l, j). (j_pool j, l_tenant l)) (lease_jobs db (\<lambda>l. l_state l = Held))"

definition suspectCensus :: "farm \<Rightarrow> ((string \<times> string \<times> bool) \<times> nat) list" where
  "suspectCensus db = group_count (\<lambda>(l, j). (j_pool j, l_tenant l, l_protected l))
     (lease_jobs db (\<lambda>l. l_state l = Suspect))"

definition rearmCensus :: "timestamp \<Rightarrow> farm \<Rightarrow> ((string \<times> string) \<times> nat) list" where
  "rearmCensus now db = group_count (\<lambda>(s, h). (s_host s, hb_usb_path h))
     (concat (map (\<lambda>s. map (Pair s) (filter (\<lambda>h. hb_id h = s_hub s) (hubs db)))
        (filter (\<lambda>s. s_rearm_at s > now) (slots db))))"

section \<open>The steps of a cycle\<close>

type_synonym call = "link \<times> timestamp"

record reaper_io =
  rio_local :: int
  rio_beat :: call
  rio_ensure :: ensure_io
  rio_arm :: call
  rio_unlock :: bool
  rio_suspect :: call
  rio_max_runtime :: call
  rio_reclaim :: call
  rio_audit :: call

definition reaper_beat :: "call \<Rightarrow> reaper \<Rightarrow> farm \<Rightarrow> farm" where
  "reaper_beat k r db = snd (ComponentBeat (fst k) (snd k) (rf_Component (rp_cfg r)) db)"

text \<open>
  The probe of a held session also reads whether \<^verbatim>\<open>farm.reaper_state\<close> carries a refusal; it is
  reported only for a lock that was already held.
\<close>

definition standing_refusal :: "farm \<Rightarrow> bool" where
  "standing_refusal db \<longleftrightarrow> rs_last_refusal_at (reaper_state db) \<noteq> None"

definition reaper_ensure ::
  "ensure_io \<Rightarrow> farm \<Rightarrow> leadership \<Rightarrow> pg_locks \<Rightarrow> ensured \<times> bool \<times> leadership \<times> pg_locks" where
  "reaper_ensure io db l locks =
     (case ensure io l locks of
        (EnsureError, l', locks') \<Rightarrow> (EnsureError, False, l', locks')
      | (Ensured g ld, l', locks') \<Rightarrow> (Ensured g ld, \<not> g \<and> ld \<and> standing_refusal db, l', locks'))"

datatype arm_verdict = ArmError | ArmRefused | ArmDone

definition arm :: "call \<Rightarrow> reaper \<Rightarrow> farm \<Rightarrow> arm_verdict \<times> reaper \<times> farm" where
  "arm k r db =
     (case ReaperArm (fst k) (snd k) (rf_Components (rp_cfg r)) (rf_GapFloor (rp_cfg r)) db of
        (Inl e, db') \<Rightarrow> (ArmError, r, db')
      | (Inr res, db') \<Rightarrow>
          if \<not> Armed res
          then (ArmRefused,
                (if Unbeaten res \<noteq> rp_unbeaten r then r\<lparr>rp_unbeaten := Unbeaten res\<rparr> else r), db')
          else (ArmDone, r\<lparr>rp_unbeaten := []\<rparr>, db'))"

definition sweepSuspect :: "call \<Rightarrow> reaper \<Rightarrow> farm \<Rightarrow> farm" where
  "sweepSuspect k r db = snd (MarkSuspect (fst k) (snd k) (rf_Batch (rp_cfg r)) db)"

definition sweepMaxRuntime :: "call \<Rightarrow> reaper \<Rightarrow> farm \<Rightarrow> farm" where
  "sweepMaxRuntime k r db = snd (ExpireMaxRuntime (fst k) (snd k) (rf_Batch (rp_cfg r)) db)"

definition reclaim_event :: "timestamp \<Rightarrow> string \<Rightarrow> reclaimed \<Rightarrow> event_row" where
  "reclaim_event now actor l =
     \<lparr>e_at = now, e_kind = ''lease_reclaimed'', e_device = Some (rc_device l), e_slot = rc_slot l,
      e_lease = Some (rc_lease l), e_job = Some (rc_job l), e_actor = Some actor,
      e_detail = [(''old_fence'', JInt (rc_old_fence l)), (''new_floor'', JInt (rc_new_floor l)),
                  (''release_reason'', JStr ''holder_expired'')]\<rparr>"

text \<open>The batch is one implicit transaction: all of its rows or none.\<close>

definition auditReclaims :: "call \<Rightarrow> reaper \<Rightarrow> reclaimed list \<Rightarrow> farm \<Rightarrow> farm" where
  "auditReclaims k r rows db =
     snd (round_trip (fst k)
       (\<lambda>db. Inr ((), fold (\<lambda>l. append_event (reclaim_event (snd k) (rf_Component (rp_cfg r)) l)) rows db)) db)"

definition sweepReclaim :: "call \<Rightarrow> call \<Rightarrow> reaper \<Rightarrow> farm \<Rightarrow> farm" where
  "sweepReclaim k ka r db =
     (case Reclaim (fst k) (snd k) (rf_Batch (rp_cfg r)) (rf_Rearm (rp_cfg r)) db of
        (Inl e, db') \<Rightarrow> db'
      | (Inr rows, db') \<Rightarrow> if rows = [] then db' else auditReclaims ka r rows db')"

definition sweeps :: "reaper_io \<Rightarrow> reaper \<Rightarrow> farm \<Rightarrow> farm" where
  "sweeps io r db =
     sweepReclaim (rio_reclaim io) (rio_audit io) r
       (sweepMaxRuntime (rio_max_runtime io) r (sweepSuspect (rio_suspect io) r db))"

definition reaper_cycle ::
  "reaper_io \<Rightarrow> reaper \<Rightarrow> pg_locks \<Rightarrow> farm \<Rightarrow> reaper \<times> pg_locks \<times> farm" where
  "reaper_cycle io r0 locks db0 =
     (let db = reaper_beat (rio_beat io) r0 db0;
          r1 = (if rio_local io > rp_nextCensus r0
                then r0\<lparr>rp_nextCensus := rio_local io + rf_CensusEvery (rp_cfg r0)\<rparr> else r0)
      in case reaper_ensure (rio_ensure io) db (rp_lead r1) locks of
           (EnsureError, _, l', locks') \<Rightarrow> (r1\<lparr>rp_lead := l'\<rparr>, locks', db)
         | (Ensured g ld, refused, l', locks') \<Rightarrow>
             (let r2 = r1\<lparr>rp_lead := l'\<rparr> in
              if \<not> ld then (r2, locks', db)
              else
                (let r3 = (if g \<or> refused then r2\<lparr>rp_armed := False\<rparr> else r2) in
                 if rp_armed r3 then (r3, locks', sweeps io r3 db)
                 else
                   (case arm (rio_arm io) r3 db of
                      (ArmError, r4, db') \<Rightarrow>
                        (case release_lead (rio_unlock io) (rp_lead r4) locks' of
                           (l'', locks'') \<Rightarrow> (r4\<lparr>rp_lead := l''\<rparr>, locks'', db'))
                    | (ArmRefused, r4, db') \<Rightarrow> (r4, locks', db')
                    | (ArmDone, r4, db') \<Rightarrow>
                        (let r5 = r4\<lparr>rp_armed := True\<rparr> in (r5, locks', sweeps io r5 db'))))))"

definition reaper_jitter :: "(int \<Rightarrow> int) \<Rightarrow> duration \<Rightarrow> duration" where
  "reaper_jitter rnd d = (if d \<le> 0 then d else d - rnd (d div 4 + 1))"

section \<open>What a cycle does to the leases\<close>

text \<open>How a lease may end in a cycle, read off the ended row.\<close>

definition reaper_ending :: "reaper_io \<Rightarrow> farm \<Rightarrow> lease_row \<Rightarrow> bool" where
  "reaper_ending io db l' \<longleftrightarrow>
     l_release_reason l' = Some ''max_runtime'' \<and>
       (\<exists>j m. job_by_id db (l_job l') = Some j \<and> j_max_runtime j = Some m \<and>
              l_acquired_at l' + m \<le> snd (rio_max_runtime io))
     \<or> l_release_reason l' = Some ''holder_expired'' \<and> \<not> l_protected l' \<and>
       l_reclaimable_at l' < snd (rio_reclaim io) \<and>
       (case l_witness_at l' of None \<Rightarrow> True | Some w \<Rightarrow> w < snd (rio_reclaim io) - l_grace l')"

lemma reaper_ending_ran:
  "ran_too_long (snd (rio_max_runtime io)) db l l' \<Longrightarrow> jobs db = jobs db0 \<Longrightarrow> reaper_ending io db0 l'"
  by (auto simp: reaper_ending_def ran_too_long_def max_runtime_elapsed_def job_by_id_def close_row_def
      split: option.splits)

lemma reaper_ending_silent:
  "silent_too_long (snd (rio_reclaim io)) db l l' \<Longrightarrow> reaper_ending io db0 l'"
  by (auto simp: reaper_ending_def silent_too_long_def reclaimable_def close_row_def
      split: option.splits)

lemma fold_append_event_frame:
  "leases (fold (\<lambda>l. append_event (g l)) xs db) = leases db"
  "lease_wf (fold (\<lambda>l. append_event (g l)) xs db) = lease_wf db"
proof -
  have f: "leases (fold (\<lambda>l. append_event (g l)) xs d) = leases d \<and>
      devices (fold (\<lambda>l. append_event (g l)) xs d) = devices d \<and>
      jobs (fold (\<lambda>l. append_event (g l)) xs d) = jobs d \<and>
      fence_seq (fold (\<lambda>l. append_event (g l)) xs d) = fence_seq d" for d
    by (induction xs arbitrary: d) auto
  show "leases (fold (\<lambda>l. append_event (g l)) xs db) = leases db" using f by simp
  show "lease_wf (fold (\<lambda>l. append_event (g l)) xs db) = lease_wf db"
    by (rule lease_wf_cong) (simp_all add: f)
qed

lemma auditReclaims_leases:
  "leases (auditReclaims k r rows db) = leases db" "lease_wf (auditReclaims k r rows db) = lease_wf db"
  by (auto simp: auditReclaims_def round_trip_def fold_append_event_frame split: link.split)

lemma sweepSuspect_rows:
  "lease_wf db \<Longrightarrow> lease_wf (sweepSuspect k r db) \<and> rows_step no_ending (leases db) (leases (sweepSuspect k r db))
     \<and> jobs (sweepSuspect k r db) = jobs db"
  using MarkSuspect_rows [of db "fst k" "snd k" "rf_Batch (rp_cfg r)"] MarkSuspect_jobs
  by (cases "MarkSuspect (fst k) (snd k) (rf_Batch (rp_cfg r)) db") (auto simp: sweepSuspect_def)

lemma sweepMaxRuntime_rows:
  "lease_wf db \<Longrightarrow> lease_wf (sweepMaxRuntime k r db) \<and>
     rows_step (ran_too_long (snd k) db) (leases db) (leases (sweepMaxRuntime k r db))"
  using ExpireMaxRuntime_rows [of db "fst k" "snd k" "rf_Batch (rp_cfg r)"]
  by (cases "ExpireMaxRuntime (fst k) (snd k) (rf_Batch (rp_cfg r)) db") (auto simp: sweepMaxRuntime_def)

lemma sweepReclaim_rows:
  "lease_wf db \<Longrightarrow> lease_wf (sweepReclaim k ka r db) \<and>
     rows_step (silent_too_long (snd k) db) (leases db) (leases (sweepReclaim k ka r db))"
  using Reclaim_rows [of db "fst k" "snd k" "rf_Batch (rp_cfg r)" "rf_Rearm (rp_cfg r)"] auditReclaims_leases
  by (cases "Reclaim (fst k) (snd k) (rf_Batch (rp_cfg r)) (rf_Rearm (rp_cfg r)) db")
    (auto simp: sweepReclaim_def split: sum.splits)

lemma sweeps_rows:
  assumes wf: "lease_wf db" and jobs: "jobs db = jobs db0"
  shows "lease_wf (sweeps io r db) \<and> rows_step (\<lambda>_. reaper_ending io db0) (leases db) (leases (sweeps io r db))"
proof -
  let ?a = "sweepSuspect (rio_suspect io) r db"
  let ?b = "sweepMaxRuntime (rio_max_runtime io) r ?a"
  note a = sweepSuspect_rows [OF wf, of "rio_suspect io" r]
  then have wa: "lease_wf ?a" by simp
  note b = sweepMaxRuntime_rows [OF wa, of "rio_max_runtime io" r]
  then have wb: "lease_wf ?b" by simp
  note c = sweepReclaim_rows [OF wb, of "rio_reclaim io" "rio_audit io" r]
  have 1: "rows_step (\<lambda>_. reaper_ending io db0) (leases db) (leases ?a)"
    using a by (auto elim: rows_step_mono)
  have 2: "rows_step (\<lambda>_. reaper_ending io db0) (leases ?a) (leases ?b)"
    using b a jobs by (auto elim!: rows_step_mono intro: reaper_ending_ran)
  have 3: "rows_step (\<lambda>_. reaper_ending io db0) (leases ?b) (leases (sweeps io r db))"
    using c unfolding sweeps_def by (auto elim!: rows_step_mono intro: reaper_ending_silent)
  show ?thesis using c rows_step_trans [OF rows_step_trans [OF 1 2] 3] by (simp add: sweeps_def)
qed

lemma arm_rows_step:
  assumes wf: "lease_wf db" and res: "arm k r db = (v, r', db')"
  shows "lease_wf db' \<and> rows_step no_ending (leases db) (leases db') \<and> jobs db' = jobs db \<and>
     rp_lead r' = rp_lead r \<and> rp_armed r' = rp_armed r \<and>
     (v = ArmDone \<longrightarrow> (\<exists>out. ReaperArm (fst k) (snd k) (rf_Components (rp_cfg r)) (rf_GapFloor (rp_cfg r)) db =
        (Inr out, db') \<and> Armed out))"
proof -
  obtain x where x: "ReaperArm (fst k) (snd k) (rf_Components (rp_cfg r)) (rf_GapFloor (rp_cfg r)) db = (x, db')"
    using res by (auto simp: arm_def split: prod.splits sum.splits if_splits)
  show ?thesis
    using ReaperArm_rows [OF wf x] ReaperArm_jobs [OF x] res x
    by (auto simp: arm_def split: sum.splits if_splits)
qed

lemma reaper_beat_frame:
  "leases (reaper_beat k r db) = leases db" "lease_wf (reaper_beat k r db) = lease_wf db"
  "jobs (reaper_beat k r db) = jobs db" "reaper_state (reaper_beat k r db) = reaper_state db"
  using ComponentBeat_frame [of "fst k" "snd k" "rf_Component (rp_cfg r)" db]
  by (auto simp: reaper_beat_def split_def) (metis surjective_pairing)+

text \<open>
  The four ways out of a cycle: not the leader, an arm that failed or was refused, or the sweeps,
  which only an armed leader reaches.
\<close>

lemma reaper_cycle_cases:
  assumes res: "reaper_cycle io r locks db = (r', locks', db')"
    and conn: "conn_ok (rp_lead r)"
  obtains (standby) "\<not> ld_held (rp_lead r')" "db' = reaper_beat (rio_beat io) r db"
  | (unarmed) ra rb v where "arm (rio_arm io) ra (reaper_beat (rio_beat io) r db) = (v, rb, db')"
      "v \<noteq> ArmDone" "\<not> rp_armed r'"
  | (kept) "rp_armed r'" "ld_held (rp_lead r')" "ld_held (rp_lead r)" "\<not> standing_refusal db"
      "db' = sweeps io r' (reaper_beat (rio_beat io) r db)"
  | (armed) ra rb db1 where "arm (rio_arm io) ra (reaper_beat (rio_beat io) r db) = (ArmDone, rb, db1)"
      "rp_armed r'" "ld_held (rp_lead r')" "rp_cfg ra = rp_cfg r" "db' = sweeps io r' db1"
proof -
  define db1 where "db1 = reaper_beat (rio_beat io) r db"
  define r1 where "r1 = (if rio_local io > rp_nextCensus r
      then r\<lparr>rp_nextCensus := rio_local io + rf_CensusEvery (rp_cfg r)\<rparr> else r)"
  have r1: "rp_lead r1 = rp_lead r" "rp_armed r1 = rp_armed r" "rp_cfg r1 = rp_cfg r"
    by (simp_all add: r1_def)
  have st: "standing_refusal db1 = standing_refusal db"
    by (simp add: db1_def standing_refusal_def reaper_beat_frame)
  obtain e l' lk where e: "ensure (rio_ensure io) (rp_lead r) locks = (e, l', lk)" by (cases rule: prod_cases3)
  note ans = ensure_answer [OF e conn]
  show ?thesis
  proof (cases "\<exists>g. e = Ensured g True")
    case False
    then have "r' = r1\<lparr>rp_lead := l'\<rparr> \<and> db' = db1"
      using res e by (auto simp: reaper_cycle_def reaper_ensure_def Let_def r1_def [symmetric]
          db1_def [symmetric] r1 split: ensured.splits)
    then show ?thesis using ans(2) False by (intro standby) (auto simp: db1_def)
  next
    case True
    then obtain g where g: "e = Ensured g True" by blast
    have held: "ld_held l'" using ans(2) g by blast
    define r3 where "r3 = (if g \<or> (\<not> g \<and> standing_refusal db1)
        then r1\<lparr>rp_lead := l', rp_armed := False\<rparr> else r1\<lparr>rp_lead := l'\<rparr>)"
    have r3: "rp_lead r3 = l'" "rp_cfg r3 = rp_cfg r" "rp_armed r3 \<longrightarrow> \<not> g \<and> \<not> standing_refusal db1"
      by (auto simp: r3_def Let_def r1)
    have cyc: "
      (if rp_armed r3 then (r3, lk, sweeps io r3 db1)
       else case arm (rio_arm io) r3 db1 of
          (ArmError, r4, db') \<Rightarrow>
            (case release_lead (rio_unlock io) (rp_lead r4) lk of (l'', locks'') \<Rightarrow> (r4\<lparr>rp_lead := l''\<rparr>, locks'', db'))
        | (ArmRefused, r4, db') \<Rightarrow> (r4, lk, db')
        | (ArmDone, r4, db') \<Rightarrow> (let r5 = r4\<lparr>rp_armed := True\<rparr> in (r5, lk, sweeps io r5 db')))
      = (r', locks', db')"
      using res e g unfolding reaper_cycle_def reaper_ensure_def r3_def
      by (simp add: Let_def r1_def [symmetric] db1_def [symmetric] r1 split del: if_split)
    show ?thesis
    proof (cases "rp_armed r3")
      case True
      then have "g = False" and "\<not> standing_refusal db1" using r3(3) by auto
      then have "ld_held (rp_lead r)" using ans(3) g by simp
      moreover have "r' = r3" "db' = sweeps io r3 db1" using cyc True by auto
      ultimately show ?thesis using kept True held r3(1) st \<open>\<not> standing_refusal db1\<close> db1_def by simp
    next
      case False
      obtain v r4 db4 where a: "arm (rio_arm io) r3 db1 = (v, r4, db4)" by (cases rule: prod_cases3)
      have r4: "rp_lead r4 = l'" "rp_armed r4 = rp_armed r3"
        using a r3(1) by (auto simp: arm_def split: prod.splits sum.splits if_splits)
      show ?thesis
      proof (cases v)
        case ArmDone
        then have "r' = r4\<lparr>rp_armed := True\<rparr>" "db' = sweeps io r' db4" using cyc a False by (auto simp: Let_def)
        then show ?thesis using armed [of r3 r4 db4] a ArmDone r4 held r3(2) by (simp add: db1_def)
      next
        case ArmError
        then have "rp_armed r' = rp_armed r4" "db' = db4" using cyc a False by (auto split: prod.splits)
        then show ?thesis using unarmed [of r3 v r4] a ArmError r4 False by (simp add: db1_def)
      next
        case ArmRefused
        then have "r' = r4" "db' = db4" using cyc a False by auto
        then show ?thesis using unarmed [of r3 v r4] a ArmRefused r4 False by (simp add: db1_def)
      qed
    qed
  qed
qed

lemma reaper_cycle_rows:
  assumes wf: "lease_wf db" and res: "reaper_cycle io r locks db = (r', locks', db')"
    and conn: "conn_ok (rp_lead r)"
  shows "lease_wf db' \<and>
    rows_step (\<lambda>_ l'. rp_armed r' \<and> ld_held (rp_lead r') \<and> reaper_ending io db l') (leases db) (leases db') \<and>
    (rp_armed r' \<and> ld_held (rp_lead r') \<and> (\<not> ld_held (rp_lead r) \<or> standing_refusal db) \<longrightarrow>
      (\<exists>out db1. ReaperArm (fst (rio_arm io)) (snd (rio_arm io)) (rf_Components (rp_cfg r))
         (rf_GapFloor (rp_cfg r)) (reaper_beat (rio_beat io) r db) = (Inr out, db1) \<and> Armed out))"
  using res conn
proof (cases rule: reaper_cycle_cases)
  case standby
  then show ?thesis using wf by (simp add: reaper_beat_frame)
next
  case (unarmed ra rb v)
  have "lease_wf (reaper_beat (rio_beat io) r db)" using wf by (simp add: reaper_beat_frame)
  from arm_rows_step [OF this unarmed(1)] show ?thesis
    using unarmed(3) by (auto simp: reaper_beat_frame elim: rows_step_mono)
next
  case kept
  have w: "lease_wf (reaper_beat (rio_beat io) r db)" using wf by (simp add: reaper_beat_frame)
  from sweeps_rows [OF w, of db io r'] show ?thesis
    using kept by (simp add: reaper_beat_frame)
next
  case (armed ra rb db1)
  have w: "lease_wf (reaper_beat (rio_beat io) r db)" using wf by (simp add: reaper_beat_frame)
  note a = arm_rows_step [OF w armed(1)]
  have s: "lease_wf (sweeps io r' db1) \<and> rows_step (\<lambda>_. reaper_ending io db) (leases db1) (leases (sweeps io r' db1))"
    by (rule sweeps_rows) (use a in \<open>simp_all add: reaper_beat_frame\<close>)
  have "rows_step (\<lambda>_. reaper_ending io db) (leases db) (leases db1)"
    using a by (auto simp: reaper_beat_frame elim: rows_step_mono)
  from rows_step_trans [OF this] s have "rows_step (\<lambda>_. reaper_ending io db) (leases db) (leases db')"
    using armed(5) by simp
  then show ?thesis using armed a s by auto
qed

end
