(* ===== verification/Lease_Holder.thy ===== *)
theory Lease_Holder
  imports Lease_Store
begin

text \<open>
  \<^verbatim>\<open>internal/lease/holder.go\<close>: the process-side owner of one lease. The renewal goroutine and the
  callers of \<^verbatim>\<open>Stop\<close>, \<^verbatim>\<open>Release\<close> and \<^verbatim>\<open>Witness\<close> interleave, so the holder is a state machine: the
  loop waits on its timer, has a renewal in flight, or has exited, and a cancellation can arrive in
  any phase. The store is the argument \<open>renew\<close>/\<open>release\<close>/\<open>witness\<close>, as \<^verbatim>\<open>leaseOps\<close> is in the code.
  Logging and the observation hooks carry no state and are not modelled.
\<close>

section \<open>Configuration\<close>

record holder_config =
  Interval :: duration
  RenewTimeout :: duration
  RetryBase :: duration
  RetryMax :: duration
  ReleaseTimeout :: duration
  WitnessMaxExtensions :: int

definition DefaultRenewInterval :: duration where "DefaultRenewInterval = 60 * Second"
definition DefaultRenewTimeout :: duration where "DefaultRenewTimeout = 10 * Second"
definition DefaultRetryBase :: duration where "DefaultRetryBase = 1 * Second"
definition DefaultRetryMax :: duration where "DefaultRetryMax = 15 * Second"
definition DefaultReleaseTimeout :: duration where "DefaultReleaseTimeout = 15 * Second"

lemmas holder_defaults = DefaultRenewInterval_def DefaultRenewTimeout_def DefaultRetryBase_def
  DefaultRetryMax_def DefaultReleaseTimeout_def DefaultWitnessMaxExtensions_def Second_def

definition applyDefaults :: "holder_config \<Rightarrow> holder_config" where
  "applyDefaults c =
     (let base = or_default DefaultRetryBase (RetryBase c);
          mx = or_default DefaultRetryMax (RetryMax c)
      in \<lparr>Interval = or_default DefaultRenewInterval (Interval c),
          RenewTimeout = or_default DefaultRenewTimeout (RenewTimeout c),
          RetryBase = base,
          RetryMax = (if mx < base then base else mx),
          ReleaseTimeout = or_default DefaultReleaseTimeout (ReleaseTimeout c),
          WitnessMaxExtensions = or_default DefaultWitnessMaxExtensions (WitnessMaxExtensions c)\<rparr>)"

definition config_ok :: "holder_config \<Rightarrow> bool" where
  "config_ok c \<longleftrightarrow> 0 < Interval c \<and> 0 < RenewTimeout c \<and> 0 < RetryBase c \<and>
     RetryBase c \<le> RetryMax c \<and> 0 < ReleaseTimeout c \<and> 0 < WitnessMaxExtensions c"

lemma config_ok_applyDefaults: "config_ok (applyDefaults c)"
  by (auto simp: config_ok_def applyDefaults_def Let_def or_default_def holder_defaults)

section \<open>Backoff\<close>

text \<open>\<^verbatim>\<open>for i := 1; i < attempt && d < RetryMax; i++ { d *= 2 }\<close>, the product wrapping at 64 bits.\<close>

fun backoff_window :: "nat \<Rightarrow> duration \<Rightarrow> duration \<Rightarrow> duration" where
  "backoff_window 0 mx d = d"
| "backoff_window (Suc n) mx d = (if d < mx then backoff_window n mx (int64 (d * 2)) else d)"

text \<open>The random draw is the argument \<open>rnd\<close>: \<^verbatim>\<open>rand.Int64N(n)\<close> returns a value in \<open>[0, n)\<close>.\<close>

definition backoff :: "holder_config \<Rightarrow> (int \<Rightarrow> int) \<Rightarrow> int \<Rightarrow> duration" where
  "backoff cfg rnd attempt =
     (let n = nat ((if attempt < 1 then 1 else attempt) - 1);
          d0 = backoff_window n (RetryMax cfg) (RetryBase cfg);
          d = (if d0 > RetryMax cfg \<or> d0 \<le> 0 then RetryMax cfg else d0);
          half = d div 2
      in if half \<le> 0 then d else half + rnd (half + 1))"

definition is_rand :: "(int \<Rightarrow> int) \<Rightarrow> bool" where
  "is_rand rnd \<longleftrightarrow> (\<forall>n>0. 0 \<le> rnd n \<and> rnd n < n)"

lemma backoff_bounds:
  assumes "config_ok cfg" and "is_rand rnd"
  shows "0 < backoff cfg rnd attempt" and "backoff cfg rnd attempt \<le> RetryMax cfg"
proof -
  define n where "n = nat ((if attempt < 1 then 1 else attempt) - 1)"
  define d0 where "d0 = backoff_window n (RetryMax cfg) (RetryBase cfg)"
  define d where "d = (if d0 > RetryMax cfg \<or> d0 \<le> 0 then RetryMax cfg else d0)"
  have d: "0 < d" "d \<le> RetryMax cfg" using assms(1) by (auto simp: d_def config_ok_def)
  have b: "backoff cfg rnd attempt = (if d div 2 \<le> 0 then d else d div 2 + rnd (d div 2 + 1))"
    by (simp add: backoff_def Let_def d_def d0_def n_def)
  have r: "0 \<le> rnd (d div 2 + 1) \<and> rnd (d div 2 + 1) < d div 2 + 1" if "d div 2 > 0"
    using assms(2) [unfolded is_rand_def, rule_format, of "d div 2 + 1"] that by linarith
  show "0 < backoff cfg rnd attempt" using d r by (auto simp: b)
  show "backoff cfg rnd attempt \<le> RetryMax cfg" using d r by (auto simp: b)
qed

text \<open>
  Within the range where doubling cannot wrap the window is the capped exponential the comment
  describes. A cap above 2^62 ns, about 146 years, is where the wrapped product would matter.
\<close>

lemma backoff_window_exp:
  assumes "0 < d" and "d \<le> mx" and "mx \<le> 2 ^ 62"
  shows "0 < backoff_window n mx d \<and> min mx (backoff_window n mx d) = min mx (d * 2 ^ n)"
  using assms
proof (induction n arbitrary: d)
  case 0
  then show ?case by simp
next
  case (Suc n)
  have grow: "d * 2 \<le> d * 2 ^ Suc n"
    using \<open>0 < d\<close> by (intro mult_left_mono) auto
  show ?case
  proof (cases "d < mx")
    case False
    then have "mx \<le> d * 2 ^ Suc n" using grow \<open>0 < d\<close> by linarith
    moreover have "backoff_window (Suc n) mx d = mx" using False Suc.prems by simp
    ultimately show ?thesis using Suc.prems by (simp add: min_def del: power_Suc)
  next
    case True
    then have w: "backoff_window (Suc n) mx d = backoff_window n mx (d * 2)"
      using Suc.prems by (simp add: int64_id)
    show ?thesis
    proof (cases "d * 2 \<le> mx")
      case fits: True
      then show ?thesis using Suc.IH [of "d * 2"] Suc.prems w by (simp add: mult.assoc)
    next
      case False
      then have "backoff_window n mx (d * 2) = d * 2" by (cases n) auto
      moreover have "mx \<le> d * 2 ^ Suc n" using grow False by linarith
      ultimately show ?thesis using w False \<open>0 < d\<close> by (simp add: min_def del: power_Suc backoff_window.simps)
    qed
  qed
qed

section \<open>The holder\<close>

text \<open>Why the holder's context ended, as \<^verbatim>\<open>context.Cause\<close> reports it.\<close>

datatype cause = CauseFenced uuid | CauseStopped | CauseReleased | CauseParent

text \<open>
  Where the renewal goroutine is. \<open>Renewing\<close> carries the answer the store gave to the renewal in
  flight, \<open>None\<close> while it has not answered.
\<close>

datatype phase = Waiting | Renewing "(store_error + renew_result) option" | Exited

record holder =
  h_cfg :: holder_config
  h_cause :: "cause option"
  h_stopOnce :: bool
  h_phase :: phase
  h_timer :: duration
  h_lease :: lease
  h_lastRenewAt :: "timestamp option"
  h_renewals :: nat
  h_consecFailures :: int
  h_fenced :: bool

definition NewHolder :: "lease \<Rightarrow> holder_config \<Rightarrow> holder" where
  "NewHolder l cfg =
     (let c = applyDefaults cfg in
      \<lparr>h_cfg = c, h_cause = None, h_stopOnce = False, h_phase = Waiting, h_timer = Interval c,
       h_lease = l, h_lastRenewAt = None, h_renewals = 0, h_consecFailures = 0, h_fenced = False\<rparr>)"

text \<open>A context keeps its first cause.\<close>

definition cancel_ctx :: "cause \<Rightarrow> holder \<Rightarrow> holder" where
  "cancel_ctx c h = (case h_cause h of None \<Rightarrow> h\<lparr>h_cause := Some c\<rparr> | Some _ \<Rightarrow> h)"

text \<open>\<^verbatim>\<open>h.stopOnce.Do(func() { h.cancel(cause) })\<close>: the part of \<^verbatim>\<open>stop\<close> before it joins the loop.\<close>

definition stop_once :: "cause \<Rightarrow> holder \<Rightarrow> holder" where
  "stop_once c h = (if h_stopOnce h then h else cancel_ctx c (h\<lparr>h_stopOnce := True\<rparr>))"

definition Err :: "holder \<Rightarrow> cause option" where
  "Err h = h_cause h"

definition Fenced :: "holder \<Rightarrow> bool" where
  "Fenced h \<longleftrightarrow> h_fenced h \<or> (case h_cause h of Some (CauseFenced _) \<Rightarrow> True | _ \<Rightarrow> False)"

record holder_stats =
  st_Renewals :: nat
  st_ConsecutiveFailures :: int
  st_LastRenewAt :: "timestamp option"
  st_ExpiresAt :: timestamp
  st_ReclaimableAt :: timestamp

definition Stats :: "holder \<Rightarrow> holder_stats" where
  "Stats h = \<lparr>st_Renewals = h_renewals h, st_ConsecutiveFailures = h_consecFailures h,
     st_LastRenewAt = h_lastRenewAt h, st_ExpiresAt = ExpiresAt (h_lease h),
     st_ReclaimableAt = ReclaimableAt (h_lease h)\<rparr>"

section \<open>The renewal loop\<close>

definition renewOnce where
  "renewOnce renew k now h db = renew k now (ID (h_lease h)) (Fence (h_lease h)) (HolderInstance (h_lease h)) db"

definition onRenewed :: "timestamp \<Rightarrow> renew_result \<Rightarrow> holder \<Rightarrow> holder" where
  "onRenewed now res h =
     h\<lparr>h_lease := (h_lease h)\<lparr>ExpiresAt := rn_ExpiresAt res, ReclaimableAt := rn_ReclaimableAt res\<rparr>,
       h_lastRenewAt := Some now, h_renewals := (h_renewals h + 1) mod 2 ^ 64, h_consecFailures := 0\<rparr>"

definition markFenced :: "holder \<Rightarrow> holder" where
  "markFenced h = h\<lparr>h_fenced := True\<rparr>"

definition onTransientError :: "holder \<Rightarrow> holder" where
  "onTransientError h = h\<lparr>h_consecFailures := int64 (h_consecFailures h + 1)\<rparr>"

text \<open>The switch after \<^verbatim>\<open>renewOnce\<close>; leaving the loop is phase \<open>Exited\<close>.\<close>

definition run_switch :: "timestamp \<Rightarrow> (int \<Rightarrow> int) \<Rightarrow> store_error + renew_result \<Rightarrow> holder \<Rightarrow> holder" where
  "run_switch now rnd r h =
     (case r of
        Inr res \<Rightarrow> (onRenewed now res h)\<lparr>h_phase := Waiting, h_timer := Interval (h_cfg h)\<rparr>
      | Inl e \<Rightarrow>
          if e = ErrFenced then
            (stop_once (CauseFenced (ID (h_lease h))) (markFenced h))\<lparr>h_phase := Exited\<rparr>
          else if h_cause h \<noteq> None then h\<lparr>h_phase := Exited\<rparr>
          else (let h' = onTransientError h
                in h'\<lparr>h_phase := Waiting, h_timer := backoff (h_cfg h) rnd (h_consecFailures h')\<rparr>))"

text \<open>
  \<^verbatim>\<open>Holder.Witness\<close> and the store call of \<^verbatim>\<open>Holder.Release\<close>. The latter runs after \<^verbatim>\<open>stop\<close> returned,
  under a context that does not inherit the cancellation.
\<close>

definition holder_Witness where
  "holder_Witness witness k now h db =
     (case witness k now (ID (h_lease h)) (Fence (h_lease h)) (WitnessMaxExtensions (h_cfg h)) db of
        (Inl e, db') \<Rightarrow> (Inl e, h, db')
      | (Inr None, db') \<Rightarrow> (Inr None, h, db')
      | (Inr (Some t), db') \<Rightarrow>
          (Inr (Some t),
           (if t > ReclaimableAt (h_lease h)
            then h\<lparr>h_lease := (h_lease h)\<lparr>ReclaimableAt := t\<rparr>\<rparr> else h), db'))"

definition holder_Release where
  "holder_Release release k now reason rearm l db = release k now (ID l) (Fence l) reason rearm db"

text \<open>The time the release call is given: the caller's remaining budget, or the default when it is spent.\<close>

definition release_budget :: "holder \<Rightarrow> duration option \<Rightarrow> duration" where
  "release_budget h remaining =
     (case remaining of
        None \<Rightarrow> ReleaseTimeout (h_cfg h)
      | Some d \<Rightarrow> if d > 0 then d else ReleaseTimeout (h_cfg h))"

section \<open>Interleavings\<close>

text \<open>
  One step of the holder beside the database. \<open>env\<close> is everything else that may write to the
  database between two steps of this holder. A release is called at most once per step and only
  once the loop has exited, which is what \<^verbatim>\<open>stop\<close> waits for.
\<close>

inductive holder_step ::
  "('db \<Rightarrow> 'db \<Rightarrow> bool) \<Rightarrow>
   (link \<Rightarrow> timestamp \<Rightarrow> uuid \<Rightarrow> int \<Rightarrow> uuid \<Rightarrow> 'db \<Rightarrow> (store_error + renew_result) \<times> 'db) \<Rightarrow>
   (link \<Rightarrow> timestamp \<Rightarrow> uuid \<Rightarrow> int \<Rightarrow> string \<Rightarrow> duration \<Rightarrow> 'db \<Rightarrow> (store_error + bool) \<times> 'db) \<Rightarrow>
   (link \<Rightarrow> timestamp \<Rightarrow> uuid \<Rightarrow> int \<Rightarrow> int \<Rightarrow> 'db \<Rightarrow> (store_error + timestamp option) \<times> 'db) \<Rightarrow>
   holder \<times> 'db \<Rightarrow> holder \<times> 'db \<Rightarrow> bool"
  for env renew release witness where
  loop_done: "h_phase h = Waiting \<Longrightarrow> h_cause h \<noteq> None \<Longrightarrow>
    holder_step env renew release witness (h, db) (h\<lparr>h_phase := Exited\<rparr>, db)"
| timer_fires: "h_phase h = Waiting \<Longrightarrow>
    holder_step env renew release witness (h, db) (h\<lparr>h_phase := Renewing None\<rparr>, db)"
| store_answers: "h_phase h = Renewing None \<Longrightarrow> renewOnce renew k now h db = (r, db') \<Longrightarrow>
    holder_step env renew release witness (h, db) (h\<lparr>h_phase := Renewing (Some r)\<rparr>, db')"
| loop_switches: "h_phase h = Renewing (Some r) \<Longrightarrow> is_rand rnd \<Longrightarrow>
    holder_step env renew release witness (h, db) (run_switch now rnd r h, db)"
| caller_stops: "c = CauseStopped \<or> c = CauseReleased \<Longrightarrow>
    holder_step env renew release witness (h, db) (stop_once c h, db)"
| parent_ends: "holder_step env renew release witness (h, db) (cancel_ctx CauseParent h, db)"
| caller_witnesses: "holder_Witness witness k now h db = (t, h', db') \<Longrightarrow>
    holder_step env renew release witness (h, db) (h', db')"
| caller_releases: "h_phase h = Exited \<Longrightarrow> h_stopOnce h \<Longrightarrow>
    holder_Release release k now reason rearm (h_lease h) db = (b, db') \<Longrightarrow>
    holder_step env renew release witness (h, db) (h, db')"
| others: "env db db' \<Longrightarrow> holder_step env renew release witness (h, db) (h, db')"

inductive_cases holder_stepE: "holder_step env renew release witness (h, db) (h', db')"

section \<open>What holds in every interleaving\<close>

definition same_identity :: "lease \<Rightarrow> holder \<Rightarrow> bool" where
  "same_identity l h \<longleftrightarrow> ID (h_lease h) = ID l \<and> Fence (h_lease h) = Fence l \<and>
     HolderInstance (h_lease h) = HolderInstance l \<and> JobID (h_lease h) = JobID l"

definition holder_ok :: "lease \<Rightarrow> holder \<Rightarrow> bool" where
  "holder_ok l h \<longleftrightarrow> config_ok (h_cfg h) \<and> same_identity l h \<and> 0 < h_timer h \<and>
     h_timer h \<le> max (Interval (h_cfg h)) (RetryMax (h_cfg h)) \<and>
     (h_phase h = Exited \<longrightarrow> h_cause h \<noteq> None) \<and> (h_stopOnce h \<longrightarrow> h_cause h \<noteq> None) \<and>
     (h_fenced h \<longrightarrow> h_phase h = Exited) \<and>
     (\<forall>i. h_cause h = Some (CauseFenced i) \<longrightarrow> h_fenced h)"

text \<open>The store has told this holder that its lease is gone, or is about to be heard saying so.\<close>

definition told_fenced :: "holder \<Rightarrow> bool" where
  "told_fenced h \<longleftrightarrow> h_fenced h \<or> h_phase h = Renewing (Some (Inl ErrFenced))"

lemma holder_ok_NewHolder:
  "holder_ok l (NewHolder l cfg)" "\<not> told_fenced (NewHolder l cfg)"
  using config_ok_applyDefaults [of cfg]
  by (auto simp: holder_ok_def NewHolder_def Let_def same_identity_def told_fenced_def config_ok_def)

lemma holder_ok_cancel: "holder_ok l h \<Longrightarrow> (\<And>i. c \<noteq> CauseFenced i) \<Longrightarrow> holder_ok l (cancel_ctx c h)"
  by (auto simp: holder_ok_def cancel_ctx_def same_identity_def split: option.splits)

lemma holder_ok_stop: "holder_ok l h \<Longrightarrow> (\<And>i. c \<noteq> CauseFenced i) \<Longrightarrow> holder_ok l (stop_once c h)"
  by (auto simp: holder_ok_def stop_once_def cancel_ctx_def same_identity_def split: option.splits)

lemma told_fenced_cancel [simp]: "told_fenced (cancel_ctx c h) = told_fenced h"
  by (simp add: told_fenced_def cancel_ctx_def split: option.split)

lemma told_fenced_stop [simp]: "told_fenced (stop_once c h) = told_fenced h"
  by (simp add: told_fenced_def stop_once_def cancel_ctx_def split: option.split)

lemma holder_ok_switch:
  assumes ok: "holder_ok l h" and ph: "h_phase h = Renewing (Some r)" and rnd: "is_rand rnd"
  shows "holder_ok l (run_switch now rnd r h)"
proof -
  have nf: "\<not> h_fenced h" using ok ph by (auto simp: holder_ok_def)
  have b: "0 < backoff (h_cfg h) rnd n" "backoff (h_cfg h) rnd n \<le> max (Interval (h_cfg h)) (RetryMax (h_cfg h))" for n
    using backoff_bounds [OF _ rnd, of "h_cfg h" n] ok by (auto simp: holder_ok_def)
  show ?thesis
  proof (cases r)
    case (Inr res)
    then show ?thesis using ok nf
      by (auto simp: run_switch_def onRenewed_def holder_ok_def same_identity_def config_ok_def)
  next
    case (Inl e)
    then show ?thesis using ok nf b
      by (auto simp: run_switch_def holder_ok_def same_identity_def stop_once_def cancel_ctx_def
          markFenced_def onTransientError_def Let_def split: option.splits)
  qed
qed

lemma told_fenced_switch:
  "h_phase h = Renewing (Some r) \<Longrightarrow> told_fenced (run_switch now rnd r h) \<Longrightarrow> told_fenced h"
  by (auto simp: run_switch_def told_fenced_def onRenewed_def stop_once_def cancel_ctx_def
      markFenced_def onTransientError_def Let_def split: sum.splits if_splits option.splits)

lemma holder_ok_witness:
  assumes "holder_ok l h" and "holder_Witness witness k now h db = (t, h', db')"
  shows "holder_ok l h'" and "told_fenced h' = told_fenced h"
  using assms by (auto simp: holder_Witness_def holder_ok_def same_identity_def told_fenced_def
      split: prod.splits sum.splits option.splits if_splits)

text \<open>
  A holder among other writers: whatever they do keeps the store's invariant and does not hand this
  lease back to this process incarnation once it has lost it.
\<close>

locale lease_holder = lease_ops +
  fixes env :: "'a \<Rightarrow> 'a \<Rightarrow> bool" and l :: lease
  assumes env_inv: "inv db \<Longrightarrow> env db db' \<Longrightarrow> inv db'"
    and env_stable: "inv db \<Longrightarrow> env db db' \<Longrightarrow> owned db' (ID l) (Fence l) (HolderInstance l) \<Longrightarrow>
          owned db (ID l) (Fence l) (HolderInstance l)"
begin

definition truthful :: "holder \<times> 'a \<Rightarrow> bool" where
  "truthful s \<longleftrightarrow> holder_ok l (fst s) \<and> inv (snd s) \<and>
     (told_fenced (fst s) \<longrightarrow> \<not> owned (snd s) (ID l) (Fence l) (HolderInstance l))"

lemma truthful_step:
  assumes step: "holder_step env renew release witness s s'" and ok: "truthful s"
  shows "truthful s'"
  using step ok
proof (induction rule: holder_step.induct)
  case (store_answers h k now db r db')
  have id: "ID (h_lease h) = ID l" "Fence (h_lease h) = Fence l" "HolderInstance (h_lease h) = HolderInstance l"
    using store_answers.prems by (auto simp: truthful_def holder_ok_def same_identity_def)
  have i: "inv db" and ho: "holder_ok l h" using store_answers.prems by (auto simp: truthful_def)
  have rn: "renew k now (ID l) (Fence l) (HolderInstance l) db = (r, db')"
    using store_answers.hyps by (simp add: renewOnce_def id)
  have "\<not> h_fenced h" using ho store_answers.hyps by (auto simp: holder_ok_def)
  then have "holder_ok l (h\<lparr>h_phase := Renewing (Some r)\<rparr>)"
    using ho by (auto simp: holder_ok_def same_identity_def)
  moreover have "\<not> owned db' (ID l) (Fence l) (HolderInstance l)" if "r = Inl ErrFenced"
    using renew_fenced [OF i] rn that by blast
  ultimately show ?case using renew_inv [OF i rn] \<open>\<not> h_fenced h\<close>
    by (auto simp: truthful_def told_fenced_def)
next
  case (loop_switches h r rnd db now)
  then show ?case using holder_ok_switch told_fenced_switch by (auto simp: truthful_def)
next
  case (caller_witnesses k now h db t h' db')
  obtain t' where w: "witness k now (ID (h_lease h)) (Fence (h_lease h)) (WitnessMaxExtensions (h_cfg h)) db = (t', db')"
    using caller_witnesses.hyps
    by (auto simp: holder_Witness_def split: prod.splits sum.splits option.splits if_splits)
  then show ?case
    using caller_witnesses holder_ok_witness [OF _ caller_witnesses.hyps] witness_inv [OF _ w]
      witness_keeps [OF _ w] by (auto simp: truthful_def)
next
  case (caller_releases h k now reason rearm db b db')
  then have "release k now (ID (h_lease h)) (Fence (h_lease h)) reason rearm db = (b, db')"
    by (simp add: holder_Release_def)
  then show ?case using caller_releases.prems release_inv release_shrinks by (auto simp: truthful_def)
next
  case (others db db' h)
  then show ?case using env_inv env_stable by (auto simp: truthful_def)
next
  case (caller_stops c h db)
  then show ?case using holder_ok_stop [of l h c] by (auto simp: truthful_def)
next
  case (parent_ends h db)
  then show ?case using holder_ok_cancel [of l h CauseParent] by (auto simp: truthful_def)
qed (auto simp: truthful_def holder_ok_def same_identity_def told_fenced_def)

lemma truthful_reachable:
  assumes "(holder_step env renew release witness)\<^sup>*\<^sup>* (NewHolder l cfg, db0) s" and "inv db0"
  shows "truthful s"
  using assms
proof (induction rule: rtranclp_induct)
  case base
  then show ?case using holder_ok_NewHolder by (simp add: truthful_def)
qed (blast intro: truthful_step)

lemma fenced_is_lost:
  assumes "(holder_step env renew release witness)\<^sup>*\<^sup>* (NewHolder l cfg, db0) (h, db)" and "inv db0"
    and "Fenced h"
  shows "\<not> owned db (ID l) (Fence l) (HolderInstance l)"
proof -
  have t: "truthful (h, db)" by (rule truthful_reachable [OF assms(1,2)])
  have "told_fenced h"
    using t assms(3) by (auto simp: Fenced_def truthful_def holder_ok_def told_fenced_def
        split: option.splits cause.splits)
  with t show ?thesis by (simp add: truthful_def)
qed

end

end
