(* ===== verification/Scheduler_Loop.thy ===== *)
theory Scheduler_Loop
  imports Leadership Lease_Evolution Lease_Holder
begin

text \<open>
  \<^verbatim>\<open>internal/scheduler/scheduler.go\<close>: one poll of the scheduler. It reads the queue, asks
  \<^verbatim>\<open>farm.lease_acquire\<close> for each job that is not deferred, not in a pool that already answered "no
  capacity" this cycle and within its quotas, moves a placed job to running, and unwinds the one
  grant it can find itself holding for a job that finished meanwhile. Its outcomes are the labels it
  counts placements under, so a cycle returns them, in order, with the job each is about.
\<close>

section \<open>Configuration and state\<close>

record sched_config =
  sf_Component :: string
  sf_Holder :: string
  sf_HolderInstance :: uuid
  sf_Interval :: duration
  sf_IdleInterval :: duration
  sf_Batch :: int
  sf_JobBackoff :: duration
  sf_JobBackoffMax :: duration
  sf_CallTimeout :: duration
  sf_SlotRearm :: duration
  sf_LockKey :: int

definition SchedDefaultLockKey :: int where "SchedDefaultLockKey = 0x6661726d5363686c"

definition sched_applyDefaults :: "sched_config \<Rightarrow> sched_config" where
  "sched_applyDefaults c =
     (let iv = or_default (2 * Second) (sf_Interval c);
          jb = or_default (3 * Second) (sf_JobBackoff c)
      in \<lparr>sf_Component = (if sf_Component c = [] then ''scheduler'' else sf_Component c),
          sf_Holder = sf_Holder c, sf_HolderInstance = sf_HolderInstance c,
          sf_Interval = iv,
          sf_IdleInterval = (if sf_IdleInterval c < iv then max (20 * Second) iv else sf_IdleInterval c),
          sf_Batch = or_default 32 (sf_Batch c),
          sf_JobBackoff = jb,
          sf_JobBackoffMax = (if sf_JobBackoffMax c < jb then max (120 * Second) jb else sf_JobBackoffMax c),
          sf_CallTimeout = or_default (10 * Second) (sf_CallTimeout c),
          sf_SlotRearm = or_default DefaultRearm (sf_SlotRearm c),
          sf_LockKey = (if sf_LockKey c = 0 then SchedDefaultLockKey else sf_LockKey c)\<rparr>)"

record deferral =
  df_until :: int
  df_tries :: int

record scheduler =
  sc_cfg :: sched_config
  sc_lead :: leadership
  sc_deferred :: "uuid \<Rightarrow> deferral option"

definition sched_New :: "sched_config \<Rightarrow> scheduler option" where
  "sched_New cfg =
     (if sf_Holder cfg = [] then None
      else let c = sched_applyDefaults cfg in
           Some \<lparr>sc_cfg = c, sc_lead = \<lparr>ld_key = sf_LockKey c, ld_conn = None, ld_held = False\<rparr>,
                 sc_deferred = (\<lambda>_. None)\<rparr>)"

definition sched_jitter :: "(int \<Rightarrow> int) \<Rightarrow> duration \<Rightarrow> duration" where
  "sched_jitter rnd d = (if d \<le> 0 then d else d - rnd (d div 4 + 1))"

section \<open>The queue poll\<close>

record candidate =
  ca_ID :: uuid
  ca_PoolID :: string
  ca_TenantID :: string
  ca_QueueID :: string
  ca_Pinned :: bool
  ca_tenantCap :: int
  ca_queueCap :: int
  ca_tenantHeld :: int
  ca_queueHeld :: int

definition withinQuota :: "candidate \<Rightarrow> bool" where
  "withinQuota c =
     (if ca_tenantCap c > 0 \<and> ca_tenantHeld c \<ge> ca_tenantCap c then False
      else if ca_queueCap c > 0 \<and> ca_queueHeld c \<ge> ca_queueCap c then False
      else True)"

definition live_count :: "(lease_row \<Rightarrow> bool) \<Rightarrow> farm \<Rightarrow> int" where
  "live_count P db = int (length (filter (\<lambda>l. is_live l \<and> P l) (leases db)))"

definition candidates :: "int \<Rightarrow> farm \<Rightarrow> candidate list" where
  "candidates batch db =
     map snd (order_limit fst (nat batch)
       (concat (map (\<lambda>j. concat (map (\<lambda>q. map (\<lambda>t.
             ((qu_priority q, j_created_at j),
              \<lparr>ca_ID = j_id j, ca_PoolID = j_pool j, ca_TenantID = j_tenant j, ca_QueueID = j_queue j,
               ca_Pinned = (j_pin_device j \<noteq> None),
               ca_tenantCap = tn_max_devices t, ca_queueCap = qu_max_devices q,
               ca_tenantHeld = live_count (\<lambda>l. l_tenant l = j_tenant j) db,
               ca_queueHeld = live_count (\<lambda>l. l_queue l = j_queue j) db\<rparr>))
            (filter (\<lambda>t. tn_id t = j_tenant j) (tenants db)))
          (filter (\<lambda>q. qu_id q = j_queue j) (queues db))))
        (filter (\<lambda>j. j_state j = Queued) (jobs db)))))"

section \<open>Job bookkeeping\<close>

definition mark_running_row :: "timestamp \<Rightarrow> job_row \<Rightarrow> job_row" where
  "mark_running_row now j = j\<lparr>j_state := Running,
     j_started_at := (case j_started_at j of Some t \<Rightarrow> Some t | None \<Rightarrow> Some now)\<rparr>"

definition markRunning :: "link \<Rightarrow> timestamp \<Rightarrow> uuid \<Rightarrow> farm \<Rightarrow> (db_error + bool) \<times> farm" where
  "markRunning k now jobID db =
     (let P = (\<lambda>j. j_id j = jobID \<and> (j_state j = Queued \<or> j_state j = Allocating)) in
      round_trip k (\<lambda>db. Inr (length (filter P (jobs db)) = 1,
         db\<lparr>jobs := update_where P (mark_running_row now) (jobs db)\<rparr>)) db)"

text \<open>\<open>Inr None\<close>: the job vanished.\<close>

definition jobState :: "link \<Rightarrow> uuid \<Rightarrow> farm \<Rightarrow> db_error + job_state option" where
  "jobState k jobID db = fst (round_trip k (\<lambda>db. Inr (map_option j_state (job_by_id db jobID), db)) db)"

definition unwind_reason :: "job_state \<Rightarrow> string option" where
  "unwind_reason s = (case s of Cancelled \<Rightarrow> Some ''job_cancelled'' | Failed \<Rightarrow> Some ''failed''
     | Succeeded \<Rightarrow> Some ''completed'' | _ \<Rightarrow> None)"

section \<open>Placing one job\<close>

text \<open>What the wire, the clock and the random source do to one job's calls.\<close>

record job_io =
  ji_cancelled :: bool
  ji_rnd :: "int \<Rightarrow> int"
  ji_acquire :: "link \<times> timestamp"
  ji_new_id :: uuid
  ji_may_log :: bool
  ji_mark :: "link \<times> timestamp"
  ji_state :: link
  ji_release :: "link \<times> timestamp"

definition unwind :: "job_io \<Rightarrow> scheduler \<Rightarrow> uuid \<Rightarrow> lease \<Rightarrow> farm \<Rightarrow> string \<times> farm" where
  "unwind io s jobID l db =
     (case jobState (ji_state io) jobID db of
        Inl _ \<Rightarrow> (''state_write_failed'', db)
      | Inr None \<Rightarrow> (''state_write_failed'', db)
      | Inr (Some st) \<Rightarrow>
          (case unwind_reason st of
             None \<Rightarrow> (''raced'', db)
           | Some reason \<Rightarrow>
               (case Release (fst (ji_release io)) (snd (ji_release io)) (ID l) (Fence l) reason
                       (sf_SlotRearm (sc_cfg s)) db of
                  (Inl _, db') \<Rightarrow> (''unwind_failed'', db')
                | (Inr ok, db') \<Rightarrow> (if ok then ''unwound'' else ''nothing_to_unwind'', db'))))"

definition onAcquired :: "job_io \<Rightarrow> scheduler \<Rightarrow> uuid \<Rightarrow> acquire_result \<Rightarrow> farm \<Rightarrow> string \<times> farm" where
  "onAcquired io s jobID res db =
     (case markRunning (fst (ji_mark io)) (snd (ji_mark io)) jobID db of
        (Inl _, db') \<Rightarrow> (''state_write_failed'', db')
      | (Inr True, db') \<Rightarrow> (''placed'', db')
      | (Inr False, db') \<Rightarrow> unwind io s jobID (ac_Lease res) db')"

text \<open>\<^verbatim>\<open>defer_\<close>.\<close>

definition defer_job :: "(int \<Rightarrow> int) \<Rightarrow> int \<Rightarrow> uuid \<Rightarrow> scheduler \<Rightarrow> scheduler" where
  "defer_job rnd now jobID s =
     (let d = (case sc_deferred s jobID of None \<Rightarrow> \<lparr>df_until = 0, df_tries = 0\<rparr> | Some d \<Rightarrow> d);
          tries = df_tries d + 1;
          w0 = backoff_window (nat (tries - 1)) (sf_JobBackoffMax (sc_cfg s)) (sf_JobBackoff (sc_cfg s));
          w = (if w0 > sf_JobBackoffMax (sc_cfg s) then sf_JobBackoffMax (sc_cfg s) else w0)
      in s\<lparr>sc_deferred := (sc_deferred s)(jobID := Some \<lparr>df_until = now + sched_jitter rnd w, df_tries = tries\<rparr>)\<rparr>)"

definition pruneDeferrals :: "int \<Rightarrow> scheduler \<Rightarrow> scheduler" where
  "pruneDeferrals now s =
     (let cutoff = now - sf_JobBackoffMax (sc_cfg s) in
      s\<lparr>sc_deferred := (\<lambda>i. case sc_deferred s i of None \<Rightarrow> None
          | Some d \<Rightarrow> if df_until d < cutoff then None else Some d)\<rparr>)"

definition sched_acquire :: "job_io \<Rightarrow> scheduler \<Rightarrow> uuid \<Rightarrow> farm \<Rightarrow> (store_error + acquire_result) \<times> farm" where
  "sched_acquire io s jobID db =
     Acquire (fst (ji_acquire io)) (snd (ji_acquire io)) (ji_new_id io) (ji_may_log io) jobID
       (sf_Holder (sc_cfg s)) (sf_HolderInstance (sc_cfg s)) db"

section \<open>The cycle\<close>

text \<open>
  The loop over the batch. The flag returned says whether the loop ran to its end (or was cut short
  by its context), as opposed to returning early on an acquire error.
\<close>

fun place_loop ::
  "(uuid \<Rightarrow> job_io) \<Rightarrow> int \<Rightarrow> string list \<Rightarrow> candidate list \<Rightarrow> scheduler \<Rightarrow> farm
   \<Rightarrow> (candidate \<times> string) list \<times> nat \<times> bool \<times> scheduler \<times> farm" where
  "place_loop io now exhausted [] s db = ([], 0, True, s, db)"
| "place_loop io now exhausted (j # js) s db =
     (if ji_cancelled (io (ca_ID j)) then ([], 0, True, s, db)
      else if (case sc_deferred s (ca_ID j) of None \<Rightarrow> False | Some d \<Rightarrow> now < df_until d)
      then place_loop io now exhausted js s db
      else if ca_PoolID j \<in> set exhausted then place_loop io now exhausted js s db
      else if \<not> withinQuota j then
        (let s' = defer_job (ji_rnd (io (ca_ID j))) now (ca_ID j) s;
             (out, n, fin, s'', db'') = place_loop io now exhausted js s' db
         in ((j, ''quota'') # out, n, fin, s'', db''))
      else
        (case sched_acquire (io (ca_ID j)) s (ca_ID j) db of
           (Inl ErrNoCapacity, db') \<Rightarrow>
             (let s' = defer_job (ji_rnd (io (ca_ID j))) now (ca_ID j) s;
                  ex' = (if \<not> ca_Pinned j then ca_PoolID j # exhausted else exhausted);
                  (out, n, fin, s'', db'') = place_loop io now ex' js s' db'
              in ((j, ''no_capacity'') # out, n, fin, s'', db''))
         | (Inl ErrJobNotFound, db') \<Rightarrow>
             (let s' = s\<lparr>sc_deferred := (sc_deferred s)(ca_ID j := None)\<rparr>;
                  (out, n, fin, s'', db'') = place_loop io now exhausted js s' db'
              in ((j, ''job_gone'') # out, n, fin, s'', db''))
         | (Inl _, db') \<Rightarrow> ([(j, ''error'')], 0, False, s, db')
         | (Inr res, db') \<Rightarrow>
             (let s' = s\<lparr>sc_deferred := (sc_deferred s)(ca_ID j := None)\<rparr>;
                  (o1, db1) = onAcquired (io (ca_ID j)) s' (ca_ID j) res db';
                  (out, n, fin, s'', db'') = place_loop io now exhausted js s' db1
              in ((j, o1) # out, n + 1, fin, s'', db''))))"

record sched_io =
  sio_beat :: "link \<times> timestamp"
  sio_ensure :: ensure_io
  sio_poll :: link
  sio_now :: int
  sio_jobs :: "uuid \<Rightarrow> job_io"

definition sched_cycle ::
  "sched_io \<Rightarrow> scheduler \<Rightarrow> pg_locks \<Rightarrow> farm \<Rightarrow> (candidate \<times> string) list \<times> nat \<times> scheduler \<times> pg_locks \<times> farm" where
  "sched_cycle io s0 locks db0 =
     (let db = snd (ComponentBeat (fst (sio_beat io)) (snd (sio_beat io)) (sf_Component (sc_cfg s0)) db0) in
      case ensure (sio_ensure io) (sc_lead s0) locks of
        (EnsureError, l', locks') \<Rightarrow> ([], 0, s0\<lparr>sc_lead := l'\<rparr>, locks', db)
      | (Ensured g ld, l', locks') \<Rightarrow>
          (let s = s0\<lparr>sc_lead := l'\<rparr> in
           if \<not> ld then ([], 0, s, locks', db)
           else if sio_poll io \<noteq> Up then ([], 0, s, locks', db)
           else
             (case place_loop (sio_jobs io) (sio_now io) [] (candidates (sf_Batch (sc_cfg s)) db) s db of
                (out, n, fin, s', db') \<Rightarrow>
                  (out, n, (if fin then pruneDeferrals (sio_now io) s' else s'), locks', db'))))"

text \<open>How long the loop sleeps: a cycle that placed something polls again soon.\<close>

definition sched_wait :: "(int \<Rightarrow> int) \<Rightarrow> scheduler \<Rightarrow> nat \<Rightarrow> duration" where
  "sched_wait rnd s placed =
     sched_jitter rnd (if placed = 0 then sf_IdleInterval (sc_cfg s) else sf_Interval (sc_cfg s))"

section \<open>What a cycle keeps\<close>

lemma lease_wf_jobs:
  assumes "lease_wf db" and "\<And>j. P j \<Longrightarrow> job_ok j \<Longrightarrow> job_ok (f j)"
  shows "lease_wf (db\<lparr>jobs := update_where P f (jobs db)\<rparr>)"
  using assms by (auto simp: lease_wf_def list_all_iff set_update_where)

lemma markRunning_keeps:
  assumes "markRunning k now i db = (r, db')"
  shows "leases db' = leases db" and "lease_wf db \<Longrightarrow> lease_wf db'"
proof -
  let ?P = "\<lambda>j. j_id j = i \<and> (j_state j = Queued \<or> j_state j = Allocating)"
  have "db' = db \<or> db' = db\<lparr>jobs := update_where ?P (mark_running_row now) (jobs db)\<rparr>"
    using assms by (auto simp: markRunning_def Let_def dest!: round_trip_db)
  then show "leases db' = leases db" and "lease_wf db \<Longrightarrow> lease_wf db'"
    by (auto intro!: lease_wf_jobs simp: mark_running_row_def job_ok_def)
qed

text \<open>The one release the scheduler issues: the lease it was handed, for the job's own reason.\<close>

definition job_ended_it :: "farm \<Rightarrow> uuid \<Rightarrow> lease \<Rightarrow> lease_row \<Rightarrow> bool" where
  "job_ended_it db jobID l l' \<longleftrightarrow> l_id l' = ID l \<and> l_fence l' = Fence l \<and>
     (\<exists>j r. job_by_id db jobID = Some j \<and> unwind_reason (j_state j) = Some r \<and> l_release_reason l' = Some r)"

lemma jobState_Inr: "jobState k i db = Inr x \<Longrightarrow> x = map_option j_state (job_by_id db i)"
  by (auto simp: jobState_def round_trip_def split: link.splits)

lemma unwind_rows:
  assumes wf: "lease_wf db" and res: "unwind io s jobID l db = (out, db')"
  shows "lease_wf db' \<and> rows_step (\<lambda>_. job_ended_it db jobID l) (leases db) (leases db')"
proof (cases "\<exists>st r. jobState (ji_state io) jobID db = Inr (Some st) \<and> unwind_reason st = Some r")
  case False
  then have "db' = db" using res by (auto simp: unwind_def split: sum.splits option.splits)
  then show ?thesis using wf by simp
next
  case True
  then obtain st r where st: "jobState (ji_state io) jobID db = Inr (Some st)" "unwind_reason st = Some r" by blast
  obtain b where rel: "Release (fst (ji_release io)) (snd (ji_release io)) (ID l) (Fence l) r
      (sf_SlotRearm (sc_cfg s)) db = (b, db')"
    using res st by (auto simp: unwind_def split: prod.splits sum.splits)
  have "\<exists>j. job_by_id db jobID = Some j \<and> j_state j = st" using jobState_Inr [OF st(1)] by (cases "job_by_id db jobID") auto
  then show ?thesis
    using Release_rows [OF wf rel] st(2) by (auto simp: job_ended_it_def elim: rows_step_mono)
qed

lemma onAcquired_rows:
  assumes wf: "lease_wf db" and res: "onAcquired io s jobID a db = (out, db')"
  shows "lease_wf db' \<and> (\<exists>db1. jobs db1 = jobs (snd (markRunning (fst (ji_mark io)) (snd (ji_mark io)) jobID db)) \<and>
     rows_step (\<lambda>_. job_ended_it db1 jobID (ac_Lease a)) (leases db) (leases db'))"
proof -
  obtain m db1 where m: "markRunning (fst (ji_mark io)) (snd (ji_mark io)) jobID db = (m, db1)" by fastforce
  note k = markRunning_keeps [OF m]
  show ?thesis
  proof (cases "m = Inr False")
    case False
    then have "db' = db1" using res m by (auto simp: onAcquired_def split: sum.splits bool.splits)
    then show ?thesis using k wf by (auto intro!: exI [of _ db1] simp: m)
  next
    case True
    then have "unwind io s jobID (ac_Lease a) db1 = (out, db')" using res m by (simp add: onAcquired_def)
    from unwind_rows [OF k(2) [OF wf] this] show ?thesis using k(1) by (auto intro!: exI [of _ db1] simp: m)
  qed
qed

definition job_reasons :: "string list" where
  "job_reasons = [''job_cancelled'', ''failed'', ''completed'']"

definition ended_by_job :: "lease_row \<Rightarrow> bool" where
  "ended_by_job l' \<longleftrightarrow> (\<exists>r\<in>set job_reasons. l_release_reason l' = Some r)"

lemma unwind_reason_job: "unwind_reason st = Some r \<Longrightarrow> r \<in> set job_reasons"
  by (cases st) (auto simp: unwind_reason_def job_reasons_def)

lemma job_ended_it_reason: "job_ended_it db i l l' \<Longrightarrow> ended_by_job l'"
  using unwind_reason_job by (auto simp: job_ended_it_def ended_by_job_def)

lemma onAcquired_keeps:
  assumes "lease_wf db" and "onAcquired io s jobID a db = (out, db')"
  shows "lease_wf db' \<and> follows ended_by_job (leases db) (leases db')"
  using onAcquired_rows [OF assms]
  by (auto intro!: follows_rows elim!: rows_step_mono intro: job_ended_it_reason)

lemma sched_acquire_keeps:
  assumes "lease_wf db" and "sched_acquire io s i db = (r, db')"
  shows "lease_wf db' \<and> follows R (leases db) (leases db')"
  using assms unfolding sched_acquire_def Acquire_def
  by (auto intro: lease_wf_AcquireAs follows_no_ending AcquireAs_evolves)

lemma place_loop_keeps:
  assumes "place_loop io now ex js s db = (out, n, fin, s', db')" and "lease_wf db"
  shows "lease_wf db' \<and> follows ended_by_job (leases db) (leases db')"
  using assms
proof (induction io now ex js s db arbitrary: out n fin s' db' rule: place_loop.induct)
  case (1 io now ex s db)
  then show ?case by auto
next
  case (2 io now ex j js s db)
  show ?case
  proof (cases "ji_cancelled (io (ca_ID j)) \<or> (case sc_deferred s (ca_ID j) of None \<Rightarrow> False | Some d \<Rightarrow> now < df_until d)
      \<or> ca_PoolID j \<in> set ex \<or> \<not> withinQuota j")
    case True
    then show ?thesis using "2.prems" "2.IH"(1-3)
      by (auto simp: Let_def split: prod.splits if_splits)
  next
    case False
    obtain r db1 where a: "sched_acquire (io (ca_ID j)) s (ca_ID j) db = (r, db1)" by fastforce
    note k = sched_acquire_keeps [OF "2.prems"(2) a, of ended_by_job]
    show ?thesis
    proof (cases r)
      case (Inl e)
      then show ?thesis using "2.prems" "2.IH"(4,5) False a k
        by (cases e) (auto simp: Let_def split: prod.splits option.splits intro: follows_trans)
    next
      case (Inr res)
      let ?s = "s\<lparr>sc_deferred := (sc_deferred s)(ca_ID j := None)\<rparr>"
      obtain o1 db2 where o: "onAcquired (io (ca_ID j)) ?s (ca_ID j) res db1 = (o1, db2)" by fastforce
      have k1: "lease_wf db1" "follows ended_by_job (leases db) (leases db1)" using k by auto
      have k2: "lease_wf db2" "follows ended_by_job (leases db1) (leases db2)"
        using onAcquired_keeps [OF k1(1) o] by auto
      obtain out' n' fin' s'' db'' where p: "place_loop io now ex js ?s db2 = (out', n', fin', s'', db'')"
        by (cases "place_loop io now ex js ?s db2") auto
      have "db' = db''" using "2.prems"(1) False a Inr o p by (auto simp: Let_def split: option.splits)
      moreover have "lease_wf db'' \<and> follows ended_by_job (leases db2) (leases db'')"
        using "2.IH"(6) [OF _ _ _ _ a [symmetric]] False Inr o p k2(1) by (auto split: option.splits)
      ultimately show ?thesis using k1(2) k2(2) by (meson follows_trans)
    qed
  qed
qed

section \<open>What a cycle attempts\<close>

definition skipped :: "int \<Rightarrow> string list \<Rightarrow> candidate \<Rightarrow> scheduler \<Rightarrow> bool" where
  "skipped now ex j s \<longleftrightarrow>
     (case sc_deferred s (ca_ID j) of None \<Rightarrow> False | Some d \<Rightarrow> now < df_until d) \<or> ca_PoolID j \<in> set ex"

text \<open>One turn of the loop, by what it met.\<close>

lemma place_loop_ConsE:
  assumes "place_loop io now ex (j # js) s db = (out, n, fin, s', db')"
  obtains (stop) "out = []" "n = 0"
  | (skip) "skipped now ex j s" "place_loop io now ex js s db = (out, n, fin, s', db')"
  | (quota) out' s1 where "\<not> skipped now ex j s" "\<not> withinQuota j" "out = (j, ''quota'') # out'"
      "place_loop io now ex js s1 db = (out', n, fin, s', db')"
  | (full) out' s1 db1 where "\<not> skipped now ex j s" "withinQuota j" "out = (j, ''no_capacity'') # out'"
      "place_loop io now (if \<not> ca_Pinned j then ca_PoolID j # ex else ex) js s1 db1 = (out', n, fin, s', db')"
  | (gone) out' s1 db1 where "\<not> skipped now ex j s" "withinQuota j" "out = (j, ''job_gone'') # out'"
      "place_loop io now ex js s1 db1 = (out', n, fin, s', db')"
  | (failed) "\<not> skipped now ex j s" "withinQuota j" "out = [(j, ''error'')]" "n = 0" "\<not> fin"
  | (got) out' s1 res db1 o1 db2 n' where "\<not> skipped now ex j s" "withinQuota j"
      "onAcquired (io (ca_ID j)) s1 (ca_ID j) res db1 = (o1, db2)" "out = (j, o1) # out'" "n = n' + 1"
      "place_loop io now ex js s1 db2 = (out', n', fin, s', db')"
proof (cases "ji_cancelled (io (ca_ID j)) \<or> skipped now ex j s \<or> \<not> withinQuota j")
  case True
  then show ?thesis
    using assms stop skip quota
    by (auto simp: skipped_def Let_def split: if_splits option.splits prod.splits)
next
  case False
  obtain r db1 where a: "sched_acquire (io (ca_ID j)) s (ca_ID j) db = (r, db1)" by fastforce
  show ?thesis
  proof (cases r)
    case (Inl e)
    show ?thesis
      using assms False a Inl full gone failed
      by (cases e) (auto simp: skipped_def Let_def split: option.splits prod.splits)
  next
    case (Inr res)
    let ?s = "s\<lparr>sc_deferred := (sc_deferred s)(ca_ID j := None)\<rparr>"
    obtain o1 db2 where o: "onAcquired (io (ca_ID j)) ?s (ca_ID j) res db1 = (o1, db2)" by fastforce
    obtain out' n' fin' s'' db'' where p: "place_loop io now ex js ?s db2 = (out', n', fin', s'', db'')"
      by (cases "place_loop io now ex js ?s db2") auto
    have "out = (j, o1) # out'" "n = n' + 1" "fin' = fin" "s'' = s'" "db'' = db'"
      using assms False a Inr o p by (auto simp: skipped_def Let_def split: option.splits)
    then show ?thesis using got [OF _ _ o] False p by blast
  qed
qed

lemma onAcquired_outcome:
  assumes "onAcquired io s i a db = (out, db')"
  shows "out \<noteq> ''quota'' \<and> out \<noteq> ''no_capacity'' \<and> out \<noteq> ''error''"
  using assms by (auto simp: onAcquired_def unwind_def split: prod.splits sum.splits bool.splits option.splits if_splits)

lemma place_loop_attempts:
  assumes "place_loop io now ex js s db = (out, n, fin, s', db')" and "(c, r) \<in> set out"
  shows "c \<in> set js \<and> ca_PoolID c \<notin> set ex \<and> (r = ''quota'' \<longleftrightarrow> \<not> withinQuota c)"
  using assms
proof (induction js arbitrary: ex s db out n)
  case Nil
  then show ?case by simp
next
  case (Cons j js)
  from Cons.prems(1) show ?case
  proof (cases rule: place_loop_ConsE)
    case (full out' s1 db1)
    then show ?thesis using Cons.prems(2) Cons.IH [OF full(4)] by (auto simp: skipped_def split: if_splits)
  next
    case (got out' s1 res db1 o1 db2 n')
    then show ?thesis using Cons.prems(2) Cons.IH [OF got(6)] onAcquired_outcome [OF got(3)]
      by (auto simp: skipped_def)
  next
    case (quota out' s1)
    then show ?thesis using Cons.prems(2) Cons.IH [OF quota(4)] by (auto simp: skipped_def)
  next
    case (gone out' s1 db1)
    then show ?thesis using Cons.prems(2) Cons.IH [OF gone(4)] by (auto simp: skipped_def)
  next
    case skip
    then show ?thesis using Cons.prems(2) Cons.IH [OF skip(2)] by auto
  qed (use Cons.prems(2) in \<open>auto simp: skipped_def\<close>)
qed

text \<open>The pools whose exhaustion was learnt from an unpinned job, in the order it was learnt.\<close>

definition full_pools :: "(candidate \<times> string) list \<Rightarrow> string list" where
  "full_pools out = map (ca_PoolID \<circ> fst) (filter (\<lambda>(c, r). r = ''no_capacity'' \<and> \<not> ca_Pinned c) out)"

lemma full_pools_simps [simp]:
  "full_pools [] = []"
  "full_pools ((c, r) # out) =
     (if r = ''no_capacity'' \<and> \<not> ca_Pinned c then ca_PoolID c # full_pools out else full_pools out)"
  by (simp_all add: full_pools_def)

lemma full_pools_fresh:
  assumes "place_loop io now ex js s db = (out, n, fin, s', db')" and "p \<in> set ex"
  shows "p \<notin> set (full_pools out)"
  using place_loop_attempts [OF assms(1)] assms(2) by (auto simp: full_pools_def)

lemma place_loop_full_pools:
  assumes "place_loop io now ex js s db = (out, n, fin, s', db')"
  shows "distinct (full_pools out)"
  using assms
proof (induction js arbitrary: ex s db out n)
  case Nil
  then show ?case by simp
next
  case (Cons j js)
  from Cons.prems(1) show ?case
  proof (cases rule: place_loop_ConsE)
    case (full out' s1 db1)
    then show ?thesis using Cons.IH [OF full(4)] full_pools_fresh [OF full(4), of "ca_PoolID j"] by auto
  next
    case (got out' s1 res db1 o1 db2 n')
    then show ?thesis using Cons.IH [OF got(6)] onAcquired_outcome [OF got(3)] by auto
  qed (use Cons.IH in auto)
qed

end
