(* ===== verification/Watchdog_Damper.thy ===== *)
theory Watchdog_Damper
  imports Farm_Schema
begin

text \<open>
  The health plane: \<^verbatim>\<open>internal/adbwire/device.go\<close> (connection states), \<^verbatim>\<open>internal/watchdog/damper.go\<close>
  (the decision that turns an observation into a health value, in SQL and in Go) and the statement
  of \<^verbatim>\<open>internal/watchdog/watchdog.go\<close> that evaluates it against the row: hysteresis in both
  directions and a token bucket on the way back up. \<^verbatim>\<open>flap_credits\<close> is \<^verbatim>\<open>numeric(6,2)\<close>, so what is
  stored is rounded to cents; the arithmetic before that is exact here.
\<close>

section \<open>Connection states\<close>

definition conn_text :: "conn_state \<Rightarrow> string" where
  "conn_text s = (case s of StateDevice \<Rightarrow> ''device'' | StateOffline \<Rightarrow> ''offline''
     | StateUnauthorized \<Rightarrow> ''unauthorized'' | StateAuthorizing \<Rightarrow> ''authorizing''
     | StateConnecting \<Rightarrow> ''connecting'' | StateDetached \<Rightarrow> ''detached''
     | StateNoPermissions \<Rightarrow> ''no_permissions'' | StateBootloader \<Rightarrow> ''bootloader''
     | StateRecovery \<Rightarrow> ''recovery'' | StateSideload \<Rightarrow> ''sideload'' | StateRescue \<Rightarrow> ''rescue''
     | StateHost \<Rightarrow> ''host'' | StateAbsent \<Rightarrow> ''absent'' | StateUnknown \<Rightarrow> ''unknown'')"

definition all_conn_states :: "conn_state list" where
  "all_conn_states = [StateDevice, StateOffline, StateUnauthorized, StateAuthorizing, StateConnecting,
     StateDetached, StateNoPermissions, StateBootloader, StateRecovery, StateSideload, StateRescue,
     StateHost, StateAbsent, StateUnknown]"

text \<open>\<^verbatim>\<open>strings.ToLower\<close>, \<^verbatim>\<open>TrimSpace\<close>, \<^verbatim>\<open>HasPrefix\<close> and \<^verbatim>\<open>Contains\<close> on ASCII text.\<close>

definition lower_char :: "char \<Rightarrow> char" where
  "lower_char c = (if of_char c \<ge> (65::nat) \<and> of_char c \<le> (90::nat) then char_of (of_char c + 32::nat) else c)"

definition is_space :: "char \<Rightarrow> bool" where
  "is_space c \<longleftrightarrow> (let n = of_char c :: nat in n = 32 \<or> 9 \<le> n \<and> n \<le> 13)"

definition trim_space :: "string \<Rightarrow> string" where
  "trim_space s = rev (dropWhile is_space (rev (dropWhile is_space s)))"

fun has_prefix :: "string \<Rightarrow> string \<Rightarrow> bool" where
  "has_prefix [] s = True"
| "has_prefix (c # p) [] = False"
| "has_prefix (c # p) (d # s) = (c = d \<and> has_prefix p s)"

fun contains :: "string \<Rightarrow> string \<Rightarrow> bool" where
  "contains p [] = (p = [])"
| "contains p (c # s) = (has_prefix p (c # s) \<or> contains p s)"

definition ParseConnState :: "string \<Rightarrow> conn_state" where
  "ParseConnState raw =
     (let s = map lower_char (trim_space raw) in
      case List.find (\<lambda>st. conn_text st = s) all_conn_states of
        Some st \<Rightarrow> st
      | None \<Rightarrow>
          if s = [] then StateUnknown
          else if contains ''permission'' s then StateNoPermissions
          else if has_prefix ''unauthorized'' s then StateUnauthorized
          else if has_prefix ''authorizing'' s then StateAuthorizing
          else if has_prefix ''connecting'' s then StateConnecting
          else StateUnknown)"

section \<open>The damper\<close>

definition HealthFor :: "conn_state \<Rightarrow> health" where
  "HealthFor s = (case s of
       StateDevice \<Rightarrow> HHealthy
     | StateOffline \<Rightarrow> HOffline
     | StateUnauthorized \<Rightarrow> HUnauthorized
     | StateAuthorizing \<Rightarrow> HBooting | StateConnecting \<Rightarrow> HBooting
     | StateAbsent \<Rightarrow> HMissing | StateDetached \<Rightarrow> HMissing
     | StateBootloader \<Rightarrow> HRecovering | StateRecovery \<Rightarrow> HRecovering
     | StateSideload \<Rightarrow> HRecovering | StateRescue \<Rightarrow> HRecovering
     | StateNoPermissions \<Rightarrow> HDegraded
     | _ \<Rightarrow> HUnknown)"

text \<open>The CASE expression; \<open>bad\<close> is a column of the row source, not derived.\<close>

definition DamperSQL :: "health \<Rightarrow> bool \<Rightarrow> health \<Rightarrow> bool \<Rightarrow> int \<Rightarrow> int \<Rightarrow> rat \<Rightarrow> int \<Rightarrow> int \<Rightarrow> health" where
  "DamperSQL cur_health suppressed candidate bad consec_bad consec_good credits min_bad min_good =
     (if cur_health \<in> {HRetired, HQuarantined, HParked} then cur_health
      else if suppressed then cur_health
      else if candidate = cur_health then cur_health
      else if \<not> bad \<and> cur_health = HUnknown \<and> credits \<ge> 1 then candidate
      else if bad \<and> consec_bad \<ge> min_bad then candidate
      else if \<not> bad \<and> consec_good \<ge> min_good \<and> credits \<ge> 1 then candidate
      else cur_health)"

record damp_input =
  di_Current :: health
  di_Candidate :: health
  di_Suppressed :: bool
  di_ConsecBad :: int
  di_ConsecGood :: int
  di_Credits :: rat
  di_MinBad :: int
  di_MinGood :: int

definition Damp :: "damp_input \<Rightarrow> health" where
  "Damp i =
     (let bad = (di_Candidate i \<noteq> HHealthy) in
      if di_Current i = HRetired \<or> di_Current i = HQuarantined \<or> di_Current i = HParked then di_Current i
      else if di_Suppressed i then di_Current i
      else if di_Candidate i = di_Current i then di_Current i
      else if \<not> bad \<and> di_Current i = HUnknown \<and> di_Credits i \<ge> 1 then di_Candidate i
      else if bad \<and> di_ConsecBad i \<ge> di_MinBad i then di_Candidate i
      else if \<not> bad \<and> di_ConsecGood i \<ge> di_MinGood i \<and> di_Credits i \<ge> 1 then di_Candidate i
      else di_Current i)"

section \<open>One reconcile write\<close>

record watch_config =
  wc_FlapCap :: rat
  wc_FlapRefill :: rat
  wc_MinBad :: int
  wc_MinGood :: int

record observation =
  ob_host :: "string option"
  ob_slot :: "int option"
  ob_state :: conn_state
  ob_transport :: "int option"
  ob_epoch :: "int option"

record write_result =
  wr_Previous :: health
  wr_Next :: health
  wr_Candidate :: health
  wr_Credits :: rat
  wr_ConsecBad :: int
  wr_ConsecGood :: int
  wr_Suppressed :: bool

definition damped :: "write_result \<Rightarrow> bool" where
  "damped r \<longleftrightarrow> wr_Next r \<noteq> wr_Candidate r"

text \<open>What \<^verbatim>\<open>numeric(6,2)\<close> stores: two decimals, half away from zero.\<close>

definition cents :: "rat \<Rightarrow> rat" where
  "cents q = (if q \<ge> 0 then of_int \<lfloor>q * 100 + 1 / 2\<rfloor> / 100 else - (of_int \<lfloor>- q * 100 + 1 / 2\<rfloor> / 100))"

definition refilled :: "watch_config \<Rightarrow> timestamp \<Rightarrow> runtime_row \<Rightarrow> rat" where
  "refilled cfg now r = min (wc_FlapCap cfg)
     (r_flap_credits r + of_int (now - r_flap_updated_at r) / 1000000 / 60 * wc_FlapRefill cfg)"

definition is_suppressed :: "timestamp \<Rightarrow> runtime_row \<Rightarrow> bool" where
  "is_suppressed now r \<longleftrightarrow> (case r_suppress_until r of None \<Rightarrow> False | Some t \<Rightarrow> t > now)"

text \<open>The park guard of migration 00008: a parked device's health is held.\<close>

definition trg_device_runtime_park_guard :: "device_row list \<Rightarrow> runtime_row \<Rightarrow> runtime_row \<Rightarrow> runtime_row" where
  "trg_device_runtime_park_guard ds old new =
     (if r_health old = HParked \<and> r_health new \<noteq> r_health old \<and>
         (\<exists>d\<in>set ds. d_id d = r_device old \<and> d_admin_state d = ''parked'')
      then new\<lparr>r_health := r_health old, r_health_since := r_health_since old\<rparr> else new)"

definition or_keep :: "'a option \<Rightarrow> 'a option \<Rightarrow> 'a option" where
  "or_keep new old = (case new of Some x \<Rightarrow> Some x | None \<Rightarrow> old)"

definition reconcile_row :: "watch_config \<Rightarrow> timestamp \<Rightarrow> observation \<Rightarrow> runtime_row \<Rightarrow> runtime_row" where
  "reconcile_row cfg now o' r =
     (let candidate = HealthFor (ob_state o');
          bad = (candidate \<noteq> HHealthy);
          credits = refilled cfg now r;
          cb = (if bad then r_consec_bad r + 1 else 0);
          cg = (if bad then 0 else r_consec_good r + 1);
          nxt = DamperSQL (r_health r) (is_suppressed now r) candidate bad cb cg credits
                  (wc_MinBad cfg) (wc_MinGood cfg)
      in r\<lparr>r_adb_state := ob_state o',
           r_host := or_keep (ob_host o') (r_host r),
           r_slot := or_keep (ob_slot o') (r_slot r),
           r_transport_id := or_keep (ob_transport o') (r_transport_id r),
           r_host_epoch := or_keep (ob_epoch o') (r_host_epoch r),
           r_consec_bad := cb, r_consec_good := cg,
           r_health := nxt,
           r_health_since := (if nxt \<noteq> r_health r then now else r_health_since r),
           r_flap_credits := cents (if nxt \<noteq> r_health r \<and> \<not> bad then max 0 (credits - 1) else credits),
           r_flap_updated_at := now,
           r_last_seen_at := (if ob_state o' = StateAbsent then r_last_seen_at r else Some now),
           r_updated_at := now\<rparr>)"

text \<open>The statement on one device; no row means no row returned.\<close>

definition reconcileSQL ::
  "watch_config \<Rightarrow> timestamp \<Rightarrow> uuid \<Rightarrow> observation \<Rightarrow> farm \<Rightarrow> write_result option \<times> farm" where
  "reconcileSQL cfg now dev o' db =
     (case runtime_by_device db dev of
        None \<Rightarrow> (None, db)
      | Some r \<Rightarrow>
          (let f = (\<lambda>r. trg_device_runtime_park_guard (devices db) r (reconcile_row cfg now o' r));
               r' = f r
           in (Some \<lparr>wr_Previous = r_health r, wr_Next = r_health r',
                     wr_Candidate = HealthFor (ob_state o'), wr_Credits = refilled cfg now r,
                     wr_ConsecBad = r_consec_bad r', wr_ConsecGood = r_consec_good r',
                     wr_Suppressed = is_suppressed now r\<rparr>,
               db\<lparr>runtimes := update_where (\<lambda>r. r_device r = dev) f (runtimes db)\<rparr>)))"

section \<open>What the damper guarantees\<close>

lemma ParseConnState_all: "list_all (\<lambda>s. ParseConnState (conn_text s) = s) all_conn_states"
  by code_simp

lemma ParseConnState_conn_text: "ParseConnState (conn_text s) = s"
proof -
  have "s \<in> set all_conn_states" by (cases s) (auto simp: all_conn_states_def)
  then show ?thesis using ParseConnState_all by (auto simp: list_all_iff)
qed

text \<open>A health value changes only in these three ways.\<close>

lemma DamperSQL_change:
  assumes "DamperSQL cur supp cand bad cb cg credits mb mg = h" and "h \<noteq> cur"
  shows "h = cand" and "cur \<notin> {HRetired, HQuarantined, HParked}" and "\<not> supp"
    and "bad \<and> mb \<le> cb \<or> \<not> bad \<and> 1 \<le> credits \<and> (cur = HUnknown \<or> mg \<le> cg)"
  using assms by (auto simp: DamperSQL_def split: if_splits)

lemma park_guard_health:
  "r_health (trg_device_runtime_park_guard ds old new) = r_health new \<or>
   r_health (trg_device_runtime_park_guard ds old new) = r_health old"
  by (simp add: trg_device_runtime_park_guard_def)

lemma reconcile_row_health:
  "r_health (reconcile_row cfg now o' r) =
     DamperSQL (r_health r) (is_suppressed now r) (HealthFor (ob_state o')) (HealthFor (ob_state o') \<noteq> HHealthy)
       (if HealthFor (ob_state o') \<noteq> HHealthy then r_consec_bad r + 1 else 0)
       (if HealthFor (ob_state o') \<noteq> HHealthy then 0 else r_consec_good r + 1)
       (refilled cfg now r) (wc_MinBad cfg) (wc_MinGood cfg)"
  by (simp add: reconcile_row_def Let_def)

section \<open>The token bucket\<close>

lemma cents_upper: "cents q \<le> q + 1 / 200"
proof -
  have "of_int \<lfloor>q * 100 + 1 / 2\<rfloor> \<le> q * 100 + 1 / 2" by linarith
  moreover have "- q * 100 + 1 / 2 < of_int \<lfloor>- q * 100 + 1 / 2\<rfloor> + 1" by linarith
  ultimately show ?thesis by (auto simp: cents_def field_simps)
qed

lemma cents_nonneg: "0 \<le> q \<Longrightarrow> 0 \<le> cents q"
  by (simp add: cents_def)

text \<open>A write that makes the device healthy costs a token, up to the cent the column rounds to.\<close>

definition rises :: "watch_config \<Rightarrow> timestamp \<Rightarrow> observation \<Rightarrow> runtime_row \<Rightarrow> bool" where
  "rises cfg now o' r \<longleftrightarrow> r_health r \<noteq> HHealthy \<and> r_health (reconcile_row cfg now o' r) = HHealthy"

lemma rise_costs:
  assumes "rises cfg now o' r"
  shows "1 \<le> refilled cfg now r"
    and "r_flap_credits (reconcile_row cfg now o' r) \<le> refilled cfg now r - 1 + 1 / 200"
proof -
  let ?c = "HealthFor (ob_state o')"
  have ch: "r_health (reconcile_row cfg now o' r) \<noteq> r_health r" using assms by (auto simp: rises_def)
  note D = DamperSQL_change [OF reconcile_row_health [symmetric] ch]
  have good: "?c = HHealthy" using D(1) assms by (simp add: rises_def)
  show one: "1 \<le> refilled cfg now r" using D(4) good by auto
  have "r_flap_credits (reconcile_row cfg now o' r) = cents (max 0 (refilled cfg now r - 1))"
    using ch good by (simp add: reconcile_row_def Let_def)
  then show "r_flap_credits (reconcile_row cfg now o' r) \<le> refilled cfg now r - 1 + 1 / 200"
    using cents_upper [of "max 0 (refilled cfg now r - 1)"] one by simp
qed

lemma no_rise_credits:
  "r_flap_credits (reconcile_row cfg now o' r) \<le> max 0 (refilled cfg now r) + 1 / 200"
proof -
  have "cents (max 0 (refilled cfg now r - 1)) \<le> max 0 (refilled cfg now r) + 1 / 200"
    using cents_upper [of "max 0 (refilled cfg now r - 1)"] by linarith
  moreover have "cents (refilled cfg now r) \<le> max 0 (refilled cfg now r) + 1 / 200"
    using cents_upper [of "refilled cfg now r"] by linarith
  ultimately show ?thesis by (simp add: reconcile_row_def Let_def)
qed

text \<open>A run of writes, each with its instant, and how often it brought the device back to healthy.\<close>

fun rise_count :: "watch_config \<Rightarrow> (timestamp \<times> observation) list \<Rightarrow> runtime_row \<Rightarrow> nat" where
  "rise_count cfg [] r = 0"
| "rise_count cfg ((t, o') # ws) r =
     (if rises cfg t o' r then 1 else 0) + rise_count cfg ws (reconcile_row cfg t o' r)"

fun in_order :: "timestamp \<Rightarrow> (timestamp \<times> observation) list \<Rightarrow> bool" where
  "in_order t [] = True"
| "in_order t ((u, _) # ws) = (t \<le> u \<and> in_order u ws)"

definition last_time :: "timestamp \<Rightarrow> (timestamp \<times> observation) list \<Rightarrow> timestamp" where
  "last_time t ws = (if ws = [] then t else fst (last ws))"

lemma last_time_simps [simp]: "last_time t [] = t" "last_time t ((u, x) # ws) = last_time u ws"
  by (auto simp: last_time_def)

lemma refilled_nonneg:
  assumes "0 \<le> r_flap_credits r" "0 \<le> wc_FlapCap cfg" "0 \<le> wc_FlapRefill cfg" "r_flap_updated_at r \<le> now"
  shows "0 \<le> refilled cfg now r"
  using assms by (simp add: refilled_def)

lemma reconcile_row_updated [simp]: "r_flap_updated_at (reconcile_row cfg now o' r) = now"
  by (simp add: reconcile_row_def Let_def)

lemma reconcile_row_credits_nonneg:
  "0 \<le> refilled cfg now r \<Longrightarrow> 0 \<le> r_flap_credits (reconcile_row cfg now o' r)"
  by (simp add: reconcile_row_def Let_def cents_nonneg)

lemma rise_budget:
  assumes "0 \<le> r_flap_credits r" "0 \<le> wc_FlapCap cfg" "0 \<le> wc_FlapRefill cfg"
    and "in_order (r_flap_updated_at r) ws"
  shows "of_nat (rise_count cfg ws r) \<le> r_flap_credits r
    + of_int (last_time (r_flap_updated_at r) ws - r_flap_updated_at r) / 1000000 / 60 * wc_FlapRefill cfg
    + of_nat (length ws) / 200"
  using assms
proof (induction ws arbitrary: r)
  case Nil
  then show ?case by simp
next
  case (Cons w ws)
  obtain t x where w: "w = (t, x)" by fastforce
  let ?r = "reconcile_row cfg t x r" and ?k = "wc_FlapRefill cfg"
  have t: "r_flap_updated_at r \<le> t" using Cons.prems(4) w by simp
  have nn: "0 \<le> refilled cfg t r" using Cons.prems t by (intro refilled_nonneg)
  have ih: "of_nat (rise_count cfg ws ?r) \<le> r_flap_credits ?r
      + of_int (last_time t ws - t) / 1000000 / 60 * ?k + of_nat (length ws) / 200"
    using Cons.IH [of ?r] Cons.prems w reconcile_row_credits_nonneg [OF nn] by simp
  have step: "r_flap_credits ?r + (if rises cfg t x r then 1 else 0) \<le> refilled cfg t r + 1 / 200"
    using rise_costs(2) [of cfg t x r] no_rise_credits [of cfg t x r] nn by auto
  have ref: "refilled cfg t r \<le> r_flap_credits r + of_int (t - r_flap_updated_at r) / 1000000 / 60 * ?k"
    by (simp add: refilled_def)
  have split: "of_int (last_time t ws - r_flap_updated_at r) / 1000000 / 60 * ?k =
      of_int (last_time t ws - t) / 1000000 / 60 * ?k + of_int (t - r_flap_updated_at r) / 1000000 / 60 * ?k"
    by (simp add: field_simps)
  show ?case using ih step ref split by (simp add: w field_simps split: if_splits)
qed

section \<open>Hysteresis\<close>

definition good_obs :: "timestamp \<times> observation \<Rightarrow> bool" where
  "good_obs w \<longleftrightarrow> HealthFor (ob_state (snd w)) = HHealthy"

definition run_writes :: "watch_config \<Rightarrow> (timestamp \<times> observation) list \<Rightarrow> runtime_row \<Rightarrow> runtime_row" where
  "run_writes cfg ws r = foldl (\<lambda>r (t, o'). reconcile_row cfg t o' r) r ws"

lemma run_writes_simps [simp]:
  "run_writes cfg [] r = r"
  "run_writes cfg (ws @ [(t, o')]) r = reconcile_row cfg t o' (run_writes cfg ws r)"
  by (simp_all add: run_writes_def)

text \<open>The counter is the length of the run of good writes that ends now.\<close>

lemma consec_good_streak:
  assumes "r_consec_good r = 0"
  shows "r_consec_good (run_writes cfg ws r) = int (length (takeWhile good_obs (rev ws)))"
proof (induction ws rule: rev_induct)
  case (snoc w ws)
  then show ?case by (cases w) (simp add: reconcile_row_def Let_def good_obs_def)
qed (simp add: assms)

lemma consec_bad_streak:
  assumes "r_consec_bad r = 0"
  shows "r_consec_bad (run_writes cfg ws r) = int (length (takeWhile (\<lambda>w. \<not> good_obs w) (rev ws)))"
proof (induction ws rule: rev_induct)
  case (snoc w ws)
  then show ?case by (cases w) (simp add: reconcile_row_def Let_def good_obs_def)
qed (simp add: assms)

lemma takeWhile_take:
  assumes "n \<le> length (takeWhile P xs)" shows "list_all P (take n xs)"
  using assms
proof (induction xs arbitrary: n)
  case (Cons x xs)
  then show ?case by (cases n) (auto split: if_splits)
qed simp

end
