(* ===== verification/Lease_Api.thy ===== *)
theory Lease_Api
  imports Lease_Evolution Watchdog_Damper
begin

text \<open>
  The operator's path of \<^verbatim>\<open>internal/api/leases.go\<close>: revoking a lease by id, without its fence, in
  one transaction that closes the row, raises the device's floor, rearms the slot and writes the
  audit row and the event. The transaction is one step: a failure anywhere rolls it back, and a
  commit whose answer is lost leaves it done. Also the UUID shape check of \<^verbatim>\<open>router.go\<close>.
\<close>

section \<open>Request validation\<close>

definition is_hex_char :: "char \<Rightarrow> bool" where
  "is_hex_char c \<longleftrightarrow> (let n = of_char c :: nat in
     48 \<le> n \<and> n \<le> 57 \<or> 97 \<le> n \<and> n \<le> 102 \<or> 65 \<le> n \<and> n \<le> 70)"

definition looksLikeUUID :: "string \<Rightarrow> bool" where
  "looksLikeUUID s \<longleftrightarrow> length s = 36 \<and>
     list_all (\<lambda>i. if i \<in> {8, 13, 18, 23} then s ! i = CHR ''-'' else is_hex_char (s ! i)) [0..<36]"

section \<open>The transaction\<close>

datatype revoke_reply =
    RevokeBadRequest string | RevokeNotFound | RevokeConflict lease_state | RevokeFailed
  | RevokeOk uuid uuid int int  \<comment> \<open>device, job, revoked fence, new floor\<close>

text \<open>\<^verbatim>\<open>%f seconds\<close>: six decimals, so the nearest microsecond.\<close>

definition intervalSeconds :: "duration \<Rightarrow> interval" where
  "intervalSeconds d = (d + 500) div 1000"

definition revoke_detail :: "lease_row \<Rightarrow> int \<Rightarrow> jobject" where
  "revoke_detail l floor' =
     [(''lease_id'', JInt (int (l_id l))), (''device_id'', JInt (int (l_device l))),
      (''job_id'', JInt (int (l_job l))), (''tenant_id'', JStr (l_tenant l)),
      (''holder'', JStr (l_holder l)), (''revoked_fence'', JInt (l_fence l)),
      (''new_fence_floor'', JInt floor')]"

definition append_audit :: "audit_row \<Rightarrow> farm \<Rightarrow> farm" where
  "append_audit a db = db\<lparr>audit_log := audit_log db @ [a]\<rparr>"

definition revoke_tx ::
  "timestamp \<Rightarrow> uuid \<Rightarrow> string \<Rightarrow> string \<Rightarrow> interval \<Rightarrow> farm \<Rightarrow> sql_error + revoke_reply option \<times> farm" where
  "revoke_tx now lid who reason rearm db =
     bindR (update_leases now (\<lambda>l. l_id l = lid \<and> is_live l) (close_row Released now ''operator_revoked'') db)
       (\<lambda>(rows, db1). case rows of
            [] \<Rightarrow> Inr (None, db1)
          | l # _ \<Rightarrow>
              (let db2 = bump_floors (\<lambda>d. d_id d = l_device l) db1 in
               case device_by_id db2 (l_device l) of
                 None \<Rightarrow> Inl NoDataFound
               | Some d \<Rightarrow>
                   (let floor' = d_fence_floor d;
                        db3 = (case l_slot l of None \<Rightarrow> db2
                                | Some s \<Rightarrow> rearm_slots (\<lambda>r. s_id r = s) (now + rearm) db2);
                        db4 = append_audit \<lparr>au_actor = who, au_action = ''lease.revoke'',
                                au_subject = ''lease:'' @ nat_str lid, au_reason = Some reason,
                                au_detail = revoke_detail l floor'\<rparr> db3
                    in Inr (Some (RevokeOk (l_device l) (l_job l) (l_fence l) floor'),
                         append_event \<lparr>e_at = now, e_kind = ''lease_revoked'', e_device = Some (l_device l),
                           e_slot = l_slot l, e_lease = Some lid, e_job = Some (l_job l),
                           e_actor = Some who, e_detail = revoke_detail l floor'\<rparr> db4))))"

text \<open>
  The handler: \<open>idText\<close> is the path value and \<open>lid\<close> the identifier it denotes, \<open>body\<close> the decoded
  reason or \<open>None\<close> for a body that does not decode.
\<close>

definition handleLeaseRevoke ::
  "link \<Rightarrow> link \<Rightarrow> timestamp \<Rightarrow> string \<Rightarrow> uuid \<Rightarrow> string option \<Rightarrow> string \<Rightarrow> duration \<Rightarrow> farm
   \<Rightarrow> revoke_reply \<times> farm" where
  "handleLeaseRevoke k kstate now idText lid body who slotRearm db =
     (if \<not> looksLikeUUID (trim_space idText) then (RevokeBadRequest ''lease id must be a uuid'', db)
      else case body of
        None \<Rightarrow> (RevokeBadRequest ''bad json'', db)
      | Some raw \<Rightarrow>
          if trim_space raw = [] then (RevokeBadRequest ''reason is required'', db)
          else
            (case round_trip k (revoke_tx now lid who (trim_space raw)
                     (intervalSeconds (or_default DefaultRearm slotRearm))) db of
               (Inr (Some r), db') \<Rightarrow> (r, db')
             | (Inr None, db') \<Rightarrow>
                 (if kstate \<noteq> Up then (RevokeFailed, db')
                  else case lease_by_id db' lid of
                         None \<Rightarrow> (RevokeNotFound, db') | Some l \<Rightarrow> (RevokeConflict (l_state l), db'))
             | (Inl _, db') \<Rightarrow> (RevokeFailed, db')))"

section \<open>What it does\<close>

lemma append_audit_frame [simp]:
  "leases (append_audit a db) = leases db" "devices (append_audit a db) = devices db"
  "jobs (append_audit a db) = jobs db" "fence_seq (append_audit a db) = fence_seq db"
  "slots (append_audit a db) = slots db" "events (append_audit a db) = events db"
  by (simp_all add: append_audit_def)

text \<open>A revoke that found a live lease closes exactly that row and keeps the invariant.\<close>

lemma revoke_tx_live:
  assumes wf: "lease_wf db" and l: "l \<in> set (leases db)" "l_id l = lid" "is_live l"
  shows "\<exists>floor' db'. revoke_tx now lid who reason rearm db =
      Inr (Some (RevokeOk (l_device l) (l_job l) (l_fence l) floor'), db') \<and> lease_wf db' \<and>
      l_fence l < floor' \<and> map_option d_fence_floor (device_by_id db' (l_device l)) = Some floor' \<and>
      leases db' = update_where (\<lambda>l. l_id l = lid \<and> is_live l) (close_row Released now ''operator_revoked'') (leases db)"
proof -
  let ?P = "\<lambda>l. l_id l = lid \<and> is_live l" and ?f = "close_row Released now ''operator_revoked''"
  have hit: "filter ?P (leases db) = [l]"
    using l by (intro filter_keyed [OF lease_wfD(1) [OF wf]]) auto
  obtain db1 where upd: "update_leases now ?P ?f db = Inr (map ?f (filter ?P (leases db)), db1)"
    and ls: "leases db1 = update_where ?P ?f (leases db)"
    and ok: "lease_wf (bump_floors (\<lambda>d. d_id d \<in> l_device ` set (map ?f (filter ?P (leases db)))) db1)"
    by (rule sweep_succeeds [OF wf, where st = Released and r = "''operator_revoked''" and P = ?P and now = now])
      (auto simp: release_reasons_def)
  define db2 where "db2 = bump_floors (\<lambda>d. d_id d = l_device l) db1"
  have wf2: "lease_wf db2" using ok hit by (simp add: db2_def)
  have mem: "?f l \<in> set (leases db2)" using l by (auto simp: db2_def ls set_update_where)
  obtain d where d: "d \<in> set (devices db2)" "d_id d = l_device l" using device_exists [OF wf2 mem] by auto
  have dev: "device_by_id db2 (l_device l) = Some d" using device_by_id_wf [OF wf2 d(1)] d(2) by simp
  have fl: "l_fence l < d_fence_floor d"
    using lease_device [OF wf2 mem d(1)] d(2) by (simp add: close_row_live)
  have frame: "lease_wf db'" if "leases db' = leases db2" "devices db' = devices db2" "jobs db' = jobs db2"
    "fence_seq db' = fence_seq db2" for db' using lease_wf_cong [OF that] wf2 by simp
  show ?thesis
    using upd hit dev fl ls
    by (auto simp: revoke_tx_def Let_def db2_def [symmetric] device_by_id_def intro!: frame split: option.split)
      (simp_all add: db2_def)
qed

lemma revoke_tx_none:
  assumes "\<not> (\<exists>l\<in>set (leases db). l_id l = lid \<and> is_live l)"
  shows "revoke_tx now lid who reason rearm db = Inr (None, db)"
proof -
  have n: "filter (\<lambda>l. l_id l = lid \<and> is_live l) (leases db) = []" using assms by (auto simp: filter_empty_conv)
  have "update_where (\<lambda>l. l_id l = lid \<and> is_live l) f (leases db) = leases db" for f
    using assms by (intro update_where_none) auto
  then show ?thesis using n by (simp add: revoke_tx_def update_leases_def Let_def)
qed

lemma revoke_tx_rows:
  assumes wf: "lease_wf db" and res: "revoke_tx now lid who reason rearm db = Inr (r, db')"
  shows "lease_wf db' \<and>
    rows_step (\<lambda>_ l'. l_id l' = lid \<and> l_release_reason l' = Some ''operator_revoked'') (leases db) (leases db')"
proof (cases "\<exists>l\<in>set (leases db). l_id l = lid \<and> is_live l")
  case False
  then show ?thesis using revoke_tx_none [OF False] res wf by auto
next
  case True
  then obtain l where "l \<in> set (leases db)" "l_id l = lid" "is_live l" by blast
  from revoke_tx_live [OF wf this, of now who reason rearm] res show ?thesis
    by (auto intro!: rows_step_update row_step_close)
qed

lemma handleLeaseRevoke_rows:
  assumes wf: "lease_wf db" and res: "handleLeaseRevoke k ks now t lid body who rearm db = (r, db')"
  shows "lease_wf db' \<and>
    rows_step (\<lambda>_ l'. l_id l' = lid \<and> l_release_reason l' = Some ''operator_revoked'') (leases db) (leases db')"
proof -
  have "db' = db \<or> (\<exists>x raw. round_trip k (revoke_tx now lid who (trim_space raw)
      (intervalSeconds (or_default DefaultRearm rearm))) db = (x, db'))"
    using res by (auto simp: handleLeaseRevoke_def split: if_splits option.splits prod.splits sum.splits)
  then show ?thesis
  proof (elim disjE exE)
    assume "db' = db"
    then show ?thesis using wf by simp
  next
    fix x raw assume "round_trip k (revoke_tx now lid who (trim_space raw)
      (intervalSeconds (or_default DefaultRearm rearm))) db = (x, db')"
    from trip_rows [OF this wf] show ?thesis using revoke_tx_rows [OF wf] by blast
  qed
qed

end
