(* ===== verification/Watchdog_Loop.thy ===== *)
theory Watchdog_Loop
  imports Watchdog_Damper Lease_Store
begin

text \<open>
  \<^verbatim>\<open>internal/watchdog/watchdog.go\<close>: folding one whole-state snapshot of a host's ADB server into
  \<^verbatim>\<open>farm.device_runtime\<close>, with the per-devpath cache of what was last written. The positions of a
  host are visited in some order (a Go map); the model visits them in the order of the query.
  Metrics and logging are left out; the label under which a damped write is counted is kept.
\<close>

section \<open>Snapshots\<close>

record adb_device =
  ad_Serial :: string
  ad_Devpath :: string
  ad_State :: conn_state
  ad_TransportID :: int

definition ByDevpath :: "adb_device list \<Rightarrow> string \<Rightarrow> adb_device option" where
  "ByDevpath devs p = (if p = [] then None else List.find (\<lambda>d. ad_Devpath d = p) (rev devs))"

definition AmbiguousSerials :: "adb_device list \<Rightarrow> string list" where
  "AmbiguousSerials devs =
     sort (filter (\<lambda>s. length (filter (\<lambda>d. ad_Serial d = s) devs) > 1)
       (remdups (filter (\<lambda>s. s \<noteq> []) (map ad_Serial devs))))"

section \<open>Positions\<close>

record position =
  po_DeviceID :: uuid
  po_SlotID :: int
  po_Devpath :: string

definition slots_of :: "string \<Rightarrow> farm \<Rightarrow> position list" where
  "slots_of host db =
     concat (map (\<lambda>s. map (\<lambda>d. \<lparr>po_DeviceID = d_id d, po_SlotID = s_id s, po_Devpath = s_adb_devpath s\<rparr>)
        (filter (\<lambda>d. d_current_slot d = Some (s_id s) \<and> d_admin_state d \<noteq> ''retired'') (devices db)))
      (filter (\<lambda>s. s_host s = host) (slots db)))"

section \<open>Writing one device\<close>

definition new_runtime :: "timestamp \<Rightarrow> uuid \<Rightarrow> string \<Rightarrow> int \<Rightarrow> runtime_row" where
  "new_runtime now dev host slot =
     \<lparr>r_device = dev, r_host = Some host, r_slot = Some slot, r_adb_state = StateUnknown,
      r_health = HUnknown, r_health_since = now, r_transport_id = None, r_host_epoch = None,
      r_consec_bad = 0, r_consec_good = 0, r_flap_credits = 10, r_flap_updated_at = now,
      r_ladder_tier = 0, r_suppress_until = None, r_last_seen_at = None, r_updated_at = now,
      r_battery_pct = None, r_charge_gate = None\<rparr>"

definition ensure_runtime :: "timestamp \<Rightarrow> uuid \<Rightarrow> string \<Rightarrow> int \<Rightarrow> farm \<Rightarrow> farm" where
  "ensure_runtime now dev host slot db =
     (case runtime_by_device db dev of
        Some _ \<Rightarrow> db
      | None \<Rightarrow> db\<lparr>runtimes := runtimes db @ [new_runtime now dev host slot]\<rparr>)"

text \<open>The three calls of one \<^verbatim>\<open>write\<close>: the reconcile, the row creation, the retry.\<close>

record write_io =
  wi_first :: "link \<times> timestamp"
  wi_ensure :: "link \<times> timestamp"
  wi_retry :: "link \<times> timestamp"

definition observation_of :: "position \<Rightarrow> string \<Rightarrow> conn_state \<Rightarrow> int option \<Rightarrow> int option \<Rightarrow> observation" where
  "observation_of pos host state transport epoch =
     \<lparr>ob_host = Some host, ob_slot = Some (po_SlotID pos), ob_state = state,
      ob_transport = transport, ob_epoch = epoch\<rparr>"

definition reconcile_stmt ::
  "watch_config \<Rightarrow> timestamp \<Rightarrow> uuid \<Rightarrow> observation \<Rightarrow> farm \<Rightarrow> sql_error + write_result option \<times> farm" where
  "reconcile_stmt cfg t dev o' db = Inr (reconcileSQL cfg t dev o' db)"

definition ensure_stmt :: "timestamp \<Rightarrow> uuid \<Rightarrow> string \<Rightarrow> int \<Rightarrow> farm \<Rightarrow> sql_error + unit \<times> farm" where
  "ensure_stmt t dev host slot db = Inr ((), ensure_runtime t dev host slot db)"

definition watch_write ::
  "write_io \<Rightarrow> watch_config \<Rightarrow> position \<Rightarrow> string \<Rightarrow> conn_state \<Rightarrow> int option \<Rightarrow> int option \<Rightarrow> farm
   \<Rightarrow> write_result option \<times> farm" where
  "watch_write io cfg pos host state transport epoch db =
     (let o' = observation_of pos host state transport epoch; dev = po_DeviceID pos in
      case round_trip (fst (wi_first io)) (reconcile_stmt cfg (snd (wi_first io)) dev o') db of
        (Inr (Some r), db') \<Rightarrow> (Some r, db')
      | (Inl _, db') \<Rightarrow> (None, db')
      | (Inr None, db') \<Rightarrow>
          (case round_trip (fst (wi_ensure io)) (ensure_stmt (snd (wi_ensure io)) dev host (po_SlotID pos)) db' of
             (Inl _, db'') \<Rightarrow> (None, db'')
           | (Inr _, db'') \<Rightarrow>
               (case round_trip (fst (wi_retry io)) (reconcile_stmt cfg (snd (wi_retry io)) dev o') db'' of
                  (Inr (Some r), db3) \<Rightarrow> (Some r, db3)
                | (_, db3) \<Rightarrow> (None, db3))))"

definition touch :: "timestamp \<Rightarrow> uuid list \<Rightarrow> farm \<Rightarrow> farm" where
  "touch now ids db =
     db\<lparr>runtimes := update_where (\<lambda>r. r_device r \<in> set ids)
          (\<lambda>r. r\<lparr>r_last_seen_at := Some now, r_updated_at := now\<rparr>) (runtimes db)\<rparr>"

text \<open>The label a withheld transition is counted under, when there is one.\<close>

definition report :: "watch_config \<Rightarrow> write_result \<Rightarrow> string option" where
  "report cfg r =
     (if wr_Next r \<noteq> wr_Previous r then None
      else if \<not> damped r then None
      else Some
        (if wr_Suppressed r then ''suppressed''
         else if wr_Previous r = HQuarantined \<or> wr_Previous r = HRetired \<or> wr_Previous r = HParked then ''sticky''
         else if wr_Candidate r = HHealthy \<and> wr_ConsecGood r \<ge> wc_MinGood cfg \<and> wr_Credits r < 1
         then ''no_credits'' else ''hysteresis''))"

section \<open>Reconciling a snapshot\<close>

type_synonym wcache = "string \<Rightarrow> conn_state option"

definition observed_state :: "adb_device list \<Rightarrow> position \<Rightarrow> conn_state" where
  "observed_state devs pos =
     (case ByDevpath devs (po_Devpath pos) of None \<Rightarrow> StateAbsent | Some d \<Rightarrow> ad_State d)"

definition observed_transport :: "adb_device list \<Rightarrow> position \<Rightarrow> int option" where
  "observed_transport devs pos =
     (case ByDevpath devs (po_Devpath pos) of
        None \<Rightarrow> None | Some d \<Rightarrow> if ad_TransportID d \<noteq> 0 then Some (ad_TransportID d) else None)"

text \<open>
  The loop over the positions; \<open>cancelled\<close> is the context's state, under which a failed write ends
  the reconcile instead of being retried at the next snapshot.
\<close>

fun write_positions ::
  "(uuid \<Rightarrow> write_io) \<Rightarrow> bool \<Rightarrow> watch_config \<Rightarrow> string \<Rightarrow> int \<Rightarrow> adb_device list \<Rightarrow> position list
   \<Rightarrow> wcache \<Rightarrow> farm \<Rightarrow> bool \<times> wcache \<times> farm" where
  "write_positions io cancelled cfg host epoch devs [] cache db = (True, cache, db)"
| "write_positions io cancelled cfg host epoch devs (pos # ps) cache db =
     (let state = observed_state devs pos;
          tr = observed_transport devs pos
      in if cache (po_Devpath pos) = Some state
         then write_positions io cancelled cfg host epoch devs ps cache db
         else
           (case watch_write (io (po_DeviceID pos)) cfg pos host state tr (map_option (\<lambda>_. epoch) tr) db of
              (None, db') \<Rightarrow>
                if cancelled then (False, cache, db')
                else write_positions io cancelled cfg host epoch devs ps (cache(po_Devpath pos := None)) db'
            | (Some r, db') \<Rightarrow>
                write_positions io cancelled cfg host epoch devs ps (cache(po_Devpath pos := Some state)) db'))"

definition seen_devices :: "adb_device list \<Rightarrow> position list \<Rightarrow> uuid list" where
  "seen_devices devs ps = map po_DeviceID (filter (\<lambda>p. ByDevpath devs (po_Devpath p) \<noteq> None) ps)"

definition reconcile ::
  "link \<Rightarrow> (uuid \<Rightarrow> write_io) \<Rightarrow> link \<times> timestamp \<Rightarrow> bool \<Rightarrow> watch_config \<Rightarrow> string \<Rightarrow> int
   \<Rightarrow> adb_device list \<Rightarrow> wcache \<Rightarrow> farm \<Rightarrow> wcache \<times> farm" where
  "reconcile kslots io ktouch cancelled cfg host epoch devs cache db =
     (if kslots \<noteq> Up then (cache, db)
      else
        (let ps = slots_of host db in
         case write_positions io cancelled cfg host epoch devs ps cache db of
           (False, cache', db') \<Rightarrow> (cache', db')
         | (True, cache', db') \<Rightarrow>
             (cache',
              if seen_devices devs ps = [] then db'
              else snd (round_trip (fst ktouch) (\<lambda>db. Inr ((), touch (snd ktouch) (seen_devices devs ps) db)) db'))))"

text \<open>A resync forgets the cache first, so every position is written again.\<close>

definition resync ::
  "link \<Rightarrow> (uuid \<Rightarrow> write_io) \<Rightarrow> link \<times> timestamp \<Rightarrow> bool \<Rightarrow> watch_config \<Rightarrow> string \<Rightarrow> int
   \<Rightarrow> adb_device list option \<Rightarrow> wcache \<Rightarrow> farm \<Rightarrow> wcache \<times> farm" where
  "resync kslots io ktouch cancelled cfg host epoch lst cache db =
     (case lst of
        None \<Rightarrow> (cache, db)
      | Some devs \<Rightarrow> reconcile kslots io ktouch cancelled cfg host epoch devs (\<lambda>_. None) db)"

section \<open>The health plane stays out of the leases\<close>

definition runtime_only :: "farm \<Rightarrow> farm \<Rightarrow> bool" where
  "runtime_only db db' \<longleftrightarrow> (\<exists>rs. db' = db\<lparr>runtimes := rs\<rparr>)"

lemma runtime_only_refl [simp]: "runtime_only db db"
  unfolding runtime_only_def by (rule exI [of _ "runtimes db"]) simp

lemma runtime_only_trans: "runtime_only a b \<Longrightarrow> runtime_only b c \<Longrightarrow> runtime_only a c"
  by (auto simp: runtime_only_def)

lemma runtime_only_frame:
  assumes "runtime_only db db'"
  shows "leases db' = leases db" "devices db' = devices db" "jobs db' = jobs db"
    "fence_seq db' = fence_seq db" "slots db' = slots db" "lease_wf db' = lease_wf db"
  using assms lease_wf_cong by (auto simp: runtime_only_def lease_wf_def)

lemma runtime_only_reconcileSQL:
  "reconcileSQL cfg t dev o' db = (r, db') \<Longrightarrow> runtime_only db db'"
  by (auto simp: reconcileSQL_def Let_def split: option.splits) (auto simp: runtime_only_def)

lemma runtime_only_ensure: "runtime_only db (ensure_runtime now dev host slot db)"
  by (auto simp: ensure_runtime_def split: option.split) (auto simp: runtime_only_def)

lemma runtime_only_touch: "runtime_only db (touch now ids db)"
  by (auto simp: touch_def runtime_only_def)

lemma runtime_only_trip:
  assumes "round_trip k stmt db = (r, db')" and "\<And>x db''. stmt db = Inr (x, db'') \<Longrightarrow> runtime_only db db''"
  shows "runtime_only db db'"
  using assms(1) by (rule round_trip_keeps) (use assms(2) in auto)

lemma runtime_only_stmts:
  "round_trip k (reconcile_stmt cfg t dev o') db = (r, db') \<Longrightarrow> runtime_only db db'"
  "round_trip k (ensure_stmt t dev host slot) db = (r', db') \<Longrightarrow> runtime_only db db'"
  by (erule runtime_only_trip, auto simp: reconcile_stmt_def intro: runtime_only_reconcileSQL)
    (erule runtime_only_trip, auto simp: ensure_stmt_def intro: runtime_only_ensure)

lemma runtime_only_write:
  assumes "watch_write io cfg pos host state tr ep db = (r, db')"
  shows "runtime_only db db'"
proof -
  let ?o = "observation_of pos host state tr ep" and ?dev = "po_DeviceID pos"
  obtain x d1 where 1: "round_trip (fst (wi_first io)) (reconcile_stmt cfg (snd (wi_first io)) ?dev ?o) db = (x, d1)"
    by fastforce
  obtain y d2 where 2: "round_trip (fst (wi_ensure io))
      (ensure_stmt (snd (wi_ensure io)) ?dev host (po_SlotID pos)) d1 = (y, d2)" by fastforce
  obtain z d3 where 3: "round_trip (fst (wi_retry io)) (reconcile_stmt cfg (snd (wi_retry io)) ?dev ?o) d2 = (z, d3)"
    by fastforce
  have "db' \<in> {d1, d2, d3}"
    using assms 1 2 3 by (auto simp: watch_write_def Let_def split: sum.splits option.splits)
  then show ?thesis
    using runtime_only_stmts(1) [OF 1] runtime_only_stmts(2) [OF 2] runtime_only_stmts(1) [OF 3]
    by (auto intro: runtime_only_trans)
qed

lemma runtime_only_positions:
  "write_positions io c cfg host ep devs ps cache db = (fin, cache', db') \<Longrightarrow> runtime_only db db'"
proof (induction ps arbitrary: cache db)
  case (Cons p ps)
  obtain r d1 where w: "watch_write (io (po_DeviceID p)) cfg p host (observed_state devs p)
      (observed_transport devs p) (map_option (\<lambda>_. ep) (observed_transport devs p)) db = (r, d1)" by fastforce
  show ?case
    using Cons.prems Cons.IH runtime_only_write [OF w] w
    by (auto simp: Let_def split: if_splits option.splits intro: runtime_only_trans)
qed simp

lemma runtime_only_reconcile:
  assumes "reconcile ks io kt c cfg host ep devs cache db = (cache', db')"
  shows "runtime_only db db'"
proof (cases "ks = Up")
  case False
  then show ?thesis using assms by (simp add: reconcile_def)
next
  case True
  obtain fin ca d1 where p: "write_positions io c cfg host ep devs (slots_of host db) cache db = (fin, ca, d1)"
    by (cases rule: prod_cases3)
  have "runtime_only d1 (snd (round_trip k (\<lambda>db. Inr ((), touch t ids db)) d1))" for k t ids
    using runtime_only_trip [of k "\<lambda>db. Inr ((), touch t ids db)" d1] runtime_only_touch
    by (metis (no_types, lifting) Inr_inject prod.collapse prod.inject)
  then show ?thesis
    using assms True p runtime_only_positions [OF p]
    by (auto simp: reconcile_def Let_def split: bool.splits if_splits intro: runtime_only_trans)
qed

section \<open>A resync brings every position in line\<close>

lemma reconcileSQL_row:
  assumes "runtime_by_device db dev = Some r"
  shows "\<exists>w x. reconcileSQL cfg t dev o' db = (Some w, snd (reconcileSQL cfg t dev o' db)) \<and>
     runtime_by_device (snd (reconcileSQL cfg t dev o' db)) dev = Some x \<and> r_adb_state x = ob_state o' \<and>
     (\<forall>i. i \<noteq> dev \<longrightarrow> runtime_by_device (snd (reconcileSQL cfg t dev o' db)) i = runtime_by_device db i)"
proof -
  have dev: "r_device (trg_device_runtime_park_guard ds r (reconcile_row cfg t o' r)) = r_device r"
    "r_adb_state (trg_device_runtime_park_guard ds r (reconcile_row cfg t o' r)) = ob_state o'" for ds t r
    by (simp_all add: trg_device_runtime_park_guard_def reconcile_row_def Let_def)
  show ?thesis using assms dev
    by (auto simp: reconcileSQL_def Let_def runtime_by_device_def find_update_where)
qed

lemma ensure_runtime_row:
  assumes "runtime_by_device db dev = None"
  shows "runtime_by_device (ensure_runtime t dev host slot db) dev = Some (new_runtime t dev host slot)"
    and "i \<noteq> dev \<Longrightarrow> runtime_by_device (ensure_runtime t dev host slot db) i = runtime_by_device db i"
  using assms by (auto simp: ensure_runtime_def runtime_by_device_def find_append new_runtime_def
      split: option.splits)

lemma watch_write_up:
  assumes "fst (wi_first io) = Up" and "fst (wi_ensure io) = Up" and "fst (wi_retry io) = Up"
  shows "\<exists>r db' x. watch_write io cfg pos host state tr ep db = (Some r, db') \<and>
     runtime_by_device db' (po_DeviceID pos) = Some x \<and> r_adb_state x = state \<and>
     (\<forall>d. d \<noteq> po_DeviceID pos \<longrightarrow> runtime_by_device db' d = runtime_by_device db d)"
proof -
  let ?o = "observation_of pos host state tr ep" and ?dev = "po_DeviceID pos"
  have st: "ob_state ?o = state" by (simp add: observation_of_def)
  have up: "round_trip Up (reconcile_stmt cfg t ?dev ?o) d =
      (Inr (fst (reconcileSQL cfg t ?dev ?o d)), snd (reconcileSQL cfg t ?dev ?o d))" for t d
    by (simp add: round_trip_def reconcile_stmt_def split: prod.split)
  show ?thesis
  proof (cases "runtime_by_device db ?dev")
    case (Some r)
    from reconcileSQL_row [OF Some, of cfg "snd (wi_first io)" ?o] obtain w x where
      w: "fst (reconcileSQL cfg (snd (wi_first io)) ?dev ?o db) = Some w" and
      x: "runtime_by_device (snd (reconcileSQL cfg (snd (wi_first io)) ?dev ?o db)) ?dev = Some x"
        "r_adb_state x = state"
        "\<forall>i. i \<noteq> ?dev \<longrightarrow> runtime_by_device (snd (reconcileSQL cfg (snd (wi_first io)) ?dev ?o db)) i = runtime_by_device db i"
      unfolding st by (metis fst_conv)
    show ?thesis using w x assms(1) up by (auto simp: watch_write_def Let_def)
  next
    case None
    let ?d = "ensure_runtime (snd (wi_ensure io)) ?dev host (po_SlotID pos) db"
    have none: "reconcileSQL cfg t ?dev ?o db = (None, db)" for t using None by (simp add: reconcileSQL_def)
    note new = ensure_runtime_row [OF None, where t = "snd (wi_ensure io)" and host = host and slot = "po_SlotID pos"]
    from reconcileSQL_row [OF new(1), of cfg "snd (wi_retry io)" ?o] obtain w x where
      w: "fst (reconcileSQL cfg (snd (wi_retry io)) ?dev ?o ?d) = Some w" and
      x: "runtime_by_device (snd (reconcileSQL cfg (snd (wi_retry io)) ?dev ?o ?d)) ?dev = Some x"
        "r_adb_state x = state"
        "\<forall>i. i \<noteq> ?dev \<longrightarrow> runtime_by_device (snd (reconcileSQL cfg (snd (wi_retry io)) ?dev ?o ?d)) i = runtime_by_device ?d i"
      unfolding st by (metis fst_conv)
    show ?thesis using w x assms up none new(2)
      by (auto simp: watch_write_def Let_def round_trip_def ensure_stmt_def)
  qed
qed

lemma write_positions_up:
  assumes up: "\<And>d. fst (wi_first (io d)) = Up \<and> fst (wi_ensure (io d)) = Up \<and> fst (wi_retry (io d)) = Up"
    and "distinct (map po_DeviceID ps)" and "distinct (map po_Devpath ps)"
    and "\<forall>p\<in>set ps. cache (po_Devpath p) = None"
    and "write_positions io c cfg host ep devs ps cache db = (fin, cache', db')"
  shows "fin \<and> (\<forall>p\<in>set ps. cache' (po_Devpath p) = Some (observed_state devs p) \<and>
      (\<exists>x. runtime_by_device db' (po_DeviceID p) = Some x \<and> r_adb_state x = observed_state devs p)) \<and>
     (\<forall>d. d \<notin> po_DeviceID ` set ps \<longrightarrow> runtime_by_device db' d = runtime_by_device db d) \<and>
     (\<forall>q. q \<notin> po_Devpath ` set ps \<longrightarrow> cache' q = cache q)"
  using assms(2-5)
proof (induction ps arbitrary: cache db)
  case Nil
  then show ?case by simp
next
  case (Cons p ps)
  have u: "fst (wi_first (io (po_DeviceID p))) = Up" "fst (wi_ensure (io (po_DeviceID p))) = Up"
    "fst (wi_retry (io (po_DeviceID p))) = Up" using up by blast+
  from watch_write_up [OF u, of cfg p host "observed_state devs p" "observed_transport devs p"
      "map_option (\<lambda>_. ep) (observed_transport devs p)" db]
  obtain r d1 x where w: "watch_write (io (po_DeviceID p)) cfg p host (observed_state devs p)
      (observed_transport devs p) (map_option (\<lambda>_. ep) (observed_transport devs p)) db = (Some r, d1)"
    and x: "runtime_by_device d1 (po_DeviceID p) = Some x" "r_adb_state x = observed_state devs p"
      "\<forall>d. d \<noteq> po_DeviceID p \<longrightarrow> runtime_by_device d1 d = runtime_by_device db d" by blast
  let ?c = "cache(po_Devpath p := Some (observed_state devs p))"
  have rest: "write_positions io c cfg host ep devs ps ?c d1 = (fin, cache', db')"
    using Cons.prems(3,4) w by (simp add: Let_def)
  have "\<forall>q\<in>set ps. ?c (po_Devpath q) = None" using Cons.prems(2,3) by (auto simp: image_iff)
  from Cons.IH [OF _ _ this rest] have ih:
    "fin \<and> (\<forall>p\<in>set ps. cache' (po_Devpath p) = Some (observed_state devs p) \<and>
      (\<exists>x. runtime_by_device db' (po_DeviceID p) = Some x \<and> r_adb_state x = observed_state devs p)) \<and>
     (\<forall>d. d \<notin> po_DeviceID ` set ps \<longrightarrow> runtime_by_device db' d = runtime_by_device d1 d) \<and>
     (\<forall>q. q \<notin> po_Devpath ` set ps \<longrightarrow> cache' q = ?c q)"
    using Cons.prems(1,2) by simp
  have "po_DeviceID p \<notin> po_DeviceID ` set ps" "po_Devpath p \<notin> po_Devpath ` set ps"
    using Cons.prems(1,2) by auto
  then show ?case using ih x by auto
qed

lemma touch_adb_state:
  "map_option r_adb_state (runtime_by_device (touch t ids db) d) = map_option r_adb_state (runtime_by_device db d)"
  by (simp add: touch_def runtime_by_device_def find_update_where_set option.map_comp o_def)

end
