(* ===== verification/Farm_System.thy ===== *)
theory Farm_System
  imports Reaper_Loop Scheduler_Loop Lease_Api Watchdog_Loop
begin

text \<open>
  The farm as one labelled transition system: every statement any component issues against the
  lease tables is a step, on any link and at any instant, and the steps of different processes
  interleave freely. The rest of the control plane (enrolment, job submission, the health plane,
  the recovery ladder, administration) is \<open>EvOther\<close>: it may change every other table and column, but
  it has no statement that writes \<^verbatim>\<open>farm.leases\<close>, \<^verbatim>\<open>devices.current_lease_id\<close> or
  \<^verbatim>\<open>devices.fence_floor\<close>, and the jobs it writes satisfy the table's CHECK constraints.
\<close>

datatype event =
    EvAcquire uuid uuid           \<comment> \<open>job, holder instance\<close>
  | EvRenew uuid int uuid
  | EvWitness uuid int
  | EvRelease uuid int string
  | EvSuspect
  | EvReclaim timestamp
  | EvExpire timestamp
  | EvArm
  | EvBeat string
  | EvRevoke uuid
  | EvOther

definition device_view :: "device_row \<Rightarrow> uuid \<times> uuid option \<times> int" where
  "device_view d = (d_id d, d_current_lease d, d_fence_floor d)"

definition registry_step :: "farm \<Rightarrow> farm \<Rightarrow> bool" where
  "registry_step db db' \<longleftrightarrow>
     leases db' = leases db \<and> fence_seq db' = fence_seq db \<and> list_all job_ok (jobs db') \<and>
     (\<exists>new. map device_view (devices db') = map device_view (devices db) @ map device_view new \<and>
        distinct (map d_id (devices db) @ map d_id new) \<and>
        list_all (\<lambda>d. d_current_lease d = None \<and> d_fence_floor d \<le> fence_seq db) new)"

inductive farm_step :: "event \<Rightarrow> farm \<Rightarrow> farm \<Rightarrow> bool" where
  acquire: "AcquireAs k now n m job h inst as db = (r, db') \<Longrightarrow> farm_step (EvAcquire job inst) db db'"
| renew: "Renew k now lid fence inst db = (rr, db') \<Longrightarrow> farm_step (EvRenew lid fence inst) db db'"
| witness: "Witness k now lid fence cap db = (w, db') \<Longrightarrow> farm_step (EvWitness lid fence) db db'"
| release: "Release k now lid fence reason rearm db = (b, db') \<Longrightarrow> farm_step (EvRelease lid fence reason) db db'"
| suspect: "MarkSuspect k now batch db = (s, db') \<Longrightarrow> farm_step EvSuspect db db'"
| reclaim: "Reclaim k now batch rearm db = (c, db') \<Longrightarrow> farm_step (EvReclaim now) db db'"
| expire: "ExpireMaxRuntime k now batch db = (e, db') \<Longrightarrow> farm_step (EvExpire now) db db'"
| arm: "ReaperArm k now comps gap_floor db = (a, db') \<Longrightarrow> farm_step EvArm db db'"
| beat: "ComponentBeat k now cmp db = (u, db') \<Longrightarrow> farm_step (EvBeat cmp) db db'"
| revoke: "handleLeaseRevoke k ks now t lid body who rearm db = (v, db') \<Longrightarrow> farm_step (EvRevoke lid) db db'"
| other: "registry_step db db' \<Longrightarrow> farm_step EvOther db db'"

inductive_cases farm_stepE: "farm_step ev db db'"

text \<open>Reachability over any sequence of steps.\<close>

inductive reachable :: "farm \<Rightarrow> farm \<Rightarrow> bool" for db0 where
  start: "reachable db0 db0"
| step: "reachable db0 db \<Longrightarrow> farm_step ev db db' \<Longrightarrow> reachable db0 db'"

section \<open>The invariant\<close>

lemma lease_wf_registry:
  assumes wf: "lease_wf db" and st: "registry_step db db'"
  shows "lease_wf db'"
proof -
  from st obtain new where eq: "leases db' = leases db" "fence_seq db' = fence_seq db" "list_all job_ok (jobs db')"
    and view: "map device_view (devices db') = map device_view (devices db @ new)"
    and dist: "distinct (map d_id (devices db) @ map d_id new)"
    and new: "list_all (\<lambda>d. d_current_lease d = None \<and> d_fence_floor d \<le> fence_seq db) new"
    by (auto simp: registry_step_def)
  have lo: "lease_ok (devices db @ new) (fence_seq db) l" if "l \<in> set (leases db)" for l
    using lease_wfD(6) [OF wf that] by (auto simp: lease_ok_def)
  have "lease_wf (db\<lparr>jobs := jobs db', devices := devices db @ new\<rparr>)"
    using lease_wfD(1-5) [OF wf] lo lease_wfD(7) [OF wf] dist new eq(3)
    by (auto simp: lease_wf_def list_all_iff keyed_def device_ok_def)
  from lease_wf_devices_view [OF this, of "devices db'"]
  have "lease_wf (db\<lparr>jobs := jobs db', devices := devices db'\<rparr>)"
    using view by (simp add: device_view_def [abs_def])
  then show ?thesis using lease_wf_cong [of db' "db\<lparr>jobs := jobs db', devices := devices db'\<rparr>"] eq by simp
qed

lemma lease_wf_step:
  assumes "farm_step ev db db'" and wf: "lease_wf db"
  shows "lease_wf db'"
  using assms(1)
proof cases
  case (acquire k now n m job h inst as r)
  then show ?thesis using lease_wf_AcquireAs [OF wf] by blast
next
  case (beat k now cmp u)
  then show ?thesis using ComponentBeat_frame(2) wf by blast
qed (use wf in \<open>auto dest: Renew_rows Witness_rows Release_rows MarkSuspect_rows Reclaim_rows
      ExpireMaxRuntime_rows ReaperArm_rows handleLeaseRevoke_rows intro: lease_wf_registry\<close>)

lemma lease_wf_reachable: "reachable db0 db \<Longrightarrow> lease_wf db0 \<Longrightarrow> lease_wf db"
  by (induction rule: reachable.induct) (auto intro: lease_wf_step)

section \<open>What a step may end\<close>

text \<open>The endings the design allows, per kind of step.\<close>

fun may_end :: "event \<Rightarrow> farm \<Rightarrow> lease_row \<Rightarrow> lease_row \<Rightarrow> bool" where
  "may_end (EvRelease lid fence reason) db l l' \<longleftrightarrow>
     l_id l' = lid \<and> l_fence l' = fence \<and> l_release_reason l' = Some reason"
| "may_end (EvRevoke lid) db l l' \<longleftrightarrow> l_id l' = lid \<and> l_release_reason l' = Some ''operator_revoked''"
| "may_end (EvReclaim now) db l l' \<longleftrightarrow> silent_too_long now db l l'"
| "may_end (EvExpire now) db l l' \<longleftrightarrow> ran_too_long now db l l'"
| "may_end ev db l l' \<longleftrightarrow> False"

lemma farm_step_rows:
  assumes step: "farm_step ev db db'" and wf: "lease_wf db" and ev: "\<And>j i. ev \<noteq> EvAcquire j i"
  shows "rows_step (may_end ev db) (leases db) (leases db')"
  using step
proof cases
  case (beat k now cmp u)
  then show ?thesis using ComponentBeat_frame(1) by simp
next
  case (other)
  then show ?thesis by (simp add: registry_step_def)
next
  case (release k now lid fence reason rearm b)
  then show ?thesis using Release_rows [OF wf release(2)] by (auto elim: rows_step_mono)
next
  case (reclaim k now batch rearm c)
  then show ?thesis using Reclaim_rows [OF wf reclaim(2)] by (auto elim: rows_step_mono)
next
  case (expire k now batch e)
  then show ?thesis using ExpireMaxRuntime_rows [OF wf expire(2)] by (auto elim: rows_step_mono)
next
  case (revoke k ks now t lid body who rearm v)
  then show ?thesis using handleLeaseRevoke_rows [OF wf revoke(2)] by (auto elim: rows_step_mono)
qed (use wf ev in \<open>auto dest: Renew_rows Witness_rows Release_rows MarkSuspect_rows Reclaim_rows
      ExpireMaxRuntime_rows ReaperArm_rows handleLeaseRevoke_rows elim: rows_step_mono\<close>)

lemma farm_step_evolves:
  assumes step: "farm_step ev db db'" and wf: "lease_wf db"
  shows "evolves (may_end ev db) (leases db) (leases db')"
proof (cases "\<exists>j i. ev = EvAcquire j i")
  case False
  then show ?thesis using farm_step_rows [OF step wf] by (auto intro: evolves_rows)
next
  case True
  then obtain j i where ev: "ev = EvAcquire j i" by blast
  have "may_end ev db = no_ending" by (simp add: ev fun_eq_iff)
  from step ev show ?thesis
    by (auto elim!: farm_stepE dest: AcquireAs_evolves [OF wf] simp: \<open>may_end ev db = no_ending\<close> [unfolded ev])
qed

text \<open>A row of the next state, found by its id, is the row the relation speaks of.\<close>

lemma farm_step_row:
  assumes step: "farm_step ev db db'" and wf: "lease_wf db"
    and l: "l \<in> set (leases db)" and l': "l' \<in> set (leases db')" "l_id l' = l_id l"
  shows "row_core (may_end ev db) l l'"
proof -
  from farm_step_evolves [OF step wf] l obtain l'' where
    l'': "l'' \<in> set (leases db')" "row_core (may_end ev db) l l''" by (rule evolves_row)
  have "l_id l'' = l_id l'" using l''(2) l'(2) by (simp add: row_core_def)
  then have "l'' = l'" by (rule keyed_eqD [OF lease_wfD(1) [OF lease_wf_step [OF step wf]] l''(1) l'(1)])
  with l''(2) show ?thesis by simp
qed

lemma farm_step_keeps_row:
  assumes "farm_step ev db db'" and "lease_wf db" and "l \<in> set (leases db)"
  obtains l' where "l' \<in> set (leases db')" and "l_id l' = l_id l"
  using evolves_row [OF farm_step_evolves [OF assms(1,2)] assms(3)] by (metis row_core_def)

section \<open>A holder among all of this\<close>

text \<open>The other writers as one holder sees them: anything but an acquire by its own incarnation.\<close>

definition foreign_step :: "uuid \<Rightarrow> farm \<Rightarrow> farm \<Rightarrow> bool" where
  "foreign_step inst db db' \<longleftrightarrow> (\<exists>ev. farm_step ev db db' \<and> (\<forall>j. ev \<noteq> EvAcquire j inst))"

lemma AcquireAs_instance:
  assumes wf: "lease_wf db" and res: "AcquireAs k now n m j h inst as db = (r, db')"
    and own: "owns db' i f inst'" and ne: "inst' \<noteq> inst"
  shows "owns db i f inst'"
  using res
proof (rule AcquireAs_trip)
  fix r' assume rt: "round_trip k (lease_acquire now n m j h inst (nullif_empty (Tenant as))
      (nullif_empty (Principal as))) db = (r', db')"
  have "owns db' i f inst' \<longrightarrow> owns db i f inst'"
  proof (rule round_trip_keeps [OF rt, where P = "\<lambda>d. owns d i f inst' \<longrightarrow> owns db i f inst'"])
    fix x db2 assume acq: "lease_acquire now n m j h inst (nullif_empty (Tenant as))
        (nullif_empty (Principal as)) db = Inr (x, db2)"
    show "owns db2 i f inst' \<longrightarrow> owns db i f inst'"
      using ne acquire_instance [OF wf acq] by (auto simp: owns_def renewable_def)
  qed simp
  with own show ?thesis by blast
qed

lemma foreign_stable:
  assumes wf: "lease_wf db" and st: "foreign_step inst db db'" and own: "owns db' i f inst"
  shows "owns db i f inst"
proof -
  from st obtain ev where ev: "farm_step ev db db'" "\<forall>j. ev \<noteq> EvAcquire j inst"
    by (auto simp: foreign_step_def)
  show ?thesis
  proof (cases "\<exists>j h. ev = EvAcquire j h")
    case False
    then show ?thesis using farm_step_rows [OF ev(1) wf] owns_rows own by blast
  next
    case True
    then obtain j h where e: "ev = EvAcquire j h" by blast
    with ev(2) have "inst \<noteq> h" by auto
    from ev(1) e show ?thesis
      using AcquireAs_instance [OF wf _ own \<open>inst \<noteq> h\<close>] by (auto elim!: farm_stepE)
  qed
qed

text \<open>Every lease and every process incarnation: the holder's contract on the farm's own steps.\<close>

interpretation farm_holder: lease_holder Renew Release Witness lease_wf owns "foreign_step (HolderInstance l)" l
  for l :: lease
proof
  fix db db' assume wf: "lease_wf db" and st: "foreign_step (HolderInstance l) db db'"
  then show "lease_wf db'" by (auto simp: foreign_step_def intro: lease_wf_step)
  assume "owns db' (ID l) (Fence l) (HolderInstance l)"
  with foreign_stable [OF wf st] show "owns db (ID l) (Fence l) (HolderInstance l)" by blast
qed

lemma ended_forever:
  assumes "reachable db db2" and "lease_wf db" and "l \<in> set (leases db)" and "\<not> is_live l"
  shows "l \<in> set (leases db2)"
  using assms
proof (induction rule: reachable.induct)
  case (step db1 ev db')
  then have "lease_wf db1" by (auto intro: lease_wf_reachable)
  from evolves_row [OF farm_step_evolves [OF step.hyps(2) this] step.IH]
  show ?case using step.prems by (auto simp: row_core_def)
qed

end
