(* ===== verification/Farm_Example.thy ===== *)
theory Farm_Example
  imports Lease_Invariant
begin

text \<open>
  A farm with one rack, one slot, one handset and one queued job, once idle and once with the job's
  lease on the handset. The concrete inputs of the development's witnesses are taken from here.
\<close>

definition ex_job :: job_row where
  "ex_job = \<lparr>j_id = 20, j_tenant = ''acme'', j_queue = ''nightly'', j_pool = ''default'', j_state = Queued,
     j_selector = [], j_pin_device = None, j_protected = False, j_policy = ''no_disruption'',
     j_expected_duration = None, j_max_runtime = Some (hours 6), j_ttl = minutes 15, j_grace = minutes 5,
     j_created_at = 0, j_started_at = None, j_finished_at = None, 
     j_spec = Some [\<lparr>ss_id = ''push'', ss_kind = ''push'', ss_continue = False, ss_detail = []\<rparr>, \<lparr>ss_id = ''run'', ss_kind = ''shell'', ss_continue = False, ss_detail = []\<rparr>],
     j_checkpoint = None, j_attempt = 0, j_max_attempts = 3, j_resumable = True, j_error = None\<rparr>"

definition ex_device :: device_row where
  "ex_device = \<lparr>d_id = 10, d_manufacturer = None, d_model = None, d_android_release = None,
     d_sdk_int = Some 34, d_abis = [''arm64-v8a''], d_labels = [], d_current_slot = Some 1,
     d_host = Some ''rack-1'', d_pool = ''default'', d_admin_state = ''enabled'', d_current_lease = None,
     d_fence_floor = 0, d_failure_score = 0, d_last_released_at = None\<rparr>"

definition ex_lease :: lease_row where
  "ex_lease = \<lparr>l_id = 30, l_fence = 1, l_device = 10, l_slot = Some 1, l_job = 20, l_tenant = ''acme'',
     l_queue = ''nightly'', l_holder = ''pod-a'', l_holder_instance = 5, l_holder_epoch = 0,
     l_holder_principal = Some ''sa:ci'', l_state = Held, l_protected = False, l_policy = ''no_disruption'',
     l_ttl = minutes 15, l_grace = minutes 5, l_acquired_at = 0, l_heartbeat_at = 0,
     l_heartbeat_seq = 0, l_expires_at = minutes 15, l_reclaimable_at = minutes 20,
     l_witness_at = None, l_witness_extensions = 0, l_released_at = None, l_release_reason = None\<rparr>"

definition ex_runtime :: runtime_row where
  "ex_runtime = \<lparr>r_device = 10, r_host = Some ''rack-1'', r_slot = Some 1, r_adb_state = StateDevice,
     r_health = HHealthy, r_health_since = 0, r_transport_id = None, r_host_epoch = None,
     r_consec_bad = 0, r_consec_good = 0, r_flap_credits = 10, r_flap_updated_at = 0,
     r_ladder_tier = 0, r_suppress_until = None, r_last_seen_at = None, r_updated_at = 0,
     r_battery_pct = Some 55, r_charge_gate = None\<rparr>"

text \<open>\<^verbatim>\<open>farm.step_kinds\<close> as migration 00004 fills it.\<close>

definition ex_kinds :: "step_kind_row list" where
  "ex_kinds = map (\<lambda>(k, i, a). \<lparr>sk_kind = k, sk_idempotent = i, sk_needs_artifact = a\<rparr>)
     [(''push'', True, True), (''install'', True, True), (''uninstall'', True, False), (''shell'', False, False),
      (''shell_detached'', False, False), (''wait_for'', True, False), (''pull'', True, False), (''assert'', True, False),
      (''reset'', True, False), (''sleep'', True, False)]"

definition ex_idle :: farm where
  "ex_idle = \<lparr>hosts = [\<lparr>ho_id = ''rack-1'', ho_admin_state = ''enabled'', ho_adb_endpoint = ''10.0.0.1:5037'',
       ho_node_endpoint = Some ''http://10.0.0.1:9700''\<rparr>],
     hubs = [\<lparr>hb_id = 7, hb_host = ''rack-1'', hb_usb_path = ''3-1''\<rparr>], power_domains = [],
     slots = [\<lparr>s_id = 1, s_host = ''rack-1'', s_hub = 7, s_power_domain = None, s_usb_path = ''3-1.4'',
               s_rack_slot = None, s_state = ''active'', s_rearm_at = 0\<rparr>],
     devices = [ex_device], runtimes = [ex_runtime],
     tenants = [\<lparr>tn_id = ''acme'', tn_max_devices = 0\<rparr>],
     queues = [\<lparr>qu_id = ''nightly'', qu_priority = 100, qu_max_devices = 0\<rparr>],
     jobs = [ex_job], leases = [], heartbeats = [], gaps = [],
     reaper_state = \<lparr>rs_quiesce_until = 0, rs_armed_at = 0, rs_enabled = True,
       rs_last_refusal = None, rs_last_refusal_at = None\<rparr>,
     events = [], audit_log = [], tiers_tbl = [], attempts = [], attempt_seq = 0,
     quarantines = [], quarantine_seq = 0, parks = [], park_seq = 0, step_kinds = ex_kinds, job_steps = [], job_attempts = [],
     job_attempt_seq = 0, bulk_runs = [], bulk_targets = [], fence_seq = 0\<rparr>"

definition ex_busy :: farm where
  "ex_busy = ex_idle\<lparr>devices := [ex_device\<lparr>d_current_lease := Some 30, d_fence_floor := 1\<rparr>],
     leases := [ex_lease], fence_seq := 1\<rparr>"

lemmas ex_defs = ex_job_def ex_device_def ex_lease_def ex_runtime_def ex_idle_def ex_busy_def

lemma lease_wf_ex_idle: "lease_wf ex_idle"
  by code_simp

lemma lease_wf_ex_busy: "lease_wf ex_busy"
  by code_simp

end
