(* ===== verification/Lease_Properties.thy ===== *)
theory Lease_Properties
  imports Farm_System Farm_Example
begin

text \<open>
  The theorems about leases, over the farm's steps: the invariant, the ways a lease can end, what a
  fence protects, and what each call promises its caller.
\<close>

section \<open>Over every sequence of steps\<close>

text \<open>
C1: in every state the farm can reach from a well-formed one, whatever the interleaving of
acquires, renewals, witnesses, releases, sweeps, arms, revokes and other writers and whatever the
connection loses, the lease tables are well-formed: one live lease per device and per job, the
device's pointer agreeing with it, a live lease exactly at its device's fence floor and an ended
one strictly below.
\<close>

theorem reachable_lease_wf:
  assumes "reachable db0 db" and "lease_wf db0"
  shows "lease_wf db"
  by (rule lease_wf_reachable [OF assms])

theorem reachable_lease_wf_witness:
  "reachable ex_busy (snd (Renew Up 60000000 30 1 5 ex_busy)) \<and> lease_wf (snd (Renew Up 60000000 30 1 5 ex_busy))"
proof -
  have r: "reachable ex_busy (snd (Renew Up 60000000 30 1 5 ex_busy))"
    by (rule reachable.step [OF reachable.start farm_step.renew]) (rule surjective_pairing)
  show ?thesis using r reachable_lease_wf [OF r lease_wf_ex_busy] by blast
qed

text \<open>
C2: a lease ends only by design. If a live lease is ended by some step, then that step is a release
presenting this lease's own id and fence, or an operator's revoke of this lease, or a reclaim whose
every gate was open (armed and enabled reaper past its quiesce window, suspect holder silent past
its deadline, no recent witness, no overlapping control-plane gap, lease not protected), or the
expiry of a max_runtime the user wrote down; and the reason recorded is one of the seven.
\<close>

theorem lease_ends_only_by_design:
  assumes step: "farm_step ev db db'" and wf: "lease_wf db"
    and l: "l \<in> set (leases db)" "is_live l"
    and l': "l' \<in> set (leases db')" "l_id l' = l_id l" "\<not> is_live l'"
  shows "(\<exists>r\<in>set release_reasons. l_release_reason l' = Some r) \<and>
    ((\<exists>reason. ev = EvRelease (l_id l) (l_fence l) reason \<and> l_release_reason l' = Some reason) \<or>
     (ev = EvRevoke (l_id l) \<and> l_release_reason l' = Some ''operator_revoked'') \<or>
     (\<exists>now. ev = EvReclaim now \<and> reaper_gate_open now db \<and> reclaimable now (gaps db) l \<and>
        l_release_reason l' = Some ''holder_expired'') \<or>
     (\<exists>now. ev = EvExpire now \<and> max_runtime_elapsed now db l \<and> l_release_reason l' = Some ''max_runtime''))"
proof -
  have core: "row_core (may_end ev db) l l'" by (rule farm_step_row [OF step wf l(1) l'(1,2)])
  then have may: "may_end ev db l l'" and fence: "l_fence l' = l_fence l"
    using l(2) l'(3) by (auto simp: row_core_def)
  have ok: "lease_ok (devices db') (fence_seq db') l'"
    using lease_wfD(6) [OF lease_wf_step [OF step wf] l'(1)] .
  then have reason: "\<exists>r\<in>set release_reasons. l_release_reason l' = Some r"
    using l'(3) by (auto simp: lease_ok_def lease_checks_def)
  show ?thesis using reason may fence l'(2)
    by (cases ev) (auto simp: silent_too_long_def ran_too_long_def)
qed

theorem lease_ends_only_by_design_witness:
  "\<exists>db'. farm_step (EvRelease 30 1 ''completed'') ex_busy db' \<and>
     (\<exists>l'\<in>set (leases db'). l_id l' = 30 \<and> \<not> is_live l' \<and>
        (\<exists>r\<in>set release_reasons. l_release_reason l' = Some r))"
proof -
  define db' where "db' = snd (Release Up 60000000 30 1 ''completed'' 0 ex_busy)"
  have step: "farm_step (EvRelease 30 1 ''completed'') ex_busy db'"
    unfolding db'_def by (rule farm_step.release) (rule surjective_pairing)
  define l' where "l' = close_row Released 60000000 ''completed'' ex_lease"
  have mem: "l' \<in> set (leases db')" unfolding db'_def l'_def by code_simp
  have dead: "l_id l' = l_id ex_lease" "\<not> is_live l'" unfolding l'_def by code_simp+
  have l: "ex_lease \<in> set (leases ex_busy)" "is_live ex_lease" by code_simp+
  have id: "l_id ex_lease = 30" by code_simp
  show ?thesis
    using lease_ends_only_by_design [OF step lease_wf_ex_busy l mem dead] step mem dead id by auto
qed

text \<open>
in every reachable state no two live leases share a device and no two share a job, so a device
is never granted to two jobs at once and a job never holds two devices.
\<close>

theorem no_double_grant:
  assumes "reachable db0 db" and "lease_wf db0"
    and "l \<in> set (leases db)" "l' \<in> set (leases db)" "is_live l" "is_live l'"
    and "l_device l = l_device l' \<or> l_job l = l_job l'"
  shows "l = l'"
  using assms one_live_per_device one_live_per_job lease_wf_reachable by blast

theorem no_double_grant_witness:
  "ex_lease \<in> set (leases ex_busy) \<and> is_live ex_lease \<and> ex_lease = hd (leases ex_busy)"
proof -
  have "ex_lease \<in> set (leases ex_busy)" "hd (leases ex_busy) \<in> set (leases ex_busy)" "is_live ex_lease"
    "is_live (hd (leases ex_busy))" "l_device ex_lease = l_device (hd (leases ex_busy))"
    by code_simp+
  then show ?thesis
    using no_double_grant [OF reachable.start lease_wf_ex_busy, of ex_lease "hd (leases ex_busy)"] by blast
qed

section \<open>Fencing\<close>

lemma ended_not_renewable:
  assumes wf: "lease_wf db" and l: "l \<in> set (leases db)" "\<not> is_live l" and m: "m \<in> set (leases db)"
    and i: "l_id m = l_id l"
  shows "m = l"
  by (rule keyed_eqD [OF lease_wfD(1) [OF wf] m l(1) i])

lemma Release_domain:
  assumes "lease_wf db" and "reason \<in> set release_reasons"
  shows "\<exists>b db'. Release Up now i f reason rearm db = (Inr b, db')"
  using lease_release_domain [OF assms, of now i f "intervalArg (or_default DefaultRearm rearm)"]
  by (auto simp: Release_def round_trip_def)

text \<open>
C3: an ended lease stays ended and its fence stays dead. However far the farm has moved on, a
process that still presents the id and fence of an ended lease is refused by every call, whatever
its incarnation: renew answers fenced, witness is refused, release releases nothing, and none of
them changes the database.
\<close>

theorem stale_fence_is_refused:
  assumes "reachable db db2" and wf: "lease_wf db" and l: "l \<in> set (leases db)" "\<not> is_live l"
    and reason: "reason \<in> set release_reasons"
  shows "l \<in> set (leases db2) \<and>
    Renew Up now (l_id l) (l_fence l) inst db2 = (Inl ErrFenced, db2) \<and>
    Witness Up now (l_id l) (l_fence l) cap db2 = (Inr None, db2) \<and>
    Release Up now (l_id l) (l_fence l) reason rearm db2 = (Inr False, db2)"
proof -
  have wf2: "lease_wf db2" by (rule lease_wf_reachable [OF assms(1) wf])
  have mem: "l \<in> set (leases db2)" by (rule ended_forever [OF assms(1) wf l])
  have none: "\<not> (l_id m = l_id l \<and> is_live m)" if "m \<in> set (leases db2)" for m
    using ended_not_renewable [OF wf2 mem l(2) that] l(2) by auto
  have "Renew Up now (l_id l) (l_fence l) inst db2 = (Inl ErrFenced, db2)"
    unfolding Renew_fenced [OF wf2] using none by (auto simp: owns_def renewable_def)
  moreover have "List.find (witnessable db2 (l_id l) (l_fence l) c) (leases db2) = None" for c
    using none by (auto simp: find_None_iff witnessable_def)
  then have "Witness Up now (l_id l) (l_fence l) cap db2 = (Inr None, db2)"
    by (simp add: Witness_def round_trip_def lease_witness_eq [OF wf2])
  moreover have "Release Up now (l_id l) (l_fence l) reason rearm db2 = (Inr False, db2)"
  proof -
    obtain b db' where rel: "Release Up now (l_id l) (l_fence l) reason rearm db2 = (Inr b, db')"
      using Release_domain [OF wf2 reason] by blast
    then have "lease_release now (l_id l) (l_fence l) reason (intervalArg (or_default DefaultRearm rearm)) db2 = Inr (b, db')"
      by (auto simp: Release_def round_trip_Inr split: prod.splits sum.splits db_error.splits sql_error.splits)
    from lease_release_leases(2,3) [OF this] none have "\<not> b" "db' = db2" by auto
    then show ?thesis using rel by simp
  qed
  ultimately show ?thesis using mem by blast
qed

theorem stale_fence_is_refused_witness:
  "Renew Up 120000000 30 1 5 (snd (Release Up 60000000 30 1 ''completed'' 0 ex_busy)) =
     (Inl ErrFenced, snd (Release Up 60000000 30 1 ''completed'' 0 ex_busy))"
proof -
  define db where "db = snd (Release Up 60000000 30 1 ''completed'' 0 ex_busy)"
  define l where "l = close_row Released 60000000 ''completed'' ex_lease"
  have wf: "lease_wf db" unfolding db_def by code_simp
  have l: "l \<in> set (leases db)" "\<not> is_live l" unfolding db_def l_def by code_simp+
  have id: "l_id l = 30" "l_fence l = 1" unfolding l_def by code_simp+
  have "''completed'' \<in> set release_reasons" by code_simp
  from stale_fence_is_refused [OF reachable.start wf l this, of 120000000 5] show ?thesis
    by (simp add: id db_def)
qed

text \<open>
C4: a holder that reports Fenced has really lost its lease. In every interleaving of the renewal
loop, its callers and the rest of the farm, with the connection failing in any way, Fenced() is
true only once the database no longer has a live lease at this id, fence and process incarnation.
A database error alone never makes it true.
\<close>

theorem fenced_means_lost:
  assumes "(holder_step (foreign_step (HolderInstance l)) Renew Release Witness)\<^sup>*\<^sup>* (NewHolder l cfg, db0) (h, db)"
    and "lease_wf db0" and "Fenced h"
  shows "\<not> owns db (ID l) (Fence l) (HolderInstance l)"
  by (rule farm_holder.fenced_is_lost [OF assms])

definition ex_held :: lease where
  "ex_held = \<lparr>ID = 30, DeviceID = 10, SlotID = Some 1, JobID = 20, Fence = 1, Holder = ''pod-a'',
     HolderInstance = 5, ExpiresAt = minutes 15, ReclaimableAt = minutes 20\<rparr>"

definition ex_cfg :: holder_config where
  "ex_cfg = \<lparr>Interval = 0, RenewTimeout = 0, RetryBase = 0, RetryMax = 0, ReleaseTimeout = 0,
     WitnessMaxExtensions = 0\<rparr>"

theorem fenced_means_lost_witness:
  "\<exists>h. (holder_step (foreign_step 5) Renew Release Witness)\<^sup>*\<^sup>* (NewHolder ex_held ex_cfg, ex_idle) (h, ex_idle)
     \<and> Fenced h \<and> \<not> owns ex_idle 30 1 5"
proof -
  let ?S = "holder_step (foreign_step 5) Renew Release Witness"
  define h0 where "h0 = NewHolder ex_held ex_cfg"
  define h1 where "h1 = h0\<lparr>h_phase := Renewing None\<rparr>"
  define h2 where "h2 = h1\<lparr>h_phase := Renewing (Some (Inl ErrFenced))\<rparr>"
  define h3 where "h3 = run_switch 0 (\<lambda>_. 0) (Inl ErrFenced) h2"
  have "?S (h0, ex_idle) (h1, ex_idle)"
    unfolding h1_def by (rule holder_step.timer_fires) (simp add: h0_def NewHolder_def Let_def)
  moreover have "?S (h1, ex_idle) (h2, ex_idle)"
    unfolding h2_def
  proof (rule holder_step.store_answers)
    show "h_phase h1 = Renewing None" by (simp add: h1_def)
    show "renewOnce Renew Up 60000000 h1 ex_idle = (Inl ErrFenced, ex_idle)"
      unfolding h1_def h0_def by code_simp
  qed
  moreover have "?S (h2, ex_idle) (h3, ex_idle)"
    unfolding h3_def by (rule holder_step.loop_switches) (simp_all add: h2_def is_rand_def)
  ultimately have run: "?S\<^sup>*\<^sup>* (NewHolder ex_held ex_cfg, ex_idle) (h3, ex_idle)"
    unfolding h0_def [symmetric] by (meson converse_rtranclp_into_rtranclp rtranclp.rtrancl_refl)
  have f: "Fenced h3" by (simp add: h3_def run_switch_def markFenced_def stop_once_def cancel_ctx_def
        Fenced_def split: option.split)
  have "\<not> owns ex_idle (ID ex_held) (Fence ex_held) (HolderInstance ex_held)"
    by (rule fenced_means_lost [OF _ lease_wf_ex_idle f]) (use run in \<open>simp add: ex_held_def\<close>)
  then show ?thesis using run f by (auto simp: ex_held_def)
qed

section \<open>An unknown model\<close>

lemma eq_any_None: "vs \<noteq> [] \<Longrightarrow> eq_any None vs = None"
  by (induction vs) (auto simp: eq_any_def tri_eq_def, case_tac "vs = []", auto)

text \<open>
a device whose model was never read passes a selector that lists models. The comparison with the
list is NULL, and the guard that would turn the device away is taken only when its condition is true;
the same device fails a selector that names one model, and an empty list turns it away.
\<close>

theorem null_model_passes_model_in:
  assumes "device_by_id db dev = Some d" and "d_model d = None" and "vs \<noteq> []"
  shows "device_matches db dev [SelModelIn vs] \<and> \<not> device_matches db dev [SelModel (Some m)] \<and>
    \<not> device_matches db dev [SelModelIn []]"
  using assms eq_any_None [OF assms(3)] by (simp add: device_matches_def holds_def tri_not_def eq_any_def)

theorem null_model_passes_model_in_witness:
  "device_matches ex_busy 10 [SelModelIn [Some ''Pixel 8'']] \<and> \<not> device_matches ex_busy 10 [SelModel (Some ''Pixel 8'')]"
proof -
  have "device_by_id ex_busy 10 = Some (hd (devices ex_busy))" "d_model (hd (devices ex_busy)) = None" by code_simp+
  then show ?thesis using null_model_passes_model_in [of ex_busy 10 _ "[Some ''Pixel 8'']" "''Pixel 8''"] by simp
qed

end
