(* ===== verification/Lease_Calls.thy ===== *)
theory Lease_Calls
  imports Farm_System Farm_Example
begin

text \<open>
  What each lease call promises whoever makes it: renewals, acquires and re-attaches, releases, the
  operator's revoke, and the reaper's arm and reclaim.
\<close>

section \<open>Renew\<close>



section \<open>Acquire\<close>

lemma find_live_job:
  assumes wf: "lease_wf db" and l: "l \<in> set (leases db)" "is_live l"
  shows "List.find (\<lambda>x. l_job x = l_job l \<and> is_live x) (leases db) = Some l"
proof -
  obtain x where x: "List.find (\<lambda>x. l_job x = l_job l \<and> is_live x) (leases db) = Some x"
    using l by (cases "List.find (\<lambda>x. l_job x = l_job l \<and> is_live x) (leases db)") (auto simp: find_None_iff)
  then have "x \<in> set (leases db)" "l_job x = l_job l" "is_live x" by (auto dest: find_SomeD)
  then show ?thesis using x one_live_per_job [OF wf _ l(1) _ l(2), of x] by simp
qed

text \<open>May this caller acquire for this job at all: the gates ahead of both phases.\<close>

definition may_ask :: "farm \<Rightarrow> uuid \<Rightarrow> caller \<Rightarrow> bool" where
  "may_ask db jobID as \<longleftrightarrow> Principal as \<noteq> control_plane_principal \<and>
     (case job_by_id db jobID of
        None \<Rightarrow> False
      | Some j \<Rightarrow> (Tenant as = [] \<or> Tenant as = j_tenant j) \<and> selector_unknown_keys (j_selector j) = [])"

lemma control_plane_not_empty: "control_plane_principal \<noteq> []"
  by (simp add: control_plane_principal_def)

lemma acquire_live:
  assumes wf: "lease_wf db" and l: "l \<in> set (leases db)" "is_live l" and ask: "may_ask db (l_job l) as"
  shows "lease_acquire now n m (l_job l) h i (nullif_empty (Tenant as)) (nullif_empty (Principal as)) db =
    lease_reattach now m h i (nullif_empty (Principal as)) l db"
  using find_live_job [OF wf l] ask control_plane_not_empty
  by (auto simp: lease_acquire_def may_ask_def nullif_empty_def split: option.splits)


definition ex_caller :: caller where
  "ex_caller = \<lparr>Tenant = ''acme'', Principal = ''sa:ci''\<rparr>"


text \<open>
a known job id is not enough to take a lease. A caller whose principal is not the one the live
lease is bound to is refused with ErrNotPermitted, and the refusal writes nothing: the database,
and with it the rightful holder's fence, incarnation and deadlines, is exactly as it was.
\<close>

theorem reattach_other_principal_refused:
  assumes wf: "lease_wf db" and l: "l \<in> set (leases db)" "is_live l" and ask: "may_ask db (l_job l) as"
    and who: "Principal as \<noteq> []" "l_holder_principal l = Some p" "p \<noteq> Principal as"
  shows "AcquireAs Up now n m (l_job l) h i as db = (Inl (ErrNotPermitted WrongPrincipal), db)"
proof -
  have "lease_reattach now m h i (nullif_empty (Principal as)) l db = Inl WrongPrincipal"
    using who by (simp add: lease_reattach_eq(1) [OF wf l] nullif_empty_def)
  then show ?thesis by (simp add: AcquireAs_def round_trip_def acquire_live [OF wf l ask])
qed

theorem reattach_other_principal_refused_witness:
  "AcquireAs Up 60000000 31 True 20 ''thief'' 9 \<lparr>Tenant = ''acme'', Principal = ''sa:other''\<rparr> ex_busy =
     (Inl (ErrNotPermitted WrongPrincipal), ex_busy)"
proof -
  let ?as = "\<lparr>Tenant = ''acme'', Principal = ''sa:other''\<rparr>"
  have l: "ex_lease \<in> set (leases ex_busy)" "is_live ex_lease" "may_ask ex_busy (l_job ex_lease) ?as"
    "l_holder_principal ex_lease = Some ''sa:ci''" "l_job ex_lease = 20" by code_simp+
  show ?thesis
    using reattach_other_principal_refused [OF lease_wf_ex_busy l(1-3) _ l(4), of 60000000 31 True "''thief''" 9]
    unfolding l(5) by simp
qed

text \<open>
C16: a grant goes only to a device that is fit for it, under a fence nobody has seen. When acquire
allocates (as opposed to re-attaching), the device is enabled and unleased, sits in an enabled host
and an active slot whose rearm window has passed, is on the wire and healthy, belongs to the job's
pool, satisfies its pin and its selector, and the fence handed out is above every fence and every
fence floor in the farm.
\<close>

theorem grant_is_fit:
  assumes wf: "lease_wf db" and res: "AcquireAs Up now n m jobID h i as db = (Inr a, db')" "\<not> Reattached a"
  shows "\<exists>d j. d \<in> set (devices db) \<and> DeviceID (ac_Lease a) = d_id d \<and> job_by_id db jobID = Some j \<and>
    placeable now db d \<and> d_pool d = j_pool j \<and> (j_pin_device j = None \<or> j_pin_device j = Some (d_id d)) \<and>
    device_matches db (d_id d) (j_selector j) \<and>
    (\<forall>l\<in>set (leases db). l_fence l < Fence (ac_Lease a)) \<and>
    (\<forall>x\<in>set (devices db). d_fence_floor x < Fence (ac_Lease a))"
proof -
  let ?c = "nullif_empty (Principal as)"
  obtain x xs where acq: "lease_acquire now n m jobID h i (nullif_empty (Tenant as)) ?c db = Inr (x # xs, db')"
    and x: "ac_Lease a = \<lparr>ID = aq_lease x, DeviceID = aq_device x, SlotID = aq_slot x, JobID = jobID,
       Fence = aq_fence x, Holder = h, HolderInstance = i, ExpiresAt = aq_expires_at x,
       ReclaimableAt = aq_reclaimable_at x\<rparr>" "Reattached a = aq_reattached x"
    using res(1) by (auto simp: AcquireAs_def round_trip_def
        split: prod.splits sum.splits list.splits db_error.splits sql_error.splits)
  then obtain j where j: "job_by_id db jobID = Some j"
    by (auto simp: lease_acquire_def split: if_splits option.splits)
  have "List.find (\<lambda>l. l_job l = jobID \<and> is_live l) (leases db) = None"
  proof (rule ccontr)
    assume "List.find (\<lambda>l. l_job l = jobID \<and> is_live l) (leases db) \<noteq> None"
    then obtain e where e: "List.find (\<lambda>l. l_job l = jobID \<and> is_live l) (leases db) = Some e" by auto
    then have "e \<in> set (leases db)" "is_live e" by (auto dest: find_SomeD)
    note re = lease_reattach_eq(1) [OF wf this]
    have "lease_reattach now m h i ?c e db = Inr (x # xs, db')"
      using acq j e by (auto simp: lease_acquire_def split: if_splits)
    then have "aq_reattached x" by (auto simp: re acquired_of_def split: if_splits)
    with x(2) res(2) show False by simp
  qed
  then have al: "lease_allocate now n j h i ?c db = Inr (x # xs, db')"
    using acq j by (auto simp: lease_acquire_def split: if_splits)
  from lease_allocate_grantD [OF al] obtain d where d: "choose_device now db j = Some d"
    and row: "x # xs = [acquired_of False (new_lease_row now n (fence_seq db + 1) d j h i ?c)]" by blast
  have dev: "DeviceID (ac_Lease a) = d_id d" "Fence (ac_Lease a) = fence_seq db + 1"
    using x(1) row by (auto simp: acquired_of_def)
  have lt: "l_fence l < fence_seq db + 1" if "l \<in> set (leases db)" for l
    using lease_wfD(6) [OF wf that] by (auto simp: lease_ok_def)
  have fl: "d_fence_floor y < fence_seq db + 1" if "y \<in> set (devices db)" for y
    using lease_wfD(7) [OF wf that] by (auto simp: device_ok_def)
  show ?thesis
    using choose_deviceD [OF d] j dev lt fl by (intro exI [of _ d] exI [of _ j]) (auto split: option.splits)
qed

theorem grant_is_fit_witness:
  "\<exists>a db'. AcquireAs Up 60000000 31 True 20 ''pod-a'' 5 ex_caller ex_idle = (Inr a, db') \<and>
     \<not> Reattached a \<and> DeviceID (ac_Lease a) = 10 \<and>
     (\<exists>d\<in>set (devices ex_idle). DeviceID (ac_Lease a) = d_id d \<and> placeable 60000000 ex_idle d)"
proof -
  define res where "res = AcquireAs Up 60000000 31 True 20 ''pod-a'' 5 ex_caller ex_idle"
  have ok: "case fst res of Inl _ \<Rightarrow> False | Inr a \<Rightarrow> \<not> Reattached a \<and> DeviceID (ac_Lease a) = 10"
    unfolding res_def by code_simp
  then obtain a where a: "fst res = Inr a" "\<not> Reattached a" "DeviceID (ac_Lease a) = 10"
    by (cases "fst res") auto
  have eq: "AcquireAs Up 60000000 31 True 20 ''pod-a'' 5 ex_caller ex_idle = (Inr a, snd res)"
    using a(1) by (simp add: res_def [symmetric] prod_eq_iff)
  from grant_is_fit [OF lease_wf_ex_idle this a(2)] eq a show ?thesis by blast
qed

section \<open>Release and revoke\<close>

text \<open>
There is no word for a lost connection. Releasing a live lease, at its own id and fence, with
any reason outside the seven (device_offline, transport_lost, ...) is refused as a check violation,
and the lease and everything else is untouched.
\<close>

theorem release_reason_is_closed:
  assumes "lease_wf db" and "l \<in> set (leases db)" "is_live l" and "reason \<notin> set release_reasons"
  shows "Release Up now (l_id l) (l_fence l) reason rearm db = (Inl (CheckViolationError reason), db)"
  using lease_release_reason_refused [OF assms(1,2) refl refl assms(3,4)]
  by (simp add: Release_def round_trip_def)

theorem release_reason_is_closed_witness:
  "Release Up 60000000 30 1 ''device_offline'' 0 ex_busy = (Inl (CheckViolationError ''device_offline''), ex_busy)"
proof -
  have l: "ex_lease \<in> set (leases ex_busy)" "is_live ex_lease" "''device_offline'' \<notin> set release_reasons"
    "l_id ex_lease = 30" "l_fence ex_lease = 1" by code_simp+
  from release_reason_is_closed [OF lease_wf_ex_busy l(1-3), of 60000000 0] show ?thesis unfolding l(4,5) .
qed

text \<open>The Go vocabulary and the column's CHECK are the same seven words.\<close>

lemma Valid_domain: "Valid r \<longleftrightarrow> r \<in> set release_reasons"
  by (auto simp: Valid_def release_reasons_def)

text \<open>
a release hands the device over safely. With a valid reason it closes exactly the presented
lease, records the reason, frees the device's pointer, and raises the device's fence floor above
the fence it was held under, so nothing still carrying that fence is accepted again.
\<close>

theorem release_raises_the_floor:
  assumes wf: "lease_wf db" and l: "l \<in> set (leases db)" "is_live l" and reason: "Valid reason"
  shows "\<exists>db'. Release Up now (l_id l) (l_fence l) reason rearm db = (Inr True, db') \<and> lease_wf db' \<and>
    close_row Released now reason l \<in> set (leases db') \<and>
    (\<exists>d. device_by_id db' (l_device l) = Some d \<and> l_fence l < d_fence_floor d \<and> d_current_lease d \<noteq> Some (l_id l))"
proof -
  have "reason \<in> set release_reasons" using reason by (simp add: Valid_domain)
  then obtain b db' where rel: "lease_release now (l_id l) (l_fence l) reason
      (intervalArg (or_default DefaultRearm rearm)) db = Inr (b, db')"
    using lease_release_domain [OF wf] by blast
  note R = lease_release_leases [OF rel] and wf' = lease_wf_release [OF wf rel]
  have b: "b" using R(2) l by auto
  have mem: "close_row Released now reason l \<in> set (leases db')"
    using l by (auto simp: R(1) set_update_where)
  obtain d where d: "d \<in> set (devices db')" "d_id d = l_device l"
    using device_exists [OF wf' mem] by auto
  have "l_fence l < d_fence_floor d" using lease_device [OF wf' mem d(1)] d(2) by (simp add: close_row_live)
  moreover have "d_current_lease d \<noteq> Some (l_id l)"
  proof
    assume "d_current_lease d = Some (l_id l)"
    then obtain x where x: "x \<in> set (leases db')" "l_id x = l_id l" "is_live x"
      using lease_wfD(7) [OF wf' d(1)] by (auto simp: device_ok_def)
    then have "x = close_row Released now reason l"
      by (intro keyed_eqD [OF lease_wfD(1) [OF wf'] x(1) mem]) simp
    with x(3) show False by (simp add: close_row_live)
  qed
  ultimately show ?thesis
    using rel b wf' mem device_by_id_wf [OF wf' d(1)] d(2) by (auto simp: Release_def round_trip_def)
qed

theorem release_raises_the_floor_witness:
  "\<exists>db' d. Release Up 60000000 30 1 ''completed'' 0 ex_busy = (Inr True, db') \<and>
     device_by_id db' 10 = Some d \<and> 1 < d_fence_floor d"
proof -
  have l: "ex_lease \<in> set (leases ex_busy)" "is_live ex_lease" "Valid ''completed''"
    "l_id ex_lease = 30" "l_fence ex_lease = 1" "l_device ex_lease = 10" by code_simp+
  from release_raises_the_floor [OF lease_wf_ex_busy l(1-3), of 60000000 0] show ?thesis unfolding l(4-6) by blast
qed

text \<open>
An operator can always take a live device back, without knowing its fence. A well-formed
request with a reason closes exactly that lease as operator_revoked, answers the device's new
floor, which is above the revoked fence, and keeps the lease tables well-formed.
\<close>

theorem revoke_takes_it_back:
  assumes wf: "lease_wf db" and l: "l \<in> set (leases db)" "is_live l"
    and req: "looksLikeUUID (trim_space idText)" "trim_space why \<noteq> []"
  shows "\<exists>floor' db'. handleLeaseRevoke Up ks now idText (l_id l) (Some why) who rearm db =
      (RevokeOk (l_device l) (l_job l) (l_fence l) floor', db') \<and> lease_wf db' \<and> l_fence l < floor' \<and>
      leases db' = update_where (\<lambda>x. l_id x = l_id l \<and> is_live x)
        (close_row Released now ''operator_revoked'') (leases db)"
  using revoke_tx_live [OF wf l(1) refl l(2), of now who "trim_space why" "intervalSeconds (or_default DefaultRearm rearm)"] req
  by (auto simp: handleLeaseRevoke_def round_trip_def)

theorem revoke_takes_it_back_witness:
  "\<exists>floor' db'. handleLeaseRevoke Up Up 60000000 ''6ba7b810-9dad-11d1-80b4-00c04fd430c8'' 30
     (Some '' swollen battery '') ''ops'' 0 ex_busy = (RevokeOk 10 20 1 floor', db') \<and> 1 < floor'"
proof -
  have l: "ex_lease \<in> set (leases ex_busy)" "is_live ex_lease"
    "looksLikeUUID (trim_space ''6ba7b810-9dad-11d1-80b4-00c04fd430c8'')"
    "trim_space '' swollen battery '' \<noteq> []"
    "l_id ex_lease = 30" "l_fence ex_lease = 1" "l_device ex_lease = 10" "l_job ex_lease = 20" by code_simp+
  from revoke_takes_it_back [OF lease_wf_ex_busy l(1-4), of Up 60000000 "''ops''" 0]
  show ?thesis unfolding l(5-8) by blast
qed

section \<open>The reaper's two calls\<close>

lemma fold_after_runtimes:
  "fold (after_lease_update now) ps (db\<lparr>runtimes := rs\<rparr>) = (fold (after_lease_update now) ps db)\<lparr>runtimes := rs\<rparr>"
proof (induction ps arbitrary: db)
  case (Cons p ps)
  have "after_lease_update now p (db\<lparr>runtimes := rs\<rparr>) = (after_lease_update now p db)\<lparr>runtimes := rs\<rparr>" for db :: farm
    by (cases p) (simp add: after_lease_update_def trg_leases_sync_device_update_def trg_leases_ledger_def
        append_event_def)
  then show ?case by (simp add: Cons)
qed simp

lemma update_leases_runtimes:
  "update_leases now P f (db\<lparr>runtimes := rs\<rparr>) =
     map_sum id (\<lambda>(rows, d). (rows, d\<lparr>runtimes := rs\<rparr>)) (update_leases now P f db)"
proof -
  have swap: "db\<lparr>runtimes := rs, leases := ls\<rparr> = db\<lparr>leases := ls, runtimes := rs\<rparr>" for ls
    by (cases db) simp
  have "fold (after_lease_update now) ps (db\<lparr>runtimes := rs, leases := ls\<rparr>) =
      (fold (after_lease_update now) ps (db\<lparr>leases := ls\<rparr>))\<lparr>runtimes := rs\<rparr>" for ps ls
    unfolding swap by (rule fold_after_runtimes)
  then show ?thesis by (simp add: update_leases_def Let_def split: option.split)
qed

lemma bump_floors_runtimes:
  "bump_floors P (db\<lparr>runtimes := rs\<rparr>) = (bump_floors P db)\<lparr>runtimes := rs\<rparr>"
  by (simp add: bump_floors_def split: prod.split)

text \<open>
C17: the reclaim is blind to device health. Whatever the health plane has written about any device,
the same leases are reclaimed, with the same rows returned and the same effect on every other
table: there is no way for a device that looks offline to cost its holder the lease.
\<close>

theorem reclaim_is_health_blind:
  "lease_reclaim now batch rearm (db\<lparr>runtimes := rs\<rparr>) =
     map_sum id (\<lambda>(rows, d). (rows, d\<lparr>runtimes := rs\<rparr>)) (lease_reclaim now batch rearm db)"
proof (cases "reaper_gate_open now db")
  case False
  then show ?thesis by (simp add: lease_reclaim_def reaper_gate_open_def)
next
  case True
  let ?P = "\<lambda>l. l_id l \<in> reclaim_ids now batch db \<and> l_state l = Suspect \<and> l_reclaimable_at l < now"
  let ?f = "close_row Expired now ''holder_expired''"
  show ?thesis
  proof (cases "update_leases now ?P ?f db")
    case (Inl e)
    then show ?thesis using True update_leases_runtimes [where P = ?P and f = ?f and db = db and rs = rs]
      by (simp add: lease_reclaim_def reaper_gate_open_def Let_def reclaim_ids_def)
  next
    case (Inr x)
    obtain rows d where "x = (rows, d)" by fastforce
    then show ?thesis using True Inr update_leases_runtimes [where P = ?P and f = ?f and db = db and rs = rs]
      by (simp add: lease_reclaim_def reaper_gate_open_def Let_def reclaim_ids_def bump_floors_runtimes
          rearm_slots_def)
  qed
qed

text \<open>
an outage of the control plane is refunded, never charged. Arming the reaper succeeds on every
well-formed farm; it reports a gap, and every live lease has both of its deadlines moved out by
exactly that gap while every other lease is untouched. It refuses, with a gap of zero, exactly when
a watched component has never beaten.
\<close>

theorem arm_refunds_the_gap:
  assumes wf: "lease_wf db" and floor: "0 \<le> gap_floor"
  shows "\<exists>res db'. reaper_arm now comps gap_floor db = Inr (res, db') \<and> 0 \<le> ar_gap res \<and>
    (ar_armed res \<longleftrightarrow> unbeaten_components comps db = []) \<and>
    leases db' = update_where is_live (refund_row (ar_gap res)) (leases db) \<and> lease_wf db'"
  using reaper_arm_eq [OF assms, of now comps] by blast

theorem arm_refunds_the_gap_witness:
  "\<exists>res db'. reaper_arm (minutes 30) [''api''] (seconds 60) (ex_busy\<lparr>heartbeats := [(''api'', minutes 10)]\<rparr>) =
     Inr (res, db') \<and> ar_gap res = minutes 20 \<and> map l_expires_at (leases db') = [minutes 35]"
proof -
  let ?db = "ex_busy\<lparr>heartbeats := [(''api'', minutes 10)]\<rparr>"
  have wf: "lease_wf ?db" by code_simp
  have fl: "(0::int) \<le> seconds 60" by code_simp
  from arm_refunds_the_gap [OF wf fl, of "minutes 30" "[''api'']"] obtain res db' where
    r: "reaper_arm (minutes 30) [''api''] (seconds 60) ?db = Inr (res, db')"
    "leases db' = update_where is_live (refund_row (ar_gap res)) (leases ?db)" by blast
  have "(case reaper_arm (minutes 30) [''api''] (seconds 60) ?db of Inl _ \<Rightarrow> False
      | Inr (res, _) \<Rightarrow> ar_gap res = minutes 20)" by code_simp
  then have g: "ar_gap res = minutes 20" using r(1) by simp
  have "map l_expires_at (update_where is_live (refund_row (minutes 20)) (leases ?db)) = [minutes 35]"
    by code_simp
  then show ?thesis using r g by auto
qed

text \<open>The two refusal columns are written together.\<close>

definition refusal_ok :: "farm \<Rightarrow> bool" where
  "refusal_ok db \<longleftrightarrow> (rs_last_refusal (reaper_state db) = None \<longleftrightarrow> rs_last_refusal_at (reaper_state db) = None)"

text \<open>
a refused arm leaves every lease alone and shuts the reaper down until it is armed again: no
lease row changes, and a reclaim issued afterwards, at any instant and with any batch, reclaims
nothing and changes nothing.
\<close>

theorem refused_arm_shuts_the_gate:
  assumes "refusal_ok db" and "unbeaten_components comps db \<noteq> []"
  shows "\<exists>res db'. reaper_arm now comps gap_floor db = Inr (res, db') \<and> \<not> ar_armed res \<and>
    leases db' = leases db \<and> (\<forall>t n rearm. lease_reclaim t n rearm db' = Inr ([], db'))"
proof -
  define u where "u = unbeaten_components comps db"
  have "rs_last_refusal_at (reaper_state (arm_refuse now comps u db)) \<noteq> None"
    using assms(1) by (auto simp: arm_refuse_def Let_def refusal_ok_def)
  then have "reaper_gate_open t (arm_refuse now comps u db) = False" for t
    by (simp add: reaper_gate_open_def)
  then show ?thesis
    using assms(2) by (auto simp: reaper_arm_def Let_def u_def [symmetric] lease_reclaim_closed)
qed

theorem refused_arm_shuts_the_gate_witness:
  "\<exists>res db'. reaper_arm 0 ReaperComponents (seconds 60) ex_busy = Inr (res, db') \<and> \<not> ar_armed res \<and>
     lease_reclaim (hours 24) 100 0 db' = Inr ([], db')"
proof -
  have "refusal_ok ex_busy" "unbeaten_components ReaperComponents ex_busy \<noteq> []" by code_simp+
  from refused_arm_shuts_the_gate [OF this, of 0 "seconds 60"] show ?thesis by blast
qed

section \<open>Deadlines and history\<close>

text \<open>
no step of any component moves a deadline back or rewrites history. For a lease present before
and after a step, its id, fence, device, job, acquisition instant and protection are the same, both
deadlines are at least what they were, and if it had ended it is exactly the same row.
\<close>

theorem deadlines_only_move_out:
  assumes "farm_step ev db db'" and "lease_wf db"
    and "l \<in> set (leases db)" "l' \<in> set (leases db')" "l_id l' = l_id l"
  shows "l_fence l' = l_fence l \<and> l_device l' = l_device l \<and> l_job l' = l_job l \<and>
    l_acquired_at l' = l_acquired_at l \<and> l_protected l' = l_protected l \<and>
    l_expires_at l \<le> l_expires_at l' \<and> l_reclaimable_at l \<le> l_reclaimable_at l' \<and> (\<not> is_live l \<longrightarrow> l' = l)"
  using farm_step_row [OF assms] by (simp add: row_core_def)

theorem deadlines_only_move_out_witness:
  "l_expires_at ex_lease \<le> l_expires_at (hd (leases (snd (Renew Up 60000000 30 1 5 ex_busy))))"
proof -
  define db' where "db' = snd (Renew Up 60000000 30 1 5 ex_busy)"
  have step: "farm_step (EvRenew 30 1 5) ex_busy db'"
    unfolding db'_def by (rule farm_step.renew) (rule surjective_pairing)
  have "leases db' \<noteq> []" "l_id (hd (leases db')) = l_id ex_lease" unfolding db'_def by code_simp+
  then have "hd (leases db') \<in> set (leases db')" "l_id (hd (leases db')) = l_id ex_lease" by simp_all
  moreover have "ex_lease \<in> set (leases ex_busy)" by code_simp
  ultimately show ?thesis
    unfolding db'_def [symmetric] using deadlines_only_move_out [OF step lease_wf_ex_busy] by blast
qed

end
