(* ===== verification/Loop_Properties.thy ===== *)
theory Loop_Properties
  imports Farm_System Farm_Example
begin

text \<open>
  The theorems about the long-running loops: leader election, the reaper's cycle, the scheduler's
  cycle, the holder's retry delay, and the health plane.
\<close>

section \<open>Leader election\<close>

text \<open>
C18: at most one replica leads. In every interleaving of lock attempts, releases, lost answers and
dying sessions, two replicas that both believe they hold the lead, on sessions the server still
considers alive, are the same replica.
\<close>

theorem at_most_one_live_leader:
  assumes "lead_step\<^sup>*\<^sup>* \<lparr>cl_reps = \<lambda>_. replica key, cl_locks = locks, cl_dead = D\<rparr> c"
    and "ld_held (cl_reps c p)" "ld_conn (cl_reps c p) = Some s" "s \<notin> cl_dead c"
    and "ld_held (cl_reps c q)" "ld_conn (cl_reps c q) = Some s'" "s' \<notin> cl_dead c"
  shows "p = q"
proof -
  have ok: "lead_ok key c" by (rule lead_ok_reachable [OF assms(1)])
  have "cl_locks c key = Some s" using lead_okD(3) [OF ok assms(2)] assms(3,4) by auto
  moreover have "cl_locks c key = Some s'" using lead_okD(3) [OF ok assms(5)] assms(6,7) by auto
  ultimately show ?thesis using lead_okD(2) [OF ok, of p s q] assms(3,6) by simp
qed

definition ex_cluster :: cluster where
  "ex_cluster = \<lparr>cl_reps = \<lambda>_. replica 1, cl_locks = \<lambda>_. None, cl_dead = {}\<rparr>"

theorem at_most_one_live_leader_witness:
  "\<exists>c. lead_step ex_cluster c \<and> ld_held (cl_reps c 0) \<and>
     (\<forall>q. ld_held (cl_reps c q) \<longrightarrow> ld_conn (cl_reps c q) = Some 7 \<longrightarrow> q = 0)"
proof -
  let ?io = "\<lparr>io_probe = True, io_pool = Some 7, io_lock = Up\<rparr>"
  let ?l = "\<lparr>ld_key = 1, ld_conn = Some 7, ld_held = True\<rparr>"
  define c where "c = ex_cluster\<lparr>cl_reps := (cl_reps ex_cluster)(0 := ?l), cl_locks := (\<lambda>_. None)(1 := Some 7)\<rparr>"
  have e: "ensure ?io (cl_reps ex_cluster 0) (cl_locks ex_cluster) = (Ensured True True, ?l, (\<lambda>_. None)(1 := Some 7))"
    by (simp add: ex_cluster_def ensure_defs replica_def)
  have step: "lead_step ex_cluster c"
    unfolding c_def by (rule lead_step.ensures [OF e]) (auto simp: ex_cluster_def replica_def)
  then have run: "lead_step\<^sup>*\<^sup>* \<lparr>cl_reps = \<lambda>_. replica 1, cl_locks = \<lambda>_. None, cl_dead = {}\<rparr> c"
    unfolding ex_cluster_def by blast
  have h: "ld_held (cl_reps c 0)" "ld_conn (cl_reps c 0) = Some 7" "7 \<notin> cl_dead c"
    by (simp_all add: c_def ex_cluster_def)
  show ?thesis using step h at_most_one_live_leader [OF run _ _ _ h] by blast
qed

section \<open>The reaper's cycle\<close>

text \<open>
C19: the reaper never sweeps unarmed. A cycle keeps the lease tables well-formed, and a live lease it
ends was ended by a leader that was armed, either for a job past its own max_runtime or for an
unprotected holder silent past its deadline with no recent witness. A leader that has just gained
its lead, or that finds a standing refusal, is armed at the end of the cycle only if farm.reaper_arm
succeeded in that very cycle.
\<close>

theorem reaper_arms_before_it_sweeps:
  assumes "lease_wf db" and "reaper_cycle io r locks db = (r', locks', db')" and "conn_ok (rp_lead r)"
  shows "lease_wf db' \<and>
    rows_step (\<lambda>_ l'. rp_armed r' \<and> ld_held (rp_lead r') \<and> reaper_ending io db l') (leases db) (leases db') \<and>
    (rp_armed r' \<and> ld_held (rp_lead r') \<and> (\<not> ld_held (rp_lead r) \<or> standing_refusal db) \<longrightarrow>
      (\<exists>out db1. ReaperArm (fst (rio_arm io)) (snd (rio_arm io)) (rf_Components (rp_cfg r))
         (rf_GapFloor (rp_cfg r)) (reaper_beat (rio_beat io) r db) = (Inr out, db1) \<and> Armed out))"
  by (rule reaper_cycle_rows [OF assms])

definition ex_reaper :: reaper where
  "ex_reaper = reaper_New \<lparr>rf_Component = [], rf_Interval = 0, rf_Batch = 0, rf_GapFloor = 0,
     rf_Components = [], rf_Rearm = 0, rf_CallTimeout = 0, rf_CensusEvery = 0, rf_LockKey = 0\<rparr>"

definition ex_reaper_io :: reaper_io where
  "ex_reaper_io = \<lparr>rio_local = 1, rio_beat = (Up, 1), rio_ensure = \<lparr>io_probe = True, io_pool = Some 7, io_lock = Up\<rparr>,
     rio_arm = (Up, 2), rio_unlock = True, rio_suspect = (Up, 3), rio_max_runtime = (Up, 4),
     rio_reclaim = (Up, 5), rio_audit = (Up, 6)\<rparr>"

theorem reaper_arms_before_it_sweeps_witness:
  "\<exists>r' locks' db'. reaper_cycle ex_reaper_io ex_reaper (\<lambda>_. None) ex_busy = (r', locks', db') \<and>
     lease_wf db' \<and> \<not> rp_armed r' \<and> rows_step no_ending (leases ex_busy) (leases db')"
proof -
  obtain r' locks' db' where c: "reaper_cycle ex_reaper_io ex_reaper (\<lambda>_. None) ex_busy = (r', locks', db')"
    by (cases rule: prod_cases3)
  have conn: "conn_ok (rp_lead ex_reaper)" by code_simp
  have "\<not> rp_armed (fst (reaper_cycle ex_reaper_io ex_reaper (\<lambda>_. None) ex_busy))" by code_simp
  then have na: "\<not> rp_armed r'" using c by simp
  from reaper_arms_before_it_sweeps [OF lease_wf_ex_busy c conn] c na show ?thesis by auto
qed

section \<open>The scheduler's cycle\<close>

text \<open>
a whole scheduling cycle over the batch keeps the lease tables well-formed, and every lease that
was live when it began is still live when it ends or was ended for a reason the job itself carries
(completed, failed, cancelled). The scheduler has no other way to take a device from anybody.
\<close>

theorem scheduler_takes_nothing:
  assumes "place_loop io now ex js s db = (out, n, fin, s', db')" and "lease_wf db"
  shows "lease_wf db' \<and> follows ended_by_job (leases db) (leases db')"
  by (rule place_loop_keeps [OF assms])

definition ex_sched :: scheduler where
  "ex_sched = the (sched_New \<lparr>sf_Component = [], sf_Holder = ''pod-s'', sf_HolderInstance = 8, sf_Interval = 0,
     sf_IdleInterval = 0, sf_Batch = 0, sf_JobBackoff = 0, sf_JobBackoffMax = 0, sf_CallTimeout = 0,
     sf_SlotRearm = 0, sf_LockKey = 0\<rparr>)"

definition ex_job_io :: job_io where
  "ex_job_io = \<lparr>ji_cancelled = False, ji_rnd = \<lambda>_. 0, ji_acquire = (Up, 100), ji_new_id = 77,
     ji_may_log = True, ji_mark = (Up, 200), ji_state = Up, ji_release = (Up, 300)\<rparr>"

theorem scheduler_takes_nothing_witness:
  "\<exists>out n fin s' db'. place_loop (\<lambda>_. ex_job_io) 0 [] (candidates 32 ex_idle) ex_sched ex_idle = (out, n, fin, s', db') \<and>
     map snd out = [''placed''] \<and> lease_wf db'"
proof -
  obtain out n fin s' db' where p:
    "place_loop (\<lambda>_. ex_job_io) 0 [] (candidates 32 ex_idle) ex_sched ex_idle = (out, n, fin, s', db')"
    by (cases "place_loop (\<lambda>_. ex_job_io) 0 [] (candidates 32 ex_idle) ex_sched ex_idle") auto
  have "map snd (fst (place_loop (\<lambda>_. ex_job_io) 0 [] (candidates 32 ex_idle) ex_sched ex_idle)) = [''placed'']"
    by code_simp
  then show ?thesis using p scheduler_takes_nothing [OF p lease_wf_ex_idle] by auto
qed

text \<open>
The unwind releases only what it was handed, only for a finished job. Between the grant and the
bookkeeping anything may have happened to the job; whatever state is found, the only lease the
scheduler ends is the one it was just granted, and only when the job row it re-read is terminal,
with the reason that state stands for. A job found running or allocating keeps its lease.
\<close>

theorem unwind_only_finished_jobs:
  assumes "lease_wf db" and "unwind io s jobID l db = (out, db')"
  shows "lease_wf db' \<and>
    rows_step (\<lambda>_ l'. l_id l' = ID l \<and> l_fence l' = Fence l \<and>
      (\<exists>j r. job_by_id db jobID = Some j \<and> unwind_reason (j_state j) = Some r \<and> l_release_reason l' = Some r))
      (leases db) (leases db')"
  using unwind_rows [OF assms] by (auto simp: job_ended_it_def elim: rows_step_mono)

definition ex_granted :: lease where
  "ex_granted = \<lparr>ID = 30, DeviceID = 10, SlotID = Some 1, JobID = 20, Fence = 1, Holder = ''pod-s'',
     HolderInstance = 8, ExpiresAt = 0, ReclaimableAt = 0\<rparr>"

theorem unwind_only_finished_jobs_witness:
  "\<exists>out db'. unwind ex_job_io ex_sched 20 ex_granted (ex_busy\<lparr>jobs := [ex_job\<lparr>j_state := Cancelled\<rparr>]\<rparr>) = (out, db') \<and>
     out = ''unwound'' \<and> lease_wf db'"
proof -
  let ?db = "ex_busy\<lparr>jobs := [ex_job\<lparr>j_state := Cancelled\<rparr>]\<rparr>"
  obtain out db' where u: "unwind ex_job_io ex_sched 20 ex_granted ?db = (out, db')" by fastforce
  have wf: "lease_wf ?db" by code_simp
  have "fst (unwind ex_job_io ex_sched 20 ex_granted ?db) = ''unwound''" by code_simp
  then show ?thesis using u unwind_only_finished_jobs [OF wf u] by auto
qed

text \<open>
A full pool costs one question per cycle, and a quota is never overrun by asking. Every outcome
of a cycle is about a job of the batch; a job is counted under quota exactly when its tenant or its
queue is at its cap, so no acquire is issued for it; and the pools that answered "no capacity" to an
unpinned job are pairwise different, so each is asked at most once more in the cycle.
\<close>

theorem cycle_asks_each_pool_once:
  assumes "place_loop io now [] js s db = (out, n, fin, s', db')"
  shows "distinct (full_pools out) \<and>
    (\<forall>(c, r)\<in>set out. c \<in> set js \<and> (r = ''quota'' \<longleftrightarrow> \<not> withinQuota c))"
  using place_loop_full_pools [OF assms] place_loop_attempts [OF assms] by auto

definition ex_capped :: candidate where
  "ex_capped = \<lparr>ca_ID = 20, ca_PoolID = ''default'', ca_TenantID = ''acme'', ca_QueueID = ''nightly'',
     ca_Pinned = False, ca_tenantCap = 1, ca_queueCap = 0, ca_tenantHeld = 1, ca_queueHeld = 1\<rparr>"

theorem cycle_asks_each_pool_once_witness:
  "\<exists>out n fin s' db'. place_loop (\<lambda>_. ex_job_io) 0 [] [ex_capped] ex_sched ex_idle = (out, n, fin, s', db') \<and>
     map snd out = [''quota''] \<and> \<not> withinQuota ex_capped"
proof -
  obtain out n fin s' db' where p: "place_loop (\<lambda>_. ex_job_io) 0 [] [ex_capped] ex_sched ex_idle = (out, n, fin, s', db')"
    by (cases "place_loop (\<lambda>_. ex_job_io) 0 [] [ex_capped] ex_sched ex_idle") auto
  have "fst (place_loop (\<lambda>_. ex_job_io) 0 [] [ex_capped] ex_sched ex_idle) = [(ex_capped, ''quota'')]" by code_simp
  then show ?thesis using p cycle_asks_each_pool_once [OF p] by auto
qed

text \<open>
one job with a selector the allocator rejects stops the whole queue. If the first job of the
batch is due, within quota and carries an unknown selector key, its acquire raises a check
violation, the scheduler takes that for database trouble, and the cycle ends there: nothing behind
it is attempted, and nothing is remembered that would make the next cycle any different.
\<close>

theorem poison_job_stops_the_cycle:
  assumes "job_by_id db (ca_ID j) = Some jr" and "selector_unknown_keys (j_selector jr) \<noteq> []"
    and "fst (ji_acquire (io (ca_ID j))) = Up" and "\<not> ji_cancelled (io (ca_ID j))"
    and "sc_deferred s (ca_ID j) = None" and "withinQuota j"
  shows "place_loop io now [] (j # js) s db = ([(j, ''error'')], 0, False, s, db)"
proof -
  have "lease_acquire t n m (ca_ID j) h i None None db = Inl CheckViolation" for t n m h i
    using assms(1,2) by (simp add: lease_acquire_def control_plane_principal_def)
  then have "sched_acquire (io (ca_ID j)) s (ca_ID j) db = (Inl (ErrDB (Pg CheckViolation)), db)"
    using assms(3) by (simp add: sched_acquire_def Acquire_def AcquireAs_def round_trip_def nullif_empty_def)
  then show ?thesis using assms(4-6) by simp
qed

theorem poison_job_stops_the_cycle_witness:
  "place_loop (\<lambda>_. ex_job_io) 0 [] (candidates 32 (ex_idle\<lparr>jobs := [ex_job\<lparr>j_selector := [SelUnknown ''colour'']\<rparr>]\<rparr>))
     ex_sched (ex_idle\<lparr>jobs := [ex_job\<lparr>j_selector := [SelUnknown ''colour'']\<rparr>]\<rparr>) =
   ([(hd (candidates 32 (ex_idle\<lparr>jobs := [ex_job\<lparr>j_selector := [SelUnknown ''colour'']\<rparr>]\<rparr>)), ''error'')], 0, False,
     ex_sched, ex_idle\<lparr>jobs := [ex_job\<lparr>j_selector := [SelUnknown ''colour'']\<rparr>]\<rparr>)"
proof -
  define jr where "jr = ex_job\<lparr>j_selector := [SelUnknown ''colour'']\<rparr>"
  define db where "db = ex_idle\<lparr>jobs := [jr]\<rparr>"
  define j where "j = hd (candidates 32 db)"
  have c: "candidates 32 db = [j]" "ca_ID j = 20" "withinQuota j"
    unfolding j_def db_def jr_def by code_simp+
  have jb: "job_by_id db 20 = Some jr" "selector_unknown_keys (j_selector jr) \<noteq> []"
    unfolding db_def jr_def by code_simp+
  have io: "fst (ji_acquire ex_job_io) = Up" "\<not> ji_cancelled ex_job_io" "sc_deferred ex_sched 20 = None"
    by code_simp+
  show ?thesis
    using poison_job_stops_the_cycle [of db j jr "\<lambda>_. ex_job_io" ex_sched 0 "[]"] jb io c
    unfolding jr_def [symmetric] db_def [symmetric] by (simp add: j_def [symmetric])
qed

section \<open>The holder's retry delay\<close>

text \<open>
However long the database has been away, a holder's next try is always scheduled, and soon: for
every configuration after defaulting, every failure count (including one the 64-bit doubling
overflows on) and every random draw, the delay is positive and at most RetryMax.
\<close>

theorem retry_is_prompt:
  assumes "is_rand rnd"
  shows "0 < backoff (applyDefaults cfg) rnd attempt \<and>
    backoff (applyDefaults cfg) rnd attempt \<le> RetryMax (applyDefaults cfg)"
  using backoff_bounds [OF config_ok_applyDefaults assms] by blast

theorem retry_is_prompt_witness:
  "0 < backoff (applyDefaults \<lparr>Interval = 0, RenewTimeout = 0, RetryBase = 5000000000000000000,
       RetryMax = 9000000000000000000, ReleaseTimeout = 0, WitnessMaxExtensions = 0\<rparr>) (\<lambda>_. 0) 3"
  by (rule conjunct1 [OF retry_is_prompt]) (simp add: is_rand_def)

text \<open>
Below the wrap-around the window is the capped exponential its comment promises: with a cap of
at most 2^62 ns, the doubling loop computes min RetryMax (RetryBase * 2^(attempt - 1)).
\<close>

theorem backoff_is_capped_exponential:
  assumes "0 < base" and "base \<le> mx" and "mx \<le> 2 ^ 62"
  shows "min mx (backoff_window n mx base) = min mx (base * 2 ^ n)"
  using backoff_window_exp [OF assms] by blast

theorem backoff_is_capped_exponential_witness:
  "min (15 * Second) (backoff_window 3 (15 * Second) Second) = min (15 * Second) (Second * 2 ^ 3)"
  by (rule backoff_is_capped_exponential) (simp_all add: Second_def)

end
