(* ===== verification/Health_Properties.thy ===== *)
theory Health_Properties
  imports Farm_System Farm_Example
begin

text \<open>
  The theorems about the health plane: what an observation may do to a device's health, how often a
  flapping device can come back, and what one snapshot does to the runtime table.
\<close>

section \<open>The damper\<close>

text \<open>
C31: the two definitions of the damper are one function. Evaluated on the same nine values, with bad
derived from the candidate as the reconcile statement's caller derives it, the SQL CASE expression
and its Go mirror give the same next health.
\<close>

theorem damper_sql_is_damp:
  "DamperSQL (di_Current i) (di_Suppressed i) (di_Candidate i) (di_Candidate i \<noteq> HHealthy) (di_ConsecBad i)
     (di_ConsecGood i) (di_Credits i) (di_MinBad i) (di_MinGood i) = Damp i"
  by (simp add: DamperSQL_def Damp_def Let_def)

text \<open>
C32: a device that is retired, quarantined or parked keeps that health through any number of
reconcile writes, whatever the wire reports; and while a reset is suppressing observations the
health does not move either.
\<close>

theorem out_of_service_is_sticky:
  assumes "r_health r \<in> {HRetired, HQuarantined, HParked}"
  shows "r_health (run_writes cfg ws r) = r_health r"
proof (induction ws rule: rev_induct)
  case (snoc w ws)
  then show ?case using assms by (cases w) (simp add: reconcile_row_health DamperSQL_def)
qed simp

definition ex_watch :: watch_config where
  "ex_watch = \<lparr>wc_FlapCap = 10, wc_FlapRefill = 1, wc_MinBad = 2, wc_MinGood = 3\<rparr>"

definition ex_obs :: "conn_state \<Rightarrow> observation" where
  "ex_obs s = \<lparr>ob_host = None, ob_slot = None, ob_state = s, ob_transport = None, ob_epoch = None\<rparr>"

theorem out_of_service_is_sticky_witness:
  "r_health (run_writes ex_watch [(1, ex_obs StateAbsent), (2, ex_obs StateAbsent)] (ex_runtime\<lparr>r_health := HParked\<rparr>)) = HParked"
  using out_of_service_is_sticky [of "ex_runtime\<lparr>r_health := HParked\<rparr>"] by simp



text \<open>
coming back takes a streak. If a write turns a device healthy that was neither healthy nor
unknown, then that observation and the MinGood - 1 writes before it all saw the device on the wire;
and if a write takes a device out of healthy, then it and the MinBad - 1 writes before it were all
bad. Counted from a row whose counters were zero.
\<close>

theorem transitions_take_a_streak:
  assumes zero: "r_consec_good r = 0" "r_consec_bad r = 0" and pos: "1 \<le> wc_MinGood cfg" "1 \<le> wc_MinBad cfg"
    and before: "rb = run_writes cfg ws r" and ch: "r_health (reconcile_row cfg t x rb) \<noteq> r_health rb"
  shows "(r_health (reconcile_row cfg t x rb) = HHealthy \<and> r_health rb \<noteq> HUnknown \<longrightarrow>
      good_obs (t, x) \<and> list_all good_obs (take (nat (wc_MinGood cfg - 1)) (rev ws))) \<and>
    (r_health rb = HHealthy \<longrightarrow>
      \<not> good_obs (t, x) \<and> list_all (\<lambda>w. \<not> good_obs w) (take (nat (wc_MinBad cfg - 1)) (rev ws)))"
proof -
  note D = DamperSQL_change [OF reconcile_row_health [symmetric] ch]
  have good: "r_consec_good rb = int (length (takeWhile good_obs (rev ws)))"
    unfolding before by (rule consec_good_streak [OF zero(1)])
  have bad: "r_consec_bad rb = int (length (takeWhile (\<lambda>w. \<not> good_obs w) (rev ws)))"
    unfolding before by (rule consec_bad_streak [OF zero(2)])
  have up: "good_obs (t, x) \<and> list_all good_obs (take (nat (wc_MinGood cfg - 1)) (rev ws))"
    if "r_health (reconcile_row cfg t x rb) = HHealthy" "r_health rb \<noteq> HUnknown"
  proof -
    have c: "HealthFor (ob_state x) = HHealthy" using D(1) that(1) by simp
    then have "wc_MinGood cfg \<le> r_consec_good rb + 1" using D(4) that(2) by auto
    then show ?thesis using c good by (auto simp: good_obs_def intro!: takeWhile_take)
  qed
  have down: "\<not> good_obs (t, x) \<and> list_all (\<lambda>w. \<not> good_obs w) (take (nat (wc_MinBad cfg - 1)) (rev ws))"
    if "r_health rb = HHealthy"
  proof -
    have c: "HealthFor (ob_state x) \<noteq> HHealthy" using D(1) that ch by auto
    then have "wc_MinBad cfg \<le> r_consec_bad rb + 1" using D(4) by auto
    then show ?thesis using c bad by (auto simp: good_obs_def intro!: takeWhile_take)
  qed
  show ?thesis using up down by blast
qed

theorem transitions_take_a_streak_witness:
  "list_all (\<lambda>w. \<not> good_obs w) (take (nat (wc_MinBad ex_watch - 1)) (rev [(1, ex_obs StateOffline)]))"
proof -
  let ?ws = "[(1, ex_obs StateOffline)]" and ?rb = "run_writes ex_watch [(1, ex_obs StateOffline)] ex_runtime"
  have h: "r_consec_good ex_runtime = 0" "r_consec_bad ex_runtime = 0" "1 \<le> wc_MinGood ex_watch"
    "1 \<le> wc_MinBad ex_watch" "r_health (reconcile_row ex_watch 2 (ex_obs StateOffline) ?rb) \<noteq> r_health ?rb"
    "r_health ?rb = HHealthy" by code_simp+
  from transitions_take_a_streak [OF h(1-4) refl h(5)] h(6) show ?thesis by blast
qed

section \<open>Reading the wire\<close>

text \<open>
Parsing a connection state is total over the schema's vocabulary and a round trip: a value read
back out of the database parses to itself, for all fourteen states.
\<close>

theorem conn_state_round_trip: "ParseConnState (conn_text s) = s"
  by (rule ParseConnState_conn_text)

text \<open>
The health plane cannot touch a lease. Folding a snapshot into the farm, with any cache and on
any connection, changes nothing but farm.device_runtime: the leases, the devices, the jobs, the
slots and the fence sequence are the same, and the lease invariant holds exactly when it held before.
\<close>

theorem reconcile_writes_only_runtime:
  assumes "reconcile ks io kt c cfg host ep devs cache db = (cache', db')"
  shows "leases db' = leases db \<and> devices db' = devices db \<and> jobs db' = jobs db \<and>
    slots db' = slots db \<and> fence_seq db' = fence_seq db \<and> (lease_wf db' \<longleftrightarrow> lease_wf db)"
  using runtime_only_frame [OF runtime_only_reconcile [OF assms]] by simp

definition ex_write_io :: write_io where
  "ex_write_io = \<lparr>wi_first = (Up, 10), wi_ensure = (Up, 11), wi_retry = (Up, 12)\<rparr>"

theorem reconcile_writes_only_runtime_witness:
  "\<exists>cache' db'. reconcile Up (\<lambda>_. ex_write_io) (Up, 13) False ex_watch ''rack-1'' 1 [] (\<lambda>_. None) ex_busy = (cache', db') \<and>
     leases db' = leases ex_busy \<and> map r_adb_state (runtimes db') = [StateAbsent]"
proof -
  obtain cache' db' where r: "reconcile Up (\<lambda>_. ex_write_io) (Up, 13) False ex_watch ''rack-1'' 1 [] (\<lambda>_. None) ex_busy
      = (cache', db')" by fastforce
  have "map r_adb_state (runtimes (snd (reconcile Up (\<lambda>_. ex_write_io) (Up, 13) False ex_watch ''rack-1'' 1 []
      (\<lambda>_. None) ex_busy))) = [StateAbsent]" by code_simp
  then show ?thesis using r reconcile_writes_only_runtime [OF r] by auto
qed

text \<open>
a resync brings every position back in line. When its statements go through, the runtime row of
every occupied position of the host carries the state the ADB server reported for its devpath, or
absent if it was not listed, creating the row if there was none; and the cache agrees.
\<close>

theorem resync_brings_in_line:
  assumes up: "\<And>d. fst (wi_first (io d)) = Up \<and> fst (wi_ensure (io d)) = Up \<and> fst (wi_retry (io d)) = Up"
    and dist: "distinct (map po_DeviceID (slots_of host db))" "distinct (map po_Devpath (slots_of host db))"
    and res: "resync Up io kt c cfg host ep (Some devs) cache db = (cache', db')"
    and p: "p \<in> set (slots_of host db)"
  shows "cache' (po_Devpath p) = Some (observed_state devs p) \<and>
    map_option r_adb_state (runtime_by_device db' (po_DeviceID p)) = Some (observed_state devs p)"
proof -
  obtain fin ca d1 where w: "write_positions io c cfg host ep devs (slots_of host db) (\<lambda>_. None) db = (fin, ca, d1)"
    by (cases rule: prod_cases3)
  from write_positions_up [OF up dist _ w] p have f: "fin" "ca (po_Devpath p) = Some (observed_state devs p)"
    "map_option r_adb_state (runtime_by_device d1 (po_DeviceID p)) = Some (observed_state devs p)" by auto
  have t: "map_option r_adb_state (runtime_by_device (snd (round_trip k (\<lambda>db. Inr ((), touch t ids db)) d1)) d) =
      map_option r_adb_state (runtime_by_device d1 d)" for k t ids d
    by (simp add: round_trip_def touch_adb_state split: link.split)
  have db': "db' = d1 \<or> (\<exists>k t ids. db' = snd (round_trip k (\<lambda>db. Inr ((), touch t ids db)) d1))" and c': "cache' = ca"
    using res w f(1) by (auto simp: resync_def reconcile_def Let_def split: if_splits)
  from db' show ?thesis
    by (elim disjE exE) (simp_all only: t f c')
qed

theorem resync_brings_in_line_witness:
  "\<exists>cache' db'. resync Up (\<lambda>_. ex_write_io) (Up, 13) False ex_watch ''rack-1'' 1 (Some []) (\<lambda>_. None) ex_idle = (cache', db') \<and>
     map_option r_adb_state (runtime_by_device db' 10) = Some StateAbsent"
proof -
  obtain cache' db' where r: "resync Up (\<lambda>_. ex_write_io) (Up, 13) False ex_watch ''rack-1'' 1 (Some []) (\<lambda>_. None) ex_idle
      = (cache', db')" by fastforce
  define p where "p = hd (slots_of ''rack-1'' ex_idle)"
  have d: "distinct (map po_DeviceID (slots_of ''rack-1'' ex_idle))" "distinct (map po_Devpath (slots_of ''rack-1'' ex_idle))"
    "p \<in> set (slots_of ''rack-1'' ex_idle)" "po_DeviceID p = 10" "observed_state [] p = StateAbsent"
    unfolding p_def by code_simp+
  have up: "fst (wi_first ex_write_io) = Up \<and> fst (wi_ensure ex_write_io) = Up \<and> fst (wi_retry ex_write_io) = Up"
    by (simp add: ex_write_io_def)
  from resync_brings_in_line [OF up d(1,2) r d(3)] r d(4,5) show ?thesis by auto
qed

end
