(* ===== verification/Recovery_Outcome.thy ===== *)
theory Recovery_Outcome
  imports Farm_Schema
begin

text \<open>
  The verdict vocabulary of \<^verbatim>\<open>internal/recovery\<close>: dispositions and outcomes (\<^verbatim>\<open>adbactuator.go\<close>), the
  two columns a result becomes, the blast-radius rule (\<^verbatim>\<open>refusal_kind.go\<close>), the classification of a
  host agent's error (\<^verbatim>\<open>hostfault.go\<close>) and the coarser metric labels (\<^verbatim>\<open>internal/obs\<close>). Dispositions
  and outcomes are open strings in the code, and stay strings here: a third-party actuator may
  record any word.
\<close>

section \<open>Outcomes and dispositions\<close>

abbreviation OutcomeRecovered :: string where "OutcomeRecovered \<equiv> ''recovered''"
abbreviation OutcomeNoChange :: string where "OutcomeNoChange \<equiv> ''no_change''"
abbreviation OutcomeFailed :: string where "OutcomeFailed \<equiv> ''failed''"
abbreviation OutcomeRefused :: string where "OutcomeRefused \<equiv> ''refused''"
abbreviation OutcomeAborted :: string where "OutcomeAborted \<equiv> ''aborted''"

abbreviation DispositionRecovered :: string where "DispositionRecovered \<equiv> ''recovered''"
abbreviation DispositionNoChange :: string where "DispositionNoChange \<equiv> ''no_change''"
abbreviation DispositionFailed :: string where "DispositionFailed \<equiv> ''failed''"
abbreviation DispositionRefused :: string where "DispositionRefused \<equiv> ''refused''"
abbreviation DispositionUnreachable :: string where "DispositionUnreachable \<equiv> ''unreachable''"
abbreviation DispositionAborted :: string where "DispositionAborted \<equiv> ''aborted''"

text \<open>The CHECK list of \<^verbatim>\<open>farm.recovery_attempts.outcome\<close>.\<close>

definition attempt_outcomes :: "string list" where
  "attempt_outcomes = [''recovered'', ''no_change'', ''failed'', ''refused'', ''aborted'']"

definition Escalate :: "string \<Rightarrow> bool" where
  "Escalate d \<longleftrightarrow> d = DispositionFailed \<or> d = DispositionNoChange"

definition disposition_Outcome :: "string \<Rightarrow> string" where
  "disposition_Outcome d =
     (if d = DispositionRecovered then OutcomeRecovered
      else if d = DispositionNoChange then OutcomeNoChange
      else if d = DispositionRefused \<or> d = DispositionUnreachable then OutcomeRefused
      else if d = DispositionAborted then OutcomeAborted
      else OutcomeFailed)"

section \<open>Results\<close>

record result =
  re_Outcome :: string
  re_Detail :: jobject

abbreviation DetailDisposition :: string where "DetailDisposition \<equiv> ''disposition''"
abbreviation DetailRefusal :: string where "DetailRefusal \<equiv> ''refusal''"
abbreviation DetailRefusalKind :: string where "DetailRefusalKind \<equiv> ''refusal_kind''"
abbreviation DetailConfirmedState :: string where "DetailConfirmedState \<equiv> ''confirmed_state''"
abbreviation RefusalKindGanged :: string where "RefusalKindGanged \<equiv> ''ganged''"

text \<open>\<^verbatim>\<open>s, _ := detail[key].(string)\<close>: the empty string when absent or of another type.\<close>

definition detail_str :: "jobject \<Rightarrow> string \<Rightarrow> string" where
  "detail_str d k = (case jget d k of Some (JStr s) \<Rightarrow> s | _ \<Rightarrow> [])"

definition DispositionOf :: "result \<Rightarrow> string" where
  "DispositionOf r =
     (let s = detail_str (re_Detail r) DetailDisposition in
      if s \<noteq> [] then s
      else if re_Outcome r = OutcomeRecovered then DispositionRecovered
      else if re_Outcome r = OutcomeNoChange then DispositionNoChange
      else if re_Outcome r = OutcomeRefused then DispositionRefused
      else if re_Outcome r = OutcomeAborted then DispositionAborted
      else DispositionFailed)"

definition RefusalOf :: "result \<Rightarrow> string" where
  "RefusalOf r = detail_str (re_Detail r) DetailRefusal"

definition RefusalKindOf :: "result \<Rightarrow> string" where
  "RefusalKindOf r = detail_str (re_Detail r) DetailRefusalKind"

definition Record :: "result \<Rightarrow> string \<times> string" where
  "Record r =
     (let d = DispositionOf r; out = disposition_Outcome d in
      if d = DispositionRefused \<or> d = DispositionUnreachable
      then (out, if RefusalOf r = [] then ''the actuator reported '' @ d @ '' without a reason'' else RefusalOf r)
      else (out, []))"

lemma detail_str_jset [simp]:
  "detail_str (jset k v d) j = (if j = k then (case v of JStr s \<Rightarrow> s | _ \<Rightarrow> []) else detail_str d j)"
  by (simp add: detail_str_def split: jval.split)

lemma disposition_Outcome_ok: "disposition_Outcome d \<in> set attempt_outcomes"
  by (simp add: disposition_Outcome_def attempt_outcomes_def)

lemma disposition_Outcome_refused:
  "disposition_Outcome d = OutcomeRefused \<longleftrightarrow> d = DispositionRefused \<or> d = DispositionUnreachable"
  by (auto simp: disposition_Outcome_def)

lemma Record_outcome: "fst (Record r) = disposition_Outcome (DispositionOf r)"
  by (simp add: Record_def Let_def)

lemma Record_refusal: "snd (Record r) \<noteq> [] \<longleftrightarrow> fst (Record r) = OutcomeRefused"
  by (simp add: Record_def Let_def disposition_Outcome_def)

text \<open>Only evidence that the hardware was tried and is still broken escalates.\<close>

lemma Escalate_outcome: "Escalate d \<Longrightarrow> disposition_Outcome d = d"
  by (auto simp: Escalate_def disposition_Outcome_def)

section \<open>The blast-radius rule\<close>

definition policyRank :: "string \<Rightarrow> int" where
  "policyRank p =
     (if p = ''no_disruption'' then 0 else if p = ''allow_soft_reset'' then 1
      else if p = ''allow_port_power_cycle'' then 2 else 0)"

definition PolicyPermits :: "string \<Rightarrow> string \<Rightarrow> bool" where
  "PolicyPermits policy required \<longleftrightarrow> policyRank policy \<ge> policyRank required"

datatype obs_outcome = ObsRecovered | ObsFailed | ObsRefusedPolicy | ObsRefusedGanged | ObsSuppressed

definition RefusalKind :: "bool \<Rightarrow> string \<Rightarrow> obs_outcome" where
  "RefusalKind neighbour powerKind = (if neighbour \<and> powerKind = ''ganged'' then ObsRefusedGanged else ObsRefusedPolicy)"

section \<open>The tier table as Go reads it\<close>

record tier =
  ti_Tier :: int
  ti_Name :: string
  ti_BlastRadius :: string
  ti_RequiresPolicy :: string
  ti_Cooldown :: interval
  ti_MaxPerHour :: int

definition tier_of_row :: "tier_row \<Rightarrow> tier" where
  "tier_of_row t = \<lparr>ti_Tier = t_tier t, ti_Name = t_name t, ti_BlastRadius = t_blast_radius t,
     ti_RequiresPolicy = t_requires_policy t, ti_Cooldown = t_cooldown t, ti_MaxPerHour = t_max_per_hour t\<rparr>"

text \<open>\<^verbatim>\<open>next\<close>: the lowest enabled rung not yet spent; the top one again when all are.\<close>

definition next_tier :: "tier list \<Rightarrow> int \<Rightarrow> tier" where
  "next_tier tiers cur = (case List.find (\<lambda>t. ti_Tier t \<ge> cur) tiers of Some t \<Rightarrow> t | None \<Rightarrow> last tiers)"

definition rungAfter :: "tier \<Rightarrow> int" where
  "rungAfter t = ti_Tier t + 1"

definition tierNamed :: "tier list \<Rightarrow> string \<Rightarrow> tier option" where
  "tierNamed tiers name = List.find (\<lambda>t. ti_Name t = name) tiers"

section \<open>Metric labels\<close>

datatype obs_tier = TierReprobe | TierReconnect | TierSoftReset | TierPortPowerCycle | TierQuarantine

definition recoveryTiers :: "obs_tier list" where
  "recoveryTiers = [TierReprobe, TierReconnect, TierSoftReset, TierPortPowerCycle, TierQuarantine]"

definition RecoveryTierFromLadder :: "int \<Rightarrow> obs_tier" where
  "RecoveryTierFromLadder n =
     (if n \<le> 0 then TierReprobe
      else if n \<ge> int (length recoveryTiers) then recoveryTiers ! (length recoveryTiers - 1)
      else recoveryTiers ! nat n)"

definition obsTier :: "tier \<Rightarrow> obs_tier" where
  "obsTier t =
     (let n = ti_Name t in
      if n = ''observe'' then TierReprobe
      else if n = ''adb_reconnect'' \<or> n = ''transport_reset'' then TierReconnect
      else if n = ''usb_reset'' \<or> n = ''device_reboot'' then TierSoftReset
      else if n = ''port_power'' \<or> n = ''adb_restart'' then TierPortPowerCycle
      else if n = ''quarantine'' \<or> n = ''host_drain'' then TierQuarantine
      else RecoveryTierFromLadder (ti_Tier t))"

definition obsOutcome :: "string \<Rightarrow> jobject \<Rightarrow> obs_outcome" where
  "obsOutcome out detail =
     (let res = \<lparr>re_Outcome = out, re_Detail = detail\<rparr>; d = DispositionOf res in
      if d = DispositionRecovered then ObsRecovered
      else if d = DispositionRefused
      then (if RefusalKindOf res = RefusalKindGanged then ObsRefusedGanged else ObsRefusedPolicy)
      else ObsFailed)"

section \<open>What a host agent's error means\<close>

text \<open>
  A Go error seen through \<^verbatim>\<open>errors.Is\<close> and \<^verbatim>\<open>errors.As\<close>: the sentinels its chain wraps, and the two
  answers of the \<^verbatim>\<open>RungFault\<close> it carries, if any. \<^verbatim>\<open>ErrRungRefusedGanged\<close> wraps \<^verbatim>\<open>ErrRungRefused\<close>.
\<close>

datatype sentinel = ErrRungRefused | ErrHostUnreachable | ErrRungRefusedGanged | ErrCanceled | ErrDeadlineExceeded

record rung_fault =
  rf_HostUnreachable :: bool
  rf_RungRefused :: bool

record host_error =
  he_text :: string
  he_wraps :: "sentinel list"
  he_fault :: "rung_fault option"

definition errors_Is :: "host_error \<Rightarrow> sentinel \<Rightarrow> bool" where
  "errors_Is e s \<longleftrightarrow> s \<in> set (he_wraps e) \<or> s = ErrRungRefused \<and> ErrRungRefusedGanged \<in> set (he_wraps e)"

record host_fault =
  hf_Disposition :: string
  hf_BudgetElapsed :: bool
  hf_RefusalKind :: string
  hf_Err :: host_error

definition refused_fault :: "host_error \<Rightarrow> host_fault" where
  "refused_fault e = \<lparr>hf_Disposition = DispositionRefused, hf_BudgetElapsed = False,
     hf_RefusalKind = (if errors_Is e ErrRungRefusedGanged then RefusalKindGanged else []), hf_Err = e\<rparr>"

definition plain_fault :: "string \<Rightarrow> bool \<Rightarrow> host_error \<Rightarrow> host_fault" where
  "plain_fault d b e = \<lparr>hf_Disposition = d, hf_BudgetElapsed = b, hf_RefusalKind = [], hf_Err = e\<rparr>"

definition ClassifyHostFault :: "host_error \<Rightarrow> bool \<Rightarrow> host_fault" where
  "ClassifyHostFault e aborted =
     (let behav = (case he_fault e of
                     None \<Rightarrow> None
                   | Some f \<Rightarrow> if rf_HostUnreachable f then Some (plain_fault DispositionUnreachable False e)
                              else if rf_RungRefused f then Some (refused_fault e) else None)
      in case behav of
           Some f \<Rightarrow> f
         | None \<Rightarrow>
             if errors_Is e ErrHostUnreachable then plain_fault DispositionUnreachable False e
             else if errors_Is e ErrRungRefused then refused_fault e
             else if errors_Is e ErrCanceled \<or> errors_Is e ErrDeadlineExceeded
             then (if aborted then plain_fault DispositionAborted False e
                   else plain_fault DispositionUnreachable True e)
             else plain_fault DispositionFailed False e)"

definition Reason :: "host_fault \<Rightarrow> int \<Rightarrow> string \<Rightarrow> string \<Rightarrow> string \<Rightarrow> string" where
  "Reason f tier tierName what hostID =
     (if hf_Disposition f = DispositionUnreachable then
        (if hf_BudgetElapsed f
         then ''tier '' @ int_str tier @ '' ('' @ tierName @ '') ran out of its action budget waiting for the farmd-node agent on host ''
                @ hostID @ '' to finish '' @ what
         else ''tier '' @ int_str tier @ '' ('' @ tierName @ '') needs '' @ what @ '' on host '' @ hostID
                @ '' and the farmd-node agent there could not be reached ('' @ he_text (hf_Err f)
                @ ''); nothing was learned about the device, and no rung on this host will help until that agent answers again'')
      else if hf_Disposition f = DispositionRefused
      then ''tier '' @ int_str tier @ '' ('' @ tierName @ '') was refused by the farmd-node agent on host '' @ hostID @ '': ''
             @ he_text (hf_Err f) @ ''; '' @ what @ '' was not performed and the device is as it was''
      else [])"

text \<open>An error is never read as a recovery, and a refusal or a silent host always gets its sentence.\<close>

lemma ClassifyHostFault_range:
  "hf_Disposition (ClassifyHostFault e ab) \<in>
     {DispositionRefused, DispositionUnreachable, DispositionAborted, DispositionFailed}"
  by (auto simp: ClassifyHostFault_def plain_fault_def refused_fault_def Let_def split: option.split)

lemma ClassifyHostFault_Err: "hf_Err (ClassifyHostFault e ab) = e"
  by (auto simp: ClassifyHostFault_def plain_fault_def refused_fault_def Let_def split: option.split)

lemma Reason_empty:
  "Reason f t n w h = [] \<longleftrightarrow> disposition_Outcome (hf_Disposition f) \<noteq> OutcomeRefused"
  by (auto simp: Reason_def disposition_Outcome_refused)

section \<open>Climbing\<close>

text \<open>The rungs spent by a device whose verdicts all escalate, starting from \<open>cur\<close>.\<close>

fun climb :: "tier list \<Rightarrow> int \<Rightarrow> nat \<Rightarrow> tier list" where
  "climb tiers cur 0 = []"
| "climb tiers cur (Suc n) = next_tier tiers cur # climb tiers (rungAfter (next_tier tiers cur)) n"

lemma next_tier_mem: "tiers \<noteq> [] \<Longrightarrow> next_tier tiers cur \<in> set tiers"
  by (auto simp: next_tier_def split: option.split dest: find_SomeD)

lemma next_tier_ge: "\<exists>t\<in>set tiers. cur \<le> ti_Tier t \<Longrightarrow> cur \<le> ti_Tier (next_tier tiers cur)"
  by (auto simp: next_tier_def find_None_iff split: option.split dest: find_SomeD)

lemma next_tier_append:
  assumes "\<forall>t\<in>set pre. ti_Tier t < cur" and "cur \<le> ti_Tier t"
  shows "next_tier (pre @ t # post) cur = t"
proof -
  have "List.find (\<lambda>t. ti_Tier t \<ge> cur) pre = None" using assms(1) by (auto simp: find_None_iff)
  with assms(2) show ?thesis by (simp add: next_tier_def find_append)
qed

lemma sorted_le_last:
  assumes "sorted_wrt (\<lambda>s t. ti_Tier s < ti_Tier t) ts" and "t \<in> set ts"
  shows "ti_Tier t \<le> ti_Tier (last ts)"
  using assms by (induction ts rule: rev_induct) (auto simp: sorted_wrt_append less_imp_le)

lemma climb_top:
  assumes "sorted_wrt (\<lambda>s t. ti_Tier s < ti_Tier t) ts" and "ts \<noteq> []" and "ti_Tier (last ts) < cur"
  shows "climb ts cur n = replicate n (last ts)"
proof -
  have top: "next_tier ts c = last ts" if "ti_Tier (last ts) < c" for c
    using sorted_le_last [OF assms(1)] that by (force simp: next_tier_def split: option.split dest: find_SomeD)
  show ?thesis using assms(3)
    by (induction n arbitrary: cur) (auto simp: top rungAfter_def)
qed

text \<open>Every enabled rung is spent once, in order, and then the top one repeats.\<close>

lemma climb_from:
  assumes "sorted_wrt (\<lambda>s t. ti_Tier s < ti_Tier t) (pre @ post)" and "pre @ post \<noteq> []"
    and "\<forall>t\<in>set pre. ti_Tier t < cur" and "\<forall>t\<in>set post. cur \<le> ti_Tier t"
  shows "climb (pre @ post) cur (length post + n) = post @ replicate n (last (pre @ post))"
  using assms
proof (induction post arbitrary: pre cur)
  case Nil
  then show ?case using climb_top [of pre cur n] by simp
next
  case (Cons t post)
  have n: "next_tier (pre @ t # post) cur = t"
    using Cons.prems by (intro next_tier_append) auto
  have "climb ((pre @ [t]) @ post) (rungAfter t) (length post + n) = post @ replicate n (last ((pre @ [t]) @ post))"
    using Cons.prems by (intro Cons.IH) (auto simp: sorted_wrt_append rungAfter_def)
  then show ?case using n by simp
qed

end
