(* ===== verification/Recovery_Ladder.thy ===== *)
theory Recovery_Ladder
  imports Recovery_Outcome Watchdog_Loop
begin

text \<open>
  \<^verbatim>\<open>internal/recovery/ladder.go\<close> and the statements of \<^verbatim>\<open>attempts.go\<close>: one cycle of the escalation
  ladder. Each database call of a cycle is a round trip on its own link at its own instant; a call
  that errs without effect, whatever the cause, is \<open>LostBefore\<close>. The actuator behind the hardware
  rungs is an argument, as it is an interface in the code. Rows a query returns in no stated order
  come in table order. Durations are nanoseconds as in Go, except the cooldown a tier row carries,
  which stays the interval it is in the table; the quorum, a float64 in the code, is a rational.
\<close>

section \<open>Configuration\<close>

record ladder_config =
  lc_Component :: string
  lc_Interval :: duration
  lc_Batch :: int
  lc_Debounce :: duration
  lc_ActionTimeout :: duration
  lc_MaxSuppress :: duration
  lc_StaleAttempt :: duration
  lc_CallTimeout :: duration
  lc_HubQuorum :: rat
  lc_MinHubBad :: int
  lc_HubWindow :: duration
  lc_LockClass :: int

definition ladder_applyDefaults :: "ladder_config \<Rightarrow> ladder_config" where
  "ladder_applyDefaults c =
     \<lparr>lc_Component = (if lc_Component c = [] then ''recovery'' else lc_Component c),
      lc_Interval = or_default (15 * Second) (lc_Interval c),
      lc_Batch = or_default 25 (lc_Batch c),
      lc_Debounce = or_default (45 * Second) (lc_Debounce c),
      lc_ActionTimeout = or_default (90 * Second) (lc_ActionTimeout c),
      lc_MaxSuppress = or_default (180 * Second) (lc_MaxSuppress c),
      lc_StaleAttempt = or_default (900 * Second) (lc_StaleAttempt c),
      lc_CallTimeout = or_default (15 * Second) (lc_CallTimeout c),
      lc_HubQuorum = (if lc_HubQuorum c \<le> 0 \<or> lc_HubQuorum c > 1 then 1 / 2 else lc_HubQuorum c),
      lc_MinHubBad = (if lc_MinHubBad c < 1 then 2 else lc_MinHubBad c),
      lc_HubWindow = or_default (180 * Second) (lc_HubWindow c),
      lc_LockClass = (if lc_LockClass c = 0 then 26981 else lc_LockClass c)\<rparr>"

definition pgInterval :: "duration \<Rightarrow> interval" where
  "pgInterval d = max 0 d div 1000"

section \<open>Tiers\<close>

text \<open>\<^verbatim>\<open>tiers\<close>: an empty table is an error, as is a failed read.\<close>

definition ladder_tiers :: "link \<Rightarrow> farm \<Rightarrow> tier list option" where
  "ladder_tiers k db =
     (if k = Up then
        (case map tier_of_row (sort_key t_tier (filter t_enabled (tiers_tbl db))) of
           [] \<Rightarrow> None | ts \<Rightarrow> Some ts)
      else None)"

section \<open>Quarantine coverage\<close>

definition covers :: "quarantine_row \<Rightarrow> device_row \<Rightarrow> slot_row option \<Rightarrow> bool" where
  "covers q d so \<longleftrightarrow>
     q_closed_at q = None \<and>
     (q_scope q = ''device'' \<and> q_device q = Some (d_id d) \<or>
      (case so of
         None \<Rightarrow> False
       | Some s \<Rightarrow>
           q_scope q = ''slot'' \<and> q_slot q = Some (s_id s) \<or>
           q_scope q = ''hub'' \<and> q_hub q = Some (s_hub s) \<or>
           q_scope q = ''host'' \<and> q_host q = Some (s_host s) \<or>
           q_scope q = ''power_domain'' \<and> q_power_domain q \<noteq> None \<and> q_power_domain q = s_power_domain s))"

definition coveredByQuarantine :: "farm \<Rightarrow> device_row \<Rightarrow> slot_row option \<Rightarrow> bool" where
  "coveredByQuarantine db d so \<longleftrightarrow> list_ex (\<lambda>q. covers q d so) (quarantines db)"

section \<open>Candidates\<close>

record rcandidate =
  rc_DeviceID :: uuid
  rc_Health :: health
  rc_LadderTier :: int
  rc_SlotID :: int
  rc_Devpath :: string
  rc_RackSlot :: string
  rc_HubID :: int
  rc_HubPath :: string
  rc_HostID :: string
  rc_ADBEndpoint :: string
  rc_PowerDomain :: "int option"

definition coalesce :: "string option \<Rightarrow> string" where
  "coalesce x = (case x of None \<Rightarrow> [] | Some s \<Rightarrow> s)"

definition hub_by_id :: "farm \<Rightarrow> int \<Rightarrow> hub_row option" where
  "hub_by_id db i = List.find (\<lambda>h. hb_id h = i) (hubs db)"

definition eligible :: "ladder_config \<Rightarrow> timestamp \<Rightarrow> farm \<Rightarrow> runtime_row \<Rightarrow> device_row \<Rightarrow> slot_row \<Rightarrow> host_row \<Rightarrow> bool" where
  "eligible cfg now db r d s ho \<longleftrightarrow>
     r_health r \<notin> {HHealthy, HRetired, HQuarantined, HParked, HUnknown} \<and>
     r_adb_state r \<noteq> StateDevice \<and>
     r_health_since r < now - pgInterval (lc_Debounce cfg) \<and>
     (case r_suppress_until r of None \<Rightarrow> True | Some u \<Rightarrow> u \<le> now \<and> r_updated_at r > u) \<and>
     d_admin_state d = ''enabled'' \<and> s_state s = ''active'' \<and> ho_admin_state ho \<noteq> ''disabled'' \<and>
     \<not> coveredByQuarantine db d (Some s)"

definition candidate_of :: "ladder_config \<Rightarrow> timestamp \<Rightarrow> farm \<Rightarrow> runtime_row \<Rightarrow> rcandidate option" where
  "candidate_of cfg now db r =
     (case device_by_id db (r_device r) of None \<Rightarrow> None | Some d \<Rightarrow>
      (case slot_of_device db d of None \<Rightarrow> None | Some s \<Rightarrow>
       (case hub_by_id db (s_hub s) of None \<Rightarrow> None | Some hb \<Rightarrow>
        (case host_by_id db (s_host s) of None \<Rightarrow> None | Some ho \<Rightarrow>
           if eligible cfg now db r d s ho
           then Some \<lparr>rc_DeviceID = r_device r, rc_Health = r_health r, rc_LadderTier = r_ladder_tier r,
                      rc_SlotID = s_id s, rc_Devpath = s_adb_devpath s, rc_RackSlot = coalesce (s_rack_slot s),
                      rc_HubID = hb_id hb, rc_HubPath = hb_usb_path hb, rc_HostID = ho_id ho,
                      rc_ADBEndpoint = ho_adb_endpoint ho, rc_PowerDomain = s_power_domain s\<rparr>
           else None))))"

definition recovery_candidates :: "link \<Rightarrow> timestamp \<Rightarrow> ladder_config \<Rightarrow> farm \<Rightarrow> rcandidate list option" where
  "recovery_candidates k now cfg db =
     (if k = Up
      then Some (map (\<lambda>r. the (candidate_of cfg now db r))
             (order_limit r_health_since (nat (lc_Batch cfg))
               (filter (\<lambda>r. candidate_of cfg now db r \<noteq> None) (runtimes db))))
      else None)"

section \<open>Writing the runtime table\<close>

text \<open>An UPDATE that names \<^verbatim>\<open>health\<close> runs the park guard on every row it writes.\<close>

definition write_health :: "(runtime_row \<Rightarrow> bool) \<Rightarrow> (runtime_row \<Rightarrow> runtime_row) \<Rightarrow> farm \<Rightarrow> farm" where
  "write_health P f db =
     db\<lparr>runtimes := update_where P (\<lambda>r. trg_device_runtime_park_guard (devices db) r (f r)) (runtimes db)\<rparr>"

definition seated :: "farm \<Rightarrow> (slot_row \<Rightarrow> bool) \<Rightarrow> uuid \<Rightarrow> bool" where
  "seated db P i \<longleftrightarrow>
     (case device_by_id db i of
        None \<Rightarrow> False
      | Some d \<Rightarrow> (case slot_of_device db d of None \<Rightarrow> False | Some s \<Rightarrow> P s))"

definition out_of_service :: "health \<Rightarrow> bool" where
  "out_of_service h \<longleftrightarrow> h = HQuarantined \<or> h = HRetired \<or> h = HParked"

text \<open>The sweep of a hub or host quarantine over the devices seated there.\<close>

definition sweep_seated :: "timestamp \<Rightarrow> (slot_row \<Rightarrow> bool) \<Rightarrow> farm \<Rightarrow> farm" where
  "sweep_seated now P db =
     write_health (\<lambda>r. seated db P (r_device r) \<and> \<not> out_of_service (r_health r))
       (\<lambda>r. r\<lparr>r_health := HQuarantined, r_health_since := now, r_updated_at := now\<rparr>) db"

definition open_quarantine_exists :: "(quarantine_row \<Rightarrow> bool) \<Rightarrow> farm \<Rightarrow> bool" where
  "open_quarantine_exists P db \<longleftrightarrow> list_ex (\<lambda>q. P q \<and> q_closed_at q = None) (quarantines db)"

text \<open>
  \<^verbatim>\<open>INSERT ... WHERE NOT EXISTS ... RETURNING id\<close>. No row comes back when one is already open; when
  another replica inserts the same subject between the snapshot and the write, the partial unique
  index raises (\<open>raced\<close>).
\<close>

definition insert_quarantine ::
  "bool \<Rightarrow> (quarantine_row \<Rightarrow> bool) \<Rightarrow> quarantine_row \<Rightarrow> farm \<Rightarrow> sql_error + int option \<times> farm" where
  "insert_quarantine raced same q db =
     (if open_quarantine_exists same db then Inr (None, db)
      else if raced then Inl UniqueViolation
      else let i = quarantine_seq db + 1
           in Inr (Some i, db\<lparr>quarantines := quarantines db @ [q\<lparr>q_id := i\<rparr>], quarantine_seq := i\<rparr>))"

definition new_quarantine :: "timestamp \<Rightarrow> string \<Rightarrow> string \<Rightarrow> quarantine_row" where
  "new_quarantine now scope reason =
     \<lparr>q_id = 0, q_scope = scope, q_device = None, q_slot = None, q_power_domain = None, q_hub = None,
      q_host = None, q_reason = reason, q_opened_at = now, q_closed_at = None, q_auto = True\<rparr>"

definition insert_attempt :: "attempt_row \<Rightarrow> farm \<Rightarrow> int \<times> farm" where
  "insert_attempt a db =
     (let i = attempt_seq db + 1 in (i, db\<lparr>attempts := attempts db @ [a\<lparr>a_id := i\<rparr>], attempt_seq := i\<rparr>))"

definition ladder_event :: "timestamp \<Rightarrow> string \<Rightarrow> uuid option \<Rightarrow> int option \<Rightarrow> string \<Rightarrow> jobject \<Rightarrow> event_row" where
  "ladder_event now kind dev slot actor detail =
     \<lparr>e_at = now, e_kind = kind, e_device = dev, e_slot = slot, e_lease = None, e_job = None,
      e_actor = Some actor, e_detail = detail\<rparr>"

section \<open>Correlation\<close>

record hubStat =
  hs_HubID :: int
  hs_HostID :: string
  hs_HubPath :: string
  hs_Devices :: int
  hs_Unhealthy :: int
  hs_Spread :: duration

definition UnhealthyStates :: "health list" where
  "UnhealthyStates = [HOffline, HUnauthorized, HMissing, HDegraded]"

definition unhealthyPredicate :: "runtime_row \<Rightarrow> bool" where
  "unhealthyPredicate r \<longleftrightarrow> r_health r \<in> set UnhealthyStates"

definition hub_members :: "farm \<Rightarrow> int \<Rightarrow> runtime_row list" where
  "hub_members db hub = filter (\<lambda>r. seated db (\<lambda>s. s_hub s = hub) (r_device r)) (runtimes db)"

definition spread_of :: "timestamp list \<Rightarrow> interval" where
  "spread_of ts = (if ts = [] then 0 else Max (set ts) - Min (set ts))"

definition hubStats :: "link \<Rightarrow> int list \<Rightarrow> farm \<Rightarrow> hubStat list option" where
  "hubStats k ids db =
     (if ids = [] then Some []
      else if k = Up then
        Some (map (\<lambda>hb. let ms = hub_members db (hb_id hb); bad = filter unhealthyPredicate ms in
                \<lparr>hs_HubID = hb_id hb, hs_HostID = hb_host hb, hs_HubPath = hb_usb_path hb,
                 hs_Devices = int (length ms), hs_Unhealthy = int (length bad),
                 hs_Spread = spread_of (map r_health_since bad) * 1000\<rparr>)
             (filter (\<lambda>hb. hb_id hb \<in> set ids \<and> hub_members db (hb_id hb) \<noteq> []) (hubs db)))
      else None)"

definition hubIsTheFault :: "ladder_config \<Rightarrow> hubStat \<Rightarrow> bool" where
  "hubIsTheFault cfg st \<longleftrightarrow>
     \<not> (hs_Devices st < 2 \<or> hs_Unhealthy st < lc_MinHubBad cfg) \<and>
     \<not> (of_int (hs_Unhealthy st) \<le> lc_HubQuorum cfg * of_int (hs_Devices st)) \<and>
     hs_Spread st \<le> lc_HubWindow cfg"

text \<open>\<^verbatim>\<open>Duration.Round(time.Second).String()\<close> of a duration that is not negative.\<close>

definition seconds_str :: "duration \<Rightarrow> string" where
  "seconds_str d =
     (let n = (d + 500000000) div Second; h = n div 3600; m = n div 60 mod 60; s = n mod 60 in
      (if h > 0 then int_str h @ ''h'' else []) @
      (if h > 0 \<or> m > 0 then int_str m @ ''m'' else []) @ int_str s @ ''s'')"

definition em_dash :: string where
  "em_dash = [CHR 0xE2, CHR 0x80, CHR 0x94]"

definition hub_reason :: "hubStat \<Rightarrow> string" where
  "hub_reason st =
     int_str (hs_Unhealthy st) @ '' of '' @ int_str (hs_Devices st) @ '' devices on hub '' @ hs_HubPath st @
     '' went unhealthy within '' @ seconds_str (hs_Spread st) @ '' '' @ em_dash @
     '' the evidence is about the hub, not the devices''"

definition open_hub_tx ::
  "timestamp \<Rightarrow> bool \<Rightarrow> ladder_config \<Rightarrow> hubStat \<Rightarrow> tier \<Rightarrow> string \<Rightarrow> farm \<Rightarrow> sql_error + bool \<times> farm" where
  "open_hub_tx now raced cfg st t reason db =
     bindR (insert_quarantine raced (\<lambda>q. q_scope q = ''hub'' \<and> q_hub q = Some (hs_HubID st))
         ((new_quarantine now ''hub'' reason)\<lparr>q_hub := Some (hs_HubID st), q_host := Some (hs_HostID st)\<rparr>) db)
       (\<lambda>(qid, db1).
          case qid of
            None \<Rightarrow> Inr (False, db)
          | Some i \<Rightarrow>
              let db2 = sweep_seated now (\<lambda>s. s_hub s = hs_HubID st) db1;
                  detail = [(''scope'', JStr ''hub''), (''quarantine_id'', JInt i), (''devices'', JInt (hs_Devices st)),
                            (''unhealthy'', JInt (hs_Unhealthy st)), (''window_s'', JSpan (hs_Spread st div 1000))];
                  db3 = snd (insert_attempt \<lparr>a_id = 0, a_device = None, a_slot = None, a_hub = Some (hs_HubID st),
                          a_host = Some (hs_HostID st), a_tier = ti_Tier t, a_started_at = now,
                          a_finished_at = Some now, a_outcome = Some OutcomeNoChange, a_refusal = None,
                          a_detail = detail\<rparr> db2)
              in Inr (True, append_event (ladder_event now ''hub_quarantined'' None None (lc_Component cfg) detail) db3))"

text \<open>Whether it opened one; an already open one, and a lost race, are not errors.\<close>

definition openHubQuarantine ::
  "link \<Rightarrow> timestamp \<Rightarrow> bool \<Rightarrow> ladder_config \<Rightarrow> hubStat \<Rightarrow> tier \<Rightarrow> string \<Rightarrow> farm \<Rightarrow> bool option \<times> farm" where
  "openHubQuarantine k now raced cfg st t reason db =
     (case round_trip k (open_hub_tx now raced cfg st t reason) db of
        (Inr b, db') \<Rightarrow> (Some b, db')
      | (Inl e, db') \<Rightarrow> (if e = Pg UniqueViolation then Some False else None, db'))"

fun quarantine_hubs ::
  "(int \<Rightarrow> (link \<times> timestamp) \<times> bool) \<Rightarrow> ladder_config \<Rightarrow> tier \<Rightarrow> rcandidate list \<Rightarrow> hubStat list \<Rightarrow> uuid set \<Rightarrow> farm
   \<Rightarrow> uuid set \<times> farm" where
  "quarantine_hubs io cfg t cands [] handled db = (handled, db)"
| "quarantine_hubs io cfg t cands (st # sts) handled db =
     (if \<not> hubIsTheFault cfg st then quarantine_hubs io cfg t cands sts handled db
      else
        let ((k, now), raced) = io (hs_HubID st) in
        (case openHubQuarantine k now raced cfg st t (hub_reason st) db of
           (None, db') \<Rightarrow> quarantine_hubs io cfg t cands sts handled db'
         | (Some _, db') \<Rightarrow>
             quarantine_hubs io cfg t cands sts
               (handled \<union> set (map rc_DeviceID (filter (\<lambda>c. rc_HubID c = hs_HubID st) cands))) db'))"

definition correlate ::
  "link \<Rightarrow> (int \<Rightarrow> (link \<times> timestamp) \<times> bool) \<Rightarrow> ladder_config \<Rightarrow> rcandidate list \<Rightarrow> tier list \<Rightarrow> farm
   \<Rightarrow> uuid set \<times> farm" where
  "correlate k io cfg cands tiers db =
     (case hubStats k (remdups (map rc_HubID cands)) db of
        None \<Rightarrow> ({}, db)
      | Some stats \<Rightarrow>
          (case tierNamed tiers ''quarantine'' of
             None \<Rightarrow> ({}, db)
           | Some t \<Rightarrow> quarantine_hubs io cfg t cands stats {} db))"

section \<open>Reconciling quarantines\<close>

definition release_uncovered :: "timestamp \<Rightarrow> farm \<Rightarrow> farm" where
  "release_uncovered now db =
     write_health (\<lambda>r. r_health r = HQuarantined \<and>
         (case device_by_id db (r_device r) of
            None \<Rightarrow> False | Some d \<Rightarrow> \<not> coveredByQuarantine db d (slot_of_device db d)))
       (\<lambda>r. r\<lparr>r_health := HUnknown, r_health_since := now, r_ladder_tier := 0, r_updated_at := now\<rparr>) db"

definition reset_healthy :: "timestamp \<Rightarrow> farm \<Rightarrow> farm" where
  "reset_healthy now db =
     db\<lparr>runtimes := update_where (\<lambda>r. r_health r = HHealthy \<and> r_ladder_tier r > 0)
          (\<lambda>r. r\<lparr>r_ladder_tier := 0, r_updated_at := now\<rparr>) (runtimes db)\<rparr>"

definition reconcileQuarantines :: "link \<times> timestamp \<Rightarrow> link \<times> timestamp \<Rightarrow> farm \<Rightarrow> farm" where
  "reconcileQuarantines io1 io2 db =
     (case round_trip (fst io1) (\<lambda>db. Inr ((), release_uncovered (snd io1) db)) db of
        (Inl _, db') \<Rightarrow> db'
      | (Inr _, db') \<Rightarrow> snd (round_trip (fst io2) (\<lambda>db. Inr ((), reset_healthy (snd io2) db)) db'))"

end
