(* ===== verification/Recovery_Attempt.thy ===== *)
theory Recovery_Attempt
  imports Recovery_Ladder
begin

text \<open>
  \<^verbatim>\<open>internal/recovery/ladder.go\<close>, one attempt: the blast-radius check against live leases, the budget
  under the per-device lock, the rung itself and the closing of its row, and the cycle that drives
  them. The advisory lock of \<^verbatim>\<open>begin\<close> makes its transaction atomic, which is how it is modelled.
\<close>

section \<open>What one attempt meets\<close>

record action =
  ac_Tier :: int
  ac_TierName :: string
  ac_DeviceID :: uuid
  ac_SlotID :: int
  ac_Devpath :: string
  ac_RackSlot :: string
  ac_HubID :: int
  ac_HubPath :: string
  ac_HostID :: string
  ac_ADBEndpoint :: string
  ac_PowerDomainID :: "int option"
  ac_Acknowledged :: "string list"
  ac_Timeout :: duration

text \<open>
  The links and instants of an attempt's calls, the actuator's answer to an action, the text of a
  driver error, whether another replica won the race for the quarantine row, and whether the loop's
  context has ended when the rung returns.
\<close>

record attempt_io =
  ai_check :: link
  ai_refuse :: "link \<times> timestamp"
  ai_siblings :: link
  ai_begin :: "link \<times> timestamp"
  ai_perform :: "link \<times> timestamp"
  ai_raced :: bool
  ai_actuator :: "action \<Rightarrow> string + result"
  ai_errText :: string
  ai_cancelled :: bool
  ai_finish :: "link \<times> timestamp"

section \<open>The blast radius\<close>

text \<open>A live lease in the radius, with what the message needs of it.\<close>

record radius_lease =
  rl_lease :: uuid
  rl_job :: uuid
  rl_device :: uuid
  rl_rack_slot :: string
  rl_policy :: string
  rl_protected :: bool
  rl_power_kind :: string

definition in_radius :: "string \<Rightarrow> rcandidate \<Rightarrow> slot_row \<Rightarrow> device_row \<Rightarrow> bool" where
  "in_radius radius c s d \<longleftrightarrow>
     radius = ''device'' \<and> d_id d = rc_DeviceID c \<or>
     radius = ''power_domain'' \<and> rc_PowerDomain c \<noteq> None \<and> s_power_domain s = rc_PowerDomain c \<or>
     radius = ''hub'' \<and> s_hub s = rc_HubID c \<or>
     radius = ''host'' \<and> s_host s = rc_HostID c"

definition power_kind :: "farm \<Rightarrow> slot_row \<Rightarrow> string" where
  "power_kind db s =
     (case Option.bind (s_power_domain s) (\<lambda>p. List.find (\<lambda>r. pd_id r = p) (power_domains db)) of
        None \<Rightarrow> ''none'' | Some p \<Rightarrow> pd_kind p)"

definition radius_leases :: "string \<Rightarrow> rcandidate \<Rightarrow> farm \<Rightarrow> radius_lease list" where
  "radius_leases radius c db =
     concat (map (\<lambda>s. concat (map (\<lambda>d. map (\<lambda>l.
          \<lparr>rl_lease = l_id l, rl_job = l_job l, rl_device = d_id d, rl_rack_slot = coalesce (s_rack_slot s),
           rl_policy = l_policy l, rl_protected = l_protected l, rl_power_kind = power_kind db s\<rparr>)
        (filter (\<lambda>l. d_current_lease d = Some (l_id l) \<and> is_live l) (leases db)))
      (filter (\<lambda>d. d_current_slot d = Some (s_id s) \<and> in_radius radius c s d) (devices db))))
    (slots db))"

text \<open>UUIDs are opaque numbers here, so they are rendered as such.\<close>

definition refusal_text :: "rcandidate \<Rightarrow> tier \<Rightarrow> string \<Rightarrow> radius_lease \<Rightarrow> string" where
  "refusal_text c t radius l =
     ''tier '' @ int_str (ti_Tier t) @ '' ('' @ ti_Name t @ '') has blast radius '' @ radius @
     '' and requires disruption_policy >= '' @ ti_RequiresPolicy t @ '', but '' @
     (if rl_device l \<noteq> rc_DeviceID c
      then ''neighbour '' @ rl_rack_slot l @ '' in the same '' @ radius else ''this device's own lease'') @
     '' (lease '' @ nat_str (rl_lease l) @ '', job '' @ nat_str (rl_job l) @ '') is '' @ rl_policy l @
     (if rl_protected l then '' and protected'' else [])"

text \<open>\<open>Inl ()\<close>: the query failed. \<open>Inr None\<close>: every live lease in the radius permits the tier.\<close>

definition checkBlastRadius ::
  "link \<Rightarrow> rcandidate \<Rightarrow> tier \<Rightarrow> string \<Rightarrow> farm \<Rightarrow> unit + (string \<times> obs_outcome) option" where
  "checkBlastRadius k c t radius db =
     (if k \<noteq> Up then Inl ()
      else Inr (map_option
        (\<lambda>l. (refusal_text c t radius l, RefusalKind (rl_device l \<noteq> rc_DeviceID c) (rl_power_kind l)))
        (List.find (\<lambda>l. \<not> policyRank (rl_policy l) \<ge> policyRank (ti_RequiresPolicy t)) (radius_leases radius c db))))"

definition powerDomainSiblings :: "link \<Rightarrow> rcandidate \<Rightarrow> farm \<Rightarrow> string list option" where
  "powerDomainSiblings k c db =
     (if k \<noteq> Up then None
      else Some (sort (map s_adb_devpath
        (filter (\<lambda>s. rc_PowerDomain c \<noteq> None \<and> s_power_domain s = rc_PowerDomain c \<and> s_id s \<noteq> rc_SlotID c) (slots db)))))"

definition health_text :: "health \<Rightarrow> string" where
  "health_text h = (case h of HUnknown \<Rightarrow> ''unknown'' | HBooting \<Rightarrow> ''booting'' | HHealthy \<Rightarrow> ''healthy''
     | HDegraded \<Rightarrow> ''degraded'' | HOffline \<Rightarrow> ''offline'' | HUnauthorized \<Rightarrow> ''unauthorized''
     | HMissing \<Rightarrow> ''missing'' | HRecovering \<Rightarrow> ''recovering'' | HQuarantined \<Rightarrow> ''quarantined''
     | HRetired \<Rightarrow> ''retired'' | HParked \<Rightarrow> ''parked'')"

definition new_attempt :: "timestamp \<Rightarrow> rcandidate \<Rightarrow> tier \<Rightarrow> jobject \<Rightarrow> attempt_row" where
  "new_attempt now c t detail =
     \<lparr>a_id = 0, a_device = Some (rc_DeviceID c), a_slot = Some (rc_SlotID c), a_hub = Some (rc_HubID c),
      a_host = Some (rc_HostID c), a_tier = ti_Tier t, a_started_at = now, a_finished_at = None,
      a_outcome = None, a_refusal = None, a_detail = detail\<rparr>"

definition recordRefusal :: "link \<Rightarrow> timestamp \<Rightarrow> rcandidate \<Rightarrow> tier \<Rightarrow> string \<Rightarrow> farm \<Rightarrow> farm" where
  "recordRefusal k now c t refusal db =
     (let detail = [(''blast_radius'', JStr (ti_BlastRadius t)), (''requires_policy'', JStr (ti_RequiresPolicy t)),
                    (''health'', JStr (health_text (rc_Health c)))];
          a = (new_attempt now c t detail)\<lparr>a_finished_at := Some now, a_outcome := Some OutcomeRefused,
                 a_refusal := Some refusal\<rparr>
      in snd (round_trip k (\<lambda>db. Inr (insert_attempt a db)) db))"

section \<open>Budget and opening\<close>

definition in_scope :: "string \<Rightarrow> rcandidate \<Rightarrow> farm \<Rightarrow> attempt_row \<Rightarrow> bool" where
  "in_scope radius c db a \<longleftrightarrow>
     radius = ''device'' \<and> a_device a = Some (rc_DeviceID c) \<or>
     radius = ''power_domain'' \<and> rc_PowerDomain c \<noteq> None \<and>
       Option.bind (Option.bind (a_slot a) (slot_by_id db)) s_power_domain = rc_PowerDomain c \<or>
     radius = ''hub'' \<and> a_hub a = Some (rc_HubID c) \<or>
     radius = ''host'' \<and> a_host a = Some (rc_HostID c)"

definition budgeted :: "tier \<Rightarrow> string \<Rightarrow> rcandidate \<Rightarrow> farm \<Rightarrow> attempt_row \<Rightarrow> bool" where
  "budgeted t radius c db a \<longleftrightarrow>
     a_tier a = ti_Tier t \<and> a_outcome a \<noteq> Some OutcomeRefused \<and> in_scope radius c db a"

text \<open>The three columns of the budget query: in cooldown, attempts in the hour, one in flight.\<close>

definition rung_budget ::
  "timestamp \<Rightarrow> ladder_config \<Rightarrow> rcandidate \<Rightarrow> tier \<Rightarrow> string \<Rightarrow> farm \<Rightarrow> bool \<times> int \<times> bool" where
  "rung_budget now cfg c t radius db =
     (let cooldown = max 0 (ti_Cooldown t);
          att = filter (\<lambda>a. budgeted t radius c db a \<and> a_started_at a > now - max cooldown (hours 1)) (attempts db)
      in (list_ex (\<lambda>a. a_started_at a > now - cooldown) att,
          int (length (filter (\<lambda>a. a_started_at a > now - hours 1) att)),
          list_ex (\<lambda>a. a_device a = Some (rc_DeviceID c) \<and> a_finished_at a = None \<and>
              a_started_at a > now - pgInterval (lc_StaleAttempt cfg)) (attempts db)))"

definition recovering_row :: "timestamp \<Rightarrow> ladder_config \<Rightarrow> tier \<Rightarrow> runtime_row \<Rightarrow> runtime_row" where
  "recovering_row now cfg t r =
     r\<lparr>r_ladder_tier := rungAfter t,
       r_suppress_until := Some (now + min (max 0 (ti_Cooldown t)) (pgInterval (lc_MaxSuppress cfg))),
       r_health := (if out_of_service (r_health r) then r_health r else HRecovering),
       r_health_since := (if out_of_service (r_health r) \<or> r_health r = HRecovering then r_health_since r else now),
       r_updated_at := now\<rparr>"

definition begin_tx ::
  "timestamp \<Rightarrow> ladder_config \<Rightarrow> rcandidate \<Rightarrow> tier \<Rightarrow> string \<Rightarrow> string list \<Rightarrow> farm
   \<Rightarrow> sql_error + (string + int) \<times> farm" where
  "begin_tx now cfg c t radius acknowledged db =
     (let (inCooldown, inHour, busy) = rung_budget now cfg c t radius db in
      if busy then Inr (Inl ''in_flight'', db)
      else if inCooldown then Inr (Inl ''cooldown'', db)
      else if inHour \<ge> ti_MaxPerHour t then Inr (Inl ''max_per_hour'', db)
      else
        let detail = [(''blast_radius'', JStr radius), (''health'', JStr (health_text (rc_Health c))),
                      (''from_tier'', JInt (rc_LadderTier c)), (''devpath'', JStr (rc_Devpath c))]
                     @ (if acknowledged \<noteq> [] then [(''acknowledged'', JStrs acknowledged)] else []);
            (i, db1) = insert_attempt (new_attempt now c t detail) db
        in Inr (Inr i, write_health (\<lambda>r. r_device r = rc_DeviceID c) (recovering_row now cfg t) db1))"

text \<open>\<open>Inl\<close> names why nothing was opened: a budget, or an error.\<close>

definition begin_attempt ::
  "link \<Rightarrow> timestamp \<Rightarrow> ladder_config \<Rightarrow> rcandidate \<Rightarrow> tier \<Rightarrow> string \<Rightarrow> string list \<Rightarrow> farm \<Rightarrow> (string + int) \<times> farm" where
  "begin_attempt k now cfg c t radius acknowledged db =
     (case round_trip k (begin_tx now cfg c t radius acknowledged) db of
        (Inr x, db') \<Rightarrow> (x, db')
      | (Inl _, db') \<Rightarrow> (Inl ''error'', db'))"

section \<open>Performing the rung\<close>

text \<open>
  \<^verbatim>\<open>quarantineDevice\<close> goes on after a unique violation, but PostgreSQL has aborted the transaction by
  then and answers the next statement with 25P02.
\<close>

definition quarantine_device_tx ::
  "timestamp \<Rightarrow> bool \<Rightarrow> ladder_config \<Rightarrow> rcandidate \<Rightarrow> tier \<Rightarrow> farm \<Rightarrow> sql_error + unit \<times> farm" where
  "quarantine_device_tx now raced cfg c t db =
     (let reason = ''recovery ladder exhausted at tier '' @ int_str (ti_Tier t) @ '' ('' @ ti_Name t @
                   ''); device health '' @ health_text (rc_Health c) in
      case insert_quarantine raced (\<lambda>q. q_scope q = ''device'' \<and> q_device q = Some (rc_DeviceID c))
             ((new_quarantine now ''device'' reason)\<lparr>q_device := Some (rc_DeviceID c),
                q_slot := Some (rc_SlotID c), q_host := Some (rc_HostID c)\<rparr>) db of
        Inl e \<Rightarrow> Inl (if e = UniqueViolation then TxAborted else e)
      | Inr (qid, db1) \<Rightarrow>
          let i = (case qid of None \<Rightarrow> 0 | Some i \<Rightarrow> i);
              db2 = write_health (\<lambda>r. r_device r = rc_DeviceID c \<and> r_health r \<noteq> HRetired \<and> r_health r \<noteq> HParked)
                      (\<lambda>r. r\<lparr>r_health := HQuarantined, r_health_since := now, r_suppress_until := None,
                             r_updated_at := now\<rparr>) db1;
              detail = [(''scope'', JStr ''device''), (''quarantine_id'', JInt i), (''tier'', JInt (ti_Tier t)),
                        (''health'', JStr (health_text (rc_Health c)))]
          in Inr ((), append_event (ladder_event now ''device_quarantined'' (Some (rc_DeviceID c))
                        (Some (rc_SlotID c)) (lc_Component cfg) detail) db2))"

definition quarantineDevice ::
  "link \<Rightarrow> timestamp \<Rightarrow> bool \<Rightarrow> ladder_config \<Rightarrow> rcandidate \<Rightarrow> tier \<Rightarrow> farm \<Rightarrow> (db_error + unit) \<times> farm" where
  "quarantineDevice k now raced cfg c t db = round_trip k (quarantine_device_tx now raced cfg c t) db"

definition drain_host_tx ::
  "timestamp \<Rightarrow> bool \<Rightarrow> ladder_config \<Rightarrow> rcandidate \<Rightarrow> tier \<Rightarrow> farm \<Rightarrow> sql_error + unit \<times> farm" where
  "drain_host_tx now raced cfg c t db =
     (let reason = ''recovery ladder reached tier '' @ int_str (ti_Tier t) @ '' ('' @ ti_Name t @
                   '') on host '' @ rc_HostID c in
      case insert_quarantine raced (\<lambda>q. q_scope q = ''host'' \<and> q_host q = Some (rc_HostID c))
             ((new_quarantine now ''host'' reason)\<lparr>q_host := Some (rc_HostID c)\<rparr>) db of
        Inl e \<Rightarrow> Inl e
      | Inr (None, db1) \<Rightarrow> Inr ((), db)
      | Inr (Some i, db1) \<Rightarrow>
          let db2 = sweep_seated now (\<lambda>s. s_host s = rc_HostID c) db1;
              detail = [(''scope'', JStr ''host''), (''quarantine_id'', JInt i), (''tier'', JInt (ti_Tier t)),
                        (''host'', JStr (rc_HostID c))]
          in Inr ((), append_event (ladder_event now ''host_quarantined'' None None (lc_Component cfg) detail) db2))"

definition drainHost ::
  "link \<Rightarrow> timestamp \<Rightarrow> bool \<Rightarrow> ladder_config \<Rightarrow> rcandidate \<Rightarrow> tier \<Rightarrow> farm \<Rightarrow> (db_error + unit) \<times> farm" where
  "drainHost k now raced cfg c t db =
     (case round_trip k (drain_host_tx now raced cfg c t) db of
        (Inl e, db') \<Rightarrow> (if e = Pg UniqueViolation then Inr () else Inl e, db')
      | (Inr x, db') \<Rightarrow> (Inr x, db'))"

definition action_of :: "ladder_config \<Rightarrow> rcandidate \<Rightarrow> tier \<Rightarrow> string list \<Rightarrow> action" where
  "action_of cfg c t acknowledged =
     \<lparr>ac_Tier = ti_Tier t, ac_TierName = ti_Name t, ac_DeviceID = rc_DeviceID c, ac_SlotID = rc_SlotID c,
      ac_Devpath = rc_Devpath c, ac_RackSlot = rc_RackSlot c, ac_HubID = rc_HubID c, ac_HubPath = rc_HubPath c,
      ac_HostID = rc_HostID c, ac_ADBEndpoint = rc_ADBEndpoint c, ac_PowerDomainID = rc_PowerDomain c,
      ac_Acknowledged = acknowledged, ac_Timeout = lc_ActionTimeout cfg\<rparr>"

text \<open>A rung done in the database: its outcome and detail, from whether it went through.\<close>

definition db_rung :: "attempt_io \<Rightarrow> jobject \<Rightarrow> (db_error + unit) \<times> farm \<Rightarrow> string \<times> jobject \<times> farm" where
  "db_rung io detail x =
     (case x of
        (Inl _, db') \<Rightarrow> (if ai_cancelled io then OutcomeAborted else OutcomeFailed, [(''error'', JStr (ai_errText io))], db')
      | (Inr _, db') \<Rightarrow> (OutcomeNoChange, detail, db'))"

definition perform ::
  "attempt_io \<Rightarrow> ladder_config \<Rightarrow> rcandidate \<Rightarrow> tier \<Rightarrow> string list \<Rightarrow> farm \<Rightarrow> string \<times> jobject \<times> farm" where
  "perform io cfg c t acknowledged db =
     (let (k, now) = ai_perform io in
      if ti_Name t = ''observe'' then (OutcomeNoChange, [(''action'', JStr ''observe'')], db)
      else if ti_Name t = ''quarantine'' then
        db_rung io [(''action'', JStr ''quarantine''), (''scope'', JStr ''device'')]
          (quarantineDevice k now (ai_raced io) cfg c t db)
      else if ti_Name t = ''host_drain'' then
        db_rung io [(''action'', JStr ''host_drain''), (''scope'', JStr ''host'')]
          (drainHost k now (ai_raced io) cfg c t db)
      else
        (case ai_actuator io (action_of cfg c t acknowledged) of
           Inl err \<Rightarrow> (if ai_cancelled io then OutcomeAborted else OutcomeFailed, [(''error'', JStr err)], db)
         | Inr res \<Rightarrow>
             let (out, refusal) = Record res;
                 d1 = (if refusal \<noteq> [] then jset DetailRefusal (JStr refusal) (re_Detail res) else re_Detail res)
             in (out, jset DetailDisposition (JStr (DispositionOf res)) d1, db)))"

section \<open>Closing the attempt\<close>

definition rungSpent :: "string \<Rightarrow> jobject \<Rightarrow> bool" where
  "rungSpent out detail \<longleftrightarrow> Escalate (DispositionOf \<lparr>re_Outcome = out, re_Detail = detail\<rparr>)"

definition closed_row :: "timestamp \<Rightarrow> string \<Rightarrow> jobject \<Rightarrow> attempt_row \<Rightarrow> attempt_row" where
  "closed_row now out detail a =
     a\<lparr>a_finished_at := Some now, a_outcome := Some out, a_detail := jmerge (a_detail a) detail,
       a_refusal := (case a_refusal a of Some r \<Rightarrow> Some r
                     | None \<Rightarrow> if detail_str detail DetailRefusal \<noteq> [] then Some (detail_str detail DetailRefusal) else None)\<rparr>"

text \<open>\<^verbatim>\<open>FinishAttempt\<close>: the UPDATE alone, and whether an open row matched.\<close>

definition finish_attempt_stmt ::
  "timestamp \<Rightarrow> int \<Rightarrow> string \<Rightarrow> jobject \<Rightarrow> farm \<Rightarrow> sql_error + bool \<times> farm" where
  "finish_attempt_stmt now i out detail db =
     (let P = (\<lambda>a. a_id a = i \<and> a_finished_at a = None) in
      if list_ex P (attempts db) \<and> out \<notin> set attempt_outcomes then Inl CheckViolation
      else Inr (length (filter P (attempts db)) = 1,
                db\<lparr>attempts := update_where P (closed_row now out detail) (attempts db)\<rparr>))"

definition FinishAttempt :: "link \<Rightarrow> timestamp \<Rightarrow> int \<Rightarrow> string \<Rightarrow> jobject \<Rightarrow> farm \<Rightarrow> (db_error + bool) \<times> farm" where
  "FinishAttempt k now i out detail db = round_trip k (finish_attempt_stmt now i out detail) db"

definition hand_back :: "rcandidate \<Rightarrow> tier \<Rightarrow> farm \<Rightarrow> farm" where
  "hand_back c t db =
     db\<lparr>runtimes := update_where (\<lambda>r. r_device r = rc_DeviceID c \<and> r_ladder_tier r = rungAfter t)
          (\<lambda>r. r\<lparr>r_ladder_tier := ti_Tier t\<rparr>) (runtimes db)\<rparr>"

definition finish :: "link \<Rightarrow> timestamp \<Rightarrow> int \<Rightarrow> rcandidate \<Rightarrow> tier \<Rightarrow> string \<Rightarrow> jobject \<Rightarrow> farm \<Rightarrow> farm" where
  "finish k now i c t out detail0 db =
     (let spent = rungSpent out detail0;
          detail = jset ''rung_spent'' (JBool spent) detail0
      in snd (round_trip k (\<lambda>db. bindR (finish_attempt_stmt now i out detail db)
            (\<lambda>(_, db1). Inr ((), if spent then db1 else hand_back c t db1))) db))"

section \<open>One attempt\<close>

text \<open>What an attempt came to, with the metric label where one is counted.\<close>

datatype attempt_report =
    NotActed | RefusedByLease string obs_outcome | Skipped string
  | Performed string jobject obs_outcome

definition radius_of :: "rcandidate \<Rightarrow> tier \<Rightarrow> string" where
  "radius_of c t = (if ti_BlastRadius t = ''power_domain'' \<and> rc_PowerDomain c = None then ''hub'' else ti_BlastRadius t)"

definition acknowledged_of :: "link \<Rightarrow> rcandidate \<Rightarrow> string \<Rightarrow> farm \<Rightarrow> string list" where
  "acknowledged_of k c radius db =
     (if radius = ''power_domain'' \<and> rc_PowerDomain c \<noteq> None
      then (case powerDomainSiblings k c db of None \<Rightarrow> [] | Some xs \<Rightarrow> xs) else [])"

definition attempt ::
  "attempt_io \<Rightarrow> ladder_config \<Rightarrow> rcandidate \<Rightarrow> tier list \<Rightarrow> farm \<Rightarrow> attempt_report \<times> farm" where
  "attempt io cfg c tiers db =
     (let t = next_tier tiers (rc_LadderTier c);
          radius = radius_of c t
      in case checkBlastRadius (ai_check io) c t radius db of
           Inl _ \<Rightarrow> (NotActed, db)
         | Inr (Some (refusal, kind)) \<Rightarrow>
             (RefusedByLease refusal kind, recordRefusal (fst (ai_refuse io)) (snd (ai_refuse io)) c t refusal db)
         | Inr None \<Rightarrow>
             (let ack = acknowledged_of (ai_siblings io) c radius db in
              case begin_attempt (fst (ai_begin io)) (snd (ai_begin io)) cfg c t radius ack db of
                (Inl why, db1) \<Rightarrow> (Skipped why, db1)
              | (Inr i, db1) \<Rightarrow>
                  (case perform io cfg c t ack db1 of
                     (out, detail, db2) \<Rightarrow>
                       (Performed out detail (obsOutcome out detail),
                        finish (fst (ai_finish io)) (snd (ai_finish io)) i c t out detail db2))))"

section \<open>The cycle\<close>

record ladder_io =
  lo_beat :: "link \<times> timestamp"
  lo_release :: "link \<times> timestamp"
  lo_reset :: "link \<times> timestamp"
  lo_tiers :: link
  lo_candidates :: "link \<times> timestamp"
  lo_hubStats :: link
  lo_hub :: "int \<Rightarrow> (link \<times> timestamp) \<times> bool"
  lo_attempt :: "uuid \<Rightarrow> attempt_io"
  lo_cancelled :: "uuid \<Rightarrow> bool"

fun attempt_loop ::
  "ladder_io \<Rightarrow> ladder_config \<Rightarrow> tier list \<Rightarrow> uuid set \<Rightarrow> rcandidate list \<Rightarrow> farm \<Rightarrow> (uuid \<times> attempt_report) list \<times> farm" where
  "attempt_loop io cfg tiers handled [] db = ([], db)"
| "attempt_loop io cfg tiers handled (c # cs) db =
     (if lo_cancelled io (rc_DeviceID c) then ([], db)
      else if rc_DeviceID c \<in> handled then attempt_loop io cfg tiers handled cs db
      else
        (case attempt (lo_attempt io (rc_DeviceID c)) cfg c tiers db of
           (rep, db1) \<Rightarrow>
             (case attempt_loop io cfg tiers handled cs db1 of
                (reps, db2) \<Rightarrow> ((rc_DeviceID c, rep) # reps, db2))))"

definition recovery_cycle :: "ladder_io \<Rightarrow> ladder_config \<Rightarrow> farm \<Rightarrow> (uuid \<times> attempt_report) list \<times> farm" where
  "recovery_cycle io cfg db0 =
     (let db1 = snd (ComponentBeat (fst (lo_beat io)) (snd (lo_beat io)) (lc_Component cfg) db0);
          db = reconcileQuarantines (lo_release io) (lo_reset io) db1
      in case ladder_tiers (lo_tiers io) db of
           None \<Rightarrow> ([], db)
         | Some tiers \<Rightarrow>
             (case recovery_candidates (fst (lo_candidates io)) (snd (lo_candidates io)) cfg db of
                None \<Rightarrow> ([], db)
              | Some cands \<Rightarrow>
                  if cands = [] then ([], db)
                  else (case correlate (lo_hubStats io) (lo_hub io) cfg cands tiers db of
                          (handled, db2) \<Rightarrow> attempt_loop io cfg tiers handled cands db2)))"

end
