(* ===== verification/Recovery_Correct.thy ===== *)
theory Recovery_Correct
  imports Recovery_Attempt Farm_System
begin

text \<open>
  What the ladder keeps and what its operations do. The tables an operation may write are a frame: a
  reflexive and transitive relation that a round trip inherits from its statement. The ladder's own
  frame leaves every table but the runtime rows, the attempts, the quarantines, the events and the
  heartbeats alone; the lemmas below it say what each statement does inside that frame.
\<close>

section \<open>Frames\<close>

locale frame =
  fixes R :: "farm \<Rightarrow> farm \<Rightarrow> bool"
  assumes frame_refl: "R db db"
    and frame_trans: "R a b \<Longrightarrow> R b c \<Longrightarrow> R a c"
begin

lemma trip:
  assumes "round_trip k stmt db = (r, db')" and "\<And>x db''. stmt db = Inr (x, db'') \<Longrightarrow> R db db''"
  shows "R db db'"
  using round_trip_db [OF assms(1)] assms(2) frame_refl by auto

lemma snd_trip:
  assumes "\<And>x db''. stmt db = Inr (x, db'') \<Longrightarrow> R db db''"
  shows "R db (snd (round_trip k stmt db))"
  using trip [of k stmt db] assms by (metis surjective_pairing)

end

definition ladder_only :: "farm \<Rightarrow> farm \<Rightarrow> bool" where
  "ladder_only db db' \<longleftrightarrow>
     leases db' = leases db \<and> devices db' = devices db \<and> jobs db' = jobs db \<and> slots db' = slots db \<and>
     hubs db' = hubs db \<and> hosts db' = hosts db \<and> fence_seq db' = fence_seq db \<and>
     reaper_state db' = reaper_state db \<and> gaps db' = gaps db \<and> tiers_tbl db' = tiers_tbl db \<and>
     map r_device (runtimes db') = map r_device (runtimes db)"

interpretation lo: frame ladder_only
  by unfold_locales (simp_all add: ladder_only_def)

interpretation ro: frame runtime_only
  by unfold_locales (auto intro: runtime_only_trans)

lemma guard_device [simp]:
  "r_device (trg_device_runtime_park_guard ds old new) = r_device new"
  "r_ladder_tier (trg_device_runtime_park_guard ds old new) = r_ladder_tier new"
  by (simp_all add: trg_device_runtime_park_guard_def)

text \<open>The statements the operations are made of.\<close>

lemma ladder_only_write_health:
  assumes "\<And>r. r_device (f r) = r_device r"
  shows "ladder_only db (write_health P f db)"
  using assms by (simp add: ladder_only_def write_health_def map_update_where)

lemma ladder_only_update:
  assumes "\<And>r. r_device (f r) = r_device r"
  shows "ladder_only db (db\<lparr>runtimes := update_where P f (runtimes db)\<rparr>)"
  using assms by (simp add: ladder_only_def map_update_where)

lemma ladder_only_sweep: "ladder_only db (sweep_seated now P db)"
  unfolding sweep_seated_def by (rule ladder_only_write_health) simp

lemma ladder_only_event: "ladder_only db (append_event e db)"
  by (simp add: ladder_only_def append_event_def)

lemma ladder_only_insert_attempt: "ladder_only db (snd (insert_attempt a db))"
  by (simp add: ladder_only_def insert_attempt_def Let_def)

lemma ladder_only_insert_quarantine:
  "insert_quarantine raced P q db = Inr (x, db') \<Longrightarrow> ladder_only db db'"
  by (auto simp: insert_quarantine_def Let_def ladder_only_def split: if_splits)

lemmas ladder_only_stmts = ladder_only_write_health ladder_only_update ladder_only_sweep ladder_only_event
  ladder_only_insert_attempt ladder_only_insert_quarantine

section \<open>The ladder's transactions stay inside its frame\<close>

lemma ladder_only_open_hub_tx:
  assumes "open_hub_tx now raced cfg st t reason db = Inr (x, db')"
  shows "ladder_only db db'"
proof -
  from assms obtain q db1 where q: "insert_quarantine raced (\<lambda>q. q_scope q = ''hub'' \<and> q_hub q = Some (hs_HubID st))
      ((new_quarantine now ''hub'' reason)\<lparr>q_hub := Some (hs_HubID st), q_host := Some (hs_HostID st)\<rparr>) db = Inr (q, db1)"
    by (auto simp: open_hub_tx_def bindR_eq_Inr)
  note 1 = ladder_only_insert_quarantine [OF q]
  show ?thesis
    using assms q lo.frame_trans [OF 1 ladder_only_sweep]
    by (auto simp: open_hub_tx_def Let_def lo.frame_refl split: option.splits
        intro!: lo.frame_trans [OF _ ladder_only_event] lo.frame_trans [OF _ ladder_only_insert_attempt])
qed

lemma ladder_only_openHub:
  "openHubQuarantine k now raced cfg st t reason db = (b, db') \<Longrightarrow> ladder_only db db'"
  by (auto simp: openHubQuarantine_def split: prod.splits sum.splits
      dest!: lo.trip intro: ladder_only_open_hub_tx)

lemma ladder_only_quarantine_hubs:
  "quarantine_hubs io cfg t cands sts handled db = (h, db') \<Longrightarrow> ladder_only db db'"
proof (induction sts arbitrary: handled db)
  case Nil
  then show ?case by (simp add: lo.frame_refl)
next
  case (Cons st sts)
  obtain k now raced where io: "io (hs_HubID st) = ((k, now), raced)" by (cases "io (hs_HubID st)") auto
  obtain b d1 where o: "openHubQuarantine k now raced cfg st t (hub_reason st) db = (b, d1)" by fastforce
  show ?case
    using Cons.prems Cons.IH ladder_only_openHub [OF o] io o
    by (auto split: if_splits option.splits intro: lo.frame_trans)
qed

lemma ladder_only_correlate: "correlate k io cfg cands tiers db = (h, db') \<Longrightarrow> ladder_only db db'"
  by (auto simp: correlate_def lo.frame_refl split: option.splits intro: ladder_only_quarantine_hubs)

lemma ladder_only_reconcileQuarantines: "ladder_only db (reconcileQuarantines io1 io2 db)"
proof -
  have a: "ladder_only d (release_uncovered t d)" for d t
    unfolding release_uncovered_def by (rule ladder_only_write_health) simp
  have b: "ladder_only d (reset_healthy t d)" for d t
    unfolding reset_healthy_def by (rule ladder_only_update) simp
  obtain x d1 where r: "round_trip (fst io1) (\<lambda>db. Inr ((), release_uncovered (snd io1) db)) db = (x, d1)" by fastforce
  have 1: "ladder_only db d1" using r by (rule lo.trip) (use a in auto)
  have 2: "ladder_only d1 (snd (round_trip (fst io2) (\<lambda>db. Inr ((), reset_healthy (snd io2) db)) d1))"
    by (rule lo.snd_trip) (use b in auto)
  show ?thesis using r 1 lo.frame_trans [OF 1 2] by (auto simp: reconcileQuarantines_def split: sum.splits)
qed

lemma ladder_only_recordRefusal: "ladder_only db (recordRefusal k now c t refusal db)"
  unfolding recordRefusal_def Let_def
  by (rule lo.snd_trip) (use ladder_only_insert_attempt in \<open>auto simp: prod_eq_iff\<close>)

lemma recovering_row_device [simp]: "r_device (recovering_row now cfg t r) = r_device r"
  by (simp add: recovering_row_def)

lemma ladder_only_begin_tx: "begin_tx now cfg c t radius ack db = Inr (x, db') \<Longrightarrow> ladder_only db db'"
  by (auto simp: begin_tx_def Let_def lo.frame_refl insert_attempt_def split: prod.splits if_splits
      intro!: lo.frame_trans [OF _ ladder_only_write_health]) (auto simp: ladder_only_def)

lemma ladder_only_begin: "begin_attempt k now cfg c t radius ack db = (x, db') \<Longrightarrow> ladder_only db db'"
  by (auto simp: begin_attempt_def split: prod.splits sum.splits dest!: lo.trip intro: ladder_only_begin_tx)

lemma ladder_only_quarantine_tx: "quarantine_device_tx now raced cfg c t db = Inr (x, db') \<Longrightarrow> ladder_only db db'"
  by (auto simp: quarantine_device_tx_def Let_def split: sum.splits prod.splits option.splits
      dest!: ladder_only_insert_quarantine
      intro!: lo.frame_trans [OF _ ladder_only_event] lo.frame_trans [OF _ ladder_only_write_health])

lemma ladder_only_drain_tx: "drain_host_tx now raced cfg c t db = Inr (x, db') \<Longrightarrow> ladder_only db db'"
  by (auto simp: drain_host_tx_def Let_def lo.frame_refl split: sum.splits prod.splits option.splits
      dest!: ladder_only_insert_quarantine
      intro!: lo.frame_trans [OF _ ladder_only_event] lo.frame_trans [OF _ ladder_only_sweep])

lemma ladder_only_quarantineDevice: "ladder_only db (snd (quarantineDevice k now raced cfg c t db))"
  unfolding quarantineDevice_def by (rule lo.snd_trip) (rule ladder_only_quarantine_tx)

lemma ladder_only_drainHost: "ladder_only db (snd (drainHost k now raced cfg c t db))"
proof -
  have "snd (drainHost k now raced cfg c t db) = snd (round_trip k (drain_host_tx now raced cfg c t) db)"
    by (simp add: drainHost_def split: prod.splits sum.splits)
  moreover have "ladder_only db (snd (round_trip k (drain_host_tx now raced cfg c t) db))"
    by (rule lo.snd_trip) (rule ladder_only_drain_tx)
  ultimately show ?thesis by simp
qed

lemma db_rung_db: "snd (snd (db_rung io detail x)) = snd x"
  by (simp add: db_rung_def split: prod.splits sum.splits)

lemma ladder_only_perform: "ladder_only db (snd (snd (perform io cfg c t ack db)))"
  by (simp add: perform_def Let_def split_def db_rung_db ladder_only_quarantineDevice ladder_only_drainHost
      lo.frame_refl split: sum.split)

lemma ladder_only_finish: "ladder_only db (finish k now i c t out detail db)"
proof -
  have a: "ladder_only db db1" if "finish_attempt_stmt now i out d db = Inr (b, db1)" for b db1 d
    using that by (auto simp: finish_attempt_stmt_def Let_def ladder_only_def split: if_splits)
  have b: "ladder_only d (hand_back c t d)" for d
    unfolding hand_back_def by (rule ladder_only_update) simp
  show ?thesis unfolding finish_def Let_def
    by (rule lo.snd_trip) (auto simp: bindR_eq_Inr dest!: a intro: lo.frame_trans [OF _ b] split: if_splits)
qed

lemma ladder_only_attempt: "attempt io cfg c tiers db = (rep, db') \<Longrightarrow> ladder_only db db'"
proof -
  assume res: "attempt io cfg c tiers db = (rep, db')"
  define t where "t = next_tier tiers (rc_LadderTier c)"
  define ack where "ack = acknowledged_of (ai_siblings io) c (radius_of c t) db"
  obtain x d1 where b: "begin_attempt (fst (ai_begin io)) (snd (ai_begin io)) cfg c t (radius_of c t) ack db = (x, d1)"
    by fastforce
  obtain out detail d2 where p: "perform io cfg c t ack d1 = (out, detail, d2)" by (cases rule: prod_cases3)
  have 1: "ladder_only db d1" by (rule ladder_only_begin [OF b])
  have 2: "ladder_only d1 d2" using ladder_only_perform [of d1 io cfg c t ack] p by simp
  show ?thesis using res b p 1 lo.frame_trans [OF lo.frame_trans [OF 1 2] ladder_only_finish]
    by (auto simp: attempt_def Let_def t_def [symmetric] ack_def [symmetric] lo.frame_refl
        ladder_only_recordRefusal split: sum.splits option.splits)
qed

lemma ladder_only_loop: "attempt_loop io cfg tiers handled cs db = (reps, db') \<Longrightarrow> ladder_only db db'"
proof (induction cs arbitrary: db reps)
  case Nil
  then show ?case by (simp add: lo.frame_refl)
next
  case (Cons c cs)
  obtain rep d1 where a: "attempt (lo_attempt io (rc_DeviceID c)) cfg c tiers db = (rep, d1)" by fastforce
  show ?case using Cons.prems Cons.IH ladder_only_attempt [OF a] a
    by (auto simp: lo.frame_refl split: if_splits prod.splits intro: lo.frame_trans)
qed

lemma ladder_only_beat: "ladder_only db (snd (ComponentBeat k now cmp db))"
  unfolding ComponentBeat_def
  by (auto simp: ladder_only_def round_trip_def component_beat_def split: link.split sum.split prod.split)

lemma ladder_only_cycle: "recovery_cycle io cfg db = (reps, db') \<Longrightarrow> ladder_only db db'"
proof -
  assume res: "recovery_cycle io cfg db = (reps, db')"
  define d0 where "d0 = reconcileQuarantines (lo_release io) (lo_reset io)
    (snd (ComponentBeat (fst (lo_beat io)) (snd (lo_beat io)) (lc_Component cfg) db))"
  have 0: "ladder_only db d0"
    unfolding d0_def by (rule lo.frame_trans [OF ladder_only_beat ladder_only_reconcileQuarantines])
  show ?thesis using res 0
    by (auto simp: recovery_cycle_def Let_def d0_def [symmetric] split: option.splits if_splits prod.splits
        intro: lo.frame_trans [OF lo.frame_trans [OF 0 ladder_only_correlate] ladder_only_loop])
qed

text \<open>So a whole cycle is a step the lease invariant's transition system admits.\<close>

lemma ladder_only_registry:
  assumes "ladder_only db db'" and "lease_wf db"
  shows "registry_step db db'"
  using assms lease_wfD(1-5) [OF assms(2)]
  by (auto simp: registry_step_def ladder_only_def lease_wf_def keyed_def intro!: exI [of _ "[]"])

section \<open>The rung\<close>

text \<open>The rung a device's row carries.\<close>

definition rung_at :: "farm \<Rightarrow> uuid \<Rightarrow> int option" where
  "rung_at db i = map_option r_ladder_tier (runtime_by_device db i)"

lemma rung_at_write_health:
  assumes "\<And>r. r_device (f r) = r_device r" and "\<And>r. r_ladder_tier (f r) = r_ladder_tier r"
  shows "rung_at (write_health P f db) i = rung_at db i"
proof -
  have "List.find (\<lambda>r. r_device r = i) (update_where P (\<lambda>r. trg_device_runtime_park_guard ds r (f r)) rs) =
      map_option (\<lambda>r. if P r then trg_device_runtime_park_guard ds r (f r) else r) (List.find (\<lambda>r. r_device r = i) rs)"
    for ds rs using assms(1) by (induction rs) auto
  then show ?thesis
    using assms(2) by (auto simp: rung_at_def runtime_by_device_def write_health_def option.map_comp o_def intro!: option.map_cong)
qed

lemma rung_at_runtimes: "runtimes db' = runtimes db \<Longrightarrow> rung_at db' i = rung_at db i"
  by (simp add: rung_at_def runtime_by_device_def)

lemma rung_at_append_event [simp]: "rung_at (append_event e db) i = rung_at db i"
  by (rule rung_at_runtimes) simp

text \<open>No rung performed in the database moves the rung of any device, nor the attempts.\<close>

definition rungs_kept :: "farm \<Rightarrow> farm \<Rightarrow> bool" where
  "rungs_kept db db' \<longleftrightarrow> rung_at db' = rung_at db \<and> attempts db' = attempts db"

interpretation rk: frame rungs_kept
  by unfold_locales (simp_all add: rungs_kept_def)

lemma rungs_kept_insert_quarantine:
  assumes "insert_quarantine raced P q db = Inr (x, db')"
  shows "rungs_kept db db'"
proof -
  have "runtimes db' = runtimes db" "attempts db' = attempts db"
    using assms by (auto simp: insert_quarantine_def Let_def split: if_splits)
  then show ?thesis unfolding rungs_kept_def by (intro conjI ext rung_at_runtimes)
qed

lemma attempts_write_health [simp]: "attempts (write_health P f db) = attempts db"
  by (simp add: write_health_def)

lemma rungs_kept_write_health:
  assumes "\<And>r. r_device (f r) = r_device r" and "\<And>r. r_ladder_tier (f r) = r_ladder_tier r"
  shows "rungs_kept db (write_health P f db)"
  using assms by (simp add: rungs_kept_def fun_eq_iff rung_at_write_health)

lemma rungs_kept_sweep: "rungs_kept db (sweep_seated now P db)"
  unfolding sweep_seated_def by (rule rungs_kept_write_health) simp_all

lemma rungs_kept_event: "rungs_kept db (append_event e db)"
  by (simp add: rungs_kept_def fun_eq_iff)

lemma rungs_kept_quarantine_tx: "quarantine_device_tx now raced cfg c t db = Inr (x, db') \<Longrightarrow> rungs_kept db db'"
  by (auto simp: quarantine_device_tx_def Let_def split: sum.splits prod.splits option.splits
      dest!: rungs_kept_insert_quarantine
      intro!: rk.frame_trans [OF _ rungs_kept_event] rk.frame_trans [OF _ rungs_kept_write_health])

lemma rungs_kept_drain_tx: "drain_host_tx now raced cfg c t db = Inr (x, db') \<Longrightarrow> rungs_kept db db'"
  by (auto simp: drain_host_tx_def Let_def rk.frame_refl split: sum.splits prod.splits option.splits
      dest!: rungs_kept_insert_quarantine
      intro!: rk.frame_trans [OF _ rungs_kept_event] rk.frame_trans [OF _ rungs_kept_sweep])

lemma rungs_kept_perform: "rungs_kept db (snd (snd (perform io cfg c t ack db)))"
proof -
  have a: "rungs_kept db (snd (quarantineDevice k now raced cfg c t db))" for k now raced
    unfolding quarantineDevice_def by (rule rk.snd_trip) (rule rungs_kept_quarantine_tx)
  have "rungs_kept db (snd (round_trip k (drain_host_tx now raced cfg c t) db))" for k now raced
    by (rule rk.snd_trip) (rule rungs_kept_drain_tx)
  then have b: "rungs_kept db (snd (drainHost k now raced cfg c t db))" for k now raced
    by (simp add: drainHost_def split: prod.splits sum.splits) (metis snd_conv)
  show ?thesis
    by (simp add: perform_def Let_def split_def db_rung_db a b rk.frame_refl split: sum.split)
qed

text \<open>A verdict is the ladder's own, with no disposition recorded, or the actuator's.\<close>

lemma db_rung_verdict:
  assumes "db_rung io d x = (out, detail, db')" and "detail_str d DetailDisposition = []"
  shows "out \<in> {OutcomeNoChange, OutcomeFailed, OutcomeAborted} \<and> detail_str detail DetailDisposition = []"
  using assms by (auto simp: db_rung_def detail_str_def jget_def split: prod.splits sum.splits if_splits)

lemma perform_verdict:
  assumes "perform io cfg c t ack db = (out, detail, db')"
  shows "(out \<in> {OutcomeNoChange, OutcomeFailed, OutcomeAborted} \<and> detail_str detail DetailDisposition = []) \<or>
    (\<exists>res d. ai_actuator io (action_of cfg c t ack) = Inr res \<and> out = disposition_Outcome (DispositionOf res) \<and>
      detail = jset DetailDisposition (JStr (DispositionOf res)) d)"
proof -
  obtain k now where io: "ai_perform io = (k, now)" by fastforce
  have lit: "detail_str [(''action'', JStr a), (''scope'', JStr b)] DetailDisposition = []"
    "detail_str [(''action'', JStr a)] DetailDisposition = []" "detail_str [(''error'', JStr a)] DetailDisposition = []" for a b
    by (simp_all add: detail_str_def jget_def)
  consider "ti_Name t = ''observe''" | "ti_Name t = ''quarantine''" | "ti_Name t = ''host_drain''"
    | "ti_Name t \<notin> {''observe'', ''quarantine'', ''host_drain''}" by blast
  then show ?thesis
  proof cases
    case 1
    then show ?thesis using assms io lit by (auto simp: perform_def)
  next
    case 2
    then have "db_rung io [(''action'', JStr ''quarantine''), (''scope'', JStr ''device'')]
        (quarantineDevice k now (ai_raced io) cfg c t db) = (out, detail, db')" using assms io by (simp add: perform_def)
    from db_rung_verdict [OF this lit(1)] show ?thesis by blast
  next
    case 3
    then have "db_rung io [(''action'', JStr ''host_drain''), (''scope'', JStr ''host'')]
        (drainHost k now (ai_raced io) cfg c t db) = (out, detail, db')" using assms io by (simp add: perform_def)
    from db_rung_verdict [OF this lit(1)] show ?thesis by blast
  next
    case 4
    then show ?thesis using assms io lit(3) Record_outcome
      by (auto simp: perform_def Let_def split_def split: sum.splits)
  qed
qed

lemma perform_outcome: "perform io cfg c t ack db = (out, detail, db') \<Longrightarrow> out \<in> set attempt_outcomes"
  by (drule perform_verdict) (use disposition_Outcome_ok in \<open>auto simp: attempt_outcomes_def\<close>)

text \<open>A spent rung is recorded as one of the two outcomes that say the hardware was tried.\<close>

lemma rungSpent_outcome:
  assumes "perform io cfg c t ack db = (out, detail, db')" and "rungSpent out detail"
  shows "out = OutcomeFailed \<or> out = OutcomeNoChange"
  using perform_verdict [OF assms(1)]
proof
  assume "out \<in> {OutcomeNoChange, OutcomeFailed, OutcomeAborted} \<and> detail_str detail DetailDisposition = []"
  then show ?thesis using assms(2) by (auto simp: rungSpent_def Escalate_def DispositionOf_def Let_def)
next
  assume "\<exists>res d. ai_actuator io (action_of cfg c t ack) = Inr res \<and> out = disposition_Outcome (DispositionOf res) \<and>
      detail = jset DetailDisposition (JStr (DispositionOf res)) d"
  then obtain res d where r: "out = disposition_Outcome (DispositionOf res)"
    "detail = jset DetailDisposition (JStr (DispositionOf res)) d" by blast
  have ne: "DispositionOf res \<noteq> []" by (auto simp: DispositionOf_def Let_def)
  then have "DispositionOf \<lparr>re_Outcome = out, re_Detail = detail\<rparr> = DispositionOf res"
    by (subst DispositionOf_def) (simp add: r)
  then show ?thesis using assms(2) r by (auto simp: rungSpent_def Escalate_def disposition_Outcome_def)
qed

text \<open>What an opened attempt has passed and done.\<close>

lemma begin_attemptD:
  assumes "begin_attempt k now cfg c t radius ack db = (Inr i, db')"
  obtains n d where "rung_budget now cfg c t radius db = (False, n, False)" and "n < ti_MaxPerHour t"
    and "i = attempt_seq db + 1"
    and "db' = write_health (\<lambda>r. r_device r = rc_DeviceID c) (recovering_row now cfg t)
       (db\<lparr>attempts := attempts db @ [(new_attempt now c t d)\<lparr>a_id := i\<rparr>], attempt_seq := i\<rparr>)"
proof -
  obtain cd n busy where b: "rung_budget now cfg c t radius db = (cd, n, busy)" by (cases rule: prod_cases3)
  from assms have "begin_tx now cfg c t radius ack db = Inr (Inr i, db')"
    by (auto simp: begin_attempt_def round_trip_Inr split: prod.splits sum.splits)
  then show ?thesis using b that
    by (auto simp: begin_tx_def Let_def insert_attempt_def split: if_splits)
qed

lemma rung_at_begin:
  assumes "begin_attempt k now cfg c t radius ack db = (Inr i, db')"
  shows "rung_at db' (rc_DeviceID c) = map_option (\<lambda>_. rungAfter t) (rung_at db (rc_DeviceID c))"
  by (rule begin_attemptD [OF assms])
    (simp add: rung_at_def runtime_by_device_def write_health_def find_update_where recovering_row_def
      option.map_comp o_def)

text \<open>A finish whose transaction goes through closes the open row and settles the rung.\<close>

lemma finish_Up:
  assumes "out \<in> set attempt_outcomes"
  shows "finish Up now i c t out detail db =
    (let db1 = db\<lparr>attempts := update_where (\<lambda>a. a_id a = i \<and> a_finished_at a = None)
          (closed_row now out (jset ''rung_spent'' (JBool (rungSpent out detail)) detail)) (attempts db)\<rparr>
     in if rungSpent out detail then db1 else hand_back c t db1)"
  using assms by (simp add: finish_def Let_def round_trip_def finish_attempt_stmt_def)

lemma rung_at_hand_back:
  assumes "rung_at db (rc_DeviceID c) = Some (rungAfter t)"
  shows "rung_at (hand_back c t db) (rc_DeviceID c) = Some (ti_Tier t)"
proof -
  let ?f = "\<lambda>r. r\<lparr>r_ladder_tier := ti_Tier t\<rparr>"
  obtain r where r: "List.find (\<lambda>r. r_device r = rc_DeviceID c) (runtimes db) = Some r" "r_ladder_tier r = rungAfter t"
    using assms by (auto simp: rung_at_def runtime_by_device_def)
  have "List.find (\<lambda>r. r_device r = i) (update_where (\<lambda>r. r_device r = i \<and> r_ladder_tier r = n) ?f rs) = Some (?f r)"
    if "List.find (\<lambda>r. r_device r = i) rs = Some r" "r_ladder_tier r = n" for i n rs
    using that by (induction rs) (auto split: if_splits)
  from this [OF r] show ?thesis by (simp add: rung_at_def runtime_by_device_def hand_back_def)
qed

lemma in_update_where: "x \<in> set rows \<Longrightarrow> P x \<Longrightarrow> f x \<in> set (update_where P f rows)"
  by (force simp: set_update_where)

lemma recordRefusal_row:
  "recordRefusal k now c t msg db = db \<or>
   (\<exists>a. a_outcome a = Some OutcomeRefused \<and> a_device a = Some (rc_DeviceID c) \<and>
      recordRefusal k now c t msg db = db\<lparr>attempts := attempts db @ [a], attempt_seq := attempt_seq db + 1\<rparr>)"
proof -
  define a where "a = (new_attempt now c t [(''blast_radius'', JStr (ti_BlastRadius t)),
      (''requires_policy'', JStr (ti_RequiresPolicy t)), (''health'', JStr (health_text (rc_Health c)))])
    \<lparr>a_finished_at := Some now, a_outcome := Some OutcomeRefused, a_refusal := Some msg\<rparr>"
  have r: "recordRefusal k now c t msg db = snd (round_trip k (\<lambda>db. Inr (insert_attempt a db)) db)"
    by (simp add: recordRefusal_def Let_def a_def)
  define a' where "a' = a\<lparr>a_id := attempt_seq db + 1\<rparr>"
  have a': "a_outcome a' = Some OutcomeRefused \<and> a_device a' = Some (rc_DeviceID c)"
    by (simp add: a'_def a_def new_attempt_def)
  have "recordRefusal k now c t msg db = db \<or>
      recordRefusal k now c t msg db = db\<lparr>attempts := attempts db @ [a'], attempt_seq := attempt_seq db + 1\<rparr>"
    unfolding r by (cases k) (simp_all add: round_trip_def insert_attempt_def Let_def a'_def)
  with a' show ?thesis by blast
qed

section \<open>Hub quarantines\<close>

definition hub_stat :: "farm \<Rightarrow> hub_row \<Rightarrow> hubStat" where
  "hub_stat db hb = (let ms = hub_members db (hb_id hb); bad = filter unhealthyPredicate ms in
     \<lparr>hs_HubID = hb_id hb, hs_HostID = hb_host hb, hs_HubPath = hb_usb_path hb,
      hs_Devices = int (length ms), hs_Unhealthy = int (length bad),
      hs_Spread = spread_of (map r_health_since bad) * 1000\<rparr>)"

lemma spread_of_ge: "x \<in> set ts \<Longrightarrow> y \<in> set ts \<Longrightarrow> x - y \<le> spread_of ts"
  by (auto simp: spread_of_def intro!: diff_mono)

lemma quarantines_sweep [simp]: "quarantines (sweep_seated now P db) = quarantines db"
  by (simp add: sweep_seated_def write_health_def)

lemma quarantines_insert_attempt [simp]: "quarantines (snd (insert_attempt a db)) = quarantines db"
  by (simp add: insert_attempt_def Let_def)

lemma openHub_row:
  assumes "openHubQuarantine k now raced cfg st t reason db = (b, db')" and "q \<in> set (quarantines db')"
  shows "q \<in> set (quarantines db) \<or> q_scope q = ''hub'' \<and> q_hub q = Some (hs_HubID st)"
proof -
  have "q \<in> set (quarantines db) \<or> q_scope q = ''hub'' \<and> q_hub q = Some (hs_HubID st)"
    if "open_hub_tx now raced cfg st t reason db = Inr (x, db'')" "q \<in> set (quarantines db'')" for x db''
    using that by (auto simp: open_hub_tx_def insert_quarantine_def Let_def new_quarantine_def split: if_splits)
  moreover obtain r where "round_trip k (open_hub_tx now raced cfg st t reason) db = (r, db')"
    using assms(1) by (auto simp: openHubQuarantine_def split: prod.splits sum.splits)
  ultimately show ?thesis using assms(2) by (auto dest!: round_trip_db)
qed

lemma new_quarantine_row:
  assumes "quarantine_hubs io cfg t cands sts handled db = (h, db')" and "q \<in> set (quarantines db')"
    and "q \<notin> set (quarantines db)"
  shows "\<exists>st\<in>set sts. hubIsTheFault cfg st \<and> q_scope q = ''hub'' \<and> q_hub q = Some (hs_HubID st)"
  using assms
proof (induction sts arbitrary: handled db)
  case Nil
  then show ?case by simp
next
  case (Cons st sts)
  obtain k now raced where io: "io (hs_HubID st) = ((k, now), raced)" by (cases "io (hs_HubID st)") auto
  obtain b d1 where o: "openHubQuarantine k now raced cfg st t (hub_reason st) db = (b, d1)" by fastforce
  show ?case
  proof (cases "hubIsTheFault cfg st")
    case False
    then show ?thesis using Cons.prems Cons.IH by auto
  next
    case True
    then obtain h' where rest: "quarantine_hubs io cfg t cands sts h' d1 = (h, db')"
      using Cons.prems(1) io o by (auto split: option.splits)
    show ?thesis using True Cons.IH [OF rest Cons.prems(2)] openHub_row [OF o] Cons.prems(3) by auto
  qed
qed

end
