(* ===== verification/Adb_Wire.thy ===== *)
theory Adb_Wire
  imports Watchdog_Damper "HOL-Library.Word"
begin

text \<open>
  \<^verbatim>\<open>internal/adbwire\<close>, the bytes: the length-prefixed framing and the status word of \<^verbatim>\<open>conn.go\<close>, the
  error a FAIL becomes (\<^verbatim>\<open>errors.go\<close>), the devpath predicate and the shell v2 packets of
  \<^verbatim>\<open>device.go\<close>. A byte is a \<open>char\<close>; a socket is the list of bytes still to come, whose end is the
  peer closing. Deadlines and cancellation are the caller's and are not modelled here.
\<close>

unbundle bit_operations_syntax

section \<open>Reading\<close>

datatype read_error = EOF | ErrUnexpectedEOF

text \<open>\<^verbatim>\<open>io.ReadFull\<close>: \<open>EOF\<close> only when not a single byte came.\<close>

definition read_full :: "nat \<Rightarrow> string \<Rightarrow> read_error + string \<times> string" where
  "read_full n s =
     (if n \<le> length s then Inr (take n s, drop n s) else if s = [] then Inl EOF else Inl ErrUnexpectedEOF)"

lemma read_full_append: "length p = n \<Longrightarrow> read_full n (p @ rest) = Inr (p, rest)"
  by (simp add: read_full_def)

lemma read_full_Inr: "read_full n s = Inr (x, rest) \<Longrightarrow> s = x @ rest \<and> length x = n"
  by (auto simp: read_full_def split: if_splits)

section \<open>Hex lengths\<close>

definition hex_char :: "nat \<Rightarrow> char" where
  "hex_char d = char_of (if d < 10 then 48 + d else 87 + d)"

definition putHex4 :: "nat \<Rightarrow> string" where
  "putHex4 n = [hex_char (n div 4096 mod 16), hex_char (n div 256 mod 16), hex_char (n div 16 mod 16), hex_char (n mod 16)]"

definition hex_value :: "char \<Rightarrow> nat option" where
  "hex_value c = (let n = of_char c in
     if 48 \<le> n \<and> n \<le> 57 then Some (n - 48)
     else if 97 \<le> n \<and> n \<le> 102 then Some (n - 97 + 10)
     else if 65 \<le> n \<and> n \<le> 70 then Some (n - 65 + 10)
     else None)"

fun parse_hex :: "nat \<Rightarrow> string \<Rightarrow> nat option" where
  "parse_hex n [] = Some n"
| "parse_hex n (c # cs) = (case hex_value c of None \<Rightarrow> None | Some v \<Rightarrow> parse_hex (n * 16 + v) cs)"

definition parseHex4 :: "string \<Rightarrow> nat option" where
  "parseHex4 b = (if length b \<noteq> 4 then None else parse_hex 0 b)"

lemma hex_value_char:
  assumes "d < 16" shows "hex_value (hex_char d) = Some d"
proof (cases "d < 10")
  case True
  then show ?thesis by (simp add: hex_value_def hex_char_def Let_def)
next
  case False
  with assms show ?thesis by (simp add: hex_value_def hex_char_def Let_def)
qed

lemma parseHex4_putHex4:
  assumes "n \<le> 0xFFFF" shows "parseHex4 (putHex4 n) = Some n"
proof -
  define a b c where "a = n div 16" and "b = a div 16" and "c = b div 16"
  have q: "n div 256 = b" "n div 4096 = c" by (simp_all add: a_def b_def c_def div_mult2_eq [symmetric])
  have "c < 16" using assms unfolding q(2) [symmetric] by (intro less_mult_imp_div_less) simp
  moreover have "c * 16 + b mod 16 = b" "b * 16 + a mod 16 = a" "a * 16 + n mod 16 = n"
    by (simp_all add: a_def b_def c_def)
  ultimately show ?thesis
    by (simp add: parseHex4_def putHex4_def hex_value_char q a_def [symmetric])
qed

lemma parse_hex_bound: "parse_hex n s = Some m \<Longrightarrow> m < (n + 1) * 16 ^ length s"
proof (induction s arbitrary: n)
  case (Cons c cs)
  then obtain v where v: "hex_value c = Some v" "parse_hex (n * 16 + v) cs = Some m" by (auto split: option.splits)
  have "v < 16" using v(1) by (auto simp: hex_value_def Let_def split: if_splits)
  then have "(n * 16 + v + 1) * 16 ^ length cs \<le> (n + 1) * 16 * 16 ^ length cs" by (intro mult_right_mono) auto
  with Cons.IH [OF v(2)] have "m < (n + 1) * 16 * 16 ^ length cs" by (rule less_le_trans)
  then show ?case by (simp only: list.size power_Suc mult.assoc Nat.add_0_right add_Suc_right)
qed simp

section \<open>Frames\<close>

definition maxMessage :: nat where "maxMessage = 0xFFFF"

datatype wire_error =
    TransportError string string string   \<comment> \<open>kind, operation, cause\<close>
  | AmbiguousTargetError string           \<comment> \<open>reason\<close>
  | NotFoundError string
  | ProtocolError string
  | UsageError string                     \<comment> \<open>the rendered error\<close>
  | CanceledError
  | OtherError string

text \<open>\<^verbatim>\<open>%q\<close> of ASCII text; a byte outside printable ASCII is escaped by itself.\<close>

definition quote_char :: "char \<Rightarrow> string" where
  "quote_char c = (let n = of_char c :: nat in
     if n = 34 then [CHR 0x5C, CHR 0x22] else if n = 92 then [CHR 0x5C, CHR 0x5C]
     else if n = 7 then [CHR 0x5C, CHR ''a''] else if n = 8 then [CHR 0x5C, CHR ''b'']
     else if n = 9 then [CHR 0x5C, CHR ''t''] else if n = 10 then [CHR 0x5C, CHR ''n'']
     else if n = 11 then [CHR 0x5C, CHR ''v''] else if n = 12 then [CHR 0x5C, CHR ''f'']
     else if n = 13 then [CHR 0x5C, CHR ''r'']
     else if 32 \<le> n \<and> n < 127 then [c]
     else [CHR 0x5C, CHR ''x'', hex_char (n div 16), hex_char (n mod 16)])"

definition go_quote :: "string \<Rightarrow> string" where
  "go_quote s = CHR 0x22 # concat (map quote_char s) @ [CHR 0x22]"

definition printable :: "string \<Rightarrow> string" where
  "printable b = concat (map (\<lambda>c. let n = of_char c :: nat in
     if 32 \<le> n \<and> n < 127 then [c] else [CHR 0x5C, CHR ''x'', hex_char (n div 16), hex_char (n mod 16)]) b)"

text \<open>\<^verbatim>\<open>UsageError.Error\<close>: operation, detail and, when there is one, the offending value.\<close>

definition usage_text :: "string \<Rightarrow> string \<Rightarrow> string \<Rightarrow> string" where
  "usage_text op detail val =
     ''adbwire: '' @ op @ '': '' @ detail @ (if val \<noteq> [] then '': '' @ go_quote val else [])"

definition writeMessage :: "string \<Rightarrow> string \<Rightarrow> wire_error + string" where
  "writeMessage op payload =
     (if length payload > maxMessage
      then Inl (UsageError (usage_text op (''request of '' @ nat_str (length payload) @ '' bytes exceeds the '' @
             nat_str maxMessage @ ''-byte length prefix'') []))
      else Inr (putHex4 (length payload) @ payload))"

text \<open>\<^verbatim>\<open>classify\<close> of the two endings a byte stream has: both are the peer closing.\<close>

definition read_failed :: "string \<Rightarrow> read_error \<Rightarrow> wire_error" where
  "read_failed op e = TransportError ''peer_closed'' op (case e of EOF \<Rightarrow> ''EOF'' | ErrUnexpectedEOF \<Rightarrow> ''unexpected EOF'')"

definition frameErr :: "string \<Rightarrow> string \<Rightarrow> wire_error" where
  "frameErr op detail = TransportError ''frame'' op detail"

definition readMessage :: "string \<Rightarrow> string \<Rightarrow> wire_error + string \<times> string" where
  "readMessage op s =
     (case read_full 4 s of
        Inl e \<Rightarrow> Inl (read_failed op e)
      | Inr (hdr, rest) \<Rightarrow>
          (case parseHex4 hdr of
             None \<Rightarrow> Inl (frameErr op (''length prefix '' @ go_quote (printable hdr) @ '' is not 4 hex digits''))
           | Some want \<Rightarrow>
               if want = 0 then Inr ([], rest)
               else (case read_full want rest of
                       Inl e \<Rightarrow> Inl (read_failed op e)
                     | Inr (buf, rest') \<Rightarrow> Inr (buf, rest'))))"

text \<open>A FAIL's reason, best effort: framed, cut short, or the bare text of an older server.\<close>

definition readFailReason :: "string \<Rightarrow> string" where
  "readFailReason s =
     (if length s < 4 then (if s = [] then ''(no reason supplied)'' else trim_space s)
      else
        (case parseHex4 (take 4 s) of
           Some want \<Rightarrow>
             (let got = take want (drop 4 s) in
              if length got < want \<and> got = [] then ''(truncated reason)'' else trim_space got)
         | None \<Rightarrow> trim_space (take 4 s @ take maxMessage (drop 4 s))))"

definition failToError :: "string \<Rightarrow> wire_error" where
  "failToError reason =
     (let low = map lower_char reason in
      if contains ''more than one'' low \<or> contains ''ambiguous'' low then AmbiguousTargetError reason
      else if contains ''not found'' low \<or> contains ''no devices'' low \<or> contains ''no such device'' low
              \<or> contains ''no device'' low then NotFoundError reason
      else ProtocolError reason)"

text \<open>\<^verbatim>\<open>readStatus\<close>: nothing and the rest of the stream on OKAY, otherwise the most specific error.\<close>

definition readStatus :: "string \<Rightarrow> string \<Rightarrow> wire_error + string" where
  "readStatus op s =
     (case read_full 4 s of
        Inl e \<Rightarrow> Inl (read_failed op e)
      | Inr (st, rest) \<Rightarrow>
          if st = ''OKAY'' then Inr rest
          else if st = ''FAIL'' then Inl (failToError (readFailReason rest))
          else Inl (frameErr op (''expected OKAY or FAIL, got '' @ go_quote (printable st))))"

lemma readMessage_writeMessage:
  assumes "writeMessage op p = Inr bytes"
  shows "readMessage op (bytes @ rest) = Inr (p, rest)"
proof -
  have len: "length p \<le> 0xFFFF" and b: "bytes = putHex4 (length p) @ p"
    using assms by (auto simp: writeMessage_def maxMessage_def split: if_splits)
  have "read_full 4 (bytes @ rest) = Inr (putHex4 (length p), p @ rest)"
    unfolding b append_assoc by (rule read_full_append) (simp add: putHex4_def)
  then show ?thesis
    by (simp add: readMessage_def parseHex4_putHex4 [OF len] read_full_append)
qed

text \<open>Whatever the peer sends, a message read is bounded by the prefix and consumes its own bytes.\<close>

lemma readMessage_bounded:
  assumes "readMessage op s = Inr (p, rest)"
  shows "length p \<le> maxMessage \<and> length s = 4 + length p + length rest"
proof -
  obtain hdr mid want where h: "read_full 4 s = Inr (hdr, mid)" "parseHex4 hdr = Some want"
    using assms by (auto simp: readMessage_def split: sum.splits prod.splits option.splits)
  have s: "s = hdr @ mid" "length hdr = 4" using read_full_Inr [OF h(1)] by auto
  have w: "want \<le> maxMessage"
    using h(2) parse_hex_bound [of 0 hdr want] s(2) by (auto simp: parseHex4_def maxMessage_def)
  show ?thesis
    using assms h s w by (auto simp: readMessage_def split: if_splits sum.splits dest!: read_full_Inr)
qed

lemma readMessage_Inl:
  assumes "readMessage op s = Inl e"
  shows "\<exists>kind cause. e = TransportError kind op cause"
  using assms
  by (auto simp: readMessage_def read_failed_def frameErr_def split: sum.splits prod.splits option.splits if_splits)

section \<open>Devpaths\<close>

definition is_alnum :: "char \<Rightarrow> bool" where
  "is_alnum c \<longleftrightarrow> (let n = of_char c :: nat in 48 \<le> n \<and> n \<le> 57 \<or> 65 \<le> n \<and> n \<le> 90 \<or> 97 \<le> n \<and> n \<le> 122)"

definition devpathRe :: "string \<Rightarrow> bool" where
  "devpathRe s \<longleftrightarrow> has_prefix ''usb:'' s \<and>
     (case drop 4 s of [] \<Rightarrow> False
      | c # cs \<Rightarrow> is_alnum c \<and> list_all (\<lambda>c. is_alnum c \<or> c \<in> {CHR ''.'', CHR ''_'', CHR ''-''}) cs)"

definition maxDevpathLen :: nat where "maxDevpathLen = 128"

definition isDevpath :: "string \<Rightarrow> bool" where
  "isDevpath s \<longleftrightarrow> s \<noteq> [] \<and> length s \<le> maxDevpathLen \<and> devpathRe s"

text \<open>\<open>None\<close> is the nil error.\<close>

definition ValidateDevpath :: "string \<Rightarrow> wire_error option" where
  "ValidateDevpath s =
     (if s = [] then Some (UsageError (usage_text ''devpath'' ''empty devpath'' []))
      else if length s > maxDevpathLen
      then Some (UsageError (usage_text ''devpath'' ''devpath is implausibly long'' s))
      else if \<not> devpathRe s
      then Some (UsageError (usage_text ''devpath'' (''devpath must look like '' @ go_quote ''usb:3-1.4.2'') s))
      else None)"

text \<open>What the parser records and what the addressing calls accept is one predicate.\<close>

lemma ValidateDevpath_iff: "ValidateDevpath s = None \<longleftrightarrow> isDevpath s"
  by (simp add: ValidateDevpath_def isDevpath_def)

text \<open>A devpath carries no second colon and no white space, so it cannot end its field early.\<close>

lemma isDevpath_chars:
  assumes "isDevpath s"
  shows "\<exists>t. s = ''usb:'' @ t \<and> t \<noteq> [] \<and> list_all (\<lambda>c. is_alnum c \<or> c \<in> {CHR ''.'', CHR ''_'', CHR ''-''}) t"
proof -
  have p: "has_prefix p s \<Longrightarrow> \<exists>t. s = p @ t" for p s by (induction p s rule: has_prefix.induct) auto
  from assms obtain t where t: "s = ''usb:'' @ t" using p [of "''usb:''" s] by (auto simp: isDevpath_def devpathRe_def)
  then show ?thesis using assms by (cases t) (auto simp: isDevpath_def devpathRe_def)
qed

section \<open>Shell v2\<close>

definition MaxShellPacket :: nat where "MaxShellPacket = 2 ^ 20"
definition DefaultMaxOutput :: nat where "DefaultMaxOutput = 8 * 2 ^ 20"

definition ShellStdout :: char where "ShellStdout = char_of (1::nat)"
definition ShellStderr :: char where "ShellStderr = char_of (2::nat)"
definition ShellExit :: char where "ShellExit = char_of (3::nat)"

definition PutUint32 :: "nat \<Rightarrow> string" where
  "PutUint32 n = [char_of (n mod 256), char_of (n div 256 mod 256), char_of (n div 65536 mod 256), char_of (n div 16777216 mod 256)]"

fun Uint32 :: "string \<Rightarrow> nat" where
  "Uint32 [] = 0"
| "Uint32 (b # bs) = of_char b + 256 * Uint32 bs"

datatype shell_error = ReadError read_error | PacketTooLong nat

text \<open>\<^verbatim>\<open>Next\<close>: the packet's id, its payload and the rest of the stream.\<close>

definition shell_Next :: "string \<Rightarrow> shell_error + char \<times> string \<times> string" where
  "shell_Next s =
     (case read_full 5 s of
        Inl e \<Rightarrow> Inl (ReadError e)
      | Inr (hdr, rest) \<Rightarrow>
          (let n = Uint32 (drop 1 hdr) in
           if n > MaxShellPacket then Inl (PacketTooLong n)
           else if n = 0 then Inr (hd hdr, [], rest)
           else (case read_full n rest of
                   Inl e \<Rightarrow> Inl (ReadError e)
                 | Inr (buf, rest') \<Rightarrow> Inr (hd hdr, buf, rest'))))"

definition WriteShellPacket :: "char \<Rightarrow> string \<Rightarrow> wire_error + string" where
  "WriteShellPacket i payload =
     (if length payload > MaxShellPacket then Inl (UsageError (usage_text ''shell_write'' (''payload of '' @ nat_str (length payload) @ '' bytes exceeds the '' @
             nat_str MaxShellPacket @ ''-byte cap'') []))
      else Inr (i # PutUint32 (length payload) @ payload))"

record shell_result =
  sr_Stdout :: string
  sr_Stderr :: string
  sr_ExitCode :: int
  sr_Exited :: bool
  sr_Truncated :: bool

text \<open>One packet's effect on the result and on the count of captured bytes.\<close>

definition drain_packet :: "nat \<Rightarrow> char \<Rightarrow> string \<Rightarrow> shell_result \<times> nat \<Rightarrow> shell_result \<times> nat" where
  "drain_packet limit i payload st =
     (let (res, total) = st in
      if i = ShellStdout \<or> i = ShellStderr then
        (if total \<ge> limit then (res\<lparr>sr_Truncated := True\<rparr>, total)
         else
           let over = total + length payload > limit;
               p = (if over then take (limit - total) payload else payload);
               res1 = (if over then res\<lparr>sr_Truncated := True\<rparr> else res)
           in (if i = ShellStdout then res1\<lparr>sr_Stdout := sr_Stdout res1 @ p\<rparr>
               else res1\<lparr>sr_Stderr := sr_Stderr res1 @ p\<rparr>, total + length p))
      else if i = ShellExit then
        (if payload \<noteq> [] then (res\<lparr>sr_ExitCode := of_char (hd payload), sr_Exited := True\<rparr>, total) else (res, total))
      else (res, total))"

lemma shell_Next_consumes:
  assumes "shell_Next s = Inr (i, payload, rest)"
  shows "length s = 5 + length payload + length rest"
  using assms by (auto simp: shell_Next_def Let_def split: sum.splits if_splits dest!: read_full_Inr)

text \<open>The loop: it ends because every packet consumes at least its header. \<open>None\<close> is the nil error.\<close>

function drain_loop :: "nat \<Rightarrow> string \<Rightarrow> shell_result \<times> nat \<Rightarrow> shell_result \<times> shell_error option" where
  "drain_loop limit s st =
     (case shell_Next s of
        Inl e \<Rightarrow> (fst st, if e = ReadError EOF then None else Some e)
      | Inr (i, payload, rest) \<Rightarrow> drain_loop limit rest (drain_packet limit i payload st))"
  by pat_completeness auto
termination
  by (relation "measure (\<lambda>(_, s, _). length s)") (auto dest: shell_Next_consumes)

declare drain_loop.simps [simp del]

definition empty_result :: shell_result where
  "empty_result = \<lparr>sr_Stdout = [], sr_Stderr = [], sr_ExitCode = - 1, sr_Exited = False, sr_Truncated = False\<rparr>"

definition DrainShellV2 :: "string \<Rightarrow> int \<Rightarrow> shell_result \<times> shell_error option" where
  "DrainShellV2 s limit =
     drain_loop (if limit \<le> 0 then DefaultMaxOutput else nat limit) s (empty_result, 0)"

section \<open>What draining returns\<close>

lemma length_PutUint32 [simp]: "length (PutUint32 n) = 4"
  by (simp add: PutUint32_def)

lemma Uint32_PutUint32:
  assumes "n < 2 ^ 32" shows "Uint32 (PutUint32 n) = n"
proof -
  define a b c where "a = n div 256" and "b = a div 256" and "c = b div 256"
  have q: "n div 65536 = b" "n div 16777216 = c" by (simp_all add: a_def b_def c_def div_mult2_eq [symmetric])
  have "c < 256" using assms unfolding q(2) [symmetric] by (intro less_mult_imp_div_less) simp
  then have "c mod 256 = c" by simp
  moreover have "b mod 256 + 256 * c = b" "a mod 256 + 256 * b = a" "n mod 256 + 256 * a = n"
    by (simp_all add: a_def b_def c_def)
  ultimately show ?thesis
    by (simp add: PutUint32_def q a_def [symmetric])
qed

lemma read_header: "read_full 5 (i # PutUint32 n @ rest) = Inr (i # PutUint32 n, rest)"
  using read_full_append [of "i # PutUint32 n" 5 rest] by simp

lemma shell_Next_packet:
  assumes "WriteShellPacket i p = Inr bytes"
  shows "shell_Next (bytes @ rest) = Inr (i, p, rest)"
proof -
  have len: "length p \<le> MaxShellPacket" and b: "bytes = i # PutUint32 (length p) @ p"
    using assms by (auto simp: WriteShellPacket_def split: if_splits)
  have "Uint32 (PutUint32 (length p)) = length p"
    using len by (intro Uint32_PutUint32) (simp add: MaxShellPacket_def)
  then show ?thesis using len read_header [of i "length p" "p @ rest"]
    by (simp add: b shell_Next_def Let_def read_full_append)
qed

text \<open>A stream of packets, as the writer frames them.\<close>

definition packet :: "char \<times> string \<Rightarrow> string" where
  "packet ip = fst ip # PutUint32 (length (snd ip)) @ snd ip"

abbreviation packets_ok :: "(char \<times> string) list \<Rightarrow> bool" where
  "packets_ok ps \<equiv> \<forall>ip\<in>set ps. length (snd ip) \<le> MaxShellPacket"

lemma drain_loop_packets:
  assumes "packets_ok ps"
  shows "drain_loop limit (concat (map packet ps) @ rest) st =
    drain_loop limit rest (fold (\<lambda>(i, p). drain_packet limit i p) ps st)"
  using assms
proof (induction ps arbitrary: st)
  case Nil
  then show ?case by simp
next
  case (Cons ip ps)
  have "WriteShellPacket (fst ip) (snd ip) = Inr (packet ip)"
    using Cons.prems by (simp add: WriteShellPacket_def packet_def)
  from shell_Next_packet [OF this] show ?case
    using Cons by (subst drain_loop.simps) (simp add: split_def)
qed

lemma drain_loop_end: "drain_loop limit [] st = (fst st, None)"
  by (subst drain_loop.simps) (simp add: shell_Next_def read_full_def)

text \<open>The stream cut between a header and its payload: not one byte came, so \<^verbatim>\<open>ReadFull\<close> says EOF.\<close>

lemma drain_loop_cut:
  assumes "0 < n" and "n \<le> MaxShellPacket"
  shows "drain_loop limit (i # PutUint32 n) st = (fst st, None)"
proof -
  have "Uint32 (PutUint32 n) = n"
    using assms by (intro Uint32_PutUint32) (simp add: MaxShellPacket_def)
  moreover have "read_full n [] = Inl EOF" using assms by (simp add: read_full_def)
  ultimately have "shell_Next (i # PutUint32 n) = Inl (ReadError EOF)"
    using assms read_header [of i n "[]"] by (simp add: shell_Next_def Let_def)
  then show ?thesis by (subst drain_loop.simps) simp
qed

definition captured :: "shell_result \<Rightarrow> nat" where
  "captured r = length (sr_Stdout r) + length (sr_Stderr r)"

lemma drain_packet_captured:
  assumes "captured (fst st) = snd st" and "snd st \<le> limit"
  shows "captured (fst (drain_packet limit i p st)) = snd (drain_packet limit i p st) \<and>
    snd (drain_packet limit i p st) \<le> limit"
  using assms by (cases st) (auto simp: drain_packet_def captured_def Let_def)

lemma drain_loop_captured:
  assumes "captured (fst st) = snd st" and "snd st \<le> limit"
  shows "captured (fst (drain_loop limit s st)) \<le> limit"
  using assms
proof (induction limit s st rule: drain_loop.induct)
  case (1 limit s st)
  show ?case
  proof (cases "shell_Next s")
    case (Inl e)
    then show ?thesis using 1(2,3) by (subst drain_loop.simps) simp
  next
    case (Inr x)
    obtain i p rest where x: "x = (i, p, rest)" by (cases x rule: prod_cases3)
    have "captured (fst (drain_loop limit rest (drain_packet limit i p st))) \<le> limit"
      using 1(1) [OF Inr [unfolded x] refl refl] drain_packet_captured [OF 1(2,3)] by blast
    then show ?thesis using Inr x by (subst drain_loop.simps) simp
  qed
qed

definition output_of :: "char \<Rightarrow> (char \<times> string) list \<Rightarrow> string" where
  "output_of i ps = concat (map snd (filter (\<lambda>ip. fst ip = i) ps))"

lemma ShellIds: "ShellStdout \<noteq> ShellStderr"
  by (simp add: ShellStdout_def ShellStderr_def)

lemma drain_fold:
  assumes "n + length (output_of ShellStdout ps) + length (output_of ShellStderr ps) < limit"
  shows "\<exists>r' n'. fold (\<lambda>(i, p). drain_packet limit i p) ps (r, n) = (r', n') \<and>
    sr_Stdout r' = sr_Stdout r @ output_of ShellStdout ps \<and>
    sr_Stderr r' = sr_Stderr r @ output_of ShellStderr ps \<and> sr_Truncated r' = sr_Truncated r"
  using assms
proof (induction ps arbitrary: r n)
  case Nil
  then show ?case by (simp add: output_of_def)
next
  case (Cons ip ps)
  obtain i p where ip: "ip = (i, p)" by fastforce
  define r1 n1 where "r1 = fst (drain_packet limit i p (r, n))" and "n1 = snd (drain_packet limit i p (r, n))"
  have step: "drain_packet limit i p (r, n) = (r1, n1)" by (simp add: r1_def n1_def)
  have out: "output_of j ((i, p) # ps) = (if i = j then p else []) @ output_of j ps" for j
    by (simp add: output_of_def)
  have one: "sr_Stdout r1 = sr_Stdout r @ (if i = ShellStdout then p else []) \<and>
      sr_Stderr r1 = sr_Stderr r @ (if i = ShellStderr then p else []) \<and> sr_Truncated r1 = sr_Truncated r \<and>
      n1 = n + (if i = ShellStdout \<or> i = ShellStderr then length p else 0)"
    using Cons.prems ShellIds by (auto simp: r1_def n1_def ip out drain_packet_def Let_def)
  have "n1 + length (output_of ShellStdout ps) + length (output_of ShellStderr ps) < limit"
    using Cons.prems one ShellIds by (auto simp: ip out split: if_splits)
  from Cons.IH [OF this, of r1] one show ?case by (auto simp: ip out step)
qed

text \<open>The exit status: the first byte of the last exit packet that has one.\<close>

definition exits_of :: "(char \<times> string) list \<Rightarrow> char list" where
  "exits_of ps = map (hd \<circ> snd) (filter (\<lambda>ip. fst ip = ShellExit \<and> snd ip \<noteq> []) ps)"

lemma drain_fold_exit:
  "sr_Exited (fst (fold (\<lambda>(i, p). drain_packet limit i p) ps st)) = (sr_Exited (fst st) \<or> exits_of ps \<noteq> []) \<and>
   sr_ExitCode (fst (fold (\<lambda>(i, p). drain_packet limit i p) ps st)) =
     (if exits_of ps = [] then sr_ExitCode (fst st) else of_char (last (exits_of ps)))"
proof (induction ps arbitrary: st)
  case Nil
  then show ?case by (simp add: exits_of_def)
next
  case (Cons ip ps)
  obtain i p where ip: "ip = (i, p)" by fastforce
  have ids: "ShellStdout \<noteq> ShellExit" "ShellStderr \<noteq> ShellExit"
    by (simp_all add: ShellStdout_def ShellStderr_def ShellExit_def)
  have ex: "exits_of ((i, p) # ps) = (if i = ShellExit \<and> p \<noteq> [] then [hd p] else []) @ exits_of ps"
    by (simp add: exits_of_def)
  have "sr_Exited (fst (drain_packet limit i p st)) = (sr_Exited (fst st) \<or> i = ShellExit \<and> p \<noteq> [])"
    "sr_ExitCode (fst (drain_packet limit i p st)) = (if i = ShellExit \<and> p \<noteq> [] then of_char (hd p) else sr_ExitCode (fst st))"
    using ids by (cases st, auto simp: drain_packet_def Let_def)+
  then show ?case using Cons [of "drain_packet limit i p st"] by (auto simp: ip ex)
qed

end
