(* ===== verification/Go_Text.thy ===== *)
theory Go_Text
  imports Lease_Store Watchdog_Damper
begin

text \<open>
  What the program uses of Go's \<^verbatim>\<open>strings\<close>, \<^verbatim>\<open>strconv\<close>, \<^verbatim>\<open>time\<close> and \<^verbatim>\<open>regexp\<close> packages: splitting and
  cutting text, integers and durations as text, instants in RFC 3339, and regular expressions with
  the leftmost-first choice of RE2. White space is ASCII white space.
\<close>

section \<open>Splitting and cutting\<close>

function Fields :: "string \<Rightarrow> string list" where
  "Fields [] = []"
| "Fields (c # s) =
     (if is_space c then Fields s
      else takeWhile (\<lambda>c. \<not> is_space c) (c # s) # Fields (dropWhile (\<lambda>c. \<not> is_space c) (c # s)))"
  by pat_completeness auto
termination
  by (relation "measure length") (auto simp: le_imp_less_Suc dropWhile_eq_drop)

text \<open>\<^verbatim>\<open>strings.Split(s, sep)\<close> for a one-byte separator.\<close>

fun split_on :: "char \<Rightarrow> string \<Rightarrow> string list" where
  "split_on c [] = [[]]"
| "split_on c (d # s) =
     (if d = c then [] # split_on c s
      else (case split_on c s of [] \<Rightarrow> [[d]] | w # ws \<Rightarrow> (d # w) # ws))"

text \<open>\<^verbatim>\<open>strings.Cut(s, sep)\<close>: the two sides of the first separator.\<close>

fun cut :: "char \<Rightarrow> string \<Rightarrow> (string \<times> string) option" where
  "cut c [] = None"
| "cut c (d # s) = (if d = c then Some ([], s) else map_option (\<lambda>(a, b). (d # a, b)) (cut c s))"

definition is_digit :: "char \<Rightarrow> bool" where
  "is_digit c \<longleftrightarrow> 48 \<le> (of_char c :: nat) \<and> (of_char c :: nat) \<le> 57"

fun digits :: "nat \<Rightarrow> string \<Rightarrow> nat option" where
  "digits n [] = Some n"
| "digits n (c # s) = (if is_digit c then digits (n * 10 + (of_char c - 48)) s else None)"

text \<open>\<^verbatim>\<open>strconv.ParseInt(s, 10, 64)\<close>; \<open>None\<close> is a syntax or a range error.\<close>

definition ParseInt :: "string \<Rightarrow> int option" where
  "ParseInt s =
     (let (neg, ds) = (case s of [] \<Rightarrow> (False, []) | c # cs \<Rightarrow>
            if c = CHR ''-'' then (True, cs) else if c = CHR ''+'' then (False, cs) else (False, s))
      in if ds = [] then None
         else (case digits 0 ds of
                 None \<Rightarrow> None
               | Some n \<Rightarrow>
                   let v = (if neg then - int n else int n)
                   in if - (2 ^ 63) \<le> v \<and> v < 2 ^ 63 then Some v else None))"

text \<open>\<^verbatim>\<open>strings.CutPrefix\<close>.\<close>

definition cut_prefix :: "string \<Rightarrow> string \<Rightarrow> string option" where
  "cut_prefix p s = (if has_prefix p s then Some (drop (length p) s) else None)"

section \<open>Durations as text\<close>

text \<open>\<^verbatim>\<open>time.Duration.String\<close> of a duration that is not negative: the fraction loses its trailing zeros.\<close>

fun trim_zeros :: "string \<Rightarrow> string" where
  "trim_zeros [] = []"
| "trim_zeros (c # s) = (case trim_zeros s of [] \<Rightarrow> if c = CHR ''0'' then [] else [c] | t \<Rightarrow> c # t)"

definition pad_left :: "nat \<Rightarrow> string \<Rightarrow> string" where
  "pad_left n s = replicate (n - length s) (CHR ''0'') @ s"

definition frac_str :: "int \<Rightarrow> nat \<Rightarrow> string" where
  "frac_str v prec =
     (let ds = trim_zeros (pad_left prec (int_str (v mod 10 ^ prec))) in if ds = [] then [] else CHR ''.'' # ds)"

definition duration_str :: "duration \<Rightarrow> string" where
  "duration_str d =
     (if d = 0 then ''0s''
      else if d < 1000 then int_str d @ ''ns''
      else if d < 1000000 then int_str (d div 1000) @ frac_str d 3 @ [CHR 0xC2, CHR 0xB5, CHR ''s'']
      else if d < Second then int_str (d div 1000000) @ frac_str d 6 @ ''ms''
      else
        (let n = d div Second; h = n div 3600; m = n div 60 mod 60 in
         (if h > 0 then int_str h @ ''h'' else []) @ (if n \<ge> 60 then int_str m @ ''m'' else []) @
         int_str (n mod 60) @ frac_str d 9 @ ''s''))"

text \<open>\<^verbatim>\<open>Duration.Round\<close> of a duration that is not negative: half a unit rounds up.\<close>

definition duration_round :: "duration \<Rightarrow> duration \<Rightarrow> duration" where
  "duration_round d m = (let r = d mod m in if r + r < m then d - r else d + (m - r))"

section \<open>Instants as text\<close>

text \<open>Year, month and day of a number of days since the epoch, in the proleptic Gregorian calendar.\<close>

definition civil_of_days :: "int \<Rightarrow> int \<times> int \<times> int" where
  "civil_of_days days =
     (let z = days + 719468; era = z div 146097; doe = z mod 146097;
          yoe = (doe - doe div 1460 + doe div 36524 - doe div 146096) div 365;
          doy = doe - (365 * yoe + yoe div 4 - yoe div 100); mp = (5 * doy + 2) div 153;
          m = (if mp < 10 then mp + 3 else mp - 9)
      in (yoe + era * 400 + (if m \<le> 2 then 1 else 0), m, doy - (153 * mp + 2) div 5 + 1))"

text \<open>\<^verbatim>\<open>t.UTC().Format(time.RFC3339)\<close>, for \<open>t\<close> in nanoseconds since the epoch.\<close>

definition rfc3339 :: "int \<Rightarrow> string" where
  "rfc3339 t =
     (let n = t div Second; (y, m, d) = civil_of_days (n div 86400); k = n mod 86400; two = (\<lambda>v. pad_left 2 (int_str v))
      in pad_left 4 (int_str y) @ ''-'' @ two m @ ''-'' @ two d @ ''T'' @ two (k div 3600) @ '':'' @
         two (k div 60 mod 60) @ '':'' @ two (k mod 60) @ ''Z'')"

section \<open>Regular expressions\<close>

text \<open>
  The constructs the program's patterns use: literal text, one character of a class, sequence, greedy
  bounded repetition and named groups. A match is what is left of the text after it, with the groups
  it captured; the list holds the matches in the order of preference, so its head is the one RE2
  reports. No pattern of the program has a group under a repetition.
\<close>

datatype re = Lit string | Cls "char \<Rightarrow> bool" | Seq re re | Rep re nat nat | Grp string re

type_synonym re_match = "(string \<times> string) list \<times> string"

definition and_then :: "re_match list \<Rightarrow> (string \<Rightarrow> re_match list) \<Rightarrow> re_match list" where
  "and_then ms f = concat (map (\<lambda>(g, t). map (\<lambda>(h, u). (g @ h, u)) (f t)) ms)"

primrec rep_rests :: "(string \<Rightarrow> re_match list) \<Rightarrow> nat \<Rightarrow> nat \<Rightarrow> string \<Rightarrow> re_match list" where
  "rep_rests f 0 lo s = (if lo = 0 then [([], s)] else [])"
| "rep_rests f (Suc hi) lo s =
     and_then (f s) (rep_rests f hi (lo - 1)) @ (if lo = 0 then [([], s)] else [])"

primrec rests :: "re \<Rightarrow> string \<Rightarrow> re_match list" where
  "rests (Lit p) s = (case cut_prefix p s of None \<Rightarrow> [] | Some t \<Rightarrow> [([], t)])"
| "rests (Cls P) s = (case s of [] \<Rightarrow> [] | c # t \<Rightarrow> if P c then [([], t)] else [])"
| "rests (Seq a b) s = and_then (rests a s) (rests b)"
| "rests (Rep a lo hi) s = rep_rests (rests a) hi lo s"
| "rests (Grp name a) s = map (\<lambda>(g, t). ((name, take (length s - length t) s) # g, t)) (rests a s)"

text \<open>\<^verbatim>\<open>FindStringSubmatchIndex\<close>: the leftmost match, its span and its groups.\<close>

definition find_re :: "re \<Rightarrow> string \<Rightarrow> (nat \<times> nat \<times> (string \<times> string) list) option" where
  "find_re p s =
     (case List.find (\<lambda>i. rests p (drop i s) \<noteq> []) [0..<Suc (length s)] of
        None \<Rightarrow> None
      | Some i \<Rightarrow> (let (g, t) = hd (rests p (drop i s)) in Some (i, length s - length t, g)))"

text \<open>\<^verbatim>\<open>LiteralPrefix\<close>: the text every match begins with, and whether it is the whole pattern.\<close>

fun literal_prefix :: "re \<Rightarrow> string \<times> bool" where
  "literal_prefix (Lit p) = (p, True)"
| "literal_prefix (Cls P) = ([], False)"
| "literal_prefix (Seq a b) =
     (case literal_prefix a of (p, True) \<Rightarrow> (let (q, c) = literal_prefix b in (p @ q, c)) | (p, False) \<Rightarrow> (p, False))"
| "literal_prefix (Rep a lo hi) =
     (if lo = 0 then ([], hi = 0)
      else case literal_prefix a of
        (p, True) \<Rightarrow> (concat (replicate lo p), lo = hi) | (p, False) \<Rightarrow> (p, False))"
| "literal_prefix (Grp name a) = literal_prefix a"

section \<open>Words and lines\<close>

definition word_ok :: "string \<Rightarrow> bool" where
  "word_ok w \<longleftrightarrow> list_all (\<lambda>c. \<not> is_space c) w"

lemma space_blank: "is_space (CHR '' '')" by code_simp

lemma fields_word:
  assumes "word_ok w" and "w \<noteq> []" and "s = [] \<or> (\<exists>t. s = CHR '' '' # t)"
  shows "Fields (w @ s) = w # Fields s"
proof -
  obtain c cs where w: "w = c # cs" using assms(2) by (cases w) auto
  have all: "\<forall>x\<in>set w. \<not> is_space x" using assms(1) by (simp add: word_ok_def list_all_iff)
  have t: "takeWhile (\<lambda>c. \<not> is_space c) (w @ s) = w" "dropWhile (\<lambda>c. \<not> is_space c) (w @ s) = s"
    using assms(3) all space_blank by (auto simp: takeWhile_append dropWhile_append)
  have "\<not> is_space c" using all w by simp
  then show ?thesis using t by (simp add: w)
qed

lemma fields_blank: "Fields (CHR '' '' # s) = Fields s"
  by (simp add: space_blank)

lemma fields_join:
  assumes "\<forall>w\<in>set ws. word_ok w \<and> w \<noteq> []"
  shows "Fields (join '' '' ws) = ws"
  using assms
proof (induction ws rule: induct_list012)
  case (3 x y xs)
  then show ?case using fields_word [of x "CHR '' '' # join '' '' (y # xs)"] by (simp add: space_blank)
next
  case (2 x)
  then show ?case using fields_word [of x "[]"] by simp
qed simp

lemma digits_append: "digits n (xs @ ys) = Option.bind (digits n xs) (\<lambda>m. digits m ys)"
  by (induction xs arbitrary: n) auto

lemma digits_nat_str: "digits 0 (nat_str n) = Some n"
proof (induction n rule: less_induct)
  case (less n)
  have d: "is_digit (char_of (48 + k))" "of_char (char_of (48 + k)) - 48 = k" if "k < 10" for k :: nat
    using that by (simp_all add: is_digit_def)
  show ?case
  proof (cases "n < 10")
    case True
    then show ?thesis using d [of n] by (subst nat_str.simps) simp
  next
    case False
    then have "digits 0 (nat_str (n div 10)) = Some (n div 10)" by (intro less) simp
    then show ?thesis using False d [of "n mod 10"]
      by (subst nat_str.simps) (simp add: digits_append)
  qed
qed

lemma nat_str_head: "\<exists>c cs. nat_str n = c # cs \<and> is_digit c"
proof -
  obtain c cs where c: "nat_str n = c # cs" using nat_str_not_Nil by (cases "nat_str n") auto
  with digits_nat_str [of n] show ?thesis by (auto split: if_splits)
qed

lemma ParseInt_int_str:
  assumes "- (2 ^ 63) \<le> i" and "i < 2 ^ 63"
  shows "ParseInt (int_str i) = Some i"
proof (cases "i < 0")
  case True
  then show ?thesis using assms nat_str_not_Nil by (simp add: ParseInt_def int_str_def digits_nat_str)
next
  case False
  obtain c cs where c: "nat_str (nat i) = c # cs" "is_digit c" using nat_str_head by blast
  have "c \<noteq> CHR ''-''" "c \<noteq> CHR ''+''" using c(2) by (auto simp: is_digit_def)
  then show ?thesis using assms False c(1) digits_nat_str [of "nat i"] by (simp add: ParseInt_def int_str_def)
qed

lemma word_ok_nat_str: "word_ok (nat_str n)"
proof (induction n rule: less_induct)
  case (less n)
  have d: "\<not> is_space (char_of (48 + k))" if "k < 10" for k :: nat
    using that by (simp add: is_space_def Let_def)
  show ?case
  proof (cases "n < 10")
    case True
    then show ?thesis using d [of n] by (subst nat_str.simps) (simp add: word_ok_def)
  next
    case False
    then show ?thesis using less [of "n div 10"] d [of "n mod 10"] by (subst nat_str.simps) (simp add: word_ok_def)
  qed
qed

lemma word_ok_int_str: "word_ok (int_str i)"
  using word_ok_nat_str by (simp add: int_str_def word_ok_def is_space_def)

lemma split_on_line: "c \<notin> set l \<Longrightarrow> split_on c (l @ c # s) = l # split_on c s"
  by (induction l) auto

lemma split_on_lines:
  assumes "\<forall>l\<in>set ls. c \<notin> set l"
  shows "split_on c (concat (map (\<lambda>l. l @ [c]) ls)) = ls @ [[]]"
  using assms by (induction ls) (auto simp: split_on_line)

lemma dropWhile_hd: "s \<noteq> [] \<Longrightarrow> \<not> P (hd s) \<Longrightarrow> dropWhile P s = s"
  by (cases s) auto

lemma trim_space_id: "s \<noteq> [] \<Longrightarrow> \<not> is_space (hd s) \<Longrightarrow> \<not> is_space (last s) \<Longrightarrow> trim_space s = s"
  by (simp add: trim_space_def dropWhile_hd hd_rev)

lemma join_ends:
  assumes "ws \<noteq> []" and "\<forall>w\<in>set ws. w \<noteq> []"
  shows "join sep ws \<noteq> []" and "hd (join sep ws) = hd (hd ws)" and "last (join sep ws) = last (last ws)"
  using assms by (induction ws rule: induct_list012) auto

lemma join_chars: "c \<in> set (join sep ws) \<Longrightarrow> c \<in> set sep \<or> (\<exists>w\<in>set ws. c \<in> set w)"
  by (induction ws rule: induct_list012) auto

end
