(* ===== verification/Recovery_Actuator.thy ===== *)
theory Recovery_Actuator
  imports Recovery_Attempt Adb_Wire Go_Text
begin

text \<open>
  \<^verbatim>\<open>internal/recovery/adbactuator.go\<close>: the actuator that performs the rungs a host's ADB server or its
  agent can reach. What the server, the agent and the clocks answer is the argument \<open>act_io\<close>; every
  verdict, every sentence and the polling loop that confirms a rung are the code's.
\<close>

section \<open>What the actuator meets\<close>

text \<open>An error of the wire: its text and its class.\<close>

record act_error =
  ae_text :: string
  ae_wire :: wire_error

definition IsTransport :: "act_error \<Rightarrow> bool" where
  "IsTransport e \<longleftrightarrow> (case ae_wire e of TransportError _ _ _ \<Rightarrow> True | _ \<Rightarrow> False)"

definition IsNotFound :: "act_error \<Rightarrow> bool" where
  "IsNotFound e \<longleftrightarrow> (case ae_wire e of NotFoundError _ \<Rightarrow> True | _ \<Rightarrow> False)"

text \<open>A host agent: \<open>hr_domain\<close> is there when it also implements \<^verbatim>\<open>DomainPowerRunner\<close>.\<close>

record host_runner =
  hr_USBReset :: "string \<Rightarrow> string \<Rightarrow> host_error option"
  hr_PortPower :: "string \<Rightarrow> string \<Rightarrow> host_error option"
  hr_domain :: "(string \<Rightarrow> string \<Rightarrow> string list \<Rightarrow> host_error option) option"

record actuator =
  aa_HostRunner :: "host_runner option"
  aa_SettleInterval :: duration
  aa_ControlConfirm :: duration

text \<open>The points at which \<^verbatim>\<open>rung.aborted\<close> is asked: the loop may end between any two of them.\<close>

datatype abort_point = AtVerb string | AtHost | AtConfirm | AtConfirmWire

text \<open>
  The answers one action gets: to each verb, to the two phases of a reboot, to the kill, and to each
  state read in turn with whether the window had closed by then. The list ends when the context
  does. \<open>ao_remaining\<close> is what is left of the action's budget when the confirmation starts.
\<close>

record act_io =
  ao_control :: "string \<Rightarrow> act_error + string"
  ao_transport :: "act_error option"
  ao_service :: "act_error option"
  ao_kill :: "act_error option"
  ao_aborted :: "abort_point \<Rightarrow> bool"
  ao_remaining :: duration
  ao_reads :: "((act_error + conn_state) \<times> bool) list"

definition DefaultSettleInterval :: duration where "DefaultSettleInterval = Second"
definition DefaultControlConfirm :: duration where "DefaultControlConfirm = 5 * Second"

definition settleInterval :: "actuator \<Rightarrow> duration" where
  "settleInterval a = (if aa_SettleInterval a > 0 then aa_SettleInterval a else DefaultSettleInterval)"

definition controlConfirm :: "actuator \<Rightarrow> duration" where
  "controlConfirm a = (if aa_ControlConfirm a > 0 then aa_ControlConfirm a else DefaultControlConfirm)"

section \<open>Answers\<close>

definition answer :: "action \<Rightarrow> string \<Rightarrow> string \<Rightarrow> jobject \<Rightarrow> result" where
  "answer act d reason detail =
     (let d1 = jset DetailDisposition (JStr d) detail;
          d2 = (if reason \<noteq> [] then jset DetailRefusal (JStr reason) d1 else d1)
      in \<lparr>re_Outcome = disposition_Outcome d,
          re_Detail = jset ''rung'' (JStr (ac_TierName act)) (jset ''tier'' (JInt (ac_Tier act)) d2)\<rparr>)"

definition rung_name :: "action \<Rightarrow> string" where
  "rung_name act = ''tier '' @ int_str (ac_Tier act) @ '' ('' @ ac_TierName act @ '')''"

definition deviceStateRefusal :: "string \<Rightarrow> bool" where
  "deviceStateRefusal reason =
     (let low = map lower_char reason in
      contains ''offline'' low \<or> contains ''unauthorized'' low \<or> contains ''permissions'' low)"

definition classifyWire :: "bool \<Rightarrow> action \<Rightarrow> string \<Rightarrow> act_error \<Rightarrow> string \<times> string" where
  "classifyWire aborted act op e =
     (case ae_wire e of
        TransportError kind wop cause \<Rightarrow>
          (DispositionUnreachable,
           rung_name act @ '' could not reach the adb server for host '' @ ac_HostID act @ '' at '' @ ac_ADBEndpoint act @
           '': '' @ kind @ '' during '' @ go_quote wop @ '' ('' @ cause @
           ''); no rung on this host will help until that server answers again'')
      | AmbiguousTargetError reason \<Rightarrow>
          (DispositionRefused,
           rung_name act @ '' was not performed: devpath '' @ ac_Devpath act @ '' matches more than one transport on host '' @
           ac_HostID act @ '', so the adb server''  @ [CHR 0x27] @ ''s view of the usb topology is wrong and this rung '' @
           ''could land on a device that is working ('' @ reason @ '')'')
      | UsageError text \<Rightarrow>
          (DispositionRefused,
           rung_name act @ '' was not attempted: '' @ text @ ''; nothing addressed by a devpath this malformed is safe to send'')
      | NotFoundError _ \<Rightarrow> (DispositionFailed, [])
      | ProtocolError reason \<Rightarrow>
          if deviceStateRefusal reason then (DispositionFailed, [])
          else (DispositionRefused,
                rung_name act @ '' was refused by the adb server on host '' @ ac_HostID act @ '' for '' @ go_quote op @ '': '' @
                reason @ '' (a server build that does not implement the verb refuses it exactly like this)'')
      | CanceledError \<Rightarrow>
          if aborted then (DispositionAborted, [])
          else (DispositionUnreachable,
                rung_name act @ '' ran out of its action budget waiting for the adb server for host '' @ ac_HostID act @
                '' at '' @ ac_ADBEndpoint act @ '' to answer '' @ go_quote op)
      | OtherError _ \<Rightarrow> (DispositionFailed, []))"

text \<open>\<^verbatim>\<open>endpointClient\<close>: nothing when there is an endpoint, otherwise the refusal.\<close>

definition endpointClient :: "action \<Rightarrow> result option" where
  "endpointClient act =
     (if ac_ADBEndpoint act \<noteq> [] then None
      else Some (answer act DispositionRefused
        (rung_name act @ '' needs an adb server for host '' @ ac_HostID act @ '' and there is none: no adb_endpoint recorded in farm.hosts'')
        [(''error'', JStr ''no adb_endpoint recorded in farm.hosts'')]))"

section \<open>Confirmation\<close>

record act_observation =
  ob_state :: conn_state
  ob_usable :: bool
  ob_reads :: int
  ob_probes :: int
  ob_wire :: "act_error option"

definition no_observation :: act_observation where
  "no_observation = \<lparr>ob_state = StateUnknown, ob_usable = False, ob_reads = 0, ob_probes = 0, ob_wire = None\<rparr>"

text \<open>The polling loop of \<^verbatim>\<open>settle\<close>, one list element per tick.\<close>

fun settle_loop :: "bool \<Rightarrow> ((act_error + conn_state) \<times> bool) list \<Rightarrow> act_observation \<Rightarrow> act_observation" where
  "settle_loop tolerateServerDown [] obs = obs"
| "settle_loop tolerateServerDown ((answered, shut) # rest) obs =
     (let obs1 = obs\<lparr>ob_probes := ob_probes obs + 1\<rparr> in
      case answered of
        Inr st \<Rightarrow>
          (let obs2 = obs1\<lparr>ob_state := st, ob_wire := None, ob_reads := ob_reads obs1 + 1\<rparr> in
           if st = StateDevice then obs2\<lparr>ob_usable := True\<rparr> else settle_loop tolerateServerDown rest obs2)
      | Inl e \<Rightarrow>
          if shut then obs1
          else if IsNotFound e
          then settle_loop tolerateServerDown rest
                 (obs1\<lparr>ob_state := StateAbsent, ob_wire := None, ob_reads := ob_reads obs1 + 1\<rparr>)
          else if IsTransport e
          then (if \<not> tolerateServerDown then obs1\<lparr>ob_wire := Some e\<rparr>
                else settle_loop tolerateServerDown rest (obs1\<lparr>ob_wire := Some e\<rparr>))
          else settle_loop tolerateServerDown rest (obs1\<lparr>ob_wire := Some e\<rparr>))"

text \<open>Go's division of durations truncates towards zero.\<close>

definition go_half :: "duration \<Rightarrow> duration" where
  "go_half d = (if d < 0 then - ((- d) div 2) else d div 2)"

definition settle :: "actuator \<Rightarrow> act_io \<Rightarrow> duration \<Rightarrow> bool \<Rightarrow> act_observation" where
  "settle a io window tolerateServerDown =
     (let budget = (if window > 0 then min (ao_remaining io) window else ao_remaining io);
          interval = (if budget < 2 * settleInterval a then go_half budget else settleInterval a)
      in if interval \<le> 0 then no_observation
         else settle_loop tolerateServerDown (ao_reads io) no_observation)"

definition confirm ::
  "actuator \<Rightarrow> act_io \<Rightarrow> duration \<Rightarrow> action \<Rightarrow> duration \<Rightarrow> bool \<Rightarrow> jobject \<Rightarrow> result" where
  "confirm a io budget act window tolerateServerDown detail =
     (let obs = settle a io window tolerateServerDown;
          d1 = (if conn_text (ob_state obs) \<noteq> [] then jset DetailConfirmedState (JStr (conn_text (ob_state obs))) detail else detail);
          d2 = jset ''state_probes'' (JInt (ob_probes obs)) (jset ''state_reads'' (JInt (ob_reads obs)) d1);
          d3 = (case ob_wire obs of None \<Rightarrow> d2 | Some e \<Rightarrow> jset ''error'' (JStr (ae_text e)) d2);
          wire = (case ob_wire obs of
                    None \<Rightarrow> None | Some e \<Rightarrow> if IsTransport e \<or> ob_reads obs = 0 then Some e else None)
      in if ob_usable obs then answer act DispositionRecovered [] d3
         else if ao_aborted io AtConfirm then answer act DispositionAborted [] d3
         else case wire of
           Some e \<Rightarrow> (let (d, reason) = classifyWire (ao_aborted io AtConfirmWire) act ''get-state'' e in answer act d reason d3)
         | None \<Rightarrow>
             if ob_probes obs = 0 then
               answer act DispositionUnreachable
                 (rung_name act @ '' ran on host '' @ ac_HostID act @ '' but its '' @ duration_str budget @
                  '' action budget was gone before a single state read could be attempted, so whether the device came back is unknown'') d3
             else if ob_reads obs = 0 then
               answer act DispositionUnreachable
                 (rung_name act @ '' ran on host '' @ ac_HostID act @ '' but the adb server at '' @ ac_ADBEndpoint act @
                  '' never answered a state read for '' @ ac_Devpath act @ '' ('' @ int_str (ob_probes obs) @
                  '' attempted), so whether the device came back is unknown'') d3
             else answer act DispositionNoChange [] d3)"

section \<open>The ADB rungs\<close>

definition control :: "actuator \<Rightarrow> act_io \<Rightarrow> duration \<Rightarrow> action \<Rightarrow> string \<Rightarrow> bool \<Rightarrow> result" where
  "control a io budget act cmd conf =
     (case endpointClient act of
        Some res \<Rightarrow> res
      | None \<Rightarrow>
          (case ao_control io cmd of
             Inl e \<Rightarrow>
               (let (d, reason) = classifyWire (ao_aborted io (AtVerb cmd)) act cmd e
                in answer act d reason [(''cmd'', JStr cmd), (''error'', JStr (ae_text e))])
           | Inr reply \<Rightarrow>
               (let detail = [(''cmd'', JStr cmd), (''reply'', JStr reply)] in
                if \<not> conf then answer act DispositionNoChange [] detail
                else confirm a io budget act (controlConfirm a) False detail)))"

definition attachAfterDetach :: "actuator \<Rightarrow> act_io \<Rightarrow> duration \<Rightarrow> action \<Rightarrow> result" where
  "attachAfterDetach a io budget act =
     (let res = control a io budget act ''attach'' True in
      if DispositionOf res = DispositionRecovered then res
      else
        (let d1 = jset ''detached'' (JBool True) (re_Detail res); reason = RefusalOf (res\<lparr>re_Detail := d1\<rparr>)
         in res\<lparr>re_Detail :=
              (if reason \<noteq> []
               then jset DetailRefusal (JStr (reason @ ''; the detach before it did land, so '' @ ac_Devpath act @ '' on host '' @
                      ac_HostID act @ '' is left detached until a later attach re-claims it'')) d1
               else d1)\<rparr>))"

definition DeviceRebootService :: string where "DeviceRebootService = ''reboot:''"

definition reboot :: "actuator \<Rightarrow> act_io \<Rightarrow> duration \<Rightarrow> action \<Rightarrow> result" where
  "reboot a io budget act =
     (case endpointClient act of
        Some res \<Rightarrow> res
      | None \<Rightarrow>
          (case ao_transport io of
             Some e \<Rightarrow>
               (let (d, reason) = classifyWire (ao_aborted io (AtVerb ''transport'')) act ''reboot: via host:transport:'' e
                in answer act d reason [(''phase'', JStr ''transport''), (''error'', JStr (ae_text e))])
           | None \<Rightarrow>
               (case ao_service io of
                  Some e \<Rightarrow>
                    if \<not> IsTransport e
                    then (let (d, reason) = classifyWire (ao_aborted io (AtVerb ''service'')) act DeviceRebootService e
                          in answer act d reason [(''phase'', JStr ''service''), (''error'', JStr (ae_text e))])
                    else confirm a io budget act 0 False [(''rebooted'', JBool True)]
                | None \<Rightarrow> confirm a io budget act 0 False [(''rebooted'', JBool True)])))"

definition restartServer :: "actuator \<Rightarrow> act_io \<Rightarrow> duration \<Rightarrow> action \<Rightarrow> result" where
  "restartServer a io budget act =
     (case endpointClient act of
        Some res \<Rightarrow> res
      | None \<Rightarrow>
          (case ao_kill io of
             Some e \<Rightarrow>
               (let (d, reason) = classifyWire (ao_aborted io (AtVerb ''kill'')) act ''host:kill'' e
                in answer act d reason [(''error'', JStr (ae_text e))])
           | None \<Rightarrow> confirm a io budget act 0 True [(''adb_server_restarted'', JBool True)]))"

section \<open>The host-local rungs\<close>

definition classifyHostFault :: "bool \<Rightarrow> action \<Rightarrow> string \<Rightarrow> host_error \<Rightarrow> string \<times> string \<times> string" where
  "classifyHostFault aborted act what e =
     (let f = ClassifyHostFault e aborted
      in (hf_Disposition f, Reason f (ac_Tier act) (ac_TierName act) what (ac_HostID act), hf_RefusalKind f))"

definition hostLocal ::
  "actuator \<Rightarrow> act_io \<Rightarrow> duration \<Rightarrow> action \<Rightarrow> string \<Rightarrow> jobject \<Rightarrow> (host_runner \<Rightarrow> host_error option) \<Rightarrow> result" where
  "hostLocal a io budget act what extra run =
     (case aa_HostRunner a of
        None \<Rightarrow>
          answer act DispositionRefused
            (rung_name act @ '' needs '' @ what @ '' on host '' @ ac_HostID act @
             '', which only a farmd-node agent can do; no host agent is configured for this farm'')
            (jmerge extra [(''what'', JStr what)])
      | Some runner \<Rightarrow>
          (case run runner of
             Some e \<Rightarrow>
               (let (d, reason, kind) = classifyHostFault (ao_aborted io AtHost) act what e;
                    kv = [(''what'', JStr what), (''error'', JStr (he_text e))]
                in answer act d reason (jmerge extra (if kind \<noteq> [] then kv @ [(DetailRefusalKind, JStr kind)] else kv)))
           | None \<Rightarrow>
               (case endpointClient act of
                  Some res \<Rightarrow>
                    (let d1 = jset ''rung_ran'' (JBool True) (jset ''what'' (JStr what) (jmerge extra (re_Detail res)))
                     in res\<lparr>re_Detail := jset DetailRefusal
                          (JStr (RefusalOf (res\<lparr>re_Detail := d1\<rparr>) @ ''; the farmd-node agent on host '' @ ac_HostID act @ '' did perform '' @ what @
                             '' first, so the device was touched and whether it came back cannot be established from here'')) d1\<rparr>)
                | None \<Rightarrow> confirm a io budget act 0 False (jmerge extra [(''what'', JStr what)]))))"

definition portPower :: "actuator \<Rightarrow> act_io \<Rightarrow> duration \<Rightarrow> action \<Rightarrow> result" where
  "portPower a io budget act =
     (let ack = ac_Acknowledged act;
          plain = (\<lambda>hr. hr_PortPower hr (ac_HostID act) (ac_Devpath act));
          run = (\<lambda>hr. if ack = [] then plain hr
                      else case hr_domain hr of None \<Rightarrow> plain hr | Some f \<Rightarrow> f (ac_HostID act) (ac_Devpath act) ack);
          undelivered = (case aa_HostRunner a of None \<Rightarrow> False | Some hr \<Rightarrow> Option.is_none (hr_domain hr));
          extra = (if ack = [] then []
                   else [(''acknowledged'', JStrs ack)] @
                     (if undelivered
                      then [(''acknowledgement_undeliverable'', JStr (''the control plane cleared '' @ nat_str (length ack) @
                        '' other position(s) in this power domain, but this host runner does not implement '' @
                        ''recovery.DomainPowerRunner, so the agent was asked to cycle the target alone and will refuse if the domain is ganged''))]
                      else []))
      in hostLocal a io budget act ''VBUS power cycle'' extra run)"

section \<open>One rung\<close>

definition positionAddressed :: "int \<Rightarrow> bool" where
  "positionAddressed tier \<longleftrightarrow> tier \<in> {1, 2, 3, 4, 5, 7}"

definition Recover :: "actuator \<Rightarrow> act_io \<Rightarrow> action \<Rightarrow> result" where
  "Recover a io act =
     (let budget = (if ac_Timeout act \<le> 0 then 30 * Second else ac_Timeout act);
          bad = (if positionAddressed (ac_Tier act) then ValidateDevpath (ac_Devpath act) else None)
      in case bad of
        Some e \<Rightarrow>
          (let text = (case e of UsageError t \<Rightarrow> t | _ \<Rightarrow> [])
           in answer act DispositionRefused
                (rung_name act @ '' is addressed by position and farm.slots.adb_devpath for '' @ ac_RackSlot act @ '' on host '' @
                 ac_HostID act @ '' is '' @ go_quote (ac_Devpath act) @ '', which cannot be addressed: '' @ text)
                [(''error'', JStr text)])
      | None \<Rightarrow>
          if ac_Tier act = 1 then control a io budget act ''reconnect'' True
          else if ac_Tier act = 2 then
            (let res = control a io budget act ''detach'' False
             in if DispositionOf res \<noteq> DispositionNoChange then res else attachAfterDetach a io budget act)
          else if ac_Tier act = 3 then
            hostLocal a io budget act ''USBDEVFS_RESET'' [] (\<lambda>hr. hr_USBReset hr (ac_HostID act) (ac_Devpath act))
          else if ac_Tier act = 4 then portPower a io budget act
          else if ac_Tier act = 5 then reboot a io budget act
          else if ac_Tier act = 7 then restartServer a io budget act
          else answer act DispositionRefused
                 (rung_name act @ '' is not an actuator rung; it is either a database action performed by the ladder or a tier this build does not know'') [])"

end
