(* ===== verification/Recovery_Verdicts.thy ===== *)
theory Recovery_Verdicts
  imports Recovery_Actuator
begin

text \<open>
  What an answer of the actuator is worth: every result carries its disposition, a refusal always has
  its sentence, and each disposition rests on something that was read or said during the rung.
\<close>

section \<open>Evidence\<close>

text \<open>An error the device itself is to blame for, as far as the wire can tell.\<close>

definition blames :: "act_error \<Rightarrow> bool" where
  "blames e \<longleftrightarrow> (case ae_wire e of
      NotFoundError _ \<Rightarrow> True | ProtocolError reason \<Rightarrow> deviceStateRefusal reason | OtherError _ \<Rightarrow> True | _ \<Rightarrow> False)"

text \<open>A state read that is an answer about the device: a state, or nothing plugged in there.\<close>

definition read_back :: "act_error + conn_state \<Rightarrow> bool" where
  "read_back x = (case x of Inr _ \<Rightarrow> True | Inl e \<Rightarrow> IsNotFound e)"

definition wire_errors :: "act_io \<Rightarrow> act_error set" where
  "wire_errors io = {e. (\<exists>cmd. ao_control io cmd = Inl e) \<or> Some e \<in> {ao_transport io, ao_service io, ao_kill io} \<or>
     (\<exists>shut. (Inl e, shut) \<in> set (ao_reads io))}"

definition agent_errors :: "actuator \<Rightarrow> action \<Rightarrow> host_error set" where
  "agent_errors a act = {e. \<exists>hr. aa_HostRunner a = Some hr \<and>
     (hr_USBReset hr (ac_HostID act) (ac_Devpath act) = Some e \<or> hr_PortPower hr (ac_HostID act) (ac_Devpath act) = Some e \<or>
      (\<exists>f. hr_domain hr = Some f \<and> f (ac_HostID act) (ac_Devpath act) (ac_Acknowledged act) = Some e))}"

definition verdict_ok :: "actuator \<Rightarrow> act_io \<Rightarrow> action \<Rightarrow> result \<Rightarrow> bool" where
  "verdict_ok a io act r \<longleftrightarrow>
     re_Outcome r = disposition_Outcome (DispositionOf r) \<and>
     (RefusalOf r \<noteq> [] \<longleftrightarrow> re_Outcome r = OutcomeRefused) \<and>
     (DispositionOf r = DispositionRecovered \<longrightarrow>
        ac_ADBEndpoint act \<noteq> [] \<and> (\<exists>shut. (Inr StateDevice, shut) \<in> set (ao_reads io))) \<and>
     (DispositionOf r = DispositionNoChange \<longrightarrow> (\<exists>x\<in>set (ao_reads io). read_back (fst x))) \<and>
     (DispositionOf r = DispositionFailed \<longrightarrow> (\<exists>e\<in>wire_errors io. blames e) \<or>
        (\<exists>e\<in>agent_errors a act. hf_Disposition (ClassifyHostFault e (ao_aborted io AtHost)) = DispositionFailed))"

section \<open>Answers\<close>

lemma DispositionOf_answer [simp]: "d \<noteq> [] \<Longrightarrow> DispositionOf (answer act d reason detail) = d"
  by (simp add: DispositionOf_def answer_def Let_def)

lemma Outcome_answer [simp]: "re_Outcome (answer act d reason detail) = disposition_Outcome d"
  by (simp add: answer_def Let_def)

lemma RefusalOf_answer [simp]:
  "RefusalOf (answer act d reason detail) = (if reason \<noteq> [] then reason else detail_str detail DetailRefusal)"
  by (simp add: RefusalOf_def answer_def Let_def)

lemma detail_str_Nil [simp]: "detail_str [] k = []"
  by (simp add: detail_str_def jget_def)

lemma detail_str_Cons [simp]:
  "detail_str ((k, v) # d) j = (if j = k then (case v of JStr s \<Rightarrow> s | _ \<Rightarrow> []) else detail_str d j)"
  by (simp add: detail_str_def jget_def split: jval.split)

lemma rung_name_not_Nil [simp]: "rung_name act \<noteq> []"
  by (simp add: rung_name_def)

text \<open>An answer that is neither a recovery nor evidence needs only its sentence.\<close>

lemma verdict_ok_refused:
  assumes "d \<in> {DispositionRefused, DispositionUnreachable}" and "reason \<noteq> []"
  shows "verdict_ok a io act (answer act d reason detail)"
  using assms by (auto simp: verdict_ok_def disposition_Outcome_def)

lemma verdict_ok_aborted:
  assumes "detail_str detail DetailRefusal = []"
  shows "verdict_ok a io act (answer act DispositionAborted [] detail)"
  using assms by (simp add: verdict_ok_def disposition_Outcome_def)

lemma classifyWire_cases:
  assumes "classifyWire aborted act op e = (d, reason)"
  obtains (sentence) "d \<in> {DispositionRefused, DispositionUnreachable}" "reason \<noteq> []"
  | (silent) "d = DispositionAborted" "reason = []"
  | (device) "d = DispositionFailed" "reason = []" "blames e"
  using assms unfolding classifyWire_def blames_def by (cases "ae_wire e") (auto split: if_splits)

lemma verdict_ok_wire:
  assumes "classifyWire aborted act op e = (d, reason)" and "e \<in> wire_errors io" and "detail_str detail DetailRefusal = []"
  shows "verdict_ok a io act (answer act d reason detail)"
  using assms(1)
proof (cases rule: classifyWire_cases)
  case sentence
  then show ?thesis by (rule verdict_ok_refused)
next
  case silent
  then show ?thesis using assms(3) verdict_ok_aborted by simp
next
  case device
  then show ?thesis using assms(2,3) by (auto simp: verdict_ok_def disposition_Outcome_def)
qed

lemma verdict_ok_endpoint: "endpointClient act = Some res \<Longrightarrow> verdict_ok a io act res"
  unfolding endpointClient_def by (auto split: if_splits intro!: verdict_ok_refused)

lemma endpointClient_None: "endpointClient act = None \<longleftrightarrow> ac_ADBEndpoint act \<noteq> []"
  by (simp add: endpointClient_def)

section \<open>Confirmation\<close>

lemma settle_loop_reads:
  "(ob_usable (settle_loop t xs obs) \<longrightarrow> ob_usable obs \<or> (\<exists>shut. (Inr StateDevice, shut) \<in> set xs)) \<and>
    (ob_reads (settle_loop t xs obs) \<noteq> ob_reads obs \<longrightarrow> (\<exists>x\<in>set xs. read_back (fst x))) \<and>
    (ob_wire (settle_loop t xs obs) = Some e \<longrightarrow> ob_wire obs = Some e \<or> (\<exists>shut. (Inl e, shut) \<in> set xs))"
proof (induction t xs obs rule: settle_loop.induct)
  case (2 t answered shut rest obs)
  show ?case
  proof (cases answered)
    case (Inr st)
    then show ?thesis using 2(4) [OF refl Inr refl] by (auto simp: Let_def read_back_def)
  next
    case (Inl e')
    then show ?thesis
      using 2(1,2,3) [OF refl Inl]
      by (cases shut; cases "IsNotFound e'"; cases "IsTransport e'"; cases t) (auto simp: Let_def read_back_def)
  qed
qed simp

lemma settle_reads:
  assumes "settle a io window t = obs"
  shows "ob_usable obs \<Longrightarrow> \<exists>shut. (Inr StateDevice, shut) \<in> set (ao_reads io)"
    and "ob_reads obs \<noteq> 0 \<Longrightarrow> \<exists>x\<in>set (ao_reads io). read_back (fst x)"
    and "ob_wire obs = Some e \<Longrightarrow> e \<in> wire_errors io"
proof -
  have "obs = no_observation \<or> obs = settle_loop t (ao_reads io) no_observation"
    using assms by (auto simp: settle_def Let_def split: if_splits)
  moreover note settle_loop_reads [of t "ao_reads io" no_observation]
  ultimately show "ob_usable obs \<Longrightarrow> \<exists>shut. (Inr StateDevice, shut) \<in> set (ao_reads io)"
    and "ob_reads obs \<noteq> 0 \<Longrightarrow> \<exists>x\<in>set (ao_reads io). read_back (fst x)"
    and "ob_wire obs = Some e \<Longrightarrow> e \<in> wire_errors io"
    by (auto simp: no_observation_def wire_errors_def)
qed

lemma verdict_ok_confirm:
  assumes "ac_ADBEndpoint act \<noteq> []" and "detail_str detail DetailRefusal = []"
  shows "verdict_ok a io act (confirm a io budget act window t detail)"
proof -
  define obs where "obs = settle a io window t"
  note seen = settle_reads [OF obs_def [symmetric]]
  define d1 where "d1 = (if conn_text (ob_state obs) \<noteq> [] then jset DetailConfirmedState (JStr (conn_text (ob_state obs))) detail else detail)"
  define d2 where "d2 = jset ''state_probes'' (JInt (ob_probes obs)) (jset ''state_reads'' (JInt (ob_reads obs)) d1)"
  define d3 where "d3 = (case ob_wire obs of None \<Rightarrow> d2 | Some e \<Rightarrow> jset ''error'' (JStr (ae_text e)) d2)"
  have plain: "detail_str d3 DetailRefusal = []"
    using assms(2) by (simp add: d3_def d2_def d1_def split: option.split)
  note fold_confirm = confirm_def [of a io budget act window t detail, folded obs_def, unfolded Let_def, folded d1_def, folded d2_def, folded d3_def]
  consider (usable) "ob_usable obs" | (aborted) "\<not> ob_usable obs" "ao_aborted io AtConfirm"
    | (wire) e where "\<not> ob_usable obs" "\<not> ao_aborted io AtConfirm" "ob_wire obs = Some e" "IsTransport e \<or> ob_reads obs = 0"
    | (none) "\<not> ob_usable obs" "\<not> ao_aborted io AtConfirm" "\<forall>e. ob_wire obs = Some e \<longrightarrow> \<not> IsTransport e \<and> ob_reads obs \<noteq> 0"
    by blast
  then show ?thesis
  proof cases
    case usable
    then show ?thesis using seen(1) assms(1) plain by (simp add: fold_confirm verdict_ok_def disposition_Outcome_def)
  next
    case aborted
    then show ?thesis using verdict_ok_aborted [OF plain] by (simp add: fold_confirm)
  next
    case wire
    obtain d reason where c: "classifyWire (ao_aborted io AtConfirmWire) act ''get-state'' e = (d, reason)" by fastforce
    from verdict_ok_wire [OF c seen(3) [OF wire(3)] plain] show ?thesis using wire c by (simp add: fold_confirm)
  next
    case none
    then have w: "(case ob_wire obs of None \<Rightarrow> None | Some e \<Rightarrow> if IsTransport e \<or> ob_reads obs = 0 then Some e else None) = None"
      by (auto split: option.split)
    show ?thesis
    proof (cases "ob_probes obs = 0 \<or> ob_reads obs = 0")
      case True
      then show ?thesis using none by (auto simp: fold_confirm w intro!: verdict_ok_refused)
    next
      case False
      then show ?thesis using none seen(2) plain by (simp add: fold_confirm w verdict_ok_def disposition_Outcome_def)
    qed
  qed
qed

section \<open>The rungs\<close>

lemma verdict_ok_control: "verdict_ok a io act (control a io budget act cmd True)"
proof (cases "endpointClient act")
  case None
  show ?thesis
  proof (cases "ao_control io cmd")
    case (Inl e)
    obtain d reason where c: "classifyWire (ao_aborted io (AtVerb cmd)) act cmd e = (d, reason)" by fastforce
    have "e \<in> wire_errors io" using Inl by (auto simp: wire_errors_def)
    from verdict_ok_wire [OF c this] show ?thesis using None Inl c by (simp add: control_def)
  next
    case (Inr reply)
    moreover have "ac_ADBEndpoint act \<noteq> []" using None by (simp add: endpointClient_None)
    ultimately show ?thesis using None by (simp add: control_def verdict_ok_confirm)
  qed
qed (simp add: control_def verdict_ok_endpoint)

lemma verdict_ok_detach:
  assumes "DispositionOf (control a io budget act cmd False) \<noteq> DispositionNoChange"
  shows "verdict_ok a io act (control a io budget act cmd False)"
proof (cases "endpointClient act")
  case None
  show ?thesis
  proof (cases "ao_control io cmd")
    case (Inl e)
    then have "control a io budget act cmd False = control a io budget act cmd True" using None by (simp add: control_def)
    then show ?thesis using verdict_ok_control by simp
  next
    case (Inr reply)
    then show ?thesis using None assms by (simp add: control_def)
  qed
qed (simp add: control_def verdict_ok_endpoint)

text \<open>Notes written under other keys, and a longer sentence, leave a verdict as good as it was.\<close>

lemma DispositionOf_note [simp]:
  "k \<noteq> DetailDisposition \<Longrightarrow> DispositionOf (r\<lparr>re_Detail := jset k v (re_Detail r)\<rparr>) = DispositionOf r"
  by (simp add: DispositionOf_def)

lemma RefusalOf_note [simp]:
  "RefusalOf (r\<lparr>re_Detail := jset k v (re_Detail r)\<rparr>) =
     (if k = DetailRefusal then (case v of JStr s \<Rightarrow> s | _ \<Rightarrow> []) else RefusalOf r)"
  by (simp add: RefusalOf_def)

lemma verdict_ok_note:
  assumes "verdict_ok a io act r" and "k \<notin> {DetailDisposition, DetailRefusal}"
  shows "verdict_ok a io act (r\<lparr>re_Detail := jset k v (re_Detail r)\<rparr>)"
  using assms by (simp add: verdict_ok_def)

lemma verdict_ok_sentence:
  assumes "verdict_ok a io act r" and "RefusalOf r \<noteq> []" and "s \<noteq> []"
  shows "verdict_ok a io act (r\<lparr>re_Detail := jset DetailRefusal (JStr s) (re_Detail r)\<rparr>)"
  using assms by (auto simp: verdict_ok_def)

lemma verdict_ok_attach: "verdict_ok a io act (attachAfterDetach a io budget act)"
proof -
  define res where "res = control a io budget act ''attach'' True"
  define noted where "noted = res\<lparr>re_Detail := jset ''detached'' (JBool True) (re_Detail res)\<rparr>"
  have res: "verdict_ok a io act res" unfolding res_def by (rule verdict_ok_control)
  then have noted: "verdict_ok a io act noted" unfolding noted_def by (rule verdict_ok_note) simp
  show ?thesis
    using res noted verdict_ok_sentence [OF noted]
    unfolding attachAfterDetach_def by (auto simp: Let_def res_def [symmetric] noted_def)
qed

lemma verdict_ok_reboot: "verdict_ok a io act (reboot a io budget act)"
proof -
  have wire: "verdict_ok a io act (case classifyWire b act op e of (d, reason) \<Rightarrow>
      answer act d reason [(''phase'', JStr p), (''error'', JStr (ae_text e))])"
    if "Some e \<in> {ao_transport io, ao_service io}" for b op e p
    using that by (cases "classifyWire b act op e") (auto intro!: verdict_ok_wire simp: wire_errors_def)
  show ?thesis
    using wire by (auto simp: reboot_def endpointClient_None verdict_ok_endpoint verdict_ok_confirm split: option.split)
qed

lemma verdict_ok_restart: "verdict_ok a io act (restartServer a io budget act)"
proof -
  have wire: "verdict_ok a io act (case classifyWire b act op e of (d, reason) \<Rightarrow> answer act d reason [(''error'', JStr (ae_text e))])"
    if "ao_kill io = Some e" for b op e
    using that by (cases "classifyWire b act op e") (auto intro!: verdict_ok_wire simp: wire_errors_def)
  show ?thesis
    using wire by (auto simp: restartServer_def endpointClient_None verdict_ok_endpoint verdict_ok_confirm split: option.split)
qed

lemma jget_jmerge: "jget (jmerge a b) k = (case map_of (rev b) k of Some v \<Rightarrow> Some v | None \<Rightarrow> jget a k)"
proof (induction b arbitrary: a)
  case (Cons kv b)
  obtain k' v where kv: "kv = (k', v)" by fastforce
  have "jmerge a (kv # b) = jmerge (jset k' v a) b" by (simp add: jmerge_def kv)
  then show ?case using Cons by (auto simp: kv map_add_def split: option.split)
qed (simp add: jmerge_def)

lemma detail_str_jmerge:
  "detail_str (jmerge a b) k = (case map_of (rev b) k of Some (JStr s) \<Rightarrow> s | Some _ \<Rightarrow> [] | None \<Rightarrow> detail_str a k)"
  by (auto simp: detail_str_def jget_jmerge split: option.splits jval.splits)

text \<open>A host-local rung with nothing in \<open>extra\<close> that would speak for it.\<close>

lemma verdict_ok_hostLocal:
  assumes extra: "detail_str extra DetailRefusal = []"
    and agent: "\<And>hr e. aa_HostRunner a = Some hr \<Longrightarrow> run hr = Some e \<Longrightarrow> e \<in> agent_errors a act"
  shows "verdict_ok a io act (hostLocal a io budget act what extra run)"
proof (cases "aa_HostRunner a")
  case None
  then show ?thesis by (auto simp: hostLocal_def intro!: verdict_ok_refused)
next
  case (Some hr)
  show ?thesis
  proof (cases "run hr")
    case (Some e)
    define f where "f = ClassifyHostFault e (ao_aborted io AtHost)"
    have "\<exists>e\<in>agent_errors a act. ClassifyHostFault e (ao_aborted io AtHost) = f"
      using agent \<open>aa_HostRunner a = Some hr\<close> Some f_def by blast
    moreover have "hf_Disposition f \<in> {DispositionRefused, DispositionUnreachable, DispositionAborted, DispositionFailed}"
      unfolding f_def by (rule ClassifyHostFault_range)
    moreover have "hf_Disposition f \<noteq> []" using calculation(2) by auto
    ultimately show ?thesis
      using \<open>aa_HostRunner a = Some hr\<close> Some extra
      by (fastforce simp: hostLocal_def classifyHostFault_def Let_def f_def [symmetric] verdict_ok_def detail_str_jmerge
          Reason_empty disposition_Outcome_def)
  next
    case None
    show ?thesis
    proof (cases "endpointClient act")
      case None
      then have "ac_ADBEndpoint act \<noteq> []" by (simp add: endpointClient_None)
      then show ?thesis using None \<open>run hr = None\<close> \<open>aa_HostRunner a = Some hr\<close> extra
        by (simp add: hostLocal_def verdict_ok_confirm detail_str_jmerge)
    next
      case (Some res)
      then have "re_Outcome res = OutcomeRefused" "map_of (rev (re_Detail res)) DetailDisposition = Some (JStr DispositionRefused)"
        by (auto simp: endpointClient_def answer_def jset_def disposition_Outcome_def split: if_splits)
      then show ?thesis using Some \<open>run hr = None\<close> \<open>aa_HostRunner a = Some hr\<close>
        by (simp add: hostLocal_def Let_def verdict_ok_def DispositionOf_def RefusalOf_def detail_str_jmerge disposition_Outcome_def)
    qed
  qed
qed

lemma verdict_ok_portPower: "verdict_ok a io act (portPower a io budget act)"
  unfolding portPower_def Let_def
  by (rule verdict_ok_hostLocal) (auto simp: agent_errors_def split: if_splits option.splits)

lemma verdict_ok_Recover: "verdict_ok a io act (Recover a io act)"
proof -
  have "verdict_ok a io act (hostLocal a io b act w [] (\<lambda>hr. hr_USBReset hr (ac_HostID act) (ac_Devpath act)))" for b w
    by (rule verdict_ok_hostLocal) (auto simp: agent_errors_def)
  then show ?thesis
    unfolding Recover_def
    by (auto simp: Let_def verdict_ok_control verdict_ok_detach verdict_ok_attach verdict_ok_portPower verdict_ok_reboot
        verdict_ok_restart verdict_ok_refused split: option.split)
qed

text \<open>A rung that was addressed at all was addressed at a devpath.\<close>

lemma Recover_addressed:
  assumes "DispositionOf (Recover a io act) \<noteq> DispositionRefused"
  shows "isDevpath (ac_Devpath act) \<and> positionAddressed (ac_Tier act)"
  using assms ValidateDevpath_iff [of "ac_Devpath act"]
  by (auto simp: Recover_def Let_def positionAddressed_def split: option.splits if_splits)

end
