(* ===== verification/Recovery_Properties.thy ===== *)
theory Recovery_Properties
  imports Recovery_Correct Recovery_Verdicts Farm_Example
begin

text \<open>
  The properties of the recovery ladder, with the concrete farm their witnesses run on: the example
  farm with its handset offline, and the ladder's seed tiers.
\<close>

section \<open>A broken handset\<close>

definition ex_tier :: "int \<Rightarrow> string \<Rightarrow> string \<Rightarrow> string \<Rightarrow> int \<Rightarrow> int \<Rightarrow> tier_row" where
  "ex_tier n name radius policy cooldown per_hour = \<lparr>t_tier = n, t_name = name, t_blast_radius = radius,
     t_requires_policy = policy, t_cooldown = seconds cooldown, t_max_per_hour = per_hour, t_enabled = True\<rparr>"

definition ex_tiers :: "tier_row list" where
  "ex_tiers = [ex_tier 0 ''observe'' ''device'' ''no_disruption'' 30 60,
     ex_tier 1 ''adb_reconnect'' ''device'' ''no_disruption'' 60 20,
     ex_tier 2 ''transport_reset'' ''device'' ''allow_soft_reset'' 120 10,
     ex_tier 6 ''quarantine'' ''device'' ''no_disruption'' 3600 2]"

definition ex_ladder :: ladder_config where
  "ex_ladder = ladder_applyDefaults \<lparr>lc_Component = [], lc_Interval = 0, lc_Batch = 0, lc_Debounce = 0,
     lc_ActionTimeout = 0, lc_MaxSuppress = 0, lc_StaleAttempt = 0, lc_CallTimeout = 0, lc_HubQuorum = 0,
     lc_MinHubBad = 0, lc_HubWindow = 0, lc_LockClass = 0\<rparr>"

definition ex_attempt_io :: "(action \<Rightarrow> string + result) \<Rightarrow> attempt_io" where
  "ex_attempt_io act = \<lparr>ai_check = Up, ai_refuse = (Up, hours 2), ai_siblings = Up, ai_begin = (Up, hours 2),
     ai_perform = (Up, hours 2), ai_raced = False, ai_actuator = act, ai_errText = [], ai_cancelled = False,
     ai_finish = (Up, hours 2 + seconds 5)\<rparr>"

definition ex_unreachable :: "action \<Rightarrow> string + result" where
  "ex_unreachable a = Inr \<lparr>re_Outcome = OutcomeRefused,
     re_Detail = [(DetailDisposition, JStr DispositionUnreachable), (DetailRefusal, JStr ''no agent'')]\<rparr>"

definition ex_ladder_io :: ladder_io where
  "ex_ladder_io = \<lparr>lo_beat = (Up, hours 2), lo_release = (Up, hours 2), lo_reset = (Up, hours 2), lo_tiers = Up,
     lo_candidates = (Up, hours 2), lo_hubStats = Up, lo_hub = (\<lambda>_. ((Up, hours 2), False)),
     lo_attempt = (\<lambda>_. ex_attempt_io ex_unreachable), lo_cancelled = (\<lambda>_. False)\<rparr>"

text \<open>Offline since the start, on rung \<open>n\<close>, with the example lease live on it.\<close>

definition ex_broken :: "int \<Rightarrow> farm" where
  "ex_broken n = ex_busy\<lparr>runtimes := [ex_runtime\<lparr>r_adb_state := StateOffline, r_health := HOffline, r_ladder_tier := n\<rparr>],
     tiers_tbl := ex_tiers\<rparr>"

definition ex_cand :: "int \<Rightarrow> rcandidate" where
  "ex_cand n = \<lparr>rc_DeviceID = 10, rc_Health = HOffline, rc_LadderTier = n, rc_SlotID = 1, rc_Devpath = ''usb:3-1.4'',
     rc_RackSlot = [], rc_HubID = 7, rc_HubPath = ''3-1'', rc_HostID = ''rack-1'',
     rc_ADBEndpoint = ''10.0.0.1:5037'', rc_PowerDomain = None\<rparr>"

section \<open>Recovery and leases\<close>

text \<open>
C11: recovery never touches a lease. A whole cycle of the ladder, whatever its links, its clock and
the actuator behind it do, leaves the leases, the devices, the jobs, the slots and the fence sequence
as they were, and keeps the lease invariant.
\<close>

theorem recovery_never_touches_a_lease:
  assumes "recovery_cycle io cfg db = (reps, db')" and "lease_wf db"
  shows "leases db' = leases db \<and> devices db' = devices db \<and> jobs db' = jobs db \<and> slots db' = slots db \<and>
    fence_seq db' = fence_seq db \<and> lease_wf db' \<and> farm_step EvOther db db'"
  using ladder_only_cycle [OF assms(1)] ladder_only_registry [OF ladder_only_cycle [OF assms(1)] assms(2)]
    lease_wf_registry [OF assms(2)]
  by (auto simp: ladder_only_def intro: farm_step.other)

theorem recovery_never_touches_a_lease_witness:
  "leases (snd (recovery_cycle ex_ladder_io ex_ladder (ex_broken 1))) = [ex_lease] \<and>
   map snd (fst (recovery_cycle ex_ladder_io ex_ladder (ex_broken 1))) =
     [Performed OutcomeRefused [(DetailRefusal, JStr ''no agent''), (DetailDisposition, JStr DispositionUnreachable)] ObsFailed]"
proof -
  obtain reps db' where r: "recovery_cycle ex_ladder_io ex_ladder (ex_broken 1) = (reps, db')" by fastforce
  have wf: "lease_wf (ex_broken 1)" "leases (ex_broken 1) = [ex_lease]" by code_simp+
  have "map snd (fst (recovery_cycle ex_ladder_io ex_ladder (ex_broken 1))) =
     [Performed OutcomeRefused [(DetailRefusal, JStr ''no agent''), (DetailDisposition, JStr DispositionUnreachable)] ObsFailed]"
    by code_simp
  then show ?thesis using recovery_never_touches_a_lease [OF r wf(1)] r wf(2) by simp
qed

text \<open>
C12: a refusal is not preceded by anything that changes state. If a live lease on a device seated in
the rung's blast radius carries a policy below the one the tier requires, an attempt at that rung
leaves the database as it was but for at most one row that says refused, and the actuator is not
asked: any other actuator gives the same answer and the same database.
\<close>

theorem refusal_precedes_any_change:
  assumes t: "t = next_tier tiers (rc_LadderTier c)"
    and s: "s \<in> set (slots db)" and d: "d \<in> set (devices db)" "d_current_slot d = Some (s_id s)"
    and l: "l \<in> set (leases db)" "d_current_lease d = Some (l_id l)" "is_live l"
    and radius: "in_radius (radius_of c t) c s d"
    and forbids: "\<not> PolicyPermits (l_policy l) (ti_RequiresPolicy t)"
    and res: "attempt io cfg c tiers db = (rep, db')"
  shows "(db' = db \<or> (\<exists>a. a_outcome a = Some OutcomeRefused \<and> a_device a = Some (rc_DeviceID c) \<and>
      db' = db\<lparr>attempts := attempts db @ [a], attempt_seq := attempt_seq db + 1\<rparr>)) \<and>
    (rep = NotActed \<or> (\<exists>msg kind. rep = RefusedByLease msg kind)) \<and>
    attempt (io\<lparr>ai_actuator := act\<rparr>) cfg c tiers db = (rep, db')"
proof -
  let ?P = "\<lambda>l. \<not> policyRank (rl_policy l) \<ge> policyRank (ti_RequiresPolicy t)"
  have "\<exists>rl\<in>set (radius_leases (radius_of c t) c db). ?P rl"
    using s d l radius forbids unfolding radius_leases_def PolicyPermits_def by force
  then obtain rl where rl: "List.find ?P (radius_leases (radius_of c t) c db) = Some rl"
    by (cases "List.find ?P (radius_leases (radius_of c t) c db)") (auto simp: find_None_iff)
  obtain msg kind where chk: "checkBlastRadius Up c t (radius_of c t) db = Inr (Some (msg, kind))"
    using rl by (auto simp: checkBlastRadius_def)
  have no: "checkBlastRadius k c t (radius_of c t) db = Inl ()" if "k \<noteq> Up" for k
    using that by (simp add: checkBlastRadius_def)
  show ?thesis
  proof (cases "ai_check io = Up")
    case False
    then show ?thesis using res no by (auto simp: attempt_def Let_def t [symmetric])
  next
    case True
    then have db': "db' = recordRefusal (fst (ai_refuse io)) (snd (ai_refuse io)) c t msg db" "rep = RefusedByLease msg kind"
      and other: "attempt (io\<lparr>ai_actuator := act\<rparr>) cfg c tiers db = (rep, db')"
      using res chk by (auto simp: attempt_def Let_def t [symmetric])
    show ?thesis using recordRefusal_row [of "fst (ai_refuse io)" "snd (ai_refuse io)" c t msg db] db'(2) other
      unfolding db'(1) by blast
  qed
qed

theorem refusal_precedes_any_change_witness:
  "\<exists>rep db'. attempt (ex_attempt_io ex_unreachable) ex_ladder (ex_cand 2) (map tier_of_row ex_tiers) (ex_broken 2) = (rep, db') \<and>
     map a_outcome (attempts db') = [Some OutcomeRefused] \<and> runtimes db' = runtimes (ex_broken 2)"
proof -
  let ?t = "tier_of_row (ex_tier 2 ''transport_reset'' ''device'' ''allow_soft_reset'' 120 10)"
  define s d l where "s = hd (slots ex_idle)" and "d = hd (devices ex_busy)" and "l = ex_lease"
  obtain rep db' where r: "attempt (ex_attempt_io ex_unreachable) ex_ladder (ex_cand 2) (map tier_of_row ex_tiers) (ex_broken 2)
      = (rep, db')" by fastforce
  have f: "?t = next_tier (map tier_of_row ex_tiers) (rc_LadderTier (ex_cand 2))"
    "s \<in> set (slots (ex_broken 2))" "d \<in> set (devices (ex_broken 2))" "d_current_slot d = Some (s_id s)"
    "l \<in> set (leases (ex_broken 2))" "d_current_lease d = Some (l_id l)" "is_live l"
    "in_radius (radius_of (ex_cand 2) ?t) (ex_cand 2) s d" "\<not> PolicyPermits (l_policy l) (ti_RequiresPolicy ?t)"
    unfolding s_def d_def l_def by code_simp+
  have a: "map a_outcome (attempts (snd (attempt (ex_attempt_io ex_unreachable) ex_ladder (ex_cand 2) (map tier_of_row ex_tiers) (ex_broken 2))))
      = [Some OutcomeRefused]" by code_simp
  from refusal_precedes_any_change [OF f r, of ex_unreachable] have "runtimes db' = runtimes (ex_broken 2)" by auto
  with r a show ?thesis by auto
qed

section \<open>The rungs\<close>

text \<open>
C14: a rung is spent by the verdict, not by the attempt. When an attempt performs its rung and its
closing transaction goes through, the device's ladder_tier is one past the rung exactly when the
disposition is failed or no_change, and back on the rung otherwise; and the attempt's row is closed
with that outcome, a word the table accepts.
\<close>

theorem rung_is_spent_by_the_verdict:
  assumes t: "t = next_tier tiers (rc_LadderTier c)"
    and res: "attempt io cfg c tiers db = (Performed out detail kind, db')"
    and up: "fst (ai_finish io) = Up"
    and row: "runtime_by_device db (rc_DeviceID c) \<noteq> None"
  shows "rung_at db' (rc_DeviceID c) =
      Some (if Escalate (DispositionOf \<lparr>re_Outcome = out, re_Detail = detail\<rparr>) then rungAfter t else ti_Tier t) \<and>
    (rungSpent out detail \<longrightarrow> out \<in> {OutcomeFailed, OutcomeNoChange}) \<and>
    (\<exists>a\<in>set (attempts db'). a_id a = attempt_seq db + 1 \<and> a_tier a = ti_Tier t \<and> a_outcome a = Some out \<and>
       a_finished_at a = Some (snd (ai_finish io)) \<and> out \<in> set attempt_outcomes)"
proof -
  let ?c = "rc_DeviceID c" and ?d = "jset ''rung_spent'' (JBool (rungSpent out detail)) detail"
  define ack where "ack = acknowledged_of (ai_siblings io) c (radius_of c t) db"
  from res obtain i d1 d2 where
      b: "begin_attempt (fst (ai_begin io)) (snd (ai_begin io)) cfg c t (radius_of c t) ack db = (Inr i, d1)"
    and p: "perform io cfg c t ack d1 = (out, detail, d2)"
    and f: "db' = finish Up (snd (ai_finish io)) i c t out detail d2"
    by (auto simp: attempt_def Let_def t [symmetric] ack_def [symmetric] up split: sum.splits option.splits prod.splits)
  have ok: "out \<in> set attempt_outcomes" by (rule perform_outcome [OF p])
  have kept: "rung_at d2 = rung_at d1" "attempts d2 = attempts d1"
    using rungs_kept_perform [of d1 io cfg c t ack] p by (auto simp: rungs_kept_def)
  have r2: "rung_at d2 ?c = Some (rungAfter t)"
    using rung_at_begin [OF b] row kept(1) by (auto simp: rung_at_def)
  from b obtain n dt where i: "i = attempt_seq db + 1"
    and d1: "attempts d1 = attempts db @ [(new_attempt (snd (ai_begin io)) c t dt)\<lparr>a_id := i\<rparr>]"
    by (rule begin_attemptD) auto
  define d3 where "d3 = d2\<lparr>attempts := update_where (\<lambda>a. a_id a = i \<and> a_finished_at a = None)
      (closed_row (snd (ai_finish io)) out ?d) (attempts d2)\<rparr>"
  have db': "db' = (if rungSpent out detail then d3 else hand_back c t d3)"
    unfolding f d3_def using finish_Up [OF ok] by (simp add: Let_def)
  have r3: "rung_at d3 ?c = Some (rungAfter t)" using r2 rung_at_runtimes [of d3 d2] by (simp add: d3_def)
  have "closed_row (snd (ai_finish io)) out ?d ((new_attempt (snd (ai_begin io)) c t dt)\<lparr>a_id := i\<rparr>) \<in> set (attempts d3)"
    unfolding d3_def by (simp add: kept(2) d1 in_update_where new_attempt_def)
  then have "\<exists>a\<in>set (attempts db'). a_id a = attempt_seq db + 1 \<and> a_tier a = ti_Tier t \<and> a_outcome a = Some out \<and>
      a_finished_at a = Some (snd (ai_finish io)) \<and> out \<in> set attempt_outcomes"
    using ok by (intro bexI) (auto simp: closed_row_def new_attempt_def i db' hand_back_def)
  moreover have "rung_at db' ?c = Some (if rungSpent out detail then rungAfter t else ti_Tier t)"
    using db' r3 rung_at_hand_back [OF r3] by simp
  ultimately show ?thesis using rungSpent_outcome [OF p] by (auto simp: rungSpent_def)
qed

theorem rung_is_spent_by_the_verdict_witness:
  "rung_at (snd (attempt (ex_attempt_io ex_unreachable) ex_ladder (ex_cand 1) (map tier_of_row ex_tiers) (ex_broken 1))) 10 = Some 1"
proof -
  let ?t = "tier_of_row (ex_tier 1 ''adb_reconnect'' ''device'' ''no_disruption'' 60 20)"
  let ?d = "[(DetailRefusal, JStr ''no agent''), (DetailDisposition, JStr DispositionUnreachable)]"
  obtain rep db' where r: "attempt (ex_attempt_io ex_unreachable) ex_ladder (ex_cand 1) (map tier_of_row ex_tiers) (ex_broken 1)
      = (rep, db')" by fastforce
  have "fst (attempt (ex_attempt_io ex_unreachable) ex_ladder (ex_cand 1) (map tier_of_row ex_tiers) (ex_broken 1)) =
      Performed OutcomeRefused ?d ObsFailed" by code_simp
  with r have r': "attempt (ex_attempt_io ex_unreachable) ex_ladder (ex_cand 1) (map tier_of_row ex_tiers) (ex_broken 1)
      = (Performed OutcomeRefused ?d ObsFailed, db')" by simp
  have f: "?t = next_tier (map tier_of_row ex_tiers) (rc_LadderTier (ex_cand 1))"
    "fst (ai_finish (ex_attempt_io ex_unreachable)) = Up"
    "runtime_by_device (ex_broken 1) (rc_DeviceID (ex_cand 1)) \<noteq> None" "rc_DeviceID (ex_cand 1) = 10" "ti_Tier ?t = 1"
    "\<not> Escalate (DispositionOf \<lparr>re_Outcome = OutcomeRefused, re_Detail = ?d\<rparr>)"
    by code_simp+
  from rung_is_spent_by_the_verdict [OF f(1) r' f(2,3)] f(4-6) r' show ?thesis by simp
qed



text \<open>
C28: the ladder visits every rung. A device on rung zero whose verdicts all escalate spends every
enabled tier of the table once and in order, the cheapest first, and then repeats the top one.
\<close>

theorem ladder_visits_every_rung:
  assumes "ladder_tiers Up db = Some tiers" and "keyed t_tier (tiers_tbl db)" and "\<forall>t\<in>set (tiers_tbl db). 0 \<le> t_tier t"
  shows "climb tiers 0 (length tiers + n) = tiers @ replicate n (last tiers) \<and>
    set tiers = tier_of_row ` set (filter t_enabled (tiers_tbl db))"
proof -
  let ?rows = "sort_key t_tier (filter t_enabled (tiers_tbl db))"
  have ts: "tiers = map tier_of_row ?rows" "tiers \<noteq> []"
    using assms(1) by (auto simp: ladder_tiers_def split: list.splits)
  have "distinct (map t_tier ?rows)"
    using keyed_filter [OF assms(2), of t_enabled] by (auto simp: keyed_def distinct_map)
  then have "sorted_wrt (<) (map t_tier ?rows)" by (simp add: strict_sorted_iff)
  then have st: "sorted_wrt (\<lambda>s t. ti_Tier s < ti_Tier t) tiers"
    by (simp add: ts(1) sorted_wrt_map tier_of_row_def)
  have "\<forall>t\<in>set tiers. 0 \<le> ti_Tier t" using assms(3) by (auto simp: ts(1) tier_of_row_def)
  with climb_from [of "[]" tiers 0 n] st ts(2) show ?thesis by (simp add: ts(1))
qed

theorem ladder_visits_every_rung_witness:
  "map ti_Name (climb (map tier_of_row ex_tiers) 0 6) =
     [''observe'', ''adb_reconnect'', ''transport_reset'', ''quarantine'', ''quarantine'', ''quarantine'']"
proof -
  have t: "ladder_tiers Up (ex_broken 0) = Some (map tier_of_row ex_tiers)" "keyed t_tier (tiers_tbl (ex_broken 0))"
    "\<forall>t\<in>set (tiers_tbl (ex_broken 0)). 0 \<le> t_tier t" "length (map tier_of_row ex_tiers) + 2 = 6"
    "map ti_Name (map tier_of_row ex_tiers @ replicate 2 (last (map tier_of_row ex_tiers))) =
     [''observe'', ''adb_reconnect'', ''transport_reset'', ''quarantine'', ''quarantine'', ''quarantine'']"
    by code_simp+
  from ladder_visits_every_rung [OF t(1-3), of 2, unfolded t(4)] t(5) show ?thesis by simp
qed

section \<open>Quarantines\<close>

text \<open>
C30: one hub quarantine takes a quorum. Correlation adds a quarantine row only for a hub of the
table, of scope hub, and only if at least the minimum of its seated devices, and more than the
quorum's share of them, show a fault, all of them having gone bad within the window.
\<close>

theorem hub_quarantine_needs_a_quorum:
  assumes "correlate k io cfg cands tiers db = (handled, db')"
    and "q \<in> set (quarantines db')" and "q \<notin> set (quarantines db)"
  shows "\<exists>hb\<in>set (hubs db). \<exists>bad. q_scope q = ''hub'' \<and> q_hub q = Some (hb_id hb) \<and>
    bad = filter unhealthyPredicate (hub_members db (hb_id hb)) \<and>
    lc_MinHubBad cfg \<le> int (length bad) \<and> 2 \<le> length (hub_members db (hb_id hb)) \<and>
    lc_HubQuorum cfg * of_nat (length (hub_members db (hb_id hb))) < of_nat (length bad) \<and>
    (\<forall>r\<in>set bad. \<forall>r'\<in>set bad. (r_health_since r - r_health_since r') * 1000 \<le> lc_HubWindow cfg)"
proof -
  from assms(1) assms(3,2) obtain stats t where st: "hubStats k (remdups (map rc_HubID cands)) db = Some stats"
    and run: "quarantine_hubs io cfg t cands stats {} db = (handled, db')"
    by (auto simp: correlate_def split: option.splits)
  from new_quarantine_row [OF run assms(2,3)] obtain s where
    s: "s \<in> set stats" "hubIsTheFault cfg s" "q_scope q = ''hub''" "q_hub q = Some (hs_HubID s)" by blast
  from st s(1) obtain hb where hb: "hb \<in> set (hubs db)" "s = hub_stat db hb"
    by (auto simp: hubStats_def hub_stat_def Let_def split: if_splits)
  let ?bad = "filter unhealthyPredicate (hub_members db (hb_id hb))"
  have "(r_health_since r - r_health_since r') * 1000 \<le> lc_HubWindow cfg"
    if "r \<in> set ?bad" "r' \<in> set ?bad" for r r'
  proof -
    have "r_health_since r - r_health_since r' \<le> spread_of (map r_health_since ?bad)"
      using that by (intro spread_of_ge) auto
    moreover have "spread_of (map r_health_since ?bad) * 1000 \<le> lc_HubWindow cfg"
      using s(2) by (simp add: hb(2) hub_stat_def hubIsTheFault_def Let_def)
    ultimately show ?thesis using mult_right_mono [of "r_health_since r - r_health_since r'" _ 1000] by fastforce
  qed
  then show ?thesis using hb(1) s(2-4)
    by (intro bexI [of _ hb] exI [of _ ?bad]) (auto simp: hb(2) hub_stat_def hubIsTheFault_def Let_def)
qed

text \<open>Two handsets on one hub, both gone offline within a second.\<close>

definition ex_hub :: farm where
  "ex_hub = (ex_broken 0)\<lparr>
     slots := slots ex_idle @ [(hd (slots ex_idle))\<lparr>s_id := 2, s_usb_path := ''3-1.5''\<rparr>],
     devices := devices ex_busy @ [ex_device\<lparr>d_id := 11, d_current_slot := Some 2\<rparr>],
     runtimes := map (\<lambda>(i, t). ex_runtime\<lparr>r_device := i, r_adb_state := StateOffline, r_health := HOffline,
       r_health_since := t\<rparr>) [(10, 0), (11, seconds 1)]\<rparr>"

theorem hub_quarantine_needs_a_quorum_witness:
  "\<exists>q\<in>set (quarantines (snd (correlate Up (\<lambda>_. ((Up, hours 2), False)) ex_ladder [ex_cand 0] (map tier_of_row ex_tiers) ex_hub))).
     q_hub q = Some 7 \<and> 2 \<le> length (hub_members ex_hub 7)"
proof -
  let ?r = "correlate Up (\<lambda>_. ((Up, hours 2), False)) ex_ladder [ex_cand 0] (map tier_of_row ex_tiers) ex_hub"
  obtain h db' where r: "?r = (h, db')" by fastforce
  define q where "q = hd (quarantines (snd ?r))"
  have q: "q_hub q = Some 7" "quarantines (snd ?r) \<noteq> []" "quarantines ex_hub = []" unfolding q_def by code_simp+
  then have m: "q \<in> set (quarantines db')" "q \<notin> set (quarantines ex_hub)" using r by (simp_all add: q_def)
  from hub_quarantine_needs_a_quorum [OF r m] q(1) have "2 \<le> length (hub_members ex_hub 7)" by auto
  with m(1) q(1) r show ?thesis by auto
qed

text \<open>
Closing a quarantine releases its devices. When both statements of the reconciliation go through,
a quarantined device that no open quarantine covers is unknown on rung zero, so it is neither a
candidate nor evidence for a hub's quorum until the watchdog has looked at it; every other device
keeps its health.
\<close>

theorem closing_a_quarantine_releases:
  assumes "r \<in> set (runtimes db)" and "device_by_id db (r_device r) = Some d"
    and "db' = reconcileQuarantines (Up, t1) (Up, t2) db"
  shows "\<exists>r'\<in>set (runtimes db'). r_device r' = r_device r \<and>
    (if r_health r = HQuarantined \<and> \<not> coveredByQuarantine db d (slot_of_device db d)
     then r_health r' = HUnknown \<and> r_ladder_tier r' = 0 \<and> candidate_of cfg now db' r' = None \<and> \<not> unhealthyPredicate r'
     else r_health r' = r_health r)"
proof -
  let ?P = "\<lambda>r. r_health r = HQuarantined \<and> (case device_by_id db (r_device r) of None \<Rightarrow> False
      | Some d \<Rightarrow> \<not> coveredByQuarantine db d (slot_of_device db d))"
  define f :: "runtime_row \<Rightarrow> runtime_row" where "f = (\<lambda>r. if ?P r then trg_device_runtime_park_guard (devices db) r
      (r\<lparr>r_health := HUnknown, r_health_since := t1, r_ladder_tier := 0, r_updated_at := t1\<rparr>) else r)"
  define g :: "runtime_row \<Rightarrow> runtime_row" where "g = (\<lambda>r. if r_health r = HHealthy \<and> r_ladder_tier r > 0 then r\<lparr>r_ladder_tier := 0, r_updated_at := t2\<rparr> else r)"
  have "runtimes db' = map g (map f (runtimes db))"
    by (simp add: assms(3) reconcileQuarantines_def round_trip_def release_uncovered_def write_health_def
        reset_healthy_def update_where_def f_def g_def)
  then have mem: "g (f r) \<in> set (runtimes db')" using assms(1) by simp
  have unknown: "candidate_of cfg now db' r' = None \<and> \<not> unhealthyPredicate r'" if "r_health r' = HUnknown" for r'
    using that by (auto simp: candidate_of_def eligible_def unhealthyPredicate_def UnhealthyStates_def split: option.splits)
  show ?thesis
    using unknown [of "g (f r)"] assms(2)
    by (intro bexI [OF _ mem]) (auto simp: f_def g_def trg_device_runtime_park_guard_def)
qed

theorem closing_a_quarantine_releases_witness:
  "map r_health (runtimes (reconcileQuarantines (Up, 1) (Up, 2)
     (ex_idle\<lparr>runtimes := [ex_runtime\<lparr>r_health := HQuarantined, r_ladder_tier := 7\<rparr>]\<rparr>))) = [HUnknown]"
proof -
  define db where "db = ex_idle\<lparr>runtimes := [ex_runtime\<lparr>r_health := HQuarantined, r_ladder_tier := 7\<rparr>]\<rparr>"
  define r where "r = ex_runtime\<lparr>r_health := HQuarantined, r_ladder_tier := 7\<rparr>"
  have f: "r \<in> set (runtimes db)" "device_by_id db (r_device r) = Some ex_device"
    "r_health r = HQuarantined \<and> \<not> coveredByQuarantine db ex_device (slot_of_device db ex_device)"
    "length (runtimes (reconcileQuarantines (Up, 1) (Up, 2) db)) = 1"
    unfolding db_def r_def by code_simp+
  from closing_a_quarantine_releases [OF f(1,2) refl, of 1 2] f(3)
  have "\<exists>r'\<in>set (runtimes (reconcileQuarantines (Up, 1) (Up, 2) db)). r_health r' = HUnknown" by auto
  with f(4) show ?thesis unfolding db_def [symmetric] by (auto simp: length_Suc_conv)
qed

section \<open>The actuator\<close>

text \<open>
C29: a verdict rests on what was read or said. For every actuator, every action and every answer of
the server, the agent and the clock, the result carries its disposition and its outcome is the
disposition's; it has a refusal sentence exactly when the outcome is refused. It says recovered only
when a state read of an addressable devpath came back device, no_change only when a read of the
position came back, and failed only when an error blames the device or the agent reports a rung that
ran and failed: a server that cannot be reached never counts against the handset.
\<close>

theorem verdict_rests_on_evidence:
  "let r = Recover a io act in
     re_Outcome r = disposition_Outcome (DispositionOf r) \<and>
     (RefusalOf r \<noteq> [] \<longleftrightarrow> re_Outcome r = OutcomeRefused) \<and>
     (DispositionOf r = DispositionRecovered \<longrightarrow>
        isDevpath (ac_Devpath act) \<and> ac_ADBEndpoint act \<noteq> [] \<and> (\<exists>shut. (Inr StateDevice, shut) \<in> set (ao_reads io))) \<and>
     (DispositionOf r = DispositionNoChange \<longrightarrow> (\<exists>x\<in>set (ao_reads io). read_back (fst x))) \<and>
     (DispositionOf r = DispositionFailed \<longrightarrow>
        (\<exists>e\<in>wire_errors io. blames e) \<or>
        (\<exists>e\<in>agent_errors a act. hf_Disposition (ClassifyHostFault e (ao_aborted io AtHost)) = DispositionFailed))"
  using verdict_ok_Recover [of a io act] Recover_addressed [of a io act] by (auto simp: verdict_ok_def Let_def)

definition ex_actuator :: actuator where
  "ex_actuator = \<lparr>aa_HostRunner = None, aa_SettleInterval = 0, aa_ControlConfirm = 0\<rparr>"

definition ex_act_io :: act_io where
  "ex_act_io = \<lparr>ao_control = (\<lambda>_. Inr ''done''), ao_transport = None, ao_service = None, ao_kill = None,
     ao_aborted = (\<lambda>_. False), ao_remaining = 20 * Second,
     ao_reads = [(Inl \<lparr>ae_text = ''device not found'', ae_wire = NotFoundError ''usb:1-1''\<rparr>, False), (Inr StateDevice, False)]\<rparr>"

definition ex_action :: action where
  "ex_action = \<lparr>ac_Tier = 1, ac_TierName = ''adb_reconnect'', ac_DeviceID = 1, ac_SlotID = 1, ac_Devpath = ''usb:1-1'',
     ac_RackSlot = ''r1'', ac_HubID = 1, ac_HubPath = ''1'', ac_HostID = ''h1'', ac_ADBEndpoint = ''h1:5037'',
     ac_PowerDomainID = None, ac_Acknowledged = [], ac_Timeout = 0\<rparr>"

theorem verdict_rests_on_evidence_witness:
  "DispositionOf (Recover ex_actuator ex_act_io ex_action) = DispositionRecovered \<and>
   (\<exists>shut. (Inr StateDevice, shut) \<in> set (ao_reads ex_act_io)) \<and>
   re_Outcome (Recover ex_actuator ex_act_io ex_action) = OutcomeRecovered"
proof -
  have d: "DispositionOf (Recover ex_actuator ex_act_io ex_action) = DispositionRecovered" by code_simp
  then show ?thesis
    using verdict_rests_on_evidence [of ex_actuator ex_act_io ex_action] by (auto simp: Let_def disposition_Outcome_def)
qed

end
