(* ===== verification/Adb_Listing.thy ===== *)
theory Adb_Listing
  imports Adb_Wire Go_Text Watchdog_Loop
begin

text \<open>
  \<^verbatim>\<open>internal/adbwire/device.go\<close>: the parser of the long device listing. A line is walked backwards
  over the tokens the server appends, because the state in the middle may be a whole sentence; the
  devpath test comes before the key test, and an unknown key is kept rather than allowed to stop the
  walk. White space is ASCII white space.
\<close>

section \<open>The parser\<close>

record listed_device = adb_device +
  ad_RawState :: string
  ad_Product :: string
  ad_Model :: string
  ad_Codename :: string
  ad_Extra :: "(string \<times> string) list"

definition noSerialToken :: string where "noSerialToken = ''(no serial number)''"

definition extraKeyRe :: "string \<Rightarrow> bool" where
  "extraKeyRe k \<longleftrightarrow> (case k of [] \<Rightarrow> False
     | c # cs \<Rightarrow> (97 \<le> (of_char c :: nat) \<and> (of_char c :: nat) \<le> 122) \<and>
         list_all (\<lambda>c. 97 \<le> (of_char c :: nat) \<and> (of_char c :: nat) \<le> 122 \<or> is_digit c \<or> c = CHR ''_'') cs)"

definition tail_key :: "string \<Rightarrow> string \<Rightarrow> listed_device \<Rightarrow> listed_device option" where
  "tail_key key val d =
     (if key = ''product'' then Some (d\<lparr>ad_Product := val\<rparr>)
      else if key = ''model'' then Some (d\<lparr>ad_Model := val\<rparr>)
      else if key = ''device'' then Some (d\<lparr>ad_Codename := val\<rparr>)
      else if key = ''transport_id''
      then Some (case ParseInt val of None \<Rightarrow> d | Some n \<Rightarrow> d\<lparr>ad_TransportID := n\<rparr>)
      else None)"

text \<open>The walk, over the tokens in reverse; what it leaves is the state's words, still reversed.\<close>

fun walk_tail :: "string list \<Rightarrow> listed_device \<Rightarrow> string list \<times> listed_device" where
  "walk_tail [] d = ([], d)"
| "walk_tail (tok # toks) d =
     (if isDevpath tok then walk_tail toks (d\<lparr>ad_Devpath := tok\<rparr>)
      else
        (case cut (CHR '':'') tok of
           None \<Rightarrow> (tok # toks, d)
         | Some (key, val) \<Rightarrow>
             (case tail_key key val d of
                Some d' \<Rightarrow> walk_tail toks d'
              | None \<Rightarrow>
                  if extraKeyRe key
                  then walk_tail toks (d\<lparr>ad_Extra := filter (\<lambda>kv. fst kv \<noteq> key) (ad_Extra d) @ [(key, val)]\<rparr>)
                  else (tok # toks, d))))"

definition blank_device :: listed_device where
  "blank_device = \<lparr>ad_Serial = [], ad_Devpath = [], ad_State = StateUnknown, ad_TransportID = 0,
     ad_RawState = [], ad_Product = [], ad_Model = [], ad_Codename = [], ad_Extra = []\<rparr>"

definition finish_line :: "string list \<times> listed_device \<Rightarrow> listed_device" where
  "finish_line w =
     (let raw = join '' '' (rev (fst w)) in (snd w)\<lparr>ad_RawState := raw, ad_State := ParseConnState raw\<rparr>)"

definition parseDeviceLine :: "string \<Rightarrow> listed_device option" where
  "parseDeviceLine line =
     (let fs = Fields line in
      if length fs < 2 then None
      else if has_prefix noSerialToken line then
        (if length fs < 4 then None else Some (finish_line (walk_tail (rev (drop 3 fs)) blank_device)))
      else Some (finish_line (walk_tail (rev (drop 1 fs)) (blank_device\<lparr>ad_Serial := hd fs\<rparr>))))"

definition parseDeviceList :: "string \<Rightarrow> listed_device list" where
  "parseDeviceList payload =
     List.map_filter
       (\<lambda>l. let line = trim_space l in
            if line = [] then None else if has_prefix ''*'' line then None else parseDeviceLine line)
       (split_on (CHR 0x0A) payload)"

text \<open>The snapshot the watchdog folds in.\<close>

definition snapshot_of :: "string \<Rightarrow> adb_device list" where
  "snapshot_of payload = map adb_device.truncate (parseDeviceList payload)"

section \<open>Round trip\<close>

text \<open>A line as the server prints it for a device whose fields are words.\<close>

definition render_line :: "listed_device \<Rightarrow> string" where
  "render_line d = join '' '' [ad_Serial d, conn_text (ad_State d), ad_Devpath d, ''product:'' @ ad_Product d,
     ''model:'' @ ad_Model d, ''device:'' @ ad_Codename d, ''transport_id:'' @ int_str (ad_TransportID d)]"

lemma word_ok_devpath: "isDevpath s \<Longrightarrow> word_ok s"
  by (drule isDevpath_chars) (fastforce simp: word_ok_def list_all_iff is_alnum_def is_space_def Let_def)

lemma conn_text_words: "list_all (\<lambda>s. word_ok (conn_text s) \<and> conn_text s \<noteq> [] \<and> cut (CHR '':'') (conn_text s) = None \<and>
    \<not> isDevpath (conn_text s)) all_conn_states"
  by code_simp

lemma conn_text_word:
  "word_ok (conn_text s)" "conn_text s \<noteq> []" "cut (CHR '':'') (conn_text s) = None" "\<not> isDevpath (conn_text s)"
proof -
  have "s \<in> set all_conn_states" by (cases s) (auto simp: all_conn_states_def)
  then show "word_ok (conn_text s)" "conn_text s \<noteq> []" "cut (CHR '':'') (conn_text s) = None" "\<not> isDevpath (conn_text s)"
    using conn_text_words by (auto simp: list_all_iff)
qed

text \<open>The four tail tokens are never devpaths and cut at their own colon.\<close>

lemma tail_tokens:
  "\<not> isDevpath (''product:'' @ v)" "\<not> isDevpath (''model:'' @ v)" "\<not> isDevpath (''device:'' @ v)" "\<not> isDevpath (''transport_id:'' @ v)"
  "cut (CHR '':'') (''product:'' @ v) = Some (''product'', v)" "cut (CHR '':'') (''model:'' @ v) = Some (''model'', v)"
  "cut (CHR '':'') (''device:'' @ v) = Some (''device'', v)" "cut (CHR '':'') (''transport_id:'' @ v) = Some (''transport_id'', v)"
  by (simp_all add: isDevpath_def devpathRe_def)

text \<open>A device the server can print on one line of words, with nothing this parser does not know.\<close>

definition printable_device :: "listed_device \<Rightarrow> bool" where
  "printable_device d \<longleftrightarrow>
     ad_Serial d \<noteq> [] \<and> hd (ad_Serial d) \<notin> {CHR ''('', CHR ''*''} \<and> isDevpath (ad_Devpath d) \<and>
     list_all word_ok [ad_Serial d, ad_Product d, ad_Model d, ad_Codename d] \<and>
     - (2 ^ 63) \<le> ad_TransportID d \<and> ad_TransportID d < 2 ^ 63 \<and>
     ad_RawState d = conn_text (ad_State d) \<and> ad_Extra d = []"

definition line_tokens :: "listed_device \<Rightarrow> string list" where
  "line_tokens d = [ad_Serial d, conn_text (ad_State d), ad_Devpath d, ''product:'' @ ad_Product d,
     ''model:'' @ ad_Model d, ''device:'' @ ad_Codename d, ''transport_id:'' @ int_str (ad_TransportID d)]"

lemma line_tokens_words:
  assumes "printable_device d"
  shows "\<forall>w\<in>set (line_tokens d). word_ok w \<and> w \<noteq> []"
proof -
  have "word_ok (k @ v)" if "word_ok v" "word_ok k" for k v using that by (simp add: word_ok_def)
  moreover have "word_ok ''product:''" "word_ok ''model:''" "word_ok ''device:''" "word_ok ''transport_id:''"
    by code_simp+
  moreover have "ad_Devpath d \<noteq> []" using assms by (auto simp: printable_device_def isDevpath_def devpathRe_def)
  ultimately show ?thesis
    using assms conn_text_word word_ok_int_str word_ok_devpath
    unfolding line_tokens_def printable_device_def by (simp del: append_Cons)
qed

lemma fields_render_line: "printable_device d \<Longrightarrow> Fields (render_line d) = line_tokens d"
  unfolding render_line_def line_tokens_def [symmetric] by (rule fields_join [OF line_tokens_words])

lemma not_noSerial:
  assumes "printable_device d"
  shows "\<not> has_prefix noSerialToken (render_line d)"
  using assms by (cases "ad_Serial d") (auto simp: printable_device_def render_line_def noSerialToken_def)

lemma walk_line_tokens:
  assumes "printable_device d"
  shows "walk_tail (rev (drop 1 (line_tokens d))) (blank_device\<lparr>ad_Serial := ad_Serial d\<rparr>) =
    ([conn_text (ad_State d)],
     d\<lparr>ad_RawState := [], ad_State := StateUnknown\<rparr>)"
proof -
  define p m c t where "p = ''product:'' @ ad_Product d" and "m = ''model:'' @ ad_Model d"
    and "c = ''device:'' @ ad_Codename d" and "t = ''transport_id:'' @ int_str (ad_TransportID d)"
  have toks: "\<not> isDevpath p" "\<not> isDevpath m" "\<not> isDevpath c" "\<not> isDevpath t"
    "cut (CHR '':'') p = Some (''product'', ad_Product d)" "cut (CHR '':'') m = Some (''model'', ad_Model d)"
    "cut (CHR '':'') c = Some (''device'', ad_Codename d)"
    "cut (CHR '':'') t = Some (''transport_id'', int_str (ad_TransportID d))"
    unfolding p_def m_def c_def t_def by (fact tail_tokens)+
  have d: "isDevpath (ad_Devpath d)" "ad_Extra d = []" "ParseInt (int_str (ad_TransportID d)) = Some (ad_TransportID d)"
    using assms ParseInt_int_str by (simp_all add: printable_device_def)
  have "drop 1 (line_tokens d) = [conn_text (ad_State d), ad_Devpath d, p, m, c, t]"
    by (simp only: line_tokens_def p_def m_def c_def t_def One_nat_def drop_Suc_Cons drop0)
  then show ?thesis
    using toks d conn_text_word [of "ad_State d"] by (simp add: tail_key_def blank_device_def)
qed

lemma parseDeviceLine_render_line:
  assumes "printable_device d"
  shows "parseDeviceLine (render_line d) = Some d"
proof -
  have "length (line_tokens d) = 7" "hd (line_tokens d) = ad_Serial d" by (simp_all add: line_tokens_def)
  then have "parseDeviceLine (render_line d) =
      Some (finish_line ([conn_text (ad_State d)], d\<lparr>ad_RawState := [], ad_State := StateUnknown\<rparr>))"
    using not_noSerial [OF assms] walk_line_tokens [OF assms]
    by (simp add: parseDeviceLine_def fields_render_line [OF assms])
  then show ?thesis
    using assms by (simp add: finish_line_def printable_device_def ParseConnState_conn_text)
qed

section \<open>The whole listing\<close>

lemma render_line_ends:
  assumes "printable_device d"
  shows "render_line d \<noteq> []" and "hd (render_line d) = hd (ad_Serial d)" and "trim_space (render_line d) = render_line d"
    and "CHR 0x0A \<notin> set (render_line d)"
proof -
  define ws where "ws = line_tokens d"
  have ws: "ws \<noteq> []" "hd ws = ad_Serial d" "render_line d = join '' '' ws"
    by (simp_all add: ws_def line_tokens_def render_line_def)
  have ok: "\<forall>w\<in>set ws. word_ok w \<and> w \<noteq> []" using line_tokens_words [OF assms] by (simp add: ws_def)
  have ends: "\<not> is_space (hd w)" "\<not> is_space (last w)" if "w \<in> set ws" for w
    using ok that by (auto simp: word_ok_def list_all_iff)
  have j: "join '' '' ws \<noteq> []" "hd (join '' '' ws) = hd (hd ws)" "last (join '' '' ws) = last (last ws)"
    using join_ends [of ws "'' ''"] ok ws(1) by auto
  then show "render_line d \<noteq> []" "hd (render_line d) = hd (ad_Serial d)" using ws by simp_all
  show "trim_space (render_line d) = render_line d"
    unfolding ws(3) using j ends(1) [of "hd ws"] ends(2) [of "last ws"] ws(1) by (intro trim_space_id) simp_all
  have nl: "is_space (CHR 0x0A)" by code_simp
  show "CHR 0x0A \<notin> set (render_line d)"
  proof
    assume "CHR 0x0A \<in> set (render_line d)"
    then obtain w where "w \<in> set ws" "CHR 0x0A \<in> set w" using join_chars ws(3) by fastforce
    then show False using ok nl by (auto simp: word_ok_def list_all_iff)
  qed
qed

lemma listing_line:
  assumes "printable_device d"
  shows "(let line = trim_space (render_line d) in
      if line = [] then None else if has_prefix ''*'' line then None else parseDeviceLine line) = Some d"
proof -
  have "\<not> has_prefix ''*'' (render_line d)"
    using render_line_ends(1,2) [OF assms] assms by (cases "render_line d") (auto simp: printable_device_def)
  then show ?thesis using render_line_ends [OF assms] parseDeviceLine_render_line [OF assms] by simp
qed

lemma parseDeviceList_render:
  assumes "\<forall>d\<in>set ds. printable_device d"
  shows "parseDeviceList (concat (map (\<lambda>l. l @ [CHR 0x0A]) (map render_line ds))) = ds"
proof -
  have "\<forall>l\<in>set (map render_line ds). CHR 0x0A \<notin> set l" using assms render_line_ends(4) by auto
  then have sp: "split_on (CHR 0x0A) (concat (map (\<lambda>l. l @ [CHR 0x0A]) (map render_line ds))) = map render_line ds @ [[]]"
    by (rule split_on_lines)
  have "List.map_filter f (map render_line ds @ [[]]) = ds"
    if "\<And>d. d \<in> set ds \<Longrightarrow> f (render_line d) = Some d" and "f [] = None" for f :: "string \<Rightarrow> listed_device option"
    using that by (induction ds) (auto simp: List.map_filter_simps)
  then show ?thesis
    unfolding parseDeviceList_def sp using assms listing_line by (auto simp: trim_space_def)
qed

end
