(* ===== verification/Adb_Properties.thy ===== *)
theory Adb_Properties
  imports Adb_Listing
begin

text \<open>
  What the bytes of the ADB wire mean to the rest of the program: the frames, the shell stream and
  the device listing are round trips, what is read is bounded, and where a cut stream is not told
  from a finished one.
\<close>




text \<open>
framing. A request the writer accepts is read back whole with the rest of the stream untouched;
the writer refuses exactly what the length prefix cannot say; and whatever bytes a peer sends, a
message read is no longer than the prefix allows and takes its own frame and nothing more.
\<close>

theorem message_round_trip:
  "(if length p \<le> maxMessage
    then \<exists>bytes. writeMessage op p = Inr bytes \<and> readMessage op (bytes @ rest) = Inr (p, rest)
    else \<exists>e. writeMessage op p = Inl (UsageError e)) \<and>
   (case readMessage op s of
      Inl e \<Rightarrow> \<exists>kind cause. e = TransportError kind op cause
    | Inr (q, later) \<Rightarrow> length q \<le> maxMessage \<and> length s = 4 + length q + length later)"
proof (intro conjI)
  show "if length p \<le> maxMessage
    then \<exists>bytes. writeMessage op p = Inr bytes \<and> readMessage op (bytes @ rest) = Inr (p, rest)
    else \<exists>e. writeMessage op p = Inl (UsageError e)"
    using readMessage_writeMessage [of op p "putHex4 (length p) @ p" rest] by (auto simp: writeMessage_def)
  show "case readMessage op s of
      Inl e \<Rightarrow> \<exists>kind cause. e = TransportError kind op cause
    | Inr (q, later) \<Rightarrow> length q \<le> maxMessage \<and> length s = 4 + length q + length later"
    using readMessage_bounded [of op s] by (cases "readMessage op s") (auto dest: readMessage_Inl)
qed

text \<open>
C39: draining a shell stream separates it again. For any sequence of packets, of any ids, whose output
stays under the capture limit, the drain ends without error and without truncation, its two streams
are the concatenated payloads of their ids in order, and the exit code is the last one sent, or -1
when none was.
\<close>

theorem shell_round_trip:
  assumes "\<forall>ip\<in>set ps. length (snd ip) \<le> MaxShellPacket"
    and "int (length (output_of ShellStdout ps) + length (output_of ShellStderr ps)) < limit"
  shows "DrainShellV2 (concat (map packet ps)) limit =
    (\<lparr>sr_Stdout = output_of ShellStdout ps, sr_Stderr = output_of ShellStderr ps,
      sr_ExitCode = (if exits_of ps = [] then - 1 else of_char (last (exits_of ps))),
      sr_Exited = (exits_of ps \<noteq> []), sr_Truncated = False\<rparr>, None)"
proof -
  define st where "st = fold (\<lambda>(i, p). drain_packet (nat limit) i p) ps (empty_result, 0)"
  have d: "DrainShellV2 (concat (map packet ps)) limit = (fst st, None)"
    using assms(2) drain_loop_packets [OF assms(1), of "nat limit" "[]"]
    by (simp add: DrainShellV2_def drain_loop_end st_def)
  have "0 + length (output_of ShellStdout ps) + length (output_of ShellStderr ps) < nat limit"
    using assms(2) by simp
  from drain_fold [OF this, of empty_result] drain_fold_exit [of "nat limit" ps "(empty_result, 0)"]
  show ?thesis unfolding d by (auto simp: st_def empty_result_def intro!: shell_result.equality)
qed

definition ex_packets :: "(char \<times> string) list" where
  "ex_packets = [(ShellStdout, ''ab''), (ShellStderr, ''!''), (ShellStdout, ''c''), (ShellExit, [CHR 0x03])]"

lemma ex_packets_ok: "\<forall>ip\<in>set ex_packets. length (snd ip) \<le> MaxShellPacket"
  by (simp add: ex_packets_def MaxShellPacket_def)

theorem shell_round_trip_witness:
  "DrainShellV2 (concat (map packet ex_packets)) 100 =
    (\<lparr>sr_Stdout = ''abc'', sr_Stderr = ''!'', sr_ExitCode = 3, sr_Exited = True, sr_Truncated = False\<rparr>, None)"
proof -
  have "output_of ShellStdout ex_packets = ''abc''" "output_of ShellStderr ex_packets = ''!''"
    "exits_of ex_packets = [CHR 0x03]"
    by (simp_all add: output_of_def exits_of_def ex_packets_def ShellStdout_def ShellStderr_def ShellExit_def)
  then show ?thesis using shell_round_trip [OF ex_packets_ok, of 100] by simp
qed

text \<open>
A drain always ends, and whatever the device sends, what it keeps never exceeds the caller's
limit, or the default when the caller gave none.
\<close>

theorem shell_capture_is_bounded:
  "captured (fst (DrainShellV2 s limit)) \<le> (if limit \<le> 0 then DefaultMaxOutput else nat limit)"
  unfolding DrainShellV2_def
  by (rule drain_loop_captured) (simp_all add: captured_def empty_result_def)

text \<open>
C40: a stream cut between a packet's header and its payload is reported as finished. The drain of the
packets followed by a bare header that announces a payload is the drain of the packets alone, with no
error, although the payload it announced never came.
\<close>

theorem cut_after_header_is_silent:
  assumes "\<forall>ip\<in>set ps. length (snd ip) \<le> MaxShellPacket" and "0 < n" and "n \<le> MaxShellPacket"
  shows "DrainShellV2 (concat (map packet ps) @ i # PutUint32 n) limit = DrainShellV2 (concat (map packet ps)) limit \<and>
    snd (DrainShellV2 (concat (map packet ps)) limit) = None"
  using drain_loop_packets [OF assms(1), of _ "[]"]
  by (simp add: DrainShellV2_def drain_loop_packets [OF assms(1)] drain_loop_cut [OF assms(2,3)] drain_loop_end)

theorem cut_after_header_is_silent_witness:
  "DrainShellV2 (concat (map packet ex_packets) @ ShellStdout # PutUint32 40) 0 = DrainShellV2 (concat (map packet ex_packets)) 0"
  using cut_after_header_is_silent [OF ex_packets_ok, of 40 ShellStdout 0] by (simp add: MaxShellPacket_def)

end
