(* ===== verification/Fence_Proxy.thy ===== *)
theory Fence_Proxy
  imports Adb_Wire Go_Text
begin

text \<open>
  \<^verbatim>\<open>internal/fenceproxy/proxy.go\<close>, the decision: credential classes, the parsers of service strings and
  preambles, the service whitelists with their patterns, the shipped policy and how it may be widened,
  and \<^verbatim>\<open>Admit\<close>. Certificates and TLS are the caller's: an identity is what they yield.
\<close>

section \<open>Classes and outcomes\<close>

definition ClassLease :: string where "ClassLease = ''lease''"
definition ClassMaintenance :: string where "ClassMaintenance = ''maintenance''"
definition ClassEnroll :: string where "ClassEnroll = ''enroll''"
definition ClassControl :: string where "ClassControl = ''control''"

definition Classes :: "string list" where
  "Classes = [ClassLease, ClassMaintenance, ClassEnroll, ClassControl]"

definition class_Valid :: "string \<Rightarrow> bool" where
  "class_Valid c \<longleftrightarrow> c = ClassLease \<or> c = ClassMaintenance \<or> c = ClassEnroll \<or> c = ClassControl"

definition CarriesFence :: "string \<Rightarrow> bool" where
  "CarriesFence c \<longleftrightarrow> c = ClassLease \<or> c = ClassControl"

datatype proxy_outcome =
    OutcomeAdmit | OutcomeRefuseIdentity | OutcomeRefuseCertLapsed | OutcomeRefuseMalformed
  | OutcomeRefuseService | OutcomeRefuseTarget | OutcomeRefuseFenced | OutcomeRefuseUnknown

record decision =
  dc_Outcome :: proxy_outcome
  dc_Reason :: string
  dc_Terminal :: bool
  dc_Retryable :: bool
  dc_ViewAge :: duration

definition Admitted :: "decision \<Rightarrow> bool" where
  "Admitted d \<longleftrightarrow> dc_Outcome d = OutcomeAdmit"

definition decided :: "proxy_outcome \<Rightarrow> string \<Rightarrow> decision" where
  "decided oc reason = \<lparr>dc_Outcome = oc, dc_Reason = reason, dc_Terminal = False, dc_Retryable = False, dc_ViewAge = 0\<rparr>"

section \<open>Identity, claim, request\<close>

text \<open>\<open>id_NotAfter\<close> is in nanoseconds since the epoch; \<open>None\<close> is the zero time.\<close>

record identity =
  id_Subject :: string
  id_Class :: string
  id_NotAfter :: "int option"

record claim =
  cm_Class :: string
  cm_Devpath :: string
  cm_Fence :: int
  cm_HasFence :: bool

record request =
  rq_Identity :: identity
  rq_Claim :: claim
  rq_Service :: string
  rq_Bound :: string

section \<open>Service strings\<close>

datatype service_kind = KindInvalid | KindHost | KindHostTarget | KindTransport | KindDevice

definition kind_text :: "service_kind \<Rightarrow> string" where
  "kind_text k = (case k of KindHost \<Rightarrow> ''host'' | KindHostTarget \<Rightarrow> ''host_target'' | KindTransport \<Rightarrow> ''transport''
     | KindDevice \<Rightarrow> ''device'' | KindInvalid \<Rightarrow> ''invalid'')"

record service =
  sv_Raw :: string
  sv_Kind :: service_kind
  sv_Devpath :: string
  sv_Verb :: string

definition hostTargetPrefixes :: "string list" where
  "hostTargetPrefixes = [''host-serial:'', ''host-usb:'']"

definition maxFrame :: int where "maxFrame = 0xFFFF"

definition devpathTail :: "string \<Rightarrow> string" where
  "devpathTail s =
     (case cut_prefix ''usb:'' s of
        Some (c # cs) \<Rightarrow>
          if is_alnum c then ''usb:'' @ c # takeWhile (\<lambda>c. is_alnum c \<or> c \<in> {CHR ''.'', CHR ''_'', CHR ''-''}) cs else []
      | _ \<Rightarrow> [])"

definition ParseService :: "string \<Rightarrow> service" where
  "ParseService raw =
     (let s = \<lparr>sv_Raw = raw, sv_Kind = KindInvalid, sv_Devpath = [], sv_Verb = []\<rparr> in
      if raw = [] \<or> int (length raw) > maxFrame \<or> CHR 0x00 \<in> set raw then s
      else case List.find (\<lambda>p. has_prefix p raw) hostTargetPrefixes of
        Some p \<Rightarrow>
          (let rest = drop (length p) raw; dp = devpathTail rest in
           if dp = [] \<or> ValidateDevpath dp \<noteq> None then s
           else (case cut_prefix '':'' (drop (length dp) rest) of
                   None \<Rightarrow> s
                 | Some verb \<Rightarrow>
                     if verb = [] then s else s\<lparr>sv_Kind := KindHostTarget, sv_Devpath := dp, sv_Verb := verb\<rparr>))
      | None \<Rightarrow>
          (case cut_prefix ''host:transport'' raw of
             Some rest \<Rightarrow>
               (case cut_prefix '':'' rest of
                  Some target \<Rightarrow>
                    if ValidateDevpath target \<noteq> None then s else s\<lparr>sv_Kind := KindTransport, sv_Devpath := target\<rparr>
                | None \<Rightarrow> if has_prefix ''-'' rest then s\<lparr>sv_Kind := KindTransport\<rparr> else s)
           | None \<Rightarrow>
               if has_prefix ''host:'' raw then s\<lparr>sv_Kind := KindHost\<rparr> else s\<lparr>sv_Kind := KindDevice\<rparr>))"

section \<open>The preamble\<close>

definition PreambleV1 :: string where "PreambleV1 = ''fence:v1''"

definition wire_text :: "wire_error \<Rightarrow> string" where
  "wire_text e = (case e of UsageError t \<Rightarrow> t | _ \<Rightarrow> [])"

definition preamble_field :: "string \<Rightarrow> claim \<Rightarrow> string + claim" where
  "preamble_field field c =
     (case cut (CHR ''='') field of
        None \<Rightarrow> Inl (''fenceproxy: preamble field '' @ go_quote field @ '' is not key=value'')
      | Some (k, v) \<Rightarrow>
          if k = ''class'' then Inr (c\<lparr>cm_Class := v\<rparr>)
          else if k = ''devpath'' then
            (case ValidateDevpath v of
               Some e \<Rightarrow> Inl (''fenceproxy: preamble devpath: '' @ wire_text e)
             | None \<Rightarrow> Inr (c\<lparr>cm_Devpath := v\<rparr>))
          else if k = ''fence'' then
            (case ParseInt v of
               None \<Rightarrow> Inl (''fenceproxy: preamble fence '' @ go_quote v @ '' is not an integer'')
             | Some n \<Rightarrow> Inr (c\<lparr>cm_Fence := n, cm_HasFence := True\<rparr>))
          else Inl (''fenceproxy: preamble carries unknown key '' @ go_quote k))"

fun preamble_fields :: "string list \<Rightarrow> claim \<Rightarrow> string + claim" where
  "preamble_fields [] c = Inr c"
| "preamble_fields (f # fs) c = (case preamble_field f c of Inl e \<Rightarrow> Inl e | Inr c' \<Rightarrow> preamble_fields fs c')"

definition ParsePreamble :: "string \<Rightarrow> string + claim" where
  "ParsePreamble payload =
     (case cut_prefix PreambleV1 payload of
        None \<Rightarrow> Inl (''fenceproxy: preamble does not start with '' @ go_quote PreambleV1)
      | Some rest \<Rightarrow> preamble_fields (Fields rest) \<lparr>cm_Class = [], cm_Devpath = [], cm_Fence = 0, cm_HasFence = False\<rparr>)"

section \<open>Whitelists\<close>

record service_rules =
  wl_Host :: "string list"
  wl_HostTargetVerbs :: "string list"
  wl_Transport :: bool
  wl_Device :: "string list"
  wl_DevicePatterns :: "re list"

text \<open>Groups that share a name captured the same text.\<close>

fun repeatedGroupsAgree :: "(string \<times> string) list \<Rightarrow> bool" where
  "repeatedGroupsAgree [] = True"
| "repeatedGroupsAgree ((name, got) # gs) =
     ((name = [] \<or> list_all (\<lambda>(n, g). n = name \<longrightarrow> g = got) gs) \<and> repeatedGroupsAgree gs)"

definition pattern_allows :: "string \<Rightarrow> re \<Rightarrow> bool" where
  "pattern_allows raw p =
     (case find_re p raw of
        None \<Rightarrow> False
      | Some (i, j, groups) \<Rightarrow> i = 0 \<and> j = length raw \<and> repeatedGroupsAgree groups)"

definition allows :: "service_rules \<Rightarrow> service \<Rightarrow> bool" where
  "allows r s =
     (case sv_Kind s of
        KindHost \<Rightarrow> sv_Raw s \<in> set (wl_Host r)
      | KindHostTarget \<Rightarrow> sv_Verb s \<in> set (wl_HostTargetVerbs r)
      | KindTransport \<Rightarrow> wl_Transport r \<and> sv_Devpath s \<noteq> []
      | KindDevice \<Rightarrow> sv_Raw s \<in> set (wl_Device r) \<or> list_ex (pattern_allows (sv_Raw s)) (wl_DevicePatterns r)
      | KindInvalid \<Rightarrow> False)"

record policy =
  pl_MaxStaleness :: duration
  pl_MaxHostFrames :: int
  pl_LeaseHost :: "string list"
  pl_Rules :: "string \<rightharpoonup> service_rules"

definition DefaultMaxStaleness :: duration where "DefaultMaxStaleness = 20 * Second"
definition DefaultMaxHostFrames :: int where "DefaultMaxHostFrames = 4"

definition normalized :: "policy \<Rightarrow> policy" where
  "normalized p =
     p\<lparr>pl_MaxStaleness := (if pl_MaxStaleness p \<le> 0 then DefaultMaxStaleness else pl_MaxStaleness p),
       pl_MaxHostFrames := (if pl_MaxHostFrames p \<le> 0 then DefaultMaxHostFrames else pl_MaxHostFrames p)\<rparr>"

definition lower_hex :: "char \<Rightarrow> bool" where
  "lower_hex c \<longleftrightarrow> is_digit c \<or> 97 \<le> (of_char c :: nat) \<and> (of_char c :: nat) \<le> 102"

definition lower_or_underscore :: "char \<Rightarrow> bool" where
  "lower_or_underscore c \<longleftrightarrow> 97 \<le> (of_char c :: nat) \<and> (of_char c :: nat) \<le> 122 \<or> c = CHR ''_''"

definition option_char :: "char \<Rightarrow> bool" where
  "option_char c \<longleftrightarrow> is_alnum c \<or> c \<in> {CHR ''_'', CHR ''.'', CHR ''-''}"

definition spawn_pattern :: re where
  "spawn_pattern =
     Seq (Lit ''shell,v2,raw:CLASSPATH=/data/local/tmp/scrcpy-server-'') (Seq (Rep (Cls lower_hex) 12 12)
    (Seq (Lit ''.jar app_process / com.genymobile.scrcpy.Server '')
    (Seq (Rep (Cls is_digit) 1 3) (Seq (Lit ''.'') (Seq (Rep (Cls is_digit) 1 3)
    (Seq (Rep (Seq (Lit ''.'') (Rep (Cls is_digit) 1 3)) 0 1)
         (Rep (Seq (Lit '' '') (Seq (Rep (Cls lower_or_underscore) 1 24) (Seq (Lit ''='') (Rep (Cls option_char) 1 32)))) 0 12)))))))"

definition socket_pattern :: re where
  "socket_pattern = Seq (Lit ''localabstract:scrcpy_'') (Rep (Cls lower_hex) 8 8)"

definition control_rules :: service_rules where
  "control_rules = \<lparr>wl_Host = [''host:version'', ''host:features''], wl_HostTargetVerbs = [''get-state''], wl_Transport = True,
     wl_Device = [''sync:''], wl_DevicePatterns = [spawn_pattern, socket_pattern]\<rparr>"

definition maintenance_rules :: service_rules where
  "maintenance_rules = \<lparr>
     wl_Host = [''host:version'', ''host:features'', ''host:devices'', ''host:devices-l'', ''host:track-devices'', ''host:track-devices-l''],
     wl_HostTargetVerbs = [''get-state'', ''get-serialno'', ''get-devpath'', ''features'', ''reconnect'', ''reconnect-offline'', ''detach'', ''attach''],
     wl_Transport = True, wl_Device = [''reboot:''], wl_DevicePatterns = []\<rparr>"

definition enroll_rules :: service_rules where
  "enroll_rules = \<lparr>wl_Host = [''host:version'', ''host:features'', ''host:devices-l''],
     wl_HostTargetVerbs = [''get-state'', ''get-serialno'', ''get-devpath'', ''features''],
     wl_Transport = True, wl_Device = [], wl_DevicePatterns = []\<rparr>"

definition DefaultPolicy :: policy where
  "DefaultPolicy = \<lparr>pl_MaxStaleness = DefaultMaxStaleness, pl_MaxHostFrames = DefaultMaxHostFrames,
     pl_LeaseHost = [''host:version'', ''host:features''],
     pl_Rules = [ClassMaintenance \<mapsto> maintenance_rules, ClassEnroll \<mapsto> enroll_rules, ClassControl \<mapsto> control_rules]\<rparr>"

section \<open>Widening a policy\<close>

text \<open>The refusal of a pattern that could never be consulted; \<open>None\<close> stands for a nil pattern.\<close>

definition pattern_error :: "string \<Rightarrow> nat \<Rightarrow> re option \<Rightarrow> string option" where
  "pattern_error c i q =
     (case q of
        None \<Rightarrow> Some (''fenceproxy: pattern '' @ nat_str i @ '' for class '' @ go_quote c @ '' is nil'')
      | Some p \<Rightarrow>
          (case literal_prefix p of
             (prefix, True) \<Rightarrow>
               (let k = sv_Kind (ParseService prefix) in
                if k \<noteq> KindDevice
                then Some (''fenceproxy: pattern '' @ nat_str i @ '' for class '' @ go_quote c @ '' matches only '' @ go_quote prefix @
                       '', which parses as a '' @ kind_text k @ '' service rather than a device service; it would sit in '' @
                       ''ServiceRules.DevicePatterns where nothing consults it'')
                else None)
           | (prefix, False) \<Rightarrow>
               map_option (\<lambda>head. ''fenceproxy: pattern '' @ nat_str i @ '' for class '' @ go_quote c @ '' begins '' @ go_quote prefix @
                     '', so it can only ever match a '' @ head @ [CHR 0xE2, CHR 0x80, CHR 0xA6] @
                     '' service and never a device service; device patterns are consulted for device services alone'')
                 (List.find (\<lambda>head. has_prefix head prefix \<or> has_prefix prefix head \<and> prefix \<noteq> []) (''host:'' # hostTargetPrefixes))))"

definition AllowingDeviceServices :: "policy \<Rightarrow> string \<Rightarrow> string list \<Rightarrow> re option list \<Rightarrow> string + policy" where
  "AllowingDeviceServices p c literals patterns =
     (case pl_Rules p c of
        None \<Rightarrow> Inl (''fenceproxy: class '' @ go_quote c @ '' has no entry in Policy.Rules, so there is no whitelist to widen; '' @
                  ''a class'' @ [CHR 0x27] @ ''s bound is decided in DefaultPolicy, not added from outside it'')
      | Some rules \<Rightarrow>
          (case List.find (\<lambda>s. sv_Kind (ParseService s) \<noteq> KindDevice) literals of
             Some s \<Rightarrow> Inl (''fenceproxy: '' @ go_quote s @ '' parses as a '' @ kind_text (sv_Kind (ParseService s)) @
               '' service, not a device service; only device services may be published this way, because a host service put here '' @
               ''would sit in ServiceRules.Device where nothing ever matches it and the caller would believe it had granted something'')
           | None \<Rightarrow>
               (case List.map_filter (\<lambda>(i, q). pattern_error c i q) (List.enumerate 0 patterns) of
                  e # _ \<Rightarrow> Inl e
                | [] \<Rightarrow>
                    Inr (p\<lparr>pl_Rules := (pl_Rules p)(c \<mapsto> rules\<lparr>wl_Device := wl_Device rules @ literals,
                           wl_DevicePatterns := wl_DevicePatterns rules @ List.map_filter id patterns\<rparr>)\<rparr>))))"

section \<open>The decision\<close>

text \<open>What the proxy knows of a position; \<open>vw_ObservedAt\<close> is on its own clock.\<close>

record view =
  vw_Floor :: int
  vw_Known :: bool
  vw_ObservedAt :: "int option"

definition Age :: "view \<Rightarrow> int \<Rightarrow> duration" where
  "Age v now =
     (if \<not> vw_Known v then 0
      else case vw_ObservedAt v of None \<Rightarrow> 0 | Some t \<Rightarrow> if now - t > 0 then now - t else 0)"

definition orAny :: "string \<Rightarrow> string" where
  "orAny devpath = (if devpath = [] then ''whatever device the server chooses'' else devpath)"

definition refuseOffTarget :: "request \<Rightarrow> service \<Rightarrow> policy \<Rightarrow> decision option" where
  "refuseOffTarget req svc pol =
     (case sv_Kind svc of
        KindHost \<Rightarrow>
          if sv_Raw svc \<notin> set (pl_LeaseHost pol)
          then Some (decided OutcomeRefuseService (''service '' @ go_quote (sv_Raw svc) @ '' is not one a '' @
                 id_Class (rq_Identity req) @ ''-class connection may issue; address your own device instead''))
          else None
      | KindDevice \<Rightarrow>
          if rq_Bound req \<noteq> cm_Devpath (rq_Claim req)
          then Some (decided OutcomeRefuseTarget ''a device service needs a transport switched to the claimed devpath first'')
          else None
      | KindInvalid \<Rightarrow> None
      | _ \<Rightarrow>
          if sv_Devpath svc \<noteq> cm_Devpath (rq_Claim req)
          then Some (decided OutcomeRefuseTarget (''this connection claims '' @ cm_Devpath (rq_Claim req) @ '' and addressed '' @
                 orAny (sv_Devpath svc)))
          else None)"

definition fence_verdict :: "request \<Rightarrow> view \<Rightarrow> int \<Rightarrow> policy \<Rightarrow> decision" where
  "fence_verdict req v now pol =
     (let age = Age v now; dp = cm_Devpath (rq_Claim req); fence = cm_Fence (rq_Claim req) in
      if vw_Known v \<and> fence < vw_Floor v
      then \<lparr>dc_Outcome = OutcomeRefuseFenced, dc_Reason = ''fence '' @ int_str fence @ '' is below the floor '' @ int_str (vw_Floor v) @
             '' on '' @ dp @ ''; this claim is dead, do not retry'', dc_Terminal = True, dc_Retryable = False, dc_ViewAge = age\<rparr>
      else if vw_Known v \<and> age \<le> pl_MaxStaleness pol
      then (decided OutcomeAdmit ''fence is at or above the floor'')\<lparr>dc_ViewAge := age\<rparr>
      else \<lparr>dc_Outcome = OutcomeRefuseUnknown,
             dc_Reason = (if vw_Known v
               then ''the fence floor for '' @ dp @ '' was last read '' @ duration_str (duration_round age 1000000) @ '' ago, past the '' @
                    duration_str (pl_MaxStaleness pol) @ '' budget; this is not a fence, retry shortly''
               else ''no fence floor has been read for '' @ dp @ '' yet; retry shortly''),
             dc_Terminal = False, dc_Retryable = True, dc_ViewAge = age\<rparr>)"

text \<open>The part of \<^verbatim>\<open>Admit\<close> after the identity: the whitelist, then the fence.\<close>

definition admit_service :: "request \<Rightarrow> service \<Rightarrow> view \<Rightarrow> int \<Rightarrow> policy \<Rightarrow> service_rules option \<Rightarrow> decision" where
  "admit_service req svc v now pol rules =
     (let cls = id_Class (rq_Identity req); carries = CarriesFence cls in
      if sv_Kind svc = KindInvalid
      then decided OutcomeRefuseMalformed ''service string did not parse as an ADB host, target, transport or device service''
      else if Option.is_none rules \<and> \<not> carries
      then decided OutcomeRefuseService (''class '' @ go_quote cls @ '' is bounded by neither a service whitelist nor a fence; '' @
             ''it is in Class.Valid and missing from Policy.Rules'')
      else if (case rules of None \<Rightarrow> False | Some r \<Rightarrow> \<not> allows r svc)
      then decided OutcomeRefuseService (''service '' @ go_quote (rq_Service req) @ '' is not on the '' @ cls @ '' whitelist'')
      else if \<not> carries then decided OutcomeAdmit (''whitelisted for '' @ cls)
      else if cm_Devpath (rq_Claim req) = [] \<or> \<not> cm_HasFence (rq_Claim req)
      then decided OutcomeRefuseMalformed (''a '' @ cls @ ''-class connection must present devpath and fence in its preamble'')
      else case refuseOffTarget req svc pol of
             Some d \<Rightarrow> d
           | None \<Rightarrow> fence_verdict req v now pol)"

definition Admit :: "request \<Rightarrow> view \<Rightarrow> int \<Rightarrow> policy \<Rightarrow> decision" where
  "Admit req v now pol0 =
     (let pol = normalized pol0; i = rq_Identity req; cls = id_Class i; svc = ParseService (rq_Service req);
          rules = pl_Rules pol cls
      in if \<not> class_Valid cls
         then decided OutcomeRefuseIdentity (''client certificate names class '' @ go_quote cls @
                ''; this proxy knows lease, maintenance and enroll'')
         else case id_NotAfter i of
           Some t \<Rightarrow>
             if \<not> now < t
             then (decided OutcomeRefuseCertLapsed (''client certificate for '' @ go_quote (id_Subject i) @ '' lapsed at '' @ rfc3339 t @
                    ''; renew it and retry, your lease is untouched''))\<lparr>dc_Retryable := True\<rparr>
             else admit_service req svc v now pol rules
         | None \<Rightarrow> admit_service req svc v now pol rules)"

end
