(* ===== verification/Fence_Session.thy ===== *)
theory Fence_Session
  imports Fence_Proxy
begin

text \<open>
  \<^verbatim>\<open>internal/fenceproxy/proxy.go\<close>, the connection: the cache of floors and its watchers, framing, the
  gate in front of the device, and a session from its preamble to the opaque stream. The database is
  reached only through a read of the floors, whose failure changes nothing. Goroutines are explicit:
  what the cache holds and what the clock says at each frame, and the order in which chunks and the
  fencing fact reach the gate, are arguments.
\<close>

section \<open>What the proxy knows\<close>

text \<open>A watcher is a position and the fence claimed there; its number stands for its channel.\<close>

record watcher =
  wt_id :: nat
  wt_devpath :: string
  wt_fence :: int

record cache =
  fc_floors :: "string \<rightharpoonup> int"
  fc_seen :: "int option"
  fc_watchers :: "watcher list"

type_synonym snapshot = "(string \<times> int) list"

definition NewCache :: cache where
  "NewCache = \<lparr>fc_floors = Map.empty, fc_seen = None, fc_watchers = []\<rparr>"

definition raise_floor :: "string \<times> int \<Rightarrow> (string \<rightharpoonup> int) \<Rightarrow> string \<rightharpoonup> int" where
  "raise_floor df m = (case m (fst df) of
      Some cur \<Rightarrow> if snd df > cur then m(fst df \<mapsto> snd df) else m
    | None \<Rightarrow> m(fst df \<mapsto> snd df))"

definition proven_stale :: "(string \<rightharpoonup> int) \<Rightarrow> watcher \<Rightarrow> bool" where
  "proven_stale m w \<longleftrightarrow> (case m (wt_devpath w) of Some f \<Rightarrow> wt_fence w < f | None \<Rightarrow> False)"

text \<open>\<^verbatim>\<open>Apply\<close>: the watchers it fires, and the cache after.\<close>

definition Apply :: "int \<Rightarrow> snapshot \<Rightarrow> cache \<Rightarrow> watcher list \<times> cache" where
  "Apply stamp s c =
     (let m = fold raise_floor s (fc_floors c)
      in (filter (proven_stale m) (fc_watchers c),
          \<lparr>fc_floors = m, fc_seen = Some stamp, fc_watchers = filter (\<lambda>w. \<not> proven_stale m w) (fc_watchers c)\<rparr>))"

definition cache_View :: "cache \<Rightarrow> string \<Rightarrow> view" where
  "cache_View c devpath =
     (case fc_floors c devpath of
        None \<Rightarrow> \<lparr>vw_Floor = 0, vw_Known = False, vw_ObservedAt = None\<rparr>
      | Some f \<Rightarrow> \<lparr>vw_Floor = f, vw_Known = True, vw_ObservedAt = fc_seen c\<rparr>)"

text \<open>\<^verbatim>\<open>Watch\<close>: whether the channel is closed at once, and the cache after.\<close>

definition Watch :: "watcher \<Rightarrow> cache \<Rightarrow> bool \<times> cache" where
  "Watch w c =
     (if proven_stale (fc_floors c) w then (True, c) else (False, c\<lparr>fc_watchers := w # fc_watchers c\<rparr>))"

definition unwatch :: "nat \<Rightarrow> cache \<Rightarrow> cache" where
  "unwatch i c = c\<lparr>fc_watchers := filter (\<lambda>w. wt_id w \<noteq> i) (fc_watchers c)\<rparr>"

text \<open>One turn of \<^verbatim>\<open>Poll\<close>: a failed read changes nothing.\<close>

definition poll_once :: "int \<Rightarrow> unit + snapshot \<Rightarrow> cache \<Rightarrow> watcher list \<times> cache" where
  "poll_once stamp r c = (case r of Inl _ \<Rightarrow> ([], c) | Inr s \<Rightarrow> Apply stamp s c)"

text \<open>The cache shared by the poller and the sessions, as the steps any of them may take.\<close>

inductive cache_step :: "watcher list \<Rightarrow> cache \<Rightarrow> cache \<Rightarrow> bool" where
  polled: "poll_once stamp r c = (fired, c') \<Longrightarrow> cache_step fired c c'"
| watched: "Watch w c = (now, c') \<Longrightarrow> cache_step (if now then [w] else []) c c'"
| unwatched: "cache_step [] c (unwatch i c)"

inductive_cases cache_stepE: "cache_step fired c c'"

inductive cache_run :: "watcher list \<Rightarrow> cache \<Rightarrow> cache \<Rightarrow> bool" where
  start: "cache_run [] c c"
| step: "cache_run fired c c1 \<Longrightarrow> cache_step later c1 c2 \<Longrightarrow> cache_run (fired @ later) c c2"

section \<open>Framing\<close>

datatype frame_error = FrameRead read_error | FrameBad

definition readFrame :: "string \<Rightarrow> frame_error + string \<times> string" where
  "readFrame s =
     (case read_full 4 s of
        Inl e \<Rightarrow> Inl (FrameRead e)
      | Inr (hdr, rest) \<Rightarrow>
          (case parse_hex 0 hdr of
             None \<Rightarrow> Inl FrameBad
           | Some n \<Rightarrow>
               if n = 0 then Inr ([], rest)
               else (case read_full n rest of Inl e \<Rightarrow> Inl (FrameRead e) | Inr x \<Rightarrow> Inr x)))"

text \<open>\<open>None\<close> is a payload the prefix cannot describe.\<close>

definition writeFrame :: "string \<Rightarrow> string option" where
  "writeFrame payload = (if int (length payload) > maxFrame then None else Some (putHex4 (length payload) @ payload))"

definition writeFail :: "string \<Rightarrow> string" where
  "writeFail reason =
     (let r = take (nat maxFrame) reason in ''FAIL'' @ (case writeFrame r of Some b \<Rightarrow> b | None \<Rightarrow> []))"

section \<open>The gate\<close>

record gate =
  gt_shut :: bool
  gt_delivered :: string

text \<open>\<^verbatim>\<open>gate.Write\<close>: \<open>None\<close> is \<^verbatim>\<open>ErrShut\<close>.\<close>

definition gate_Write :: "string \<Rightarrow> gate \<Rightarrow> gate option" where
  "gate_Write p g = (if gt_shut g then None else Some (g\<lparr>gt_delivered := gt_delivered g @ p\<rparr>))"

definition Shut :: "gate \<Rightarrow> gate" where
  "Shut g = g\<lparr>gt_shut := True\<rparr>"

section \<open>A session\<close>

text \<open>What a session meets at its n-th frame: the cache, the clock, and whether the dial works.\<close>

record frame_env =
  fe_cache :: cache
  fe_now :: int
  fe_dial :: bool
  fe_fact :: bool      \<comment> \<open>the fencing fact has shut the gate, or the socket fails, before this frame is written\<close>

datatype session_end =
    PreambleUnread frame_error
  | Refused decision string          \<comment> \<open>the decision and the service it was about\<close>
  | ServiceUnread frame_error
  | DialFailed
  | ForwardFailed
  | Opaque string                    \<comment> \<open>framing ended; the bytes the client sent after\<close>

text \<open>
  The framing loop: the services forwarded and how it ended. \<open>n\<close> counts frames; the gate refuses a
  frame once the fact has arrived, and the loop ends because it forwards at most
  \<^verbatim>\<open>MaxHostFrames\<close> of them.
\<close>

function frame_loop ::
  "identity \<Rightarrow> policy \<Rightarrow> (nat \<Rightarrow> frame_env) \<Rightarrow> claim \<Rightarrow> nat \<Rightarrow> string \<Rightarrow> bool \<Rightarrow> string \<Rightarrow> string list \<times> session_end" where
  "frame_loop ident pol env cm n bound dialled bytes =
     (if int n \<ge> pl_MaxHostFrames pol
      then ([], Refused (decided OutcomeRefuseMalformed (''more than '' @ int_str (pl_MaxHostFrames pol) @
             '' host-protocol frames before the stream went opaque'')) [])
      else case readFrame bytes of
        Inl e \<Rightarrow> ([], ServiceUnread e)
      | Inr (svc, rest) \<Rightarrow>
          (let e = env n;
               req = \<lparr>rq_Identity = ident, rq_Claim = cm, rq_Service = svc, rq_Bound = bound\<rparr>;
               dec = Admit req (cache_View (fe_cache e) (cm_Devpath cm)) (fe_now e) pol
           in if \<not> Admitted dec then ([], Refused dec svc)
              else if \<not> dialled \<and> \<not> fe_dial e then ([], DialFailed)
              else if fe_fact e \<or> writeFrame svc = None then ([], ForwardFailed)
              else if sv_Kind (ParseService svc) = KindTransport
              then (let (fwd, out) = frame_loop ident pol env cm (Suc n) (sv_Devpath (ParseService svc)) True rest
                    in (svc # fwd, out))
              else ([svc], Opaque rest)))"
  by pat_completeness auto
termination
  by (relation "measure (\<lambda>(_, pol, _, _, n, _). nat (pl_MaxHostFrames pol) - n)") auto

declare frame_loop.simps [simp del]

definition session_Run :: "identity \<Rightarrow> policy \<Rightarrow> (nat \<Rightarrow> frame_env) \<Rightarrow> string \<Rightarrow> string list \<times> session_end" where
  "session_Run ident pol0 env bytes =
     (let pol = normalized pol0 in
      case readFrame bytes of
        Inl e \<Rightarrow> ([], PreambleUnread e)
      | Inr (pre, rest) \<Rightarrow>
          (case ParsePreamble pre of
             Inl err \<Rightarrow> ([], Refused (decided OutcomeRefuseMalformed err) [])
           | Inr cm \<Rightarrow> frame_loop ident pol env cm 0 [] False rest))"

text \<open>The opaque stream: chunks copied through the gate, and the fact that shuts it.\<close>

datatype stream_event = Chunk string | Fact

fun stream :: "stream_event list \<Rightarrow> gate \<Rightarrow> gate" where
  "stream [] g = g"
| "stream (Chunk p # es) g = (case gate_Write p g of None \<Rightarrow> stream es g | Some g' \<Rightarrow> stream es g')"
| "stream (Fact # es) g = stream es (Shut g)"

end
