(* ===== verification/Fence_Correct.thy ===== *)
theory Fence_Correct
  imports Fence_Session Farm_System
begin

text \<open>
  What admission, the cache and the sessions guarantee, and the read that connects them to the farm:
  \<^verbatim>\<open>hostFloors.Floors\<close> of \<^verbatim>\<open>internal/node/fencesource.go\<close>.
\<close>

section \<open>Admission\<close>

lemma normalized_Rules [simp]: "pl_Rules (normalized p) = pl_Rules p" "pl_LeaseHost (normalized p) = pl_LeaseHost p"
  by (simp_all add: normalized_def)

lemma normalized_idem [simp]: "normalized (normalized p) = normalized p"
  by (simp add: normalized_def DefaultMaxStaleness_def DefaultMaxHostFrames_def Second_def)

lemma decided_simps [simp]:
  "dc_Outcome (decided oc r) = oc" "dc_Terminal (decided oc r) = False" "dc_Retryable (decided oc r) = False"
  by (simp_all add: decided_def)

lemma refuseOffTarget_Some:
  "refuseOffTarget req svc pol = Some d \<Longrightarrow>
     dc_Outcome d \<in> {OutcomeRefuseService, OutcomeRefuseTarget} \<and> \<not> dc_Terminal d \<and> \<not> dc_Retryable d"
  by (auto simp: refuseOffTarget_def split: service_kind.splits if_splits)

text \<open>The position a service acts on, given the transport the connection is switched to.\<close>

definition acts_on :: "service \<Rightarrow> string \<Rightarrow> string option" where
  "acts_on svc bound =
     (case sv_Kind svc of
        KindHostTarget \<Rightarrow> Some (sv_Devpath svc) | KindTransport \<Rightarrow> Some (sv_Devpath svc)
      | KindDevice \<Rightarrow> Some bound | _ \<Rightarrow> None)"

lemma refuseOffTarget_None:
  assumes "refuseOffTarget req svc pol = None" and "acts_on svc (rq_Bound req) = Some dp"
  shows "dp = cm_Devpath (rq_Claim req)"
  using assms by (auto simp: refuseOffTarget_def acts_on_def split: service_kind.splits if_splits)

lemma refuseOffTarget_host:
  "refuseOffTarget req svc pol = None \<Longrightarrow> sv_Kind svc = KindHost \<Longrightarrow> sv_Raw svc \<in> set (pl_LeaseHost pol)"
  by (auto simp: refuseOffTarget_def split: if_splits)

definition identity_ok :: "identity \<Rightarrow> int \<Rightarrow> bool" where
  "identity_ok i now \<longleftrightarrow> class_Valid (id_Class i) \<and> (case id_NotAfter i of None \<Rightarrow> True | Some t \<Rightarrow> now < t)"

lemma Admit_service:
  assumes "identity_ok (rq_Identity req) now"
  shows "Admit req v now pol =
    admit_service req (ParseService (rq_Service req)) v now (normalized pol) (pl_Rules pol (id_Class (rq_Identity req)))"
  using assms by (auto simp: Admit_def identity_ok_def Let_def split: option.split)

lemma Admit_refuses_identity:
  assumes "\<not> identity_ok (rq_Identity req) now"
  shows "dc_Outcome (Admit req v now pol) \<in> {OutcomeRefuseIdentity, OutcomeRefuseCertLapsed} \<and> \<not> dc_Terminal (Admit req v now pol)"
  using assms by (auto simp: Admit_def identity_ok_def Let_def split: option.split)

text \<open>What an admission of a fence-carrying connection has checked.\<close>

lemma Admit_fenced:
  assumes adm: "Admitted (Admit req v now pol)" and fence: "CarriesFence (id_Class (rq_Identity req))"
  shows "identity_ok (rq_Identity req) now \<and> cm_Devpath (rq_Claim req) \<noteq> [] \<and> cm_HasFence (rq_Claim req) \<and> vw_Known v \<and>
    vw_Floor v \<le> cm_Fence (rq_Claim req) \<and> Age v now \<le> pl_MaxStaleness (normalized pol) \<and>
    refuseOffTarget req (ParseService (rq_Service req)) (normalized pol) = None \<and> sv_Kind (ParseService (rq_Service req)) \<noteq> KindInvalid"
proof -
  have i: "identity_ok (rq_Identity req) now"
    using adm Admit_refuses_identity [of req now v pol] by (auto simp: Admitted_def)
  show ?thesis
    using adm fence i refuseOffTarget_Some [of req "ParseService (rq_Service req)" "normalized pol"]
    unfolding Admit_service [OF i] Admitted_def admit_service_def fence_verdict_def
    by (auto simp: Let_def split: if_splits option.splits)
qed

lemma Admit_whitelisted:
  assumes adm: "Admitted (Admit req v now pol)" and rules: "pl_Rules pol (id_Class (rq_Identity req)) = Some r"
  shows "allows r (ParseService (rq_Service req))"
proof -
  have i: "identity_ok (rq_Identity req) now"
    using adm Admit_refuses_identity [of req now v pol] by (auto simp: Admitted_def)
  show ?thesis
    using adm rules unfolding Admit_service [OF i] Admitted_def admit_service_def by (auto simp: Let_def split: if_splits)
qed

lemma Admit_unruled:
  assumes "Admitted (Admit req v now pol)" and "\<not> CarriesFence (id_Class (rq_Identity req))"
  shows "\<exists>r. pl_Rules pol (id_Class (rq_Identity req)) = Some r"
proof -
  have i: "identity_ok (rq_Identity req) now"
    using assms Admit_refuses_identity [of req now v pol] by (auto simp: Admitted_def)
  show ?thesis
    using assms unfolding Admit_service [OF i] Admitted_def admit_service_def by (auto simp: Let_def Option.is_none_def split: if_splits)
qed

text \<open>Terminal is the fencing fact and nothing else.\<close>

lemma Admit_terminal:
  "dc_Terminal (Admit req v now pol) \<longleftrightarrow> dc_Outcome (Admit req v now pol) = OutcomeRefuseFenced"
  "dc_Terminal (Admit req v now pol) \<Longrightarrow> vw_Known v \<and> cm_Fence (rq_Claim req) < vw_Floor v"
proof -
  have "(dc_Terminal (Admit req v now pol) \<longleftrightarrow> dc_Outcome (Admit req v now pol) = OutcomeRefuseFenced) \<and>
    (dc_Terminal (Admit req v now pol) \<longrightarrow> vw_Known v \<and> cm_Fence (rq_Claim req) < vw_Floor v)"
  proof (cases "identity_ok (rq_Identity req) now")
    case True
    then show ?thesis
      using refuseOffTarget_Some [of req "ParseService (rq_Service req)" "normalized pol"]
      unfolding Admit_service [OF True] admit_service_def fence_verdict_def
      by (auto simp: Let_def split: option.splits)
  next
    case False
    then show ?thesis using Admit_refuses_identity [OF False, of v pol] by auto
  qed
  then show "dc_Terminal (Admit req v now pol) \<longleftrightarrow> dc_Outcome (Admit req v now pol) = OutcomeRefuseFenced"
    and "dc_Terminal (Admit req v now pol) \<Longrightarrow> vw_Known v \<and> cm_Fence (rq_Claim req) < vw_Floor v" by blast+
qed

text \<open>Not knowing is an outcome of its own, and it invites a retry.\<close>

lemma Admit_unknown:
  assumes "dc_Outcome (Admit req v now pol) = OutcomeRefuseUnknown"
  shows "dc_Retryable (Admit req v now pol) \<and> \<not> dc_Terminal (Admit req v now pol) \<and>
    (\<not> vw_Known v \<or> pl_MaxStaleness (normalized pol) < Age v now)"
proof -
  have i: "identity_ok (rq_Identity req) now" using assms Admit_refuses_identity [of req now v pol] by auto
  show ?thesis
    using assms refuseOffTarget_Some [of req "ParseService (rq_Service req)" "normalized pol"]
    unfolding Admit_service [OF i] admit_service_def fence_verdict_def
    by (auto simp: Let_def split: if_splits option.splits)
qed

section \<open>The cache\<close>

lemma raise_floor_le: "m dp = Some f \<Longrightarrow> \<exists>f'. raise_floor x m dp = Some f' \<and> f \<le> f'"
  by (auto simp: raise_floor_def split: option.split)

lemma fold_raise_floor_le: "m dp = Some f \<Longrightarrow> \<exists>f'. fold raise_floor s m dp = Some f' \<and> f \<le> f'"
proof (induction s arbitrary: m f)
  case (Cons x s)
  obtain f1 where f1: "raise_floor x m dp = Some f1" "f \<le> f1" using raise_floor_le [of m dp f x] Cons.prems by blast
  from Cons.IH [of "raise_floor x m" f1] f1 show ?case by fastforce
qed simp

lemma fold_raise_floor_mem: "(dp, f) \<in> set s \<Longrightarrow> \<exists>f'. fold raise_floor s m dp = Some f' \<and> f \<le> f'"
proof (induction s arbitrary: m)
  case (Cons x s)
  show ?case
  proof (cases "x = (dp, f)")
    case True
    have "\<exists>f1. raise_floor x m dp = Some f1 \<and> f \<le> f1" using True by (auto simp: raise_floor_def split: option.split)
    then obtain f1 where f1: "raise_floor x m dp = Some f1" "f \<le> f1" by blast
    from fold_raise_floor_le [of "raise_floor x m" dp f1 s] f1 show ?thesis by fastforce
  next
    case False
    then show ?thesis using Cons by simp
  qed
qed simp

lemma fold_raise_floor_src: "fold raise_floor s m dp = Some f \<Longrightarrow> m dp = Some f \<or> (dp, f) \<in> set s"
proof (induction s arbitrary: m)
  case (Cons x s)
  then have "raise_floor x m dp = Some f \<or> (dp, f) \<in> set s" by simp
  then show ?case by (cases x) (auto simp: raise_floor_def split: option.splits if_splits)
qed simp

text \<open>Floors only rise, and a watcher fires exactly when a read has put a floor above its fence.\<close>

definition quiet :: "cache \<Rightarrow> bool" where
  "quiet c \<longleftrightarrow> list_all (\<lambda>w. \<not> proven_stale (fc_floors c) w) (fc_watchers c)"

lemma cache_step_floors:
  assumes "cache_step fired c c'" and "fc_floors c dp = Some f"
  shows "\<exists>f'. fc_floors c' dp = Some f' \<and> f \<le> f'"
  using assms(1)
proof cases
  case polled
  then show ?thesis using assms(2) fold_raise_floor_le [of "fc_floors c" dp f]
    by (auto simp: poll_once_def Apply_def Let_def split: sum.splits)
next
  case watched
  then show ?thesis using assms(2) by (auto simp: Watch_def split: if_splits)
next
  case unwatched
  then show ?thesis using assms(2) by (auto simp: unwatch_def)
qed

lemma proven_stale_step: "cache_step fired c c' \<Longrightarrow> proven_stale (fc_floors c) w \<Longrightarrow> proven_stale (fc_floors c') w"
  by (auto simp: proven_stale_def split: option.splits dest!: cache_step_floors)

lemma cache_step_fired: "cache_step fired c c' \<Longrightarrow> w \<in> set fired \<Longrightarrow> proven_stale (fc_floors c') w"
  by (erule cache_stepE) (auto simp: poll_once_def Apply_def Watch_def Let_def split: sum.splits if_splits)

lemma quiet_step: "cache_step fired c c' \<Longrightarrow> quiet c \<Longrightarrow> quiet c'"
  by (erule cache_stepE)
    (auto simp: quiet_def list_all_iff poll_once_def Apply_def Watch_def unwatch_def Let_def split: sum.splits if_splits)

lemma cache_run_floors:
  assumes "cache_run fired c c'" and "fc_floors c dp = Some f"
  shows "\<exists>f'. fc_floors c' dp = Some f' \<and> f \<le> f'"
  using assms
proof (induction rule: cache_run.induct)
  case (step fired c c1 later c2)
  then obtain f1 where "fc_floors c1 dp = Some f1" "f \<le> f1" by blast
  with cache_step_floors [OF step(2), of dp f1] show ?case by fastforce
qed auto

lemma cache_run_quiet:
  assumes "cache_run fired c c'" and "quiet c"
  shows "quiet c' \<and> list_all (proven_stale (fc_floors c')) fired"
  using assms
  by (induction rule: cache_run.induct) (auto simp: list_all_iff intro: proven_stale_step cache_step_fired quiet_step)

section \<open>Sessions\<close>

text \<open>A frame is forwarded only when it was admitted, on the view and the clock of its own moment.\<close>

definition forwarded_ok :: "identity \<Rightarrow> policy \<Rightarrow> claim \<Rightarrow> frame_env \<Rightarrow> string \<Rightarrow> string \<Rightarrow> bool" where
  "forwarded_ok ident pol cm e bound svc \<longleftrightarrow> \<not> fe_fact e \<and>
     Admitted (Admit \<lparr>rq_Identity = ident, rq_Claim = cm, rq_Service = svc, rq_Bound = bound\<rparr>
       (cache_View (fe_cache e) (cm_Devpath cm)) (fe_now e) pol)"

definition switched_to :: "string \<Rightarrow> string list \<Rightarrow> nat \<Rightarrow> string" where
  "switched_to bound fwd i = (if i = 0 then bound else sv_Devpath (ParseService (fwd ! (i - 1))))"

lemma switched_to_Cons: "switched_to bound (svc # fwd) (Suc i) = switched_to (sv_Devpath (ParseService svc)) fwd i"
  by (cases i) (simp_all add: switched_to_def)

lemma frame_loop_forwards:
  assumes "frame_loop ident pol env cm n bound dialled bytes = (fwd, out)" and "i < length fwd"
  shows "forwarded_ok ident pol cm (env (n + i)) (switched_to bound fwd i) (fwd ! i) \<and>
    (Suc i < length fwd \<longrightarrow> sv_Kind (ParseService (fwd ! i)) = KindTransport) \<and>
    int (n + i) < pl_MaxHostFrames pol"
  using assms
proof (induction ident pol env cm n bound dialled bytes arbitrary: fwd out i rule: frame_loop.induct)
  case (1 ident pol env cm n bound dialled bytes)
  have room: "\<not> pl_MaxHostFrames pol \<le> int n" using 1(2,3) by (auto simp: frame_loop.simps [of ident])
  obtain svc rest where rd: "readFrame bytes = Inr (svc, rest)"
    using 1(2,3) room by (cases "readFrame bytes") (auto simp: frame_loop.simps [of ident])
  define dec where "dec = Admit \<lparr>rq_Identity = ident, rq_Claim = cm, rq_Service = svc, rq_Bound = bound\<rparr>
       (cache_View (fe_cache (env n)) (cm_Devpath cm)) (fe_now (env n)) pol"
  have ok: "Admitted dec" "dialled \<or> fe_dial (env n)" "\<not> fe_fact (env n)" "writeFrame svc \<noteq> None"
    using 1(2,3) room rd by (auto simp: frame_loop.simps [of ident] Let_def dec_def [symmetric] split: if_splits)
  have here: "forwarded_ok ident pol cm (env n) bound svc" using ok by (simp add: forwarded_ok_def dec_def)
  show ?case
  proof (cases "sv_Kind (ParseService svc) = KindTransport")
    case True
    obtain fwd' out' where rec: "frame_loop ident pol env cm (Suc n) (sv_Devpath (ParseService svc)) True rest = (fwd', out')" by fastforce
    have fwd: "fwd = svc # fwd'"
      using 1(2) room rd ok rec True by (auto simp: frame_loop.simps [of ident _ _ _ n] Let_def dec_def [symmetric] split: if_splits)
    show ?thesis
    proof (cases i)
      case 0
      then show ?thesis using here True room by (simp add: fwd switched_to_def)
    next
      case (Suc j)
      then have "j < length fwd'" using 1(3) fwd by simp
      with 1(1) [OF room rd refl refl refl refl _ _ _ True rec] ok
      show ?thesis by (simp add: fwd Suc switched_to_Cons dec_def)
    qed
  next
    case False
    then have "fwd = [svc]"
      using 1(2) room rd ok by (auto simp: frame_loop.simps [of ident _ _ _ n] Let_def dec_def [symmetric] split: if_splits)
    then show ?thesis using here 1(3) room by (simp add: switched_to_def)
  qed
qed

lemma session_Run_forwards:
  assumes "session_Run ident pol env bytes = (fwd, out)" and "fwd \<noteq> []"
  obtains pre rest cm where "readFrame bytes = Inr (pre, rest)" "ParsePreamble pre = Inr cm"
    "frame_loop ident (normalized pol) env cm 0 [] False rest = (fwd, out)"
  using assms by (auto simp: session_Run_def Let_def split: sum.splits prod.splits)

section \<open>The gate\<close>

lemma stream_shut: "gt_shut g \<Longrightarrow> stream es g = g"
  by (induction es g rule: stream.induct) (auto simp: gate_Write_def Shut_def)

lemma stream_append: "stream (es @ es') g = stream es' (stream es g)"
  by (induction es g rule: stream.induct) (auto split: option.split)

lemma stream_after_fact: "gt_delivered (stream (es @ Fact # es') g) = gt_delivered (stream es g)"
  by (simp add: stream_append stream_shut Shut_def)

lemma stream_before_fact: "\<not> gt_shut g \<Longrightarrow> gt_delivered (stream (map Chunk ps) g) = gt_delivered g @ concat ps"
  by (induction ps arbitrary: g) (auto simp: gate_Write_def)

end
