(* ===== verification/Fence_Source.thy ===== *)
theory Fence_Source
  imports Fence_Correct "HOL-Library.AList"
begin

text \<open>
  The read that connects the proxy to the farm, \<^verbatim>\<open>hostFloors.Floors\<close> of
  \<^verbatim>\<open>internal/node/fencesource.go\<close>: every position of the host that holds a device, with the floor of
  the device in it. A floor belongs to the device; the cache keeps it under the position.
\<close>

definition floor_rows :: "string \<Rightarrow> farm \<Rightarrow> (string \<times> int) list" where
  "floor_rows host db =
     List.map_filter (\<lambda>d. if d_host d = Some host then map_option (\<lambda>s. (s_adb_devpath s, d_fence_floor d)) (slot_of_device db d)
                          else None) (devices db)"

definition host_floors :: "string \<Rightarrow> farm \<Rightarrow> snapshot" where
  "host_floors host db = fold (\<lambda>(devpath, f). AList.update devpath f) (floor_rows host db) []"

lemma update_subset: "set (AList.update k v al) \<subseteq> insert (k, v) (set al)"
  by (induction al) auto

lemma fold_update_subset: "set (fold (\<lambda>(k, v). AList.update k v) rows al) \<subseteq> set rows \<union> set al"
proof (induction rows arbitrary: al)
  case (Cons r rows)
  from Cons [of "AList.update (fst r) (snd r) al"] update_subset [of "fst r" "snd r" al] show ?case
    by (auto simp: split_def)
qed simp

lemma fold_update_keys: "fst ` set (fold (\<lambda>(k, v). AList.update k v) rows al) = fst ` set rows \<union> fst ` set al"
proof (induction rows arbitrary: al)
  case (Cons r rows)
  have "fst ` set (AList.update (fst r) (snd r) al) = insert (fst r) (fst ` set al)"
    by (metis update_conv' dom_map_of_conv_image_fst dom_fun_upd option.simps(3))
  then show ?case using Cons [of "AList.update (fst r) (snd r) al"] by (auto simp: split_def)
qed simp

text \<open>The device sits at the position, and no other device of the host does: the schema's unique indexes.\<close>

definition sits_at :: "farm \<Rightarrow> device_row \<Rightarrow> string \<Rightarrow> string \<Rightarrow> bool" where
  "sits_at db d host devpath \<longleftrightarrow> d \<in> set (devices db) \<and> d_host d = Some host \<and>
     map_option s_adb_devpath (slot_of_device db d) = Some devpath"

lemma floor_rows_mem:
  "(dp, f) \<in> set (floor_rows host db) \<longleftrightarrow> (\<exists>d. sits_at db d host dp \<and> f = d_fence_floor d)"
  by (auto simp: floor_rows_def sits_at_def List.map_filter_def image_iff split: if_splits option.splits)

lemma host_floors_sole:
  assumes "sits_at db d host dp" and "\<And>d'. sits_at db d' host dp \<Longrightarrow> d' = d"
  shows "(dp, f) \<in> set (host_floors host db) \<longleftrightarrow> f = d_fence_floor d"
proof
  assume "(dp, f) \<in> set (host_floors host db)"
  then have "(dp, f) \<in> set (floor_rows host db)" using fold_update_subset [of "floor_rows host db" "[]"] by (auto simp: host_floors_def)
  then show "f = d_fence_floor d" using assms(2) by (auto simp: floor_rows_mem)
next
  assume f: "f = d_fence_floor d"
  have "dp \<in> fst ` set (floor_rows host db)" using assms(1) floor_rows_mem by force
  then have "dp \<in> fst ` set (host_floors host db)"
    using fold_update_keys [of "floor_rows host db" "[]"] by (simp add: host_floors_def)
  then obtain g where g: "(dp, g) \<in> set (host_floors host db)" by force
  then have "(dp, g) \<in> set (floor_rows host db)" using fold_update_subset [of "floor_rows host db" "[]"] by (auto simp: host_floors_def)
  then show "(dp, f) \<in> set (host_floors host db)" using assms(2) g f by (auto simp: floor_rows_mem)
qed

text \<open>After a read, the floor known for the position is at least the device's, and never more than that or what was known.\<close>

lemma Apply_floor:
  assumes "sits_at db d host dp" and "\<And>d'. sits_at db d' host dp \<Longrightarrow> d' = d"
    and "Apply stamp (host_floors host db) c = (fired, c')"
  obtains f where "fc_floors c' dp = Some f" "d_fence_floor d \<le> f" "f = d_fence_floor d \<or> fc_floors c dp = Some f"
proof -
  have c': "fc_floors c' = fold raise_floor (host_floors host db) (fc_floors c)"
    using assms(3) by (auto simp: Apply_def Let_def)
  have "(dp, d_fence_floor d) \<in> set (host_floors host db)" using host_floors_sole [OF assms(1,2)] by simp
  from fold_raise_floor_mem [OF this, of "fc_floors c"] obtain f where f: "fc_floors c' dp = Some f" "d_fence_floor d \<le> f"
    unfolding c' by blast
  have "fc_floors c dp = Some f \<or> f = d_fence_floor d"
    using fold_raise_floor_src [of "host_floors host db" "fc_floors c" dp f] f(1) host_floors_sole [OF assms(1,2)] unfolding c' by blast
  with f that show thesis by blast
qed

end
