(* ===== verification/Fence_Properties.thy ===== *)
theory Fence_Properties
  imports Fence_Source Farm_Example
begin

text \<open>
  The properties of the fence proxy: what an admission has checked, what a refusal may be read as,
  what a session forwards, and how the floors of the farm reach the device.
\<close>

section \<open>Sessions\<close>

text \<open>
C36: a fenced connection drives its own device only, and only while its fence is current. Whatever
bytes a client of a fence-carrying class sends and whatever the cache and the clock do meanwhile,
each frame the session forwards was admitted against a known floor at most as high as the claimed
fence, read no longer ago than the staleness budget, before any fencing fact had reached the gate;
it is a permitted host service, or it addresses the claimed position, or it is a device service right
behind a transport switched to the claimed position. At most MaxHostFrames frames are forwarded.
\<close>

theorem session_drives_its_own_device:
  assumes "session_Run ident pol env bytes = (fwd, out)" and "CarriesFence (id_Class ident)"
    and i: "i < length fwd"
  shows "\<exists>pre rest cm. readFrame bytes = Inr (pre, rest) \<and> ParsePreamble pre = Inr cm \<and>
    (let e = env i; v = cache_View (fe_cache e) (cm_Devpath cm); svc = ParseService (fwd ! i) in
       \<not> fe_fact e \<and> vw_Known v \<and> vw_Floor v \<le> cm_Fence cm \<and> Age v (fe_now e) \<le> pl_MaxStaleness (normalized pol) \<and>
       (case sv_Kind svc of
          KindHost \<Rightarrow> sv_Raw svc \<in> set (pl_LeaseHost pol)
        | KindHostTarget \<Rightarrow> sv_Devpath svc = cm_Devpath cm
        | KindTransport \<Rightarrow> sv_Devpath svc = cm_Devpath cm
        | KindDevice \<Rightarrow> 0 < i \<and> sv_Kind (ParseService (fwd ! (i - 1))) = KindTransport \<and>
            sv_Devpath (ParseService (fwd ! (i - 1))) = cm_Devpath cm
        | KindInvalid \<Rightarrow> False)) \<and>
    int i < pl_MaxHostFrames (normalized pol)"
proof -
  have "fwd \<noteq> []" using i by auto
  then obtain pre rest cm where run: "readFrame bytes = Inr (pre, rest)" "ParsePreamble pre = Inr cm"
    "frame_loop ident (normalized pol) env cm 0 [] False rest = (fwd, out)"
    using session_Run_forwards [OF assms(1)] by metis
  define req where "req = \<lparr>rq_Identity = ident, rq_Claim = cm, rq_Service = fwd ! i, rq_Bound = switched_to [] fwd i\<rparr>"
  define svc where "svc = ParseService (fwd ! i)"
  define v where "v = cache_View (fe_cache (env i)) (cm_Devpath cm)"
  have prev: "0 < i \<Longrightarrow> sv_Kind (ParseService (fwd ! (i - 1))) = KindTransport"
    using frame_loop_forwards [OF run(3), of "i - 1"] i by (cases i) auto
  have fwd: "forwarded_ok ident (normalized pol) cm (env i) (switched_to [] fwd i) (fwd ! i)" "int i < pl_MaxHostFrames (normalized pol)"
    using frame_loop_forwards [OF run(3) i] by simp_all
  have adm: "Admitted (Admit req v (fe_now (env i)) (normalized pol))" and fact: "\<not> fe_fact (env i)"
    using fwd(1) by (simp_all add: forwarded_ok_def req_def v_def)
  have "CarriesFence (id_Class (rq_Identity req))" using assms(2) by (simp add: req_def)
  from Admit_fenced [OF adm this] have ok: "cm_Devpath cm \<noteq> []" "vw_Known v" "vw_Floor v \<le> cm_Fence cm"
    "Age v (fe_now (env i)) \<le> pl_MaxStaleness (normalized pol)"
    "refuseOffTarget req svc (normalized pol) = None" "sv_Kind svc \<noteq> KindInvalid"
    by (simp_all add: req_def svc_def)
  have "case sv_Kind svc of
      KindHost \<Rightarrow> sv_Raw svc \<in> set (pl_LeaseHost pol)
    | KindHostTarget \<Rightarrow> sv_Devpath svc = cm_Devpath cm
    | KindTransport \<Rightarrow> sv_Devpath svc = cm_Devpath cm
    | KindDevice \<Rightarrow> 0 < i \<and> sv_Kind (ParseService (fwd ! (i - 1))) = KindTransport \<and>
        sv_Devpath (ParseService (fwd ! (i - 1))) = cm_Devpath cm
    | KindInvalid \<Rightarrow> False"
    using ok(1,6) prev refuseOffTarget_host [OF ok(5)] refuseOffTarget_None [OF ok(5)]
    by (cases "sv_Kind svc") (auto simp: req_def acts_on_def switched_to_def split: if_splits)
  then show ?thesis
    using run(1,2) fwd(2) fact ok by (auto simp: svc_def [symmetric] v_def [symmetric] Let_def)
qed

definition ex_ident :: identity where
  "ex_ident = \<lparr>id_Subject = ''runner'', id_Class = ClassLease, id_NotAfter = Some 1000\<rparr>"

definition ex_cache :: cache where
  "ex_cache = snd (Apply 10 (host_floors ''rack-1'' ex_busy) NewCache)"

definition ex_env :: "nat \<Rightarrow> frame_env" where
  "ex_env n = \<lparr>fe_cache = ex_cache, fe_now = 20, fe_dial = True, fe_fact = False\<rparr>"

definition ex_bytes :: string where
  "ex_bytes = concat (map (\<lambda>f. putHex4 (length f) @ f)
     [''fence:v1 class=lease devpath=usb:3-1.4 fence=1'', ''host:transport:usb:3-1.4'', ''shell,v2,raw:id'']) @ ''opaque''"

lemma ex_session:
  "session_Run ex_ident DefaultPolicy ex_env ex_bytes = ([''host:transport:usb:3-1.4'', ''shell,v2,raw:id''], Opaque ''opaque'')"
  by code_simp

theorem session_drives_its_own_device_witness:
  "\<exists>pre rest cm. readFrame ex_bytes = Inr (pre, rest) \<and> ParsePreamble pre = Inr cm \<and>
     sv_Devpath (ParseService ''host:transport:usb:3-1.4'') = cm_Devpath cm"
proof -
  have "CarriesFence (id_Class ex_ident)" by code_simp
  moreover have "sv_Kind (ParseService ''shell,v2,raw:id'') = KindDevice" by code_simp
  ultimately show ?thesis using session_drives_its_own_device [OF ex_session, of 1] by (auto simp: Let_def)
qed

section \<open>What a refusal may be read as\<close>

text \<open>
only a fencing fact is terminal. A decision is terminal exactly when its outcome is refuse_fenced,
and then the floor known for the position is above the claimed fence; when the proxy cannot vouch,
because no floor was ever read or the last read is older than the budget, the answer is
refuse_unknown, which invites a retry and is never terminal.
\<close>

theorem only_a_fact_is_terminal:
  "(dc_Terminal (Admit req v now pol) \<longleftrightarrow> dc_Outcome (Admit req v now pol) = OutcomeRefuseFenced) \<and>
   (dc_Terminal (Admit req v now pol) \<longrightarrow> vw_Known v \<and> cm_Fence (rq_Claim req) < vw_Floor v) \<and>
   (dc_Outcome (Admit req v now pol) = OutcomeRefuseUnknown \<longrightarrow>
      dc_Retryable (Admit req v now pol) \<and> \<not> dc_Terminal (Admit req v now pol) \<and>
      (\<not> vw_Known v \<or> pl_MaxStaleness (normalized pol) < Age v now))"
  using Admit_terminal [of req v now pol] Admit_unknown [of req v now pol] by blast

definition ex_request :: "int \<Rightarrow> request" where
  "ex_request fence = \<lparr>rq_Identity = ex_ident,
     rq_Claim = \<lparr>cm_Class = ClassLease, cm_Devpath = ''usb:3-1.4'', cm_Fence = fence, cm_HasFence = True\<rparr>,
     rq_Service = ''host:transport:usb:3-1.4'', rq_Bound = []\<rparr>"

theorem only_a_fact_is_terminal_witness:
  "dc_Terminal (Admit (ex_request 0) (cache_View ex_cache ''usb:3-1.4'') 20 DefaultPolicy) \<and>
   (0::int) < vw_Floor (cache_View ex_cache ''usb:3-1.4'')"
proof -
  have t: "dc_Terminal (Admit (ex_request 0) (cache_View ex_cache ''usb:3-1.4'') 20 DefaultPolicy)" by code_simp
  have "cm_Fence (rq_Claim (ex_request 0)) = 0" by (simp add: ex_request_def)
  then show ?thesis
    using only_a_fact_is_terminal [of "ex_request 0" "cache_View ex_cache ''usb:3-1.4''" 20 DefaultPolicy] t by auto
qed

text \<open>
C37: a live connection is torn down by a fact and by nothing else. Over any run of polls, failed or
not, and of sessions coming and going, every watcher that has fired has a floor above its fence in the
cache, and a watcher still registered has none.
\<close>

theorem watchers_fire_on_facts_only:
  assumes "cache_run fired NewCache c"
  shows "list_all (proven_stale (fc_floors c)) fired \<and> list_all (\<lambda>w. \<not> proven_stale (fc_floors c) w) (fc_watchers c)"
proof -
  have "quiet NewCache" by (simp add: quiet_def NewCache_def)
  from cache_run_quiet [OF assms this] show ?thesis by (simp add: quiet_def)
qed

definition ex_watcher :: watcher where
  "ex_watcher = \<lparr>wt_id = 1, wt_devpath = ''usb:3-1.4'', wt_fence = 0\<rparr>"

theorem watchers_fire_on_facts_only_witness:
  "list_all (proven_stale (fc_floors ex_cache)) [ex_watcher]"
proof -
  define c1 where "c1 = snd (Watch ex_watcher NewCache)"
  have "fst (Watch ex_watcher NewCache) = False" by code_simp
  then have s1: "cache_step [] NewCache c1"
    using cache_step.watched [of ex_watcher NewCache False c1] by (simp add: c1_def prod_eq_iff)
  have a: "poll_once 10 (Inr (host_floors ''rack-1'' ex_busy)) c1 =
      (fst (Apply 10 (host_floors ''rack-1'' ex_busy) c1), snd (Apply 10 (host_floors ''rack-1'' ex_busy) c1))"
    by (simp add: poll_once_def)
  have f: "fst (Apply 10 (host_floors ''rack-1'' ex_busy) c1) = [ex_watcher]" unfolding c1_def by code_simp
  have same: "fc_floors (snd (Apply 10 (host_floors ''rack-1'' ex_busy) c1)) = fc_floors ex_cache"
    by (simp add: ex_cache_def Apply_def Let_def c1_def Watch_def proven_stale_def NewCache_def)
  have "cache_run ([] @ [] @ [ex_watcher]) NewCache (snd (Apply 10 (host_floors ''rack-1'' ex_busy) c1))"
    using cache_run.step [OF cache_run.step [OF cache_run.start s1] cache_step.polled [OF a]] f by simp
  from watchers_fire_on_facts_only [OF this] show ?thesis by (simp add: same)
qed

text \<open>
No byte follows the fact. Whatever chunks are copied before and after it, what the device has
received once the fencing fact has shut the gate is what it had received before, and before it
everything the client sent went through in order.
\<close>

theorem no_byte_follows_the_fact:
  "gt_delivered (stream (map Chunk ps @ Fact # es) \<lparr>gt_shut = False, gt_delivered = sent\<rparr>) = sent @ concat ps"
  by (simp add: stream_after_fact stream_before_fact)

section \<open>The farm and the proxy\<close>

lemma ended_lease_floor:
  assumes "lease_wf db" and "l \<in> set (leases db)" "\<not> is_live l" and "d \<in> set (devices db)" "d_id d = l_device l"
  shows "l_fence l < d_fence_floor d"
proof -
  obtain d' where d': "d' \<in> set (devices db)" "d_id d' = l_device l" "l_fence l < d_fence_floor d'"
    using lease_wfD(6) [OF assms(1,2)] assms(3) by (auto simp: lease_ok_def)
  have "d' = d" using keyed_eqD [OF lease_wfD(3) [OF assms(1)] d'(1) assms(4)] d'(2) assms(5) by simp
  then show ?thesis using d'(3) by simp
qed

lemma live_lease_floor:
  assumes "lease_wf db" and "l \<in> set (leases db)" "is_live l" and "d \<in> set (devices db)" "d_id d = l_device l"
  shows "d_fence_floor d = l_fence l"
proof -
  obtain d' where d': "d' \<in> set (devices db)" "d_id d' = l_device l" "d_fence_floor d' = l_fence l"
    using lease_wfD(6) [OF assms(1,2)] assms(3) by (auto simp: lease_ok_def)
  have "d' = d" using keyed_eqD [OF lease_wfD(3) [OF assms(1)] d'(1) assms(4)] d'(2) assms(5) by simp
  then show ?thesis using d'(3) by simp
qed

text \<open>
C34: an ended lease is shut out of its device. Once a lease has ended, however far the farm moves on,
the first read of the floors after that point fires every connection still presenting its fence at the
device's position, and from then on, through any later polls and sessions and at any time, no
connection that presents that fence there is admitted, for any service and under any policy.
\<close>

theorem ended_lease_is_shut_out:
  assumes "reachable db0 db" and "lease_wf db0" and "l \<in> set (leases db0)" "\<not> is_live l"
    and sits: "sits_at db d host dp" "\<And>d'. sits_at db d' host dp \<Longrightarrow> d' = d" and dev: "d_id d = l_device l"
    and read: "Apply stamp (host_floors host db) c = (fired, c1)" and run: "cache_run later c1 c2"
    and req: "CarriesFence (id_Class (rq_Identity req))" "cm_Devpath (rq_Claim req) = dp" "cm_Fence (rq_Claim req) = l_fence l"
  shows "\<not> Admitted (Admit req (cache_View c2 dp) now pol) \<and>
    (\<forall>w\<in>set (fc_watchers c). wt_devpath w = dp \<and> wt_fence w = l_fence l \<longrightarrow> w \<in> set fired)"
proof -
  have wf: "lease_wf db" by (rule lease_wf_reachable [OF assms(1,2)])
  have l: "l \<in> set (leases db)" by (rule ended_forever [OF assms(1-4)])
  have "d \<in> set (devices db)" using sits(1) by (simp add: sits_at_def)
  then have low: "l_fence l < d_fence_floor d" by (rule ended_lease_floor [OF wf l assms(4) _ dev])
  obtain f where f: "fc_floors c1 dp = Some f" "d_fence_floor d \<le> f" using Apply_floor [OF sits read] by metis
  obtain f2 where f2: "fc_floors c2 dp = Some f2" "f \<le> f2" using cache_run_floors [OF run f(1)] by blast
  have "\<not> Admitted (Admit req (cache_View c2 dp) now pol)"
    using Admit_fenced [of req "cache_View c2 dp" now pol] req f2 f(2) low by (auto simp: cache_View_def)
  moreover have "w \<in> set fired" if "w \<in> set (fc_watchers c)" "wt_devpath w = dp" "wt_fence w = l_fence l" for w
    using that read f low by (auto simp: Apply_def Let_def proven_stale_def)
  ultimately show ?thesis by blast
qed

definition ex_over :: farm where
  "ex_over = snd (Release Up 60000000 30 1 ''completed'' 0 ex_busy)"

theorem ended_lease_is_shut_out_witness:
  "\<not> Admitted (Admit (ex_request 1) (cache_View (snd (Apply 30 (host_floors ''rack-1'' ex_over) ex_cache)) ''usb:3-1.4'') 40 DefaultPolicy)"
proof -
  define l where "l = close_row Released 60000000 ''completed'' ex_lease"
  define d where "d = hd (devices ex_over)"
  have wf: "lease_wf ex_over" unfolding ex_over_def by code_simp
  have l: "l \<in> set (leases ex_over)" "\<not> is_live l" "l_fence l = 1" unfolding ex_over_def l_def by code_simp+
  have one: "devices ex_over = [d]" "d_id d = l_device l" "d_host d = Some ''rack-1''"
    "map_option s_adb_devpath (slot_of_device ex_over d) = Some ''usb:3-1.4''"
    unfolding d_def ex_over_def l_def by code_simp+
  have sits: "sits_at ex_over d ''rack-1'' ''usb:3-1.4''" using one by (simp add: sits_at_def)
  have sole: "d' = d" if "sits_at ex_over d' ''rack-1'' ''usb:3-1.4''" for d' using that one(1) by (simp add: sits_at_def)
  have req: "CarriesFence (id_Class (rq_Identity (ex_request 1)))" "cm_Devpath (rq_Claim (ex_request 1)) = ''usb:3-1.4''"
    "cm_Fence (rq_Claim (ex_request 1)) = l_fence l" using l(3) by (simp_all add: ex_request_def ex_ident_def CarriesFence_def)
  from ended_lease_is_shut_out [OF reachable.start wf l(1,2) sits sole one(2) surjective_pairing cache_run.start req]
  show ?thesis by blast
qed

text \<open>
C35: a live lease is not called dead for its own position. Right after a read, and as long as no floor
above its fence had been cached for the position before, a connection presenting the fence of a live
lease at its device's position is never refused as fenced, and it is refused as unknown only once the
read is older than the policy's budget.
\<close>

theorem live_lease_is_not_called_dead:
  assumes "lease_wf db" and "l \<in> set (leases db)" "is_live l"
    and sits: "sits_at db d host dp" "\<And>d'. sits_at db d' host dp \<Longrightarrow> d' = d" and dev: "d_id d = l_device l"
    and read: "Apply stamp (host_floors host db) c = (fired, c1)"
    and before: "\<And>f. fc_floors c dp = Some f \<Longrightarrow> f \<le> l_fence l"
    and req: "cm_Devpath (rq_Claim req) = dp" "cm_Fence (rq_Claim req) = l_fence l"
  shows "dc_Outcome (Admit req (cache_View c1 dp) now pol) \<noteq> OutcomeRefuseFenced \<and>
    (dc_Outcome (Admit req (cache_View c1 dp) now pol) = OutcomeRefuseUnknown \<longrightarrow> pl_MaxStaleness (normalized pol) < now - stamp)"
proof -
  have "d \<in> set (devices db)" using sits(1) by (simp add: sits_at_def)
  then have floor: "d_fence_floor d = l_fence l" by (rule live_lease_floor [OF assms(1-3) _ dev])
  obtain f where f: "fc_floors c1 dp = Some f" "f = d_fence_floor d \<or> fc_floors c dp = Some f" using Apply_floor [OF sits read] by metis
  then have le: "f \<le> l_fence l" using before floor by auto
  have v: "cache_View c1 dp = \<lparr>vw_Floor = f, vw_Known = True, vw_ObservedAt = Some stamp\<rparr>"
    using f(1) read by (auto simp: cache_View_def Apply_def Let_def)
  have age: "0 < pl_MaxStaleness (normalized pol)" by (simp add: normalized_def DefaultMaxStaleness_def Second_def)
  show ?thesis
    using Admit_terminal [of req "cache_View c1 dp" now pol] Admit_unknown [of req "cache_View c1 dp" now pol] le req age
    by (auto simp: v Age_def split: if_splits)
qed

theorem live_lease_is_not_called_dead_witness:
  "dc_Outcome (Admit (ex_request 1) (cache_View ex_cache ''usb:3-1.4'') 20 DefaultPolicy) \<noteq> OutcomeRefuseFenced"
proof -
  define d where "d = hd (devices ex_busy)"
  have one: "devices ex_busy = [d]" "d_id d = l_device ex_lease" "d_host d = Some ''rack-1''"
    "map_option s_adb_devpath (slot_of_device ex_busy d) = Some ''usb:3-1.4''" unfolding d_def by code_simp+
  have l: "ex_lease \<in> set (leases ex_busy)" "is_live ex_lease" "l_fence ex_lease = 1" by code_simp+
  have sits: "sits_at ex_busy d ''rack-1'' ''usb:3-1.4''" using one by (simp add: sits_at_def)
  have sole: "d' = d" if "sits_at ex_busy d' ''rack-1'' ''usb:3-1.4''" for d' using that one(1) by (simp add: sits_at_def)
  have read: "Apply 10 (host_floors ''rack-1'' ex_busy) NewCache = (fst (Apply 10 (host_floors ''rack-1'' ex_busy) NewCache), ex_cache)"
    by (simp add: ex_cache_def)
  have none: "f \<le> l_fence ex_lease" if "fc_floors NewCache ''usb:3-1.4'' = Some f" for f using that by (simp add: NewCache_def)
  have req: "cm_Devpath (rq_Claim (ex_request 1)) = ''usb:3-1.4''" "cm_Fence (rq_Claim (ex_request 1)) = l_fence ex_lease"
    using l(3) by (simp_all add: ex_request_def)
  from live_lease_is_not_called_dead [OF lease_wf_ex_busy l(1,2) sits sole one(2) read none req] show ?thesis by blast
qed

section \<open>A moved device\<close>

text \<open>Two handsets: number 10 with the live lease of fence 1 at \<^verbatim>\<open>usb:3-1.4\<close>, number 11 with floor 5 at \<^verbatim>\<open>usb:3-1.5\<close>.\<close>

definition ex_two :: farm where
  "ex_two = ex_busy\<lparr>
     slots := slots ex_busy @ [(hd (slots ex_busy))\<lparr>s_id := 2, s_usb_path := ''3-1.5''\<rparr>],
     devices := devices ex_busy @ [ex_device\<lparr>d_id := 11, d_current_slot := Some 2, d_fence_floor := 5\<rparr>], fence_seq := 5\<rparr>"

text \<open>Number 11 is unplugged and number 10, lease and all, is plugged in where it was.\<close>

definition ex_moved :: farm where
  "ex_moved = ex_two\<lparr>devices := map (\<lambda>d. d\<lparr>d_current_slot := (if d_id d = 10 then Some 2 else None)\<rparr>) (devices ex_two)\<rparr>"

lemma ex_moved_reachable: "reachable ex_two ex_moved"
proof -
  have "registry_step ex_two ex_moved"
    unfolding registry_step_def by (rule conjI, code_simp, rule conjI, code_simp, rule conjI, code_simp, rule exI [of _ "[]"], code_simp)
  then show ?thesis by (rule reachable.step [OF reachable.start farm_step.other])
qed

text \<open>
a live lease whose device moves can be called dead. The cache keeps the highest floor it ever read
under a position, while a floor belongs to a device: when a leased device is re-plugged into a position
whose former device had a higher floor, the proxy answers its holder refuse_fenced, terminally, right
after a successful read of the farm's floors, although the lease is live and still renews.
\<close>

theorem moved_lease_is_called_dead:
  "\<exists>db0 db l d c.
     lease_wf db0 \<and> reachable db0 db \<and> l \<in> set (leases db) \<and> is_live l \<and> d_id d = l_device l \<and>
     sits_at db d ''rack-1'' ''usb:3-1.5'' \<and>
     c = snd (Apply 20 (host_floors ''rack-1'' db) (snd (Apply 10 (host_floors ''rack-1'' db0) NewCache))) \<and>
     (let req = \<lparr>rq_Identity = ex_ident,
          rq_Claim = \<lparr>cm_Class = ClassLease, cm_Devpath = ''usb:3-1.5'', cm_Fence = l_fence l, cm_HasFence = True\<rparr>,
          rq_Service = ''host:transport:usb:3-1.5'', rq_Bound = []\<rparr>;
          dec = Admit req (cache_View c ''usb:3-1.5'') 30 DefaultPolicy
      in dc_Outcome dec = OutcomeRefuseFenced \<and> dc_Terminal dec) \<and>
     isl (fst (Renew Up 60000000 (l_id l) (l_fence l) (l_holder_instance l) db)) = False"
proof (intro exI conjI)
  show "lease_wf ex_two" by code_simp
  show "reachable ex_two ex_moved" by (rule ex_moved_reachable)
  show "ex_lease \<in> set (leases ex_moved)" "is_live ex_lease" by code_simp+
  show "d_id (hd (devices ex_moved)) = l_device ex_lease" by code_simp
  have "map_option s_adb_devpath (slot_of_device ex_moved (hd (devices ex_moved))) = Some ''usb:3-1.5''"
    "d_host (hd (devices ex_moved)) = Some ''rack-1''" "devices ex_moved \<noteq> []" by code_simp+
  then show "sits_at ex_moved (hd (devices ex_moved)) ''rack-1'' ''usb:3-1.5''" by (simp add: sits_at_def)
  show "let req = \<lparr>rq_Identity = ex_ident,
          rq_Claim = \<lparr>cm_Class = ClassLease, cm_Devpath = ''usb:3-1.5'', cm_Fence = l_fence ex_lease, cm_HasFence = True\<rparr>,
          rq_Service = ''host:transport:usb:3-1.5'', rq_Bound = []\<rparr>;
          dec = Admit req (cache_View (snd (Apply 20 (host_floors ''rack-1'' ex_moved) (snd (Apply 10 (host_floors ''rack-1'' ex_two) NewCache))))
            ''usb:3-1.5'') 30 DefaultPolicy
      in dc_Outcome dec = OutcomeRefuseFenced \<and> dc_Terminal dec" by code_simp
  show "isl (fst (Renew Up 60000000 (l_id ex_lease) (l_fence ex_lease) (l_holder_instance ex_lease) ex_moved)) = False" by code_simp
qed (rule refl)

section \<open>Whitelists\<close>

text \<open>The policies a deployment can build: the shipped one, widened any number of times.\<close>

inductive buildable :: "policy \<Rightarrow> bool" where
  shipped: "buildable DefaultPolicy"
| widened: "buildable p \<Longrightarrow> AllowingDeviceServices p c literals patterns = Inr p' \<Longrightarrow> buildable p'"

lemma AllowingDeviceServices_rules:
  assumes "AllowingDeviceServices p c literals patterns = Inr p'"
  shows "\<exists>rules. pl_Rules p c = Some rules \<and> pl_LeaseHost p' = pl_LeaseHost p \<and>
    pl_Rules p' = (pl_Rules p)(c \<mapsto> rules\<lparr>wl_Device := wl_Device rules @ literals,
      wl_DevicePatterns := wl_DevicePatterns rules @ List.map_filter id patterns\<rparr>)"
  using assms by (auto simp: AllowingDeviceServices_def split: option.splits list.splits)

lemma buildable_hosts:
  assumes "buildable p"
  shows "pl_LeaseHost p = pl_LeaseHost DefaultPolicy \<and>
    (\<forall>c r. pl_Rules p c = Some r \<longrightarrow> (\<exists>r0. pl_Rules DefaultPolicy c = Some r0 \<and> wl_Host r = wl_Host r0 \<and>
       wl_HostTargetVerbs r = wl_HostTargetVerbs r0 \<and> wl_Transport r = wl_Transport r0))"
  using assms
proof (induction rule: buildable.induct)
  case (widened p c literals patterns p')
  from AllowingDeviceServices_rules [OF widened(2)] widened.IH show ?case by (auto split: if_splits)
qed auto

lemma default_hosts: "pl_Rules DefaultPolicy c = Some r \<Longrightarrow> set (wl_Host r) \<subseteq> set (wl_Host maintenance_rules)"
  by (auto simp: DefaultPolicy_def maintenance_rules_def enroll_rules_def control_rules_def split: if_splits)

text \<open>
no connection of any class can kill a host's ADB server, whatever a deployment adds. For every
policy built from the shipped one by any sequence of widenings, an untargeted host service that is
admitted is one of the six read-only ones of the maintenance list, so host:kill never is.
\<close>

theorem kill_is_never_admitted:
  assumes "buildable p" and "Admitted (Admit req v now p)" and "sv_Kind (ParseService (rq_Service req)) = KindHost"
  shows "rq_Service req \<in> set (wl_Host maintenance_rules) \<and> rq_Service req \<noteq> ''host:kill''"
proof -
  have raw: "sv_Raw (ParseService s) = s" for s by (auto simp: ParseService_def Let_def split: option.split)
  have mem: "rq_Service req \<in> set (wl_Host maintenance_rules)"
  proof (cases "pl_Rules p (id_Class (rq_Identity req))")
    case (Some r)
    have "rq_Service req \<in> set (wl_Host r)"
      using Admit_whitelisted [OF assms(2) Some] assms(3) raw by (simp add: allows_def)
    then show ?thesis using buildable_hosts [OF assms(1)] Some default_hosts by fastforce
  next
    case None
    then have "CarriesFence (id_Class (rq_Identity req))" using Admit_unruled [OF assms(2)] by auto
    with Admit_fenced [OF assms(2)] have "refuseOffTarget req (ParseService (rq_Service req)) (normalized p) = None" by blast
    from refuseOffTarget_host [OF this assms(3)] raw have "rq_Service req \<in> set (pl_LeaseHost p)" by simp
    then show ?thesis using buildable_hosts [OF assms(1)] by (auto simp: DefaultPolicy_def maintenance_rules_def)
  qed
  then show ?thesis by (auto simp: maintenance_rules_def)
qed

definition ex_maintenance :: "string \<Rightarrow> request" where
  "ex_maintenance svc = \<lparr>rq_Identity = \<lparr>id_Subject = ''ladder'', id_Class = ClassMaintenance, id_NotAfter = None\<rparr>,
     rq_Claim = \<lparr>cm_Class = [], cm_Devpath = [], cm_Fence = 0, cm_HasFence = False\<rparr>, rq_Service = svc, rq_Bound = []\<rparr>"

definition ex_unknown :: view where
  "ex_unknown = \<lparr>vw_Floor = 0, vw_Known = False, vw_ObservedAt = None\<rparr>"

theorem kill_is_never_admitted_witness:
  "Admitted (Admit (ex_maintenance ''host:version'') ex_unknown 0 DefaultPolicy) \<and>
   rq_Service (ex_maintenance ''host:version'') \<noteq> ''host:kill''"
proof -
  have adm: "Admitted (Admit (ex_maintenance ''host:version'') ex_unknown 0 DefaultPolicy)" by code_simp
  have "sv_Kind (ParseService (rq_Service (ex_maintenance ''host:version''))) = KindHost" by code_simp
  from kill_is_never_admitted [OF buildable.shipped adm this] adm show ?thesis by blast
qed

text \<open>
  A maintenance connection that never switched to a transport is admitted for a device service: the
  bound of the connection is compared for the fence-carrying classes only.
\<close>

lemma unbound_device_service: "Admitted (Admit (ex_maintenance ''reboot:'') ex_unknown 0 DefaultPolicy)"
  by code_simp

end
