(* ===== verification/Charge_Gate.thy ===== *)
theory Charge_Gate
  imports Go_Text "HOL-Library.AList"
begin

text \<open>
  The agent's half of charge limiting, \<^verbatim>\<open>internal/node/chargegate.go\<close> with its Linux platform
  (\<^verbatim>\<open>chargegate_linux.go\<close>, and the positions and the blast radius of \<^verbatim>\<open>hostops.go\<close> and \<^verbatim>\<open>uhubctl.go\<close>): a
  port held dark under a deadline the agent enforces itself. What uhubctl and sysfs answer are
  arguments. A timer is part of the hold it guards; one that has fired is a callback in flight until it
  gets the hardware lock. Beside the agent's own books the state carries \<open>cg_dark\<close>, the ports that are
  in fact without power. Errors carry what their text is built from.
\<close>

section \<open>Positions\<close>

datatype gate_error =
    BadPower string | WrongHost string string | HoldTooLong int | NoHold | NotAPosition string
  | NoBusSeparator string | NoPortNumber string | Stopping string | GangedDomain string int "(string \<times> string) list"
  | NotSupported string | ToolFailed string

text \<open>\<^verbatim>\<open>errors.Is(err, ErrRefused)\<close>; an unsupported platform and a failing tool are not refusals.\<close>

definition is_refusal :: "gate_error \<Rightarrow> bool" where
  "is_refusal e = (case e of NotSupported _ \<Rightarrow> False | ToolFailed _ \<Rightarrow> False | _ \<Rightarrow> True)"

definition usb_path_ok :: "string \<Rightarrow> bool" where
  "usb_path_ok p \<longleftrightarrow> (case cut (CHR ''-'') p of
      None \<Rightarrow> False
    | Some (bus, chain) \<Rightarrow> bus \<noteq> [] \<and> list_all is_digit bus \<and> list_all (\<lambda>w. w \<noteq> [] \<and> list_all is_digit w) (split_on (CHR ''.'') chain))"

definition usbPathOf :: "string \<Rightarrow> gate_error + string" where
  "usbPathOf devpath =
     (let p0 = trim_space devpath; p = (case cut_prefix ''usb:'' p0 of Some r \<Rightarrow> r | None \<Rightarrow> p0)
      in if usb_path_ok p then Inr p else Inl (NotAPosition devpath))"

definition devpathOf :: "string \<Rightarrow> string" where
  "devpathOf usbPath = ''usb:'' @ usbPath"

definition hubLocation :: "string \<Rightarrow> gate_error + string \<times> int" where
  "hubLocation usbPath =
     (case cut (CHR ''-'') usbPath of
        None \<Rightarrow> Inl (NoBusSeparator usbPath)
      | Some (bus, chain) \<Rightarrow>
          (let parts = split_on (CHR ''.'') chain in
           case ParseInt (last parts) of
             None \<Rightarrow> Inl (NoPortNumber usbPath)
           | Some port \<Rightarrow>
               if port < 1 then Inl (NoPortNumber usbPath)
               else if length parts = 1 then Inr (bus, port)
               else Inr (bus @ ''-'' @ join ''.'' (butlast parts), port)))"

record charge_port =
  cp_Devpath :: string
  cp_USBPath :: string
  cp_Hub :: string
  cp_Port :: int

definition port_key :: "charge_port \<Rightarrow> string" where
  "port_key p = cp_Hub p @ ''/'' @ int_str (cp_Port p)"

definition resolveChargePort :: "string \<Rightarrow> gate_error + charge_port" where
  "resolveChargePort devpath =
     bindR (usbPathOf devpath) (\<lambda>usbPath. bindR (hubLocation usbPath) (\<lambda>(hub, port).
       Inr \<lparr>cp_Devpath = devpathOf usbPath, cp_USBPath = usbPath, cp_Hub = hub, cp_Port = port\<rparr>))"

section \<open>The blast radius\<close>

record hub_status =
  hs_location :: string
  hs_perPort :: bool
  hs_children :: "(int \<times> string) list"

text \<open>A position and everything enumerated behind it; \<open>names\<close> are the devices sysfs lists.\<close>

definition usbDescendants :: "string list \<Rightarrow> string \<Rightarrow> string list" where
  "usbDescendants names usbPath = usbPath # filter (\<lambda>n. has_prefix (usbPath @ ''.'') n \<and> CHR '':'' \<notin> set n) names"

definition darkened :: "string list \<Rightarrow> hub_status list \<Rightarrow> int \<Rightarrow> (string \<times> string) list" where
  "darkened names hs port =
     concat (map (\<lambda>h. concat (map (\<lambda>(_, child). map (\<lambda>p. (p, hs_location h)) (usbDescendants names child))
       (if hs_perPort h then filter (\<lambda>(n, _). n = port) (hs_children h) else hs_children h))) hs)"

definition node_checkBlastRadius ::
  "string list \<Rightarrow> hub_status list \<Rightarrow> string \<Rightarrow> int \<Rightarrow> string \<Rightarrow> string list \<Rightarrow> gate_error option" where
  "node_checkBlastRadius names hs loc port target acknowledged =
     (case List.map_filter (\<lambda>a. case usbPathOf a of Inl e \<Rightarrow> Some e | Inr _ \<Rightarrow> None) acknowledged of
        e # _ \<Rightarrow> Some e
      | [] \<Rightarrow>
          (let allowed = target # List.map_filter (\<lambda>a. case usbPathOf a of Inl _ \<Rightarrow> None | Inr p \<Rightarrow> Some p) acknowledged;
               disturbed = filter (\<lambda>(p, _). p \<notin> set allowed) (darkened names hs port)
           in if disturbed = [] then None else Some (GangedDomain loc port disturbed)))"

section \<open>The platform\<close>

text \<open>
  What the host answers while one set-point is driven: the tool, the kernel, the hubs and the devices
  sysfs lists, whether the device is on the bus, and how the off, the wait for it to leave, the
  power-on with its retries and the restoring power-on end. \<open>None\<close> is success.
\<close>

record hw_io =
  hw_bin :: "gate_error option"
  hw_kernel :: "gate_error option"
  hw_hubs :: "gate_error + hub_status list"
  hw_names :: "string list"
  hw_present :: bool
  hw_off :: "gate_error option"
  hw_gone :: "gate_error option"
  hw_on :: "gate_error option"
  hw_restore :: "gate_error option"

text \<open>\<^verbatim>\<open>setChargePower\<close>: whether a command was issued, and the error.\<close>

definition setChargePower :: "hw_io \<Rightarrow> charge_port \<Rightarrow> bool \<Rightarrow> string list \<Rightarrow> bool \<times> gate_error option" where
  "setChargePower io p on acknowledged =
     (case hw_bin io of
        Some e \<Rightarrow> (False, Some e)
      | None \<Rightarrow>
          if on then (True, hw_on io)
          else (case hw_kernel io of
                  Some e \<Rightarrow> (False, Some e)
                | None \<Rightarrow>
                    (case hw_hubs io of
                       Inl e \<Rightarrow> (False, Some e)
                     | Inr hs \<Rightarrow>
                         (case node_checkBlastRadius (hw_names io) hs (cp_Hub p) (cp_Port p) (cp_USBPath p) acknowledged of
                            Some e \<Rightarrow> (False, Some e)
                          | None \<Rightarrow>
                              (case hw_off io of
                                 Some e \<Rightarrow> (True, Some e)
                               | None \<Rightarrow> (True, if hw_present io then hw_gone io else None))))))"

text \<open>
  Whether the port is without power afterwards. A failed power-on leaves it as it was; a gate that
  failed after the off was issued is dark exactly when the restore failed too.
\<close>

definition dark_after :: "hw_io \<Rightarrow> charge_port \<Rightarrow> bool \<Rightarrow> string list \<Rightarrow> bool \<Rightarrow> bool" where
  "dark_after io p on acknowledged was =
     (case setChargePower io p on acknowledged of
        (False, _) \<Rightarrow> was
      | (True, None) \<Rightarrow> \<not> on
      | (True, Some _) \<Rightarrow> if on then was else hw_restore io \<noteq> None)"

section \<open>The holds\<close>

definition ChargePowerOn :: string where "ChargePowerOn = ''on''"
definition ChargePowerOff :: string where "ChargePowerOff = ''off''"
definition ChargePowerUnknown :: string where "ChargePowerUnknown = ''unknown''"
definition MaxChargeGateHold :: duration where "MaxChargeGateHold = 30 * 60 * Second"
definition chargeGateRestoreRetry :: duration where "chargeGateRestoreRetry = 30 * Second"

lemmas charge_powers = ChargePowerOn_def ChargePowerOff_def ChargePowerUnknown_def

text \<open>\<open>gr_Hold\<close> is \<^verbatim>\<open>hold_seconds\<close> as the duration it denotes.\<close>

record gate_request =
  gr_HostID :: string
  gr_Devpath :: string
  gr_Power :: string
  gr_Hold :: duration
  gr_Acknowledged :: "string list"
  gr_Reason :: string

record charge_gate =
  ga_HostID :: string
  ga_Devpath :: string
  ga_Hub :: string
  ga_Port :: int
  ga_Power :: string
  ga_Held :: bool
  ga_ExpiresAt :: "int option"
  ga_Reason :: string
  ga_Acknowledged :: "string list"

record held_gate =
  hg_port :: charge_port
  hg_power :: string
  hg_reason :: string
  hg_acknowledged :: "string list"
  hg_expires :: int
  hg_gen :: nat
  hg_timer :: "int option"

text \<open>One agent: its holds by port, and, in \<open>cg_flying\<close>, the expiries whose timer has fired.\<close>

record gates =
  cg_host :: string
  cg_held :: "(string \<times> held_gate) list"
  cg_gen :: nat
  cg_stopping :: bool
  cg_flying :: "(string \<times> nat) list"
  cg_dark :: "string set"

definition gate_hold :: "gate_request \<Rightarrow> gate_error + duration" where
  "gate_hold r = (if gr_Hold r > MaxChargeGateHold then Inl (HoldTooLong (gr_Hold r))
     else if gr_Hold r \<le> 0 then Inr 0 else Inr (gr_Hold r))"

definition parseChargePower :: "string \<Rightarrow> gate_error + bool" where
  "parseChargePower p = (if p = ChargePowerOn then Inr True
     else if p = ChargePowerOff then Inr False else Inl (BadPower p))"

definition gate_status :: "string \<Rightarrow> held_gate \<Rightarrow> charge_gate" where
  "gate_status host h = \<lparr>ga_HostID = host, ga_Devpath = cp_Devpath (hg_port h), ga_Hub = cp_Hub (hg_port h),
     ga_Port = cp_Port (hg_port h), ga_Power = hg_power h, ga_Held = True, ga_ExpiresAt = Some (hg_expires h),
     ga_Reason = hg_reason h, ga_Acknowledged = hg_acknowledged h\<rparr>"

definition held_at :: "gates \<Rightarrow> string \<Rightarrow> held_gate option" where
  "held_at s key = map_of (cg_held s) key"

definition put :: "int \<Rightarrow> charge_port \<Rightarrow> gate_request \<Rightarrow> duration \<Rightarrow> gates \<Rightarrow> charge_gate \<times> gates" where
  "put now port req hold s =
     (let gen = cg_gen s + 1;
          h = \<lparr>hg_port = port, hg_power = ChargePowerOff, hg_reason = gr_Reason req, hg_acknowledged = gr_Acknowledged req,
               hg_expires = now + hold, hg_gen = gen, hg_timer = Some (now + hold)\<rparr>
      in (gate_status (cg_host s) h, s\<lparr>cg_held := AList.update (port_key port) h (cg_held s), cg_gen := gen\<rparr>))"

definition drop_gate :: "string \<Rightarrow> gates \<Rightarrow> gates" where
  "drop_gate key s = s\<lparr>cg_held := AList.delete key (cg_held s)\<rparr>"

definition gates_snapshot :: "gates \<Rightarrow> charge_gate list" where
  "gates_snapshot s = sort_key ga_Devpath (map (\<lambda>(_, h). gate_status (cg_host s) h) (cg_held s))"

definition set_dark :: "string \<Rightarrow> bool \<Rightarrow> gates \<Rightarrow> gates" where
  "set_dark key d s = s\<lparr>cg_dark := (if d then insert key (cg_dark s) else cg_dark s - {key})\<rparr>"

text \<open>The platform call on the agent's state: its answer, and the port's power after it.\<close>

definition drive :: "hw_io \<Rightarrow> charge_port \<Rightarrow> bool \<Rightarrow> string list \<Rightarrow> gates \<Rightarrow> (bool \<times> gate_error option) \<times> gates" where
  "drive io p on acknowledged s =
     (setChargePower io p on acknowledged,
      set_dark (port_key p) (dark_after io p on acknowledged (port_key p \<in> cg_dark s)) s)"

definition rearm :: "int \<Rightarrow> string \<Rightarrow> nat \<Rightarrow> duration \<Rightarrow> gates \<Rightarrow> gates" where
  "rearm now key gen after' s =
     (case held_at s key of
        None \<Rightarrow> s
      | Some h \<Rightarrow>
          if hg_gen h \<noteq> gen then s
          else (let g = cg_gen s + 1
                in s\<lparr>cg_gen := g, cg_held := AList.update key (h\<lparr>hg_gen := g, hg_power := ChargePowerUnknown,
                       hg_expires := now + after', hg_timer := Some (now + after')\<rparr>) (cg_held s)\<rparr>))"

text \<open>\<^verbatim>\<open>expire\<close>, the callback of a timer that has fired.\<close>

definition expire :: "int \<Rightarrow> hw_io \<Rightarrow> string \<Rightarrow> nat \<Rightarrow> gates \<Rightarrow> gates" where
  "expire now io key gen s =
     (case held_at s key of
        None \<Rightarrow> s
      | Some h \<Rightarrow>
          if hg_gen h \<noteq> gen \<or> now < hg_expires h then s
          else (case drive io (hg_port h) True [] s of
                  ((_, Some _), s1) \<Rightarrow> rearm now key gen chargeGateRestoreRetry s1
                | ((_, None), s1) \<Rightarrow> drop_gate key s1))"

text \<open>
  \<^verbatim>\<open>releaseAll\<close>: every hold is dropped, then each port in the order of its devpath is given its power
  back; \<open>reached\<close> says which ports the budget reaches.
\<close>

definition releaseAll :: "(charge_port \<Rightarrow> hw_io) \<Rightarrow> (charge_port \<Rightarrow> bool) \<Rightarrow> bool \<Rightarrow> gates \<Rightarrow> gates" where
  "releaseAll ios reached final s =
     (let ports = sort_key cp_Devpath (map (hg_port \<circ> snd) (cg_held s));
          s0 = s\<lparr>cg_stopping := (final \<or> cg_stopping s), cg_held := []\<rparr>
      in fold (\<lambda>p s. snd (drive (ios p) p True [] s)) (takeWhile reached ports) s0)"

section \<open>The verb\<close>

definition checkHost :: "string \<Rightarrow> string \<Rightarrow> gate_error option" where
  "checkHost mine host = (if host \<noteq> [] \<and> host \<noteq> mine then Some (WrongHost host mine) else None)"

text \<open>The part of \<^verbatim>\<open>SetChargeGate\<close> under the hardware lock.\<close>

definition set_gate :: "int \<Rightarrow> hw_io \<Rightarrow> gate_request \<Rightarrow> bool \<Rightarrow> duration \<Rightarrow> charge_port \<Rightarrow> gates \<Rightarrow> (gate_error + charge_gate) \<times> gates" where
  "set_gate now io req on hold port s =
     (if \<not> on \<and> cg_stopping s then (Inl (Stopping (cp_Devpath port)), s)
      else case drive io port on (gr_Acknowledged req) s of
        ((touched, Some e), s1) \<Rightarrow> (Inl e, if touched \<and> \<not> on then drop_gate (port_key port) s1 else s1)
      | ((_, None), s1) \<Rightarrow>
          if on
          then (Inr \<lparr>ga_HostID = cg_host s, ga_Devpath = cp_Devpath port, ga_Hub = cp_Hub port, ga_Port = cp_Port port,
                  ga_Power = ChargePowerOn, ga_Held = False, ga_ExpiresAt = None, ga_Reason = gr_Reason req, ga_Acknowledged = []\<rparr>,
                drop_gate (port_key port) s1)
          else (case put now port req hold s1 of (g, s2) \<Rightarrow> (Inr g, s2)))"

definition agent_SetChargeGate :: "int \<Rightarrow> hw_io \<Rightarrow> gate_request \<Rightarrow> gates \<Rightarrow> (gate_error + charge_gate) \<times> gates" where
  "agent_SetChargeGate now io req s =
     (case parseChargePower (gr_Power req) of
        Inl e \<Rightarrow> (Inl e, s)
      | Inr on \<Rightarrow>
          (case checkHost (cg_host s) (gr_HostID req) of
             Some e \<Rightarrow> (Inl e, s)
           | None \<Rightarrow>
               (case (if on then Inr 0 else gate_hold req) of
                  Inl e \<Rightarrow> (Inl e, s)
                | Inr hold \<Rightarrow>
                    if \<not> on \<and> hold \<le> 0 then (Inl NoHold, s)
                    else (case resolveChargePort (gr_Devpath req) of
                            Inl e \<Rightarrow> (Inl e, s)
                          | Inr port \<Rightarrow> set_gate now io req on hold port s))))"

text \<open>A recovery rung that touched the port takes it back: \<open>touched\<close> is an error that is no refusal.\<close>

definition chargeGateSuperseded :: "string \<Rightarrow> bool \<Rightarrow> gates \<Rightarrow> gates" where
  "chargeGateSuperseded devpath touched s =
     (if \<not> touched then s
      else case resolveChargePort devpath of Inl _ \<Rightarrow> s | Inr port \<Rightarrow> drop_gate (port_key port) s)"

end
