(* ===== verification/Park_Sql.thy ===== *)
theory Park_Sql
  imports Recovery_Ladder Farm_System
begin

text \<open>
  Deliberate holds: \<^verbatim>\<open>farm.device_park\<close> and \<^verbatim>\<open>farm.device_unpark\<close> of \<^verbatim>\<open>migrations/00008_parked.sql\<close> with
  the guards on \<^verbatim>\<open>farm.devices\<close> and \<^verbatim>\<open>farm.device_runtime\<close>, the well-formedness of the ledger, and that
  neither function has a statement on leases. The number of seconds a park lasted is kept as the
  interval it is computed from.
\<close>

section \<open>The functions\<close>

text \<open>\<^verbatim>\<open>btrim(text)\<close> strips blanks from both ends.\<close>

definition btrim :: "string \<Rightarrow> string" where
  "btrim s = rev (dropWhile (\<lambda>c. c = CHR '' '') (rev (dropWhile (\<lambda>c. c = CHR '' '') s)))"

definition is_open :: "park_row \<Rightarrow> bool" where
  "is_open p \<longleftrightarrow> pk_closed_at p = None"

definition open_park :: "farm \<Rightarrow> uuid \<Rightarrow> park_row option" where
  "open_park db dev = List.find (\<lambda>p. pk_device p = dev \<and> is_open p) (parks db)"

text \<open>\<^verbatim>\<open>farm.trg_devices_park_guard\<close>: a parked device with an open park keeps its state.\<close>

definition trg_devices_park_guard :: "farm \<Rightarrow> string \<Rightarrow> device_row \<Rightarrow> sql_error option" where
  "trg_devices_park_guard db state d =
     (if d_admin_state d = ''parked'' \<and> state \<noteq> d_admin_state d \<and> \<not> Option.is_none (open_park db (d_id d))
      then Some Forbidden else None)"

definition set_admin_state :: "string \<Rightarrow> (device_row \<Rightarrow> bool) \<Rightarrow> farm \<Rightarrow> sql_error + farm" where
  "set_admin_state state P db =
     (case List.map_filter (trg_devices_park_guard db state) (filter P (devices db)) of
        e # _ \<Rightarrow> Inl e
      | [] \<Rightarrow> Inr (db\<lparr>devices := update_where P (\<lambda>d. d\<lparr>d_admin_state := state\<rparr>) (devices db)\<rparr>))"

text \<open>\<^verbatim>\<open>INSERT INTO farm.device_parks\<close>: the partial unique index allows one open row per device.\<close>

definition insert_park :: "timestamp \<Rightarrow> uuid \<Rightarrow> string \<Rightarrow> string \<Rightarrow> bool \<Rightarrow> farm \<Rightarrow> sql_error + int \<times> farm" where
  "insert_park now dev reason actor auto' db =
     (if \<not> Option.is_none (open_park db dev) then Inl UniqueViolation
      else let i = park_seq db + 1
           in Inr (i, db\<lparr>parks := parks db @ [\<lparr>pk_id = i, pk_device = dev, pk_reason = reason, pk_opened_by = actor,
                  pk_opened_at = now, pk_auto = auto', pk_closed_at = None, pk_closed_by = None, pk_close_reason = None\<rparr>],
                  park_seq := i\<rparr>))"

text \<open>\<^verbatim>\<open>INSERT ... ON CONFLICT (device_id) DO UPDATE\<close> of the runtime row.\<close>

definition park_runtime :: "timestamp \<Rightarrow> device_row \<Rightarrow> farm \<Rightarrow> farm" where
  "park_runtime now d db =
     (case runtime_by_device db (d_id d) of
        Some _ \<Rightarrow> write_health (\<lambda>r. r_device r = d_id d)
                    (\<lambda>r. r\<lparr>r_health := HParked, r_health_since := now, r_updated_at := now\<rparr>) db
      | None \<Rightarrow> db\<lparr>runtimes := runtimes db @ [(new_runtime now (d_id d) [] 0)\<lparr>r_host := d_host d,
                  r_slot := d_current_slot d, r_health := HParked\<rparr>]\<rparr>)"

definition device_park :: "timestamp \<Rightarrow> uuid \<Rightarrow> string \<Rightarrow> string \<Rightarrow> bool \<Rightarrow> farm \<Rightarrow> sql_error + int \<times> farm" where
  "device_park now dev actor reason auto' db =
     (if btrim actor = [] \<or> btrim reason = [] then Inl CheckViolation
      else case device_by_id db dev of
        None \<Rightarrow> Inl NoDataFound
      | Some d \<Rightarrow>
          if d_admin_state d = ''parked'' then Inl UniqueViolation
          else if d_admin_state d \<noteq> ''enabled'' then Inl CheckViolation
          else bindR (insert_park now dev (btrim reason) (btrim actor) auto' db) (\<lambda>(i, db1).
               bindR (set_admin_state ''parked'' (\<lambda>d. d_id d = dev) db1) (\<lambda>db2.
               (let db3 = park_runtime now d db2;
                    db4 = append_audit \<lparr>au_actor = btrim actor, au_action = ''device.park'', au_subject = ''device:'' @ nat_str dev,
                            au_reason = Some (btrim reason), au_detail = [(''park_id'', JInt i), (''auto'', JBool auto')]\<rparr> db3
                in Inr (i, append_event \<lparr>e_at = now, e_kind = ''device_parked'', e_device = Some dev, e_slot = None,
                     e_lease = None, e_job = None, e_actor = Some (btrim actor),
                     e_detail = [(''park_id'', JInt i), (''auto'', JBool auto'), (''reason'', JStr (btrim reason))]\<rparr> db4)))))"

definition close_park :: "timestamp \<Rightarrow> string \<Rightarrow> string option \<Rightarrow> park_row \<Rightarrow> park_row" where
  "close_park now actor reason p =
     p\<lparr>pk_closed_at := Some now, pk_closed_by := Some (btrim actor),
       pk_close_reason := (case reason of None \<Rightarrow> None | Some r \<Rightarrow> nullif_empty (btrim r))\<rparr>"

definition device_unpark :: "timestamp \<Rightarrow> uuid \<Rightarrow> string \<Rightarrow> string option \<Rightarrow> bool \<Rightarrow> farm \<Rightarrow> sql_error + int \<times> farm" where
  "device_unpark now dev actor reason auto' db =
     (if btrim actor = [] then Inl CheckViolation
      else case open_park db dev of
        None \<Rightarrow> Inl NoDataFound
      | Some p \<Rightarrow>
          if auto' \<and> \<not> (pk_auto p \<and> pk_opened_by p = btrim actor) then Inl Forbidden
          else if now < pk_opened_at p then Inl CheckViolation
          else bindR (set_admin_state ''enabled'' (\<lambda>d. d_id d = dev \<and> d_admin_state d = ''parked'')
                 (db\<lparr>parks := update_where (\<lambda>q. pk_id q = pk_id p) (close_park now actor reason) (parks db)\<rparr>)) (\<lambda>db2.
               (let db3 = write_health (\<lambda>r. r_device r = dev \<and> r_health r = HParked)
                            (\<lambda>r. r\<lparr>r_health := HUnknown, r_health_since := now, r_consec_bad := 0, r_consec_good := 0,
                                   r_ladder_tier := 0, r_updated_at := now\<rparr>) db2;
                    db4 = append_audit \<lparr>au_actor = btrim actor, au_action = ''device.unpark'', au_subject = ''device:'' @ nat_str dev,
                            au_reason = (case reason of None \<Rightarrow> None | Some r \<Rightarrow> nullif_empty (btrim r)),
                            au_detail = [(''park_id'', JInt (pk_id p)), (''auto'', JBool auto'), (''opened_by'', JStr (pk_opened_by p)),
                              (''parked_for_seconds'', JSpan (now - pk_opened_at p))]\<rparr> db3
                in Inr (pk_id p, append_event \<lparr>e_at = now, e_kind = ''device_unparked'', e_device = Some dev, e_slot = None,
                     e_lease = None, e_job = None, e_actor = Some (btrim actor),
                     e_detail = [(''park_id'', JInt (pk_id p)), (''auto'', JBool auto'), (''opened_by'', JStr (pk_opened_by p))]\<rparr> db4))))"

section \<open>What they may change\<close>

text \<open>Everything but the ledger, the state of devices, the runtime rows and the two logs.\<close>

definition park_only :: "farm \<Rightarrow> farm \<Rightarrow> bool" where
  "park_only db db' \<longleftrightarrow>
     leases db' = leases db \<and> fence_seq db' = fence_seq db \<and> jobs db' = jobs db \<and> slots db' = slots db \<and>
     hosts db' = hosts db \<and> hubs db' = hubs db \<and> power_domains db' = power_domains db \<and>
     attempts db' = attempts db \<and> quarantines db' = quarantines db \<and> reaper_state db' = reaper_state db \<and>
     list_all2 (\<lambda>d d'. \<exists>st. d' = d\<lparr>d_admin_state := st\<rparr>) (devices db) (devices db')"

lemma park_only_refl [simp]: "park_only db db"
proof -
  have "\<exists>st. d = d\<lparr>d_admin_state := st\<rparr>" for d :: device_row by (rule exI [of _ "d_admin_state d"]) simp
  then show ?thesis by (simp add: park_only_def list_all2_same)
qed

lemma park_only_trans:
  assumes "park_only db db1" and "park_only db1 db2"
  shows "park_only db db2"
proof -
  let ?R = "list_all2 (\<lambda>d d'. \<exists>st. d' = d\<lparr>d_admin_state := st\<rparr>)"
  have "?R (devices db) (devices db1)" "?R (devices db1) (devices db2)" using assms by (simp_all add: park_only_def)
  then have "?R (devices db) (devices db2)" by (rule list_all2_trans [rotated 1]) auto
  with assms show ?thesis by (simp add: park_only_def)
qed

lemma park_only_frame:
  assumes "leases db' = leases db" "fence_seq db' = fence_seq db" "jobs db' = jobs db" "slots db' = slots db"
    "hosts db' = hosts db" "hubs db' = hubs db" "power_domains db' = power_domains db" "attempts db' = attempts db"
    "quarantines db' = quarantines db" "reaper_state db' = reaper_state db"
    "devices db' = update_where P (\<lambda>d. d\<lparr>d_admin_state := st\<rparr>) (devices db)"
  shows "park_only db db'"
proof -
  have "\<exists>st'. (if P d then d\<lparr>d_admin_state := st\<rparr> else d) = d\<lparr>d_admin_state := st'\<rparr>" for d :: device_row
    by (rule exI [of _ "if P d then st else d_admin_state d"]) simp
  then show ?thesis using assms by (simp add: park_only_def update_where_def list_all2_map2 list_all2_same)
qed

lemma park_only_registry:
  assumes "park_only db db'" and "lease_wf db"
  shows "registry_step db db'"
proof -
  have "list_all2 (\<lambda>d d'. device_view d' = device_view d) (devices db) (devices db')"
    using assms(1) by (auto simp: park_only_def device_view_def elim: list_all2_mono)
  then have "map device_view (devices db') = map device_view (devices db)"
    by (induction rule: list_all2_induct) auto
  then show ?thesis
    using assms lease_wfD(3,8) [OF assms(2)] by (auto simp: park_only_def registry_step_def keyed_def list_all_iff)
qed

section \<open>What they answer\<close>

lemma set_admin_state_Inr:
  "set_admin_state st P db = Inr db' \<Longrightarrow> db' = db\<lparr>devices := update_where P (\<lambda>d. d\<lparr>d_admin_state := st\<rparr>) (devices db)\<rparr>"
  by (auto simp: set_admin_state_def split: list.splits)

lemma runtimes_frame [simp]:
  "parks (write_health Q f db) = parks db" "devices (write_health Q f db) = devices db"
  "parks (park_runtime now d db) = parks db" "devices (park_runtime now d db) = devices db"
  "park_seq (write_health Q f db) = park_seq db" "park_seq (park_runtime now d db) = park_seq db"
  "parks (append_audit a db) = parks db" "park_seq (append_audit a db) = park_seq db"
  by (simp_all add: write_health_def park_runtime_def append_audit_def split: option.splits)

lemma park_frames [simp]:
  "park_only (write_health Q f db) db' \<longleftrightarrow> park_only db db'" "park_only db0 (write_health Q f db) \<longleftrightarrow> park_only db0 db"
  "park_only db0 (park_runtime now d db) \<longleftrightarrow> park_only db0 db"
  "park_only db0 (append_audit a db) \<longleftrightarrow> park_only db0 db" "park_only db0 (append_event e db) \<longleftrightarrow> park_only db0 db"
  by (simp_all add: park_only_def write_health_def park_runtime_def append_audit_def append_event_def split: option.splits)

definition new_park :: "timestamp \<Rightarrow> int \<Rightarrow> uuid \<Rightarrow> string \<Rightarrow> string \<Rightarrow> bool \<Rightarrow> park_row" where
  "new_park now i dev actor reason auto' =
     \<lparr>pk_id = i, pk_device = dev, pk_reason = btrim reason, pk_opened_by = btrim actor, pk_opened_at = now, pk_auto = auto',
      pk_closed_at = None, pk_closed_by = None, pk_close_reason = None\<rparr>"

lemma device_park_InrD:
  assumes "device_park now dev actor reason auto' db = Inr (i, db')"
  shows "btrim actor \<noteq> [] \<and> btrim reason \<noteq> [] \<and> open_park db dev = None \<and> i = park_seq db + 1 \<and> park_seq db' = i \<and>
    (\<exists>d. device_by_id db dev = Some d \<and> d_admin_state d = ''enabled'') \<and>
    parks db' = parks db @ [new_park now i dev actor reason auto'] \<and>
    devices db' = update_where (\<lambda>d. d_id d = dev) (\<lambda>d. d\<lparr>d_admin_state := ''parked''\<rparr>) (devices db) \<and> park_only db db'"
proof -
  from assms obtain d db1 db2 where a: "btrim actor \<noteq> []" "btrim reason \<noteq> []" "device_by_id db dev = Some d" "d_admin_state d = ''enabled''"
    "insert_park now dev (btrim reason) (btrim actor) auto' db = Inr (i, db1)"
    "set_admin_state ''parked'' (\<lambda>d. d_id d = dev) db1 = Inr db2" "parks db' = parks db2" "devices db' = devices db2"
    "park_seq db' = park_seq db2" "park_only db db' \<longleftrightarrow> park_only db db2"
    by (auto simp: device_park_def bindR_eq_Inr Let_def split: if_splits option.splits)
  have b: "open_park db dev = None" "i = park_seq db + 1"
    "db1 = db\<lparr>parks := parks db @ [new_park now i dev actor reason auto'], park_seq := i\<rparr>"
    using a(5) by (auto simp: insert_park_def new_park_def Let_def Option.is_none_def split: if_splits)
  have c: "db2 = db1\<lparr>devices := update_where (\<lambda>d. d_id d = dev) (\<lambda>d. d\<lparr>d_admin_state := ''parked''\<rparr>) (devices db1)\<rparr>"
    by (rule set_admin_state_Inr [OF a(6)])
  have "park_only db db2" by (rule park_only_frame) (simp_all add: b(3) c)
  with a b c show ?thesis by simp
qed

lemma device_unpark_InrD:
  assumes "device_unpark now dev actor reason auto' db = Inr (i, db')"
  shows "\<exists>p. open_park db dev = Some p \<and> btrim actor \<noteq> [] \<and> i = pk_id p \<and> pk_opened_at p \<le> now \<and> (auto' \<longrightarrow> pk_auto p \<and> pk_opened_by p = btrim actor) \<and>
    parks db' = update_where (\<lambda>q. pk_id q = pk_id p) (close_park now actor reason) (parks db) \<and> park_seq db' = park_seq db \<and>
    devices db' = update_where (\<lambda>d. d_id d = dev \<and> d_admin_state d = ''parked'') (\<lambda>d. d\<lparr>d_admin_state := ''enabled''\<rparr>) (devices db) \<and>
    park_only db db'"
proof -
  from assms obtain p db2 where a: "open_park db dev = Some p" "i = pk_id p" "auto' \<longrightarrow> pk_auto p \<and> pk_opened_by p = btrim actor"
    "set_admin_state ''enabled'' (\<lambda>d. d_id d = dev \<and> d_admin_state d = ''parked'')
       (db\<lparr>parks := update_where (\<lambda>q. pk_id q = pk_id p) (close_park now actor reason) (parks db)\<rparr>) = Inr db2"
    "parks db' = parks db2" "devices db' = devices db2" "park_seq db' = park_seq db2" "park_only db db' \<longleftrightarrow> park_only db db2"
    "btrim actor \<noteq> []" "pk_opened_at p \<le> now"
    by (auto simp: device_unpark_def bindR_eq_Inr Let_def split: if_splits option.splits)
  note b = set_admin_state_Inr [OF a(4)]
  have "park_only db db2" by (rule park_only_frame) (simp_all add: b)
  with a b show ?thesis by auto
qed

section \<open>The ledger\<close>

text \<open>
  One open park per device, and a device is parked exactly while it has one; the CHECK constraints of
  the rows; identities handed out in order.
\<close>

definition park_checks :: "park_row \<Rightarrow> bool" where
  "park_checks p \<longleftrightarrow> btrim (pk_reason p) \<noteq> [] \<and> btrim (pk_opened_by p) \<noteq> [] \<and> (pk_closed_at p = None) = (pk_closed_by p = None) \<and>
     (case pk_closed_at p of None \<Rightarrow> True | Some t \<Rightarrow> pk_opened_at p \<le> t)"

definition parks_wf :: "farm \<Rightarrow> bool" where
  "parks_wf db \<longleftrightarrow> keyed d_id (devices db) \<and> keyed pk_id (parks db) \<and> keyed pk_device (filter is_open (parks db)) \<and>
     list_all (\<lambda>p. pk_id p \<le> park_seq db \<and> park_checks p) (parks db) \<and>
     list_all (\<lambda>p. is_open p \<longrightarrow> pk_device p \<in> set (map d_id (devices db))) (parks db) \<and>
     list_all (\<lambda>d. (d_admin_state d = ''parked'') = list_ex (\<lambda>p. pk_device p = d_id d \<and> is_open p) (parks db)) (devices db)"

lemma dropWhile_all: "\<forall>c\<in>set (dropWhile P s). P c \<Longrightarrow> dropWhile P s = []"
  by (cases "dropWhile P s") (auto simp: dropWhile_eq_Cons_conv)

lemma btrim_Nil: "btrim s = [] \<longleftrightarrow> (\<forall>c\<in>set s. c = CHR '' '')"
proof
  assume "btrim s = []"
  then have "\<forall>c\<in>set (dropWhile (\<lambda>c. c = CHR '' '') s). c = CHR '' ''"
    unfolding btrim_def rev_is_Nil_conv dropWhile_eq_Nil_conv set_rev .
  then have "dropWhile (\<lambda>c. c = CHR '' '') s = []" by (rule dropWhile_all)
  then show "\<forall>c\<in>set s. c = CHR '' ''" unfolding dropWhile_eq_Nil_conv .
next
  assume "\<forall>c\<in>set s. c = CHR '' ''"
  then have "dropWhile (\<lambda>c. c = CHR '' '') s = []" unfolding dropWhile_eq_Nil_conv .
  then show "btrim s = []" by (simp only: btrim_def rev.simps dropWhile.simps)
qed

lemma btrim_again: "btrim s \<noteq> [] \<Longrightarrow> btrim (btrim s) \<noteq> []"
proof -
  assume "btrim s \<noteq> []"
  then have ne: "dropWhile (\<lambda>c. c = CHR '' '') (rev (dropWhile (\<lambda>c. c = CHR '' '') s)) \<noteq> []" by (simp add: btrim_def)
  then have "hd (dropWhile (\<lambda>c. c = CHR '' '') (rev (dropWhile (\<lambda>c. c = CHR '' '') s))) \<noteq> CHR '' ''" by (rule hd_dropWhile)
  then have "\<exists>c\<in>set (btrim s). c \<noteq> CHR '' ''" unfolding btrim_def set_rev using hd_in_set [OF ne] by blast
  then show "btrim (btrim s) \<noteq> []" by (auto simp: btrim_Nil)
qed

lemma open_parkD: "open_park db dev = Some p \<Longrightarrow> p \<in> set (parks db) \<and> pk_device p = dev \<and> is_open p"
  by (auto simp: open_park_def dest: find_SomeD)

lemma open_park_None: "open_park db dev = None \<longleftrightarrow> \<not> list_ex (\<lambda>p. pk_device p = dev \<and> is_open p) (parks db)"
  by (auto simp: open_park_def find_None_iff list_ex_iff)

lemma is_open_new [simp]: "is_open (new_park now i dev actor reason auto')" "pk_device (new_park now i dev actor reason auto') = dev"
  "pk_id (new_park now i dev actor reason auto') = i"
  by (simp_all add: is_open_def new_park_def)

lemma is_open_close [simp]: "\<not> is_open (close_park now actor reason p)" "pk_id (close_park now actor reason p) = pk_id p"
  "pk_device (close_park now actor reason p) = pk_device p"
  by (simp_all add: is_open_def close_park_def)

lemma parks_wf_park:
  assumes wf: "parks_wf db" and res: "device_park now dev actor reason auto' db = Inr (i, db')"
  shows "parks_wf db'"
proof -
  note r = device_park_InrD [OF res]
  have none: "\<not> list_ex (\<lambda>p. pk_device p = dev \<and> is_open p) (parks db)" using r by (simp add: open_park_None)
  have ids: "map d_id (devices db') = map d_id (devices db)" using r by (simp add: map_update_where)
  have dev: "dev \<in> d_id ` set (devices db)" using r by (auto simp: device_by_id_def dest!: find_SomeD)
  have fresh: "i \<notin> pk_id ` set (parks db)" using wf r by (auto simp: parks_wf_def list_all_iff)
  have chk: "park_checks (new_park now i dev actor reason auto')" using r btrim_again by (simp add: park_checks_def new_park_def)
  have ps: "parks db' = parks db @ [new_park now i dev actor reason auto']"
    and ds: "devices db' = update_where (\<lambda>d. d_id d = dev) (\<lambda>d. d\<lparr>d_admin_state := ''parked''\<rparr>) (devices db)"
    and sq: "park_seq db' = i" "i = park_seq db + 1" using r by blast+
  have opens: "list_ex (\<lambda>p. pk_device p = x \<and> is_open p) (parks db') = (x = dev \<or> list_ex (\<lambda>p. pk_device p = x \<and> is_open p) (parks db))" for x
    by (auto simp: ps)
  show ?thesis unfolding parks_wf_def
  proof (intro conjI)
    show "keyed d_id (devices db')" using wf by (simp add: parks_wf_def keyed_def ids)
    show "keyed pk_id (parks db')" using wf fresh by (simp add: ps parks_wf_def keyed_append_single)
    show "keyed pk_device (filter is_open (parks db'))"
      using wf none by (auto simp: ps parks_wf_def keyed_append_single list_ex_iff)
    show "list_all (\<lambda>p. pk_id p \<le> park_seq db' \<and> park_checks p) (parks db')"
      using wf chk by (auto simp: ps sq parks_wf_def list_all_iff)
    show "list_all (\<lambda>p. is_open p \<longrightarrow> pk_device p \<in> set (map d_id (devices db'))) (parks db')"
      unfolding ids using wf dev by (auto simp: ps parks_wf_def list_all_iff)
    show "list_all (\<lambda>d. (d_admin_state d = ''parked'') = list_ex (\<lambda>p. pk_device p = d_id d \<and> is_open p) (parks db')) (devices db')"
      unfolding opens using wf by (auto simp: ds parks_wf_def list_all_iff set_update_where)
  qed
qed

lemma parks_wf_unpark:
  assumes wf: "parks_wf db" and res: "device_unpark now dev actor reason auto' db = Inr (i, db')"
  shows "parks_wf db'"
proof -
  from device_unpark_InrD [OF res] obtain p where p: "open_park db dev = Some p" "pk_opened_at p \<le> now"
    and ps: "parks db' = update_where (\<lambda>q. pk_id q = pk_id p) (close_park now actor reason) (parks db)"
    and ds: "devices db' = update_where (\<lambda>d. d_id d = dev \<and> d_admin_state d = ''parked'') (\<lambda>d. d\<lparr>d_admin_state := ''enabled''\<rparr>) (devices db)"
    and sq: "park_seq db' = park_seq db" by blast
  note q = open_parkD [OF p(1)]
  have same: "q = p" if "q \<in> set (parks db)" "pk_id q = pk_id p" for q
    using keyed_eqD [of pk_id "parks db" q p] that q wf by (simp add: parks_wf_def)
  have only: "q = p" if "q \<in> set (parks db)" "is_open q" "pk_device q = dev" for q
    using keyed_eqD [of pk_device "filter is_open (parks db)" q p] that q wf by (simp add: parks_wf_def)
  have fil: "filter is_open (parks db') = filter (\<lambda>q. is_open q \<and> q \<noteq> p) (parks db)"
  proof -
    have "filter is_open (update_where (\<lambda>q. pk_id q = pk_id p) (close_park now actor reason) qs) = filter (\<lambda>q. is_open q \<and> q \<noteq> p) qs"
      if "set qs \<subseteq> set (parks db)" for qs using that same by (induction qs) auto
    then show ?thesis by (simp add: ps)
  qed
  have chk: "park_checks (close_park now actor reason p)"
    using wf q p(2) by (auto simp: parks_wf_def list_all_iff park_checks_def close_park_def)
  have ids: "map d_id (devices db') = map d_id (devices db)" using ds by (simp add: map_update_where)
  have opens: "list_ex (\<lambda>q. pk_device q = x \<and> is_open q) (parks db') = (x \<noteq> dev \<and> list_ex (\<lambda>q. pk_device q = x \<and> is_open q) (parks db))" for x
    using same only q by (auto simp: ps list_ex_iff set_update_where)
  have "list_all (\<lambda>d. (d_admin_state d = ''parked'') = list_ex (\<lambda>p. pk_device p = d_id d \<and> is_open p) (parks db')) (devices db')"
    using wf q by (auto simp: parks_wf_def list_all_iff ds set_update_where opens)
  moreover have "keyed pk_device (filter is_open (parks db'))"
    using wf by (auto simp: parks_wf_def fil filter_filter [symmetric] simp del: filter_filter intro: keyed_filter)
  moreover have "keyed pk_id (parks db')" using wf by (simp add: ps parks_wf_def keyed_update_where)
  moreover have "list_all (\<lambda>p. pk_id p \<le> park_seq db' \<and> park_checks p) (parks db')"
    using wf chk same by (auto simp: ps sq parks_wf_def list_all_iff set_update_where)
  moreover have "list_all (\<lambda>p. is_open p \<longrightarrow> pk_device p \<in> set (map d_id (devices db'))) (parks db')"
    unfolding ids using wf by (auto simp: ps parks_wf_def list_all_iff set_update_where)
  ultimately show ?thesis using wf ids by (simp add: parks_wf_def keyed_def)
qed

end
