(* ===== verification/Charge_Plan.thy ===== *)
theory Charge_Plan
  imports Charge_Gate Park_Sql
begin

text \<open>
  \<^verbatim>\<open>internal/chargepolicy/policy.go\<close>, the decision: the scan of the fleet, its grouping into units, what
  the agents say they hold, the state of a peek, and \<^verbatim>\<open>decide\<close>.
\<close>

section \<open>Configuration\<close>

definition reasonPrefix :: string where "reasonPrefix = ''charge policy: ''"

record charge_config =
  cc_Component :: string
  cc_Actor :: string
  cc_MinPct :: int
  cc_MaxPct :: int
  cc_Interval :: duration
  cc_PeekEvery :: duration
  cc_PeekFor :: duration
  cc_HumanCooldown :: duration
  cc_LockKey :: int
  cc_Gates :: bool     \<comment> \<open>a node client is configured\<close>

definition charge_applyDefaults :: "charge_config \<Rightarrow> charge_config" where
  "charge_applyDefaults c =
     c\<lparr>cc_Component := (if cc_Component c = [] then ''chargepolicy'' else cc_Component c),
       cc_Actor := (if cc_Actor c = [] then ''chargepolicy'' else cc_Actor c),
       cc_MinPct := (if cc_MinPct c = 0 \<and> cc_MaxPct c = 0 then 40 else cc_MinPct c),
       cc_MaxPct := (if cc_MinPct c = 0 \<and> cc_MaxPct c = 0 then 80 else cc_MaxPct c),
       cc_Interval := or_default (2 * 60 * Second) (cc_Interval c),
       cc_PeekEvery := or_default (6 * 60 * 60 * Second) (cc_PeekEvery c),
       cc_PeekFor := or_default (3 * 60 * Second) (cc_PeekFor c),
       cc_HumanCooldown := or_default (30 * 60 * Second) (cc_HumanCooldown c),
       cc_LockKey := (if cc_LockKey c = 0 then 0x6661726d43687267 else cc_LockKey c)\<rparr>"

text \<open>\<^verbatim>\<open>New\<close>: the configuration it runs with and the hold of every off-gate, or a refusal.\<close>

definition charge_New :: "charge_config \<Rightarrow> (charge_config \<times> duration) option" where
  "charge_New cfg =
     (let c = charge_applyDefaults cfg in
      if cc_MinPct c \<le> 0 \<or> cc_MaxPct c > 100 \<or> cc_MinPct c \<ge> cc_MaxPct c then None
      else if cc_Interval c * 2 > MaxChargeGateHold then None
      else Some (c, min (2 * cc_Interval c) MaxChargeGateHold))"

section \<open>The scan\<close>

record cdevice =
  cd_ID :: uuid
  cd_HostID :: string
  cd_Devpath :: string
  cd_SlotID :: int
  cd_DomainID :: int
  cd_DomainKind :: string
  cd_DomainControl :: string
  cd_HasAgent :: bool
  cd_Battery :: int
  cd_ChargeGate :: string
  cd_Leased :: bool
  cd_AdminState :: string
  cd_Parked :: bool
  cd_ParkAuto :: bool
  cd_ParkedBy :: string
  cd_HoldDue :: bool
  cd_HumanUnparked :: bool

definition or_else :: "'a \<Rightarrow> 'a option \<Rightarrow> 'a" where
  "or_else d x = (case x of None \<Rightarrow> d | Some y \<Rightarrow> y)"

text \<open>A park of this actor's that somebody else closed inside the cooldown.\<close>

definition human_closed :: "string \<Rightarrow> timestamp \<Rightarrow> park_row \<Rightarrow> bool" where
  "human_closed actor since p \<longleftrightarrow> pk_auto p \<and> pk_opened_by p = actor \<and>
     (case pk_closed_by p of None \<Rightarrow> False | Some who \<Rightarrow> who \<noteq> actor) \<and>
     (case pk_closed_at p of None \<Rightarrow> False | Some t \<Rightarrow> t > since)"

definition scan_row :: "timestamp \<Rightarrow> charge_config \<Rightarrow> farm \<Rightarrow> device_row \<Rightarrow> cdevice" where
  "scan_row now cfg db d =
     (let s = slot_of_device db d;
          host = (case s of Some x \<Rightarrow> Some (s_host x) | None \<Rightarrow> d_host d);
          pdom = Option.bind (Option.bind s s_power_domain) (\<lambda>i. List.find (\<lambda>p. pd_id p = i) (power_domains db));
          rt = runtime_by_device db (d_id d);
          p = open_park db (d_id d)
      in \<lparr>cd_ID = d_id d, cd_HostID = or_else [] host, cd_Devpath = or_else [] (map_option s_adb_devpath s),
          cd_SlotID = or_else 0 (map_option s_id s), cd_DomainID = or_else 0 (Option.bind s s_power_domain),
          cd_DomainKind = or_else [] (map_option pd_kind pdom), cd_DomainControl = or_else [] (map_option pd_control pdom),
          cd_HasAgent = (Option.bind (Option.bind host (host_by_id db)) ho_node_endpoint \<noteq> None),
          cd_Battery = or_else (- 1) (Option.bind rt r_battery_pct), cd_ChargeGate = or_else [] (Option.bind rt r_charge_gate),
          cd_Leased = (d_current_lease d \<noteq> None), cd_AdminState = d_admin_state d,
          cd_Parked = (case p of None \<Rightarrow> False | Some _ \<Rightarrow> True),
          cd_ParkAuto = or_else False (map_option pk_auto p), cd_ParkedBy = or_else [] (map_option pk_opened_by p),
          cd_HoldDue = or_else False (map_option (\<lambda>q. pk_opened_at q < now - intervalArg (cc_PeekEvery cfg)) p),
          cd_HumanUnparked = list_ex (\<lambda>q. pk_device q = d_id d \<and> human_closed (cc_Actor cfg) (now - intervalArg (cc_HumanCooldown cfg)) q)
            (parks db)\<rparr>)"

text \<open>\<^verbatim>\<open>ORDER BY\<close>: a device with no slot sorts after the others of its group.\<close>

definition scan_order :: "cdevice \<Rightarrow> string \<times> int \<times> bool \<times> string \<times> uuid" where
  "scan_order c = (cd_HostID c, cd_DomainID c, cd_Devpath c = [], cd_Devpath c, cd_ID c)"

definition scan :: "timestamp \<Rightarrow> charge_config \<Rightarrow> farm \<Rightarrow> cdevice list" where
  "scan now cfg db = sort_key scan_order (map (scan_row now cfg db) (filter (\<lambda>d. d_admin_state d \<noteq> ''retired'') (devices db)))"

definition gangedSiblings :: "farm \<Rightarrow> int \<Rightarrow> string list" where
  "gangedSiblings db i =
     (if list_ex (\<lambda>p. pd_id p = i \<and> pd_kind p = ''ganged'') (power_domains db)
      then sort (map s_adb_devpath (filter (\<lambda>s. s_power_domain s = Some i) (slots db))) else [])"

section \<open>Units\<close>

record cunit =
  un_Key :: string
  un_HostID :: string
  un_Ganged :: bool
  un_Devices :: "cdevice list"
  un_Siblings :: "string list"
  un_HasClient :: bool
  un_Held :: "charge_gate option"
  un_ForeignGate :: bool
  un_Peeking :: bool
  un_PeekSettled :: bool

definition un_devpaths :: "cunit \<Rightarrow> string list" where
  "un_devpaths u = filter (\<lambda>p. p \<noteq> []) (map cd_Devpath (un_Devices u))"

definition un_ids :: "cunit \<Rightarrow> uuid list" where
  "un_ids u = map cd_ID (un_Devices u)"

definition is_ganged :: "cdevice \<Rightarrow> bool" where
  "is_ganged d \<longleftrightarrow> cd_DomainKind d = ''ganged'' \<and> cd_DomainID d \<noteq> 0"

definition unit_key :: "cdevice \<Rightarrow> string" where
  "unit_key d = (if is_ganged d then ''domain/'' @ cd_HostID d @ ''/'' @ int_str (cd_DomainID d) else ''device/'' @ nat_str (cd_ID d))"

definition group :: "cdevice list \<Rightarrow> (int \<Rightarrow> string list) \<Rightarrow> cunit list" where
  "group devs siblings =
     map (\<lambda>key. let ds = filter (\<lambda>d. unit_key d = key) devs
                in \<lparr>un_Key = key, un_HostID = cd_HostID (hd ds), un_Ganged = is_ganged (hd ds), un_Devices = ds,
                    un_Siblings = (if is_ganged (hd ds) then siblings (cd_DomainID (hd ds)) else []),
                    un_HasClient = False, un_Held = None, un_ForeignGate = False, un_Peeking = False, un_PeekSettled = False\<rparr>)
       (rev (remdups (rev (map unit_key devs))))"

text \<open>A device under this loop's own park.\<close>

definition is_ours :: "string \<Rightarrow> cdevice \<Rightarrow> bool" where
  "is_ours actor d \<longleftrightarrow> cd_Parked d \<and> cd_ParkAuto d \<and> cd_ParkedBy d = actor"

definition ourParks :: "cunit \<Rightarrow> string \<Rightarrow> uuid list" where
  "ourParks u actor = map cd_ID (filter (is_ours actor) (un_Devices u))"

definition attachGates :: "charge_gate list \<Rightarrow> cunit \<Rightarrow> cunit" where
  "attachGates gs u =
     (let mine = filter (\<lambda>g. ga_Held g \<and> ga_Devpath g \<in> set (un_devpaths u)) gs
      in u\<lparr>un_Held := List.find (\<lambda>g. has_prefix reasonPrefix (ga_Reason g)) mine,
           un_ForeignGate := list_ex (\<lambda>g. \<not> has_prefix reasonPrefix (ga_Reason g)) mine\<rparr>)"

text \<open>\<^verbatim>\<open>attachPeek\<close>, with the instants at which the process remembers the peeks to have begun.\<close>

definition attachPeek :: "int \<Rightarrow> charge_config \<Rightarrow> (string \<rightharpoonup> int) \<Rightarrow> cunit \<Rightarrow> cunit \<times> (string \<rightharpoonup> int)" where
  "attachPeek clock cfg peeks u =
     (let ours = filter (is_ours (cc_Actor cfg)) (un_Devices u) in
      if (case un_Held u of Some _ \<Rightarrow> True | None \<Rightarrow> False) \<or> ours = [] \<or> list_ex (\<lambda>d. cd_ChargeGate d \<noteq> ChargePowerOn) ours
      then (u, peeks(un_Key u := None))
      else (let since = or_else clock (peeks (un_Key u))
            in (u\<lparr>un_Peeking := True, un_PeekSettled := (clock - since \<ge> cc_PeekFor cfg)\<rparr>, peeks(un_Key u \<mapsto> since))))"

section \<open>The decision\<close>

datatype cverdict = VerdictNone | VerdictGate | VerdictRegate | VerdictRenew | VerdictPeek | VerdictRelease | VerdictSkip

record cplan =
  pn_verdict :: cverdict
  pn_reason :: string
  pn_anchor :: string
  pn_ack :: "string list"
  pn_park :: "uuid list"
  pn_unpark :: "uuid list"
  pn_reopen :: bool

definition no_plan :: cplan where
  "no_plan = \<lparr>pn_verdict = VerdictNone, pn_reason = [], pn_anchor = [], pn_ack = [], pn_park = [], pn_unpark = [], pn_reopen = False\<rparr>"

record thresholds =
  th_actor :: string
  th_min :: int
  th_max :: int

text \<open>Parked by somebody else, or out of service.\<close>

definition is_foreign :: "string \<Rightarrow> cdevice \<Rightarrow> bool" where
  "is_foreign actor d \<longleftrightarrow> \<not> is_ours actor d \<and> (cd_Parked d \<or> cd_AdminState d \<noteq> ''enabled'')"

definition is_fresh :: "string \<Rightarrow> cdevice \<Rightarrow> bool" where
  "is_fresh actor d \<longleftrightarrow> \<not> is_ours actor d \<and> \<not> cd_Parked d \<and> cd_AdminState d = ''enabled''"

text \<open>The highest known charge and the position of the first device that has it; -1 when none is known.\<close>

fun hottest_of :: "cdevice list \<Rightarrow> int \<times> string \<Rightarrow> int \<times> string" where
  "hottest_of [] best = best"
| "hottest_of (d # ds) best = hottest_of ds (if cd_Battery d \<ge> 0 \<and> cd_Battery d > fst best then (cd_Battery d, cd_Devpath d) else best)"

definition lowest_of :: "cdevice list \<Rightarrow> int" where
  "lowest_of ds = fold (\<lambda>d m. if cd_Battery d < 0 then m else min m (cd_Battery d)) ds 101"

definition standDown :: "cunit \<Rightarrow> thresholds \<Rightarrow> string \<Rightarrow> cplan" where
  "standDown u th reason =
     (let ours = ourParks u (th_actor th); maxPct = fst (hottest_of (un_Devices u) (- 1, [])) in
      if (case un_Held u of Some _ \<Rightarrow> True | None \<Rightarrow> False) \<or> ours \<noteq> []
      then no_plan\<lparr>pn_verdict := VerdictRelease, pn_reason := reason, pn_anchor := or_else [] (map_option ga_Devpath (un_Held u)),
                   pn_unpark := ours\<rparr>
      else if maxPct > th_max th then no_plan\<lparr>pn_verdict := VerdictSkip, pn_reason := reason\<rparr>
      else no_plan)"

text \<open>The hold in progress: the unit has parks of this loop's.\<close>

definition decide_held :: "cunit \<Rightarrow> thresholds \<Rightarrow> string \<Rightarrow> cplan" where
  "decide_held u th hottest =
     (let ds = un_Devices u; ours = ourParks u (th_actor th); fresh = map cd_ID (filter (is_fresh (th_actor th)) ds);
          maxPct = fst (hottest_of ds (- 1, [])); minPct = lowest_of ds; unknown = list_ex (\<lambda>d. cd_Battery d < 0) ds;
          heldAt = or_else [] (map_option ga_Devpath (un_Held u))
      in if \<not> unknown \<and> minPct \<le> th_min th
         then no_plan\<lparr>pn_verdict := VerdictRelease, pn_unpark := ours, pn_anchor := heldAt,
                pn_reason := int_str minPct @ ''% is at or below '' @ int_str (th_min th) @ ''%''\<rparr>
         else if (case un_Held u of Some _ \<Rightarrow> True | None \<Rightarrow> False)
         then (if list_ex (\<lambda>d. is_ours (th_actor th) d \<and> cd_HoldDue d) ds
               then no_plan\<lparr>pn_verdict := VerdictPeek, pn_reason := ''peek'', pn_anchor := heldAt\<rparr>
               else no_plan\<lparr>pn_verdict := VerdictRenew, pn_anchor := heldAt, pn_ack := un_Siblings u, pn_park := fresh,
                      pn_reason := ''holding at '' @ int_str maxPct @ ''%''\<rparr>)
         else if un_Peeking u
         then (if \<not> un_PeekSettled u then no_plan
               else no_plan\<lparr>pn_verdict := VerdictRegate, pn_anchor := hottest, pn_ack := un_Siblings u, pn_park := fresh,
                      pn_unpark := ours, pn_reopen := True,
                      pn_reason := (if unknown then ''peek read no battery; holding again''
                        else ''peek read '' @ int_str minPct @ ''%, above '' @ int_str (th_min th) @ ''%'')\<rparr>)
         else no_plan\<lparr>pn_verdict := VerdictRegate, pn_anchor := hottest, pn_ack := un_Siblings u, pn_park := fresh,
                pn_reason := ''re-asserting a dropped gate at '' @ int_str maxPct @ ''%''\<rparr>)"

definition decide :: "cunit \<Rightarrow> thresholds \<Rightarrow> cplan" where
  "decide u th =
     (let ds = un_Devices u; firstDev = or_else [] (List.find (\<lambda>p. p \<noteq> []) (map cd_Devpath ds));
          (maxPct, hot) = hottest_of ds (- 1, []); hottest = (if hot = [] then firstDev else hot);
          held = (case un_Held u of Some _ \<Rightarrow> True | None \<Rightarrow> False)
      in if list_ex cd_Leased ds then standDown u th ''leased''
         else if list_ex (is_foreign (th_actor th)) ds then standDown u th ''foreign_park''
         else if un_ForeignGate u then standDown u th ''foreign_gate''
         else if \<not> un_HasClient u then standDown u th ''no_client''
         else if firstDev = [] then standDown u th ''no_slot''
         else if \<not> cd_HasAgent (hd ds) then standDown u th ''no_agent''
         else if list_ex (\<lambda>d. cd_DomainKind d = ''none'' \<or> cd_DomainControl d = ''none'') ds then standDown u th ''unswitchable''
         else if ourParks u (th_actor th) \<noteq> [] then decide_held u th hottest
         else if held then no_plan\<lparr>pn_verdict := VerdictRelease, pn_reason := ''park_closed'',
                              pn_anchor := or_else [] (map_option ga_Devpath (un_Held u))\<rparr>
         else if \<not> maxPct > th_max th then no_plan
         else if un_Ganged u \<and> list_ex (\<lambda>d. cd_Battery d < 0) ds then no_plan\<lparr>pn_verdict := VerdictSkip, pn_reason := ''unknown_battery''\<rparr>
         else if list_ex cd_HumanUnparked ds then no_plan\<lparr>pn_verdict := VerdictSkip, pn_reason := ''human_unparked''\<rparr>
         else no_plan\<lparr>pn_verdict := VerdictGate, pn_anchor := hottest, pn_ack := un_Siblings u,
                pn_park := map cd_ID (filter (is_fresh (th_actor th)) ds),
                pn_reason := int_str maxPct @ ''% is above '' @ int_str (th_max th) @ ''%''\<rparr>)"

definition unitNeedsAction :: "cunit \<Rightarrow> thresholds \<Rightarrow> bool" where
  "unitNeedsAction u th \<longleftrightarrow> list_ex (\<lambda>d. cd_Battery d > th_max th \<or> is_ours (th_actor th) d) (un_Devices u)"

end
