(* ===== verification/Charge_Loop.thy ===== *)
theory Charge_Loop
  imports Charge_Plan Leadership
begin

text \<open>
  \<^verbatim>\<open>internal/chargepolicy/policy.go\<close>, the loop: what it asks of the database and, through the node client
  (\<^verbatim>\<open>internal/node/chargegate_client.go\<close>), of the host agents, and a whole cycle. The agents are the ones of
  \<^verbatim>\<open>Charge_Gate\<close>, found under the addresses recorded in \<^verbatim>\<open>farm.hosts\<close>. Every call carries its link. The
  clock of the database and that of the process are each read once in a cycle; metrics, warnings and
  the end of the process in mid-unit are left out.
\<close>

section \<open>The node client\<close>

datatype client_error = Malformed string | Unreachable | NoEndpoint string | Unauthorized | BadRequest | NotServed
  | Declined gate_error | CannotHere gate_error | DeclinedOnTheWay int | Failed' gate_error | OtherHost string

definition err_unreachable :: "client_error \<Rightarrow> bool" where
  "err_unreachable e \<longleftrightarrow> e = Unreachable"

text \<open>The database of the farm and the agents, by the address that reaches them.\<close>

record fleet =
  fl_db :: farm
  fl_agents :: "string \<Rightarrow> gates"

text \<open>How one call goes: the read of the address, the round trip, and what the agent's clock and hardware say.\<close>

record gate_io =
  gi_resolve :: link
  gi_link :: link
  gi_now :: int
  gi_hw :: hw_io

definition endpoint :: "gate_io \<Rightarrow> string \<Rightarrow> farm \<Rightarrow> client_error + string" where
  "endpoint io host db =
     (if gi_resolve io \<noteq> Up then Inl Unreachable
      else case host_by_id db host of
        None \<Rightarrow> Inl (NoEndpoint host)
      | Some h \<Rightarrow>
          (case ho_node_endpoint h of
             None \<Rightarrow> Inl (NoEndpoint host)
           | Some raw \<Rightarrow> if trim_space raw = [] then Inl (NoEndpoint host) else Inr (trim_space raw)))"

text \<open>The status the agent answers an error with, and what the client reads a status as.\<close>

definition chargeGateHTTPStatus :: "gate_error \<Rightarrow> int" where
  "chargeGateHTTPStatus e = (if is_refusal e then 409 else case e of NotSupported _ \<Rightarrow> 501 | _ \<Rightarrow> 500)"

definition statusError :: "int \<Rightarrow> bool \<Rightarrow> gate_error \<Rightarrow> client_error" where
  "statusError status fromAgent detail =
     (if status = 401 then Unauthorized
      else if status = 400 then BadRequest
      else if status = 404 then NotServed
      else if status = 409 then Declined detail
      else if status = 501 then CannotHere detail
      else if status \<in> {502, 503, 504} then Unreachable
      else if 400 \<le> status \<and> status < 500 then DeclinedOnTheWay status
      else if \<not> fromAgent then Unreachable
      else Failed' detail)"

definition client_SetChargeGate :: "gate_io \<Rightarrow> gate_request \<Rightarrow> fleet \<Rightarrow> (client_error + charge_gate) \<times> fleet" where
  "client_SetChargeGate io req w =
     (if trim_space (gr_HostID req) = [] then (Inl (Malformed ''host''), w)
      else if trim_space (gr_Devpath req) = [] then (Inl (Malformed ''devpath''), w)
      else if gr_Power req \<noteq> ChargePowerOn \<and> gr_Power req \<noteq> ChargePowerOff then (Inl (Malformed ''power''), w)
      else case endpoint io (gr_HostID req) (fl_db w) of
        Inl e \<Rightarrow> (Inl e, w)
      | Inr base \<Rightarrow>
          if gi_link io = LostBefore then (Inl Unreachable, w)
          else (case agent_SetChargeGate (gi_now io) (gi_hw io) req (fl_agents w base) of
                  (r, s') \<Rightarrow>
                    (if gi_link io = LostAfter then Inl Unreachable
                     else (case r of
                             Inl e \<Rightarrow> Inl (statusError (chargeGateHTTPStatus e) True e)
                           | Inr g \<Rightarrow> if ga_HostID g \<noteq> gr_HostID req then Inl (OtherHost (ga_HostID g)) else Inr g),
                     w\<lparr>fl_agents := (fl_agents w)(base := s')\<rparr>)))"

definition ReleaseChargeGate :: "gate_io \<Rightarrow> string \<Rightarrow> string \<Rightarrow> string \<Rightarrow> fleet \<Rightarrow> (client_error + charge_gate) \<times> fleet" where
  "ReleaseChargeGate io host devpath reason w =
     client_SetChargeGate io \<lparr>gr_HostID = host, gr_Devpath = devpath, gr_Power = ChargePowerOn, gr_Hold = 0,
       gr_Acknowledged = [], gr_Reason = reason\<rparr> w"

definition client_ChargeGates :: "gate_io \<Rightarrow> string \<Rightarrow> fleet \<Rightarrow> client_error + charge_gate list" where
  "client_ChargeGates io host w =
     (if trim_space host = [] then Inl (Malformed ''host'')
      else case endpoint io host (fl_db w) of
        Inl e \<Rightarrow> Inl e
      | Inr base \<Rightarrow>
          if gi_link io \<noteq> Up then Inl Unreachable
          else if cg_host (fl_agents w base) \<noteq> host then Inl (OtherHost (cg_host (fl_agents w base)))
          else Inr (gates_snapshot (fl_agents w base)))"

section \<open>The statements\<close>

record charge_io =
  ci_now :: timestamp
  ci_clock :: int
  ci_beat :: link
  ci_ensure :: ensure_io
  ci_scan :: link
  ci_siblings :: link
  ci_hosts :: link
  ci_list :: "string \<Rightarrow> gate_io"
  ci_mark :: "string \<Rightarrow> link"
  ci_park :: "uuid \<Rightarrow> link"
  ci_undo :: "uuid \<Rightarrow> link"
  ci_unpark :: "uuid \<Rightarrow> link"
  ci_gate :: "string \<Rightarrow> gate_io"
  ci_release :: "string \<Rightarrow> gate_io"
  ci_write :: "string \<Rightarrow> link"
  ci_stray :: "string \<times> string \<Rightarrow> gate_io"
  ci_stray_write :: "string \<times> string \<Rightarrow> link"
  ci_text :: "client_error \<Rightarrow> string"

definition errText :: "charge_io \<Rightarrow> client_error \<Rightarrow> string" where
  "errText io e = (let s = ci_text io e in if length s > 200 then take 200 s @ [CHR 0xE2, CHR 0x80, CHR 0xA6] else s)"

definition on_db :: "(farm \<Rightarrow> farm) \<Rightarrow> fleet \<Rightarrow> fleet" where
  "on_db f w = w\<lparr>fl_db := f (fl_db w)\<rparr>"

definition unpark_one :: "link \<Rightarrow> charge_io \<Rightarrow> charge_config \<Rightarrow> string \<Rightarrow> uuid \<Rightarrow> farm \<Rightarrow> bool \<times> farm" where
  "unpark_one k io cfg reason i db =
     (case round_trip k (device_unpark (ci_now io) i (cc_Actor cfg) (Some (reasonPrefix @ reason)) True) db of
        (r, db') \<Rightarrow> (\<not> isl r, db'))"

fun unparkAll :: "(uuid \<Rightarrow> link) \<Rightarrow> charge_io \<Rightarrow> charge_config \<Rightarrow> string \<Rightarrow> uuid list \<Rightarrow> farm \<Rightarrow> bool \<times> farm" where
  "unparkAll ks io cfg reason [] db = (True, db)"
| "unparkAll ks io cfg reason (i # is) db =
     (case unpark_one (ks i) io cfg reason i db of
        (ok, db1) \<Rightarrow> (case unparkAll ks io cfg reason is db1 of (oks, db2) \<Rightarrow> (ok \<and> oks, db2)))"

fun parkAll :: "charge_io \<Rightarrow> charge_config \<Rightarrow> string \<Rightarrow> uuid list \<Rightarrow> uuid list \<Rightarrow> farm \<Rightarrow> bool \<times> farm" where
  "parkAll io cfg reason opened [] db = (True, db)"
| "parkAll io cfg reason opened (i # is) db =
     (case round_trip (ci_park io i) (device_park (ci_now io) i (cc_Actor cfg) (reasonPrefix @ reason) True) db of
        (Inl _, db1) \<Rightarrow> (False, snd (unparkAll (ci_undo io) io cfg ''a neighbour could not be parked'' opened db1))
      | (Inr _, db1) \<Rightarrow> parkAll io cfg reason (opened @ [i]) is db1)"

text \<open>An UPDATE of the two columns this loop owns, where they differ.\<close>

definition write_gate :: "timestamp \<Rightarrow> (runtime_row \<Rightarrow> bool) \<Rightarrow> string \<Rightarrow> farm \<Rightarrow> farm" where
  "write_gate now P state db =
     db\<lparr>runtimes := update_where (\<lambda>r. P r \<and> r_charge_gate r \<noteq> Some state)
          (\<lambda>r. r\<lparr>r_charge_gate := Some state, r_updated_at := now\<rparr>) (runtimes db)\<rparr>"

definition arrives :: "link \<Rightarrow> bool" where
  "arrives k \<longleftrightarrow> k \<noteq> LostBefore"

definition writeGate :: "charge_io \<Rightarrow> cunit \<Rightarrow> string \<Rightarrow> farm \<Rightarrow> farm" where
  "writeGate io u state db =
     (if un_Devices u = [] \<or> \<not> arrives (ci_write io (un_Key u)) then db
      else write_gate (ci_now io) (\<lambda>r. r_device r \<in> set (un_ids u)) state db)"

definition noteFailure :: "charge_io \<Rightarrow> cunit \<Rightarrow> client_error \<Rightarrow> farm \<Rightarrow> farm" where
  "noteFailure io u e db = (if err_unreachable e then writeGate io u ChargePowerUnknown db else db)"

definition markUnreachable :: "charge_io \<Rightarrow> string \<Rightarrow> farm \<Rightarrow> farm" where
  "markUnreachable io host db =
     (if \<not> arrives (ci_mark io host) then db
      else db\<lparr>runtimes := update_where (\<lambda>r. r_host r = Some host \<and> r_charge_gate r = Some ChargePowerOff)
             (\<lambda>r. r\<lparr>r_charge_gate := Some ChargePowerUnknown, r_updated_at := ci_now io\<rparr>) (runtimes db)\<rparr>)"

section \<open>Carrying out a plan\<close>

definition assert_gate :: "charge_io \<Rightarrow> duration \<Rightarrow> cunit \<Rightarrow> cplan \<Rightarrow> fleet \<Rightarrow> client_error option \<times> fleet" where
  "assert_gate io hold u pl w =
     (case client_SetChargeGate (ci_gate io (un_Key u)) \<lparr>gr_HostID = un_HostID u, gr_Devpath = pn_anchor pl, gr_Power = ChargePowerOff,
             gr_Hold = hold, gr_Acknowledged = pn_ack pl, gr_Reason = reasonPrefix @ pn_reason pl\<rparr> w of
        (Inl e, w') \<Rightarrow> (Some e, w')
      | (Inr _, w') \<Rightarrow> (None, w'))"

definition releaseGate :: "charge_io \<Rightarrow> cunit \<Rightarrow> string \<Rightarrow> string \<Rightarrow> fleet \<Rightarrow> client_error option \<times> fleet" where
  "releaseGate io u devpath reason w =
     (case ReleaseChargeGate (ci_release io (un_Key u)) (un_HostID u) devpath (reasonPrefix @ reason) w of
        (Inl e, w') \<Rightarrow> (Some e, w')
      | (Inr _, w') \<Rightarrow> (None, w'))"

text \<open>The peeks the process remembers, and the positions it has touched in this cycle.\<close>

record charge_mem =
  cm_peeks :: "string \<rightharpoonup> int"
  cm_touched :: "(string \<times> string) list"

definition mark :: "cunit \<Rightarrow> string \<Rightarrow> charge_mem \<Rightarrow> charge_mem" where
  "mark u devpath m = (if devpath = [] then m else m\<lparr>cm_touched := (un_HostID u, devpath) # cm_touched m\<rparr>)"

definition forget_peek :: "cunit \<Rightarrow> charge_mem \<Rightarrow> charge_mem" where
  "forget_peek u m = m\<lparr>cm_peeks := (cm_peeks m)(un_Key u := None)\<rparr>"

text \<open>\<^verbatim>\<open>verdictGate\<close> and \<^verbatim>\<open>verdictRegate\<close> once the unit is parked.\<close>

definition gate_parked :: "charge_io \<Rightarrow> charge_config \<Rightarrow> duration \<Rightarrow> cunit \<Rightarrow> cplan \<Rightarrow> uuid list \<Rightarrow> fleet \<times> charge_mem \<Rightarrow> fleet \<times> charge_mem" where
  "gate_parked io cfg hold u pl parked wm =
     (let m1 = mark u (pn_anchor pl) (snd wm) in
      case assert_gate io hold u pl (fst wm) of
        (Some e, w1) \<Rightarrow>
          (let toClose = (if pn_verdict pl = VerdictRegate \<and> \<not> pn_reopen pl then parked @ ourParks u (cc_Actor cfg) else parked);
               db1 = snd (unparkAll (ci_undo io) io cfg (''the charge gate could not be asserted: '' @ errText io e) toClose (fl_db w1))
           in (w1\<lparr>fl_db := noteFailure io u e db1\<rparr>, m1))
      | (None, w1) \<Rightarrow> (on_db (writeGate io u ChargePowerOff) w1, forget_peek u m1))"

definition execute_gate :: "charge_io \<Rightarrow> charge_config \<Rightarrow> duration \<Rightarrow> cunit \<Rightarrow> cplan \<Rightarrow> fleet \<times> charge_mem \<Rightarrow> fleet \<times> charge_mem" where
  "execute_gate io cfg hold u pl wm =
     (case wm of (w, m) \<Rightarrow>
        (case (if pn_reopen pl then unparkAll (ci_unpark io) io cfg (pn_reason pl) (pn_unpark pl) (fl_db w) else (True, fl_db w)) of
           (False, db1) \<Rightarrow> (w\<lparr>fl_db := db1\<rparr>, m)
         | (True, db1) \<Rightarrow>
             (let ids = (if pn_reopen pl then pn_park pl @ pn_unpark pl else pn_park pl) in
              case parkAll io cfg (pn_reason pl) [] ids db1 of
                (False, db2) \<Rightarrow> (w\<lparr>fl_db := db2\<rparr>, m)
              | (True, db2) \<Rightarrow> gate_parked io cfg hold u pl ids (w\<lparr>fl_db := db2\<rparr>, m))))"

definition execute_renew :: "charge_io \<Rightarrow> charge_config \<Rightarrow> duration \<Rightarrow> cunit \<Rightarrow> cplan \<Rightarrow> fleet \<times> charge_mem \<Rightarrow> fleet \<times> charge_mem" where
  "execute_renew io cfg hold u pl wm =
     (case wm of (w, m) \<Rightarrow>
        (case parkAll io cfg (pn_reason pl) [] (pn_park pl) (fl_db w) of
           (False, db1) \<Rightarrow> (w\<lparr>fl_db := db1\<rparr>, m)
         | (True, db1) \<Rightarrow>
             (let m1 = mark u (pn_anchor pl) m in
              case assert_gate io hold u pl (w\<lparr>fl_db := db1\<rparr>) of
                (None, w1) \<Rightarrow> (on_db (writeGate io u ChargePowerOff) w1, m1)
              | (Some e, w1) \<Rightarrow>
                  if err_unreachable e then (on_db (writeGate io u ChargePowerUnknown) w1, m1)
                  else (let w2 = snd (releaseGate io u (pn_anchor pl) (''renewal refused: '' @ errText io e) w1);
                            db2 = snd (unparkAll (ci_unpark io) io cfg (''the charge gate was refused: '' @ errText io e)
                                    (ourParks u (cc_Actor cfg)) (fl_db w2))
                        in (w2\<lparr>fl_db := writeGate io u ChargePowerOn db2\<rparr>, m1)))))"

definition execute_peek :: "charge_io \<Rightarrow> cunit \<Rightarrow> cplan \<Rightarrow> fleet \<times> charge_mem \<Rightarrow> fleet \<times> charge_mem" where
  "execute_peek io u pl wm =
     (let m1 = mark u (pn_anchor pl) (snd wm) in
      case releaseGate io u (pn_anchor pl) ''peek: re-reading the battery'' (fst wm) of
        (Some e, w1) \<Rightarrow> (on_db (noteFailure io u e) w1, m1)
      | (None, w1) \<Rightarrow> (on_db (writeGate io u ChargePowerOn) w1, m1\<lparr>cm_peeks := (cm_peeks m1)(un_Key u \<mapsto> ci_clock io)\<rparr>))"

definition execute_release :: "charge_io \<Rightarrow> charge_config \<Rightarrow> cunit \<Rightarrow> cplan \<Rightarrow> fleet \<times> charge_mem \<Rightarrow> fleet \<times> charge_mem" where
  "execute_release io cfg u pl wm =
     (let m1 = mark u (pn_anchor pl) (snd wm) in
      case (if pn_anchor pl = [] then (None, fst wm) else releaseGate io u (pn_anchor pl) (pn_reason pl) (fst wm)) of
        (Some e, w1) \<Rightarrow> (on_db (noteFailure io u e) w1, m1)
      | (None, w1) \<Rightarrow>
          (let db1 = snd (unparkAll (ci_unpark io) io cfg (pn_reason pl) (pn_unpark pl) (fl_db w1))
           in (w1\<lparr>fl_db := writeGate io u ChargePowerOn db1\<rparr>, forget_peek u m1)))"

definition execute :: "charge_io \<Rightarrow> charge_config \<Rightarrow> duration \<Rightarrow> cunit \<Rightarrow> cplan \<Rightarrow> fleet \<times> charge_mem \<Rightarrow> fleet \<times> charge_mem" where
  "execute io cfg hold u pl wm =
     (case pn_verdict pl of
        VerdictNone \<Rightarrow> wm
      | VerdictSkip \<Rightarrow> wm
      | VerdictGate \<Rightarrow> execute_gate io cfg hold u pl wm
      | VerdictRegate \<Rightarrow> execute_gate io cfg hold u pl wm
      | VerdictRenew \<Rightarrow> execute_renew io cfg hold u pl wm
      | VerdictPeek \<Rightarrow> execute_peek io u pl wm
      | VerdictRelease \<Rightarrow> execute_release io cfg u pl wm)"

section \<open>A cycle\<close>

text \<open>The hosts to ask: those with an address, or, when they cannot be read, those the scan named.\<close>

definition agentHosts :: "charge_io \<Rightarrow> cunit list \<Rightarrow> farm \<Rightarrow> string list" where
  "agentHosts io us db =
     (if ci_hosts io = Up then sort (map ho_id (filter (\<lambda>h. ho_node_endpoint h \<noteq> None) (hosts db)))
      else rev (remdups (rev (map un_HostID (filter (\<lambda>u. un_HostID u \<noteq> [] \<and> cd_HasAgent (hd (un_Devices u))) us)))))"

fun listGates :: "charge_io \<Rightarrow> string list \<Rightarrow> fleet \<Rightarrow> (string \<times> charge_gate list) list \<times> fleet" where
  "listGates io [] w = ([], w)"
| "listGates io (host # hosts') w =
     (case client_ChargeGates (ci_list io host) host w of
        Inl _ \<Rightarrow> listGates io hosts' (on_db (markUnreachable io host) w)
      | Inr gs \<Rightarrow> (case listGates io hosts' w of (rest, w') \<Rightarrow> ((host, gs) # rest, w')))"

definition charge_unit ::
  "charge_io \<Rightarrow> charge_config \<Rightarrow> duration \<Rightarrow> (string \<times> charge_gate list) list \<Rightarrow> cunit \<Rightarrow> fleet \<times> charge_mem \<Rightarrow> fleet \<times> charge_mem" where
  "charge_unit io cfg hold listed u0 wm =
     (if cc_Gates cfg \<and> cd_HasAgent (hd (un_Devices u0)) \<and> \<not> list_ex (\<lambda>(host, _). host = un_HostID u0) listed then wm
      else (let (u, peeks) = attachPeek (ci_clock io) cfg (cm_peeks (snd wm))
                  (attachGates (or_else [] (map_of listed (un_HostID u0))) (u0\<lparr>un_HasClient := cc_Gates cfg\<rparr>))
            in execute io cfg hold u (decide u \<lparr>th_actor = cc_Actor cfg, th_min = cc_MinPct cfg, th_max = cc_MaxPct cfg\<rparr>)
                 (fst wm, (snd wm)\<lparr>cm_peeks := peeks\<rparr>)))"

text \<open>The gates of this loop's that no unit touched, host by host as they were listed.\<close>

definition release_stray :: "charge_io \<Rightarrow> string \<times> charge_gate \<Rightarrow> fleet \<Rightarrow> fleet" where
  "release_stray io hg w =
     (case hg of (host, g) \<Rightarrow>
        (case ReleaseChargeGate (ci_stray io (host, ga_Devpath g)) host (ga_Devpath g) (reasonPrefix @ ''no device under this hold'') w of
           (Inl _, w') \<Rightarrow> w'
         | (Inr _, w') \<Rightarrow>
             if \<not> arrives (ci_stray_write io (host, ga_Devpath g)) then w'
             else on_db (\<lambda>db. write_gate (ci_now io)
                    (\<lambda>r. list_ex (\<lambda>s. r_slot r = Some (s_id s) \<and> s_host s = host \<and> s_adb_devpath s = ga_Devpath g) (slots db))
                    ChargePowerOn db) w'))"

definition strays :: "(string \<times> charge_gate list) list \<Rightarrow> (string \<times> string) list \<Rightarrow> (string \<times> charge_gate) list" where
  "strays listed touched =
     concat (map (\<lambda>(host, gs). map (Pair host)
       (filter (\<lambda>g. ga_Held g \<and> has_prefix reasonPrefix (ga_Reason g) \<and> (host, ga_Devpath g) \<notin> set touched) gs)) listed)"

text \<open>What the loop keeps between cycles.\<close>

record charge_state =
  cs_lead :: leadership
  cs_peeks :: "string \<rightharpoonup> int"

definition lead_cycle :: "charge_io \<Rightarrow> charge_config \<Rightarrow> duration \<Rightarrow> (string \<rightharpoonup> int) \<Rightarrow> fleet \<Rightarrow> fleet \<times> (string \<rightharpoonup> int)" where
  "lead_cycle io cfg hold peeks w =
     (if ci_scan io \<noteq> Up \<or> ci_siblings io \<noteq> Up then (w, peeks)
      else (let us = group (scan (ci_now io) cfg (fl_db w)) (gangedSiblings (fl_db w));
                (listed, w1) = (if cc_Gates cfg then listGates io (agentHosts io us (fl_db w)) w else ([], w));
                (w2, m) = fold (charge_unit io cfg hold listed) us (w1, \<lparr>cm_peeks = peeks, cm_touched = []\<rparr>)
            in (fold (release_stray io) (strays listed (cm_touched m)) w2, cm_peeks m)))"

definition charge_cycle :: "charge_io \<Rightarrow> charge_config \<Rightarrow> duration \<Rightarrow> charge_state \<Rightarrow> pg_locks \<Rightarrow> fleet \<Rightarrow> fleet \<times> charge_state \<times> pg_locks" where
  "charge_cycle io cfg hold st locks w =
     (let w0 = on_db (\<lambda>db. snd (ComponentBeat (ci_beat io) (ci_now io) (cc_Component cfg) db)) w in
      case ensure (ci_ensure io) (cs_lead st) locks of
        (r, l', locks') \<Rightarrow>
          (case r of
             Ensured _ True \<Rightarrow>
               (case lead_cycle io cfg hold (cs_peeks st) w0 of (w', peeks) \<Rightarrow> (w', st\<lparr>cs_lead := l', cs_peeks := peeks\<rparr>, locks'))
           | _ \<Rightarrow> (w0, st\<lparr>cs_lead := l'\<rparr>, locks')))"

end
