(* ===== verification/Charge_Switch.thy ===== *)
theory Charge_Switch
  imports Charge_Gate
begin

text \<open>
  The agent's gates over time, as a step relation on the clock and the state: requests, timers that
  fire, their callbacks once they get the hardware lock, the release of everything and a recovery rung
  taking a port back. The dead-man's switch is an invariant of it, and the whole machinery of
  generations and timers refines a table of deadlines.
\<close>

definition new_gates :: "string \<Rightarrow> gates" where
  "new_gates host = \<lparr>cg_host = host, cg_held = [], cg_gen = 0, cg_stopping = False, cg_flying = [], cg_dark = {}\<rparr>"

definition fire :: "string \<Rightarrow> held_gate \<Rightarrow> gates \<Rightarrow> gates" where
  "fire key h s = s\<lparr>cg_held := AList.update key (h\<lparr>hg_timer := None\<rparr>) (cg_held s), cg_flying := (key, hg_gen h) # cg_flying s\<rparr>"

definition take_off :: "string \<times> nat \<Rightarrow> gates \<Rightarrow> gates" where
  "take_off c s = s\<lparr>cg_flying := remove1 c (cg_flying s)\<rparr>"

text \<open>
  With \<open>sound\<close>, the power-ons no callback of the agent would repeat succeed: the restore of a gate that
  could not be established, the releases of \<^verbatim>\<open>releaseAll\<close>, and the rung that took a port back.
\<close>

inductive gate_step :: "bool \<Rightarrow> int \<times> gates \<Rightarrow> int \<times> gates \<Rightarrow> bool" for sound where
  tick: "t \<le> t' \<Longrightarrow> gate_step sound (t, s) (t', s)"
| asked: "agent_SetChargeGate t io req s = (r, s') \<Longrightarrow> (sound \<Longrightarrow> hw_restore io = None) \<Longrightarrow> gate_step sound (t, s) (t, s')"
| fired: "held_at s key = Some h \<Longrightarrow> hg_timer h = Some due \<Longrightarrow> due \<le> t \<Longrightarrow> gate_step sound (t, s) (t, fire key h s)"
| expired: "(key, gen) \<in> set (cg_flying s) \<Longrightarrow>
    gate_step sound (t, s) (t, expire t io key gen (take_off (key, gen) s))"
| released: "(\<And>p. sound \<Longrightarrow> reached p \<and> snd (setChargePower (ios p) p True []) = None) \<Longrightarrow>
    gate_step sound (t, s) (t, releaseAll ios reached final s)"
| superseded: "resolveChargePort devpath = Inr port \<Longrightarrow> (sound \<Longrightarrow> \<not> d) \<Longrightarrow>
    gate_step sound (t, s) (t, chargeGateSuperseded devpath True (set_dark (port_key port) d s))"

inductive gate_run :: "bool \<Rightarrow> int \<times> gates \<Rightarrow> int \<times> gates \<Rightarrow> bool" for sound c0 where
  start: "gate_run sound c0 c0"
| step: "gate_run sound c0 c \<Longrightarrow> gate_step sound c c' \<Longrightarrow> gate_run sound c0 c'"

section \<open>The switch\<close>

text \<open>A hold is guarded by a timer set to its deadline, or by a callback in flight that may act.\<close>

definition guarded :: "int \<Rightarrow> gates \<Rightarrow> string \<Rightarrow> held_gate \<Rightarrow> bool" where
  "guarded t s key h \<longleftrightarrow> hg_timer h = Some (hg_expires h) \<or>
     hg_timer h = None \<and> (key, hg_gen h) \<in> set (cg_flying s) \<and> hg_expires h \<le> t"

definition gates_ok :: "int \<Rightarrow> gates \<Rightarrow> bool" where
  "gates_ok t s \<longleftrightarrow> (\<forall>key h. held_at s key = Some h \<longrightarrow>
     port_key (hg_port h) = key \<and> hg_expires h \<le> t + MaxChargeGateHold \<and> guarded t s key h)"

definition dark_held :: "gates \<Rightarrow> bool" where
  "dark_held s \<longleftrightarrow> (\<forall>key\<in>cg_dark s. held_at s key \<noteq> None)"

lemma gates_okD:
  assumes "gates_ok t s" and "held_at s key = Some h"
  shows "port_key (hg_port h) = key" "hg_expires h \<le> t + MaxChargeGateHold" "guarded t s key h"
  using assms by (auto simp: gates_ok_def)

lemma drive_simps [simp]:
  "cg_held (snd (drive io p on ack s)) = cg_held s" "cg_flying (snd (drive io p on ack s)) = cg_flying s"
  "cg_gen (snd (drive io p on ack s)) = cg_gen s" "fst (drive io p on ack s) = setChargePower io p on ack"
  "cg_host (snd (drive io p on ack s)) = cg_host s" "cg_stopping (snd (drive io p on ack s)) = cg_stopping s"
  by (simp_all add: drive_def set_dark_def)

lemma set_dark_simps [simp]:
  "cg_held (set_dark k d s) = cg_held s" "cg_flying (set_dark k d s) = cg_flying s" "cg_gen (set_dark k d s) = cg_gen s"
  "cg_dark (set_dark k d s) = (if d then insert k (cg_dark s) else cg_dark s - {k})"
  by (simp_all add: set_dark_def)

lemma take_off_simps [simp]:
  "cg_held (take_off c s) = cg_held s" "cg_dark (take_off c s) = cg_dark s" "cg_gen (take_off c s) = cg_gen s"
  "held_at (take_off c s) key = held_at s key"
  by (simp_all add: take_off_def held_at_def)

lemma held_at_drive [simp]: "held_at (snd (drive io p on ack s)) key = held_at s key" "held_at (set_dark k d s) key = held_at s key"
  by (simp_all add: held_at_def)

lemma held_at_update [simp]:
  "cg_held s' = AList.update key h (cg_held s) \<Longrightarrow> held_at s' k = (if k = key then Some h else held_at s k)"
  by (simp add: held_at_def update_conv')

lemma held_at_delete [simp]:
  "cg_held s' = AList.delete key (cg_held s) \<Longrightarrow> held_at s' k = (if k = key then None else held_at s k)"
  by (simp add: held_at_def delete_conv')

text \<open>The three ways the books change: as they were, a hold removed, a hold replaced by a guarded one.\<close>

lemma gates_ok_cong:
  assumes "gates_ok t s" and "\<And>k. held_at s' k = held_at s k" and "set (cg_flying s) \<subseteq> set (cg_flying s')" and "t \<le> t'"
  shows "gates_ok t' s'"
  using assms by (fastforce simp: gates_ok_def guarded_def)

lemma gates_ok_delete:
  assumes "gates_ok t s" and "\<And>k. held_at s' k = (if k = key then None else held_at s k)"
    and "\<And>c. c \<in> set (cg_flying s) \<Longrightarrow> fst c \<noteq> key \<Longrightarrow> c \<in> set (cg_flying s')"
  shows "gates_ok t s'"
  using assms by (fastforce simp: gates_ok_def guarded_def split: if_splits)

lemma gates_ok_update:
  assumes "gates_ok t s" and "\<And>k. held_at s' k = (if k = key then Some h else held_at s k)"
    and "\<And>c. c \<in> set (cg_flying s) \<Longrightarrow> fst c \<noteq> key \<Longrightarrow> c \<in> set (cg_flying s')"
    and "port_key (hg_port h) = key" "hg_expires h \<le> t + MaxChargeGateHold" "guarded t s' key h"
  shows "gates_ok t s'"
  using assms by (fastforce simp: gates_ok_def guarded_def split: if_splits)

section \<open>What a request does\<close>

text \<open>The ways a request ends: nothing changed, the books kept, the port handed back, the port held.\<close>

lemma set_gate_cases:
  assumes "set_gate t io req on hold port s = (r, s')"
  obtains (same) "s' = s"
  | (kept) "s' = snd (drive io port on (gr_Acknowledged req) s)" "on \<or> \<not> fst (setChargePower io port on (gr_Acknowledged req))"
  | (dropped) "s' = drop_gate (port_key port) (snd (drive io port on (gr_Acknowledged req) s))"
      "if on then snd (setChargePower io port on (gr_Acknowledged req)) = None
       else fst (setChargePower io port on (gr_Acknowledged req)) \<and> snd (setChargePower io port on (gr_Acknowledged req)) \<noteq> None"
  | (held) "s' = snd (put t port req hold (snd (drive io port False (gr_Acknowledged req) s)))" "\<not> on"
proof -
  obtain b e where d: "setChargePower io port on (gr_Acknowledged req) = (b, e)" by fastforce
  obtain s1 where dr: "drive io port on (gr_Acknowledged req) s = ((b, e), s1)" by (simp add: drive_def d)
  show thesis
  proof (cases "\<not> on \<and> cg_stopping s")
    case True
    then show thesis using assms that(1) by (simp add: set_gate_def)
  next
    case False
    then show thesis
    proof (cases e)
      case None
      then show thesis using assms False dr d that(3,4) by (cases on) (auto simp: set_gate_def split: prod.splits)
    next
      case (Some x)
      then show thesis using assms False dr d that(2,3) by (cases "b \<and> \<not> on") (auto simp: set_gate_def)
    qed
  qed
qed

lemma SetChargeGate_cases:
  assumes "agent_SetChargeGate t io req s = (r, s')"
  obtains (same) "s' = s"
  | (ran) port on hold where "set_gate t io req on hold port s = (r, s')" "\<not> on \<Longrightarrow> 0 < hold \<and> hold \<le> MaxChargeGateHold"
  using assms that
  by (auto simp: agent_SetChargeGate_def gate_hold_def split: sum.splits option.splits if_splits)

section \<open>The invariant\<close>

lemma put_simps:
  assumes "put t port req hold s = (g, s')"
  shows "held_at s' k = (if k = port_key port
      then Some \<lparr>hg_port = port, hg_power = ChargePowerOff, hg_reason = gr_Reason req, hg_acknowledged = gr_Acknowledged req,
             hg_expires = t + hold, hg_gen = cg_gen s + 1, hg_timer = Some (t + hold)\<rparr> else held_at s k)"
    and "cg_flying s' = cg_flying s" "cg_dark s' = cg_dark s"
  using assms by (auto simp: put_def Let_def update_conv' held_at_def)

lemma drop_gate_simps [simp]:
  "held_at (drop_gate key s) k = (if k = key then None else held_at s k)" "cg_flying (drop_gate key s) = cg_flying s"
  "cg_dark (drop_gate key s) = cg_dark s"
  by (simp_all add: drop_gate_def held_at_def delete_conv')

lemma drive_dark:
  "cg_dark (snd (drive io p on ack s)) = (if dark_after io p on ack (port_key p \<in> cg_dark s) then insert (port_key p) (cg_dark s)
     else cg_dark s - {port_key p})"
  by (simp add: drive_def set_dark_def)

lemma gates_ok_asked:
  assumes ok: "gates_ok t s" and res: "agent_SetChargeGate t io req s = (r, s')"
  shows "gates_ok t s'"
  using res
proof (cases rule: SetChargeGate_cases)
  case same
  then show ?thesis using ok by simp
next
  case (ran port on hold)
  from ran(1) show ?thesis
  proof (cases rule: set_gate_cases)
    case same
    then show ?thesis using ok by simp
  next
    case kept
    then show ?thesis by (auto intro: gates_ok_cong [OF ok])
  next
    case dropped
    then show ?thesis by (auto intro: gates_ok_delete [OF ok])
  next
    case held
    let ?s1 = "snd (drive io port False (gr_Acknowledged req) s)"
    obtain g where p: "put t port req hold ?s1 = (g, s')" using held(1) by (metis prod.collapse)
    show ?thesis
      by (rule gates_ok_update [OF ok, of _ "port_key port"], subst put_simps(1) [OF p], simp)
        (use ran(2) held(2) put_simps(2) [OF p] in \<open>auto simp: guarded_def\<close>)
  qed
qed

lemma gates_ok_fired:
  assumes ok: "gates_ok t s" and h: "held_at s key = Some h" "hg_timer h = Some due" "due \<le> t"
  shows "gates_ok t (fire key h s)"
proof -
  have "hg_expires h \<le> t" using gates_okD(3) [OF ok h(1)] h by (auto simp: guarded_def)
  then show ?thesis
    by (intro gates_ok_update [OF ok, of _ key "h\<lparr>hg_timer := None\<rparr>"])
      (use gates_okD [OF ok h(1)] in \<open>auto simp: fire_def guarded_def held_at_def update_conv'\<close>)
qed

lemma expire_cases:
  obtains (stale) "expire t io key gen s = s" "\<And>h. held_at s key = Some h \<Longrightarrow> hg_gen h \<noteq> gen \<or> t < hg_expires h"
  | (restored) h where "held_at s key = Some h" "hg_gen h = gen" "hg_expires h \<le> t"
      "expire t io key gen s = drop_gate key (snd (drive io (hg_port h) True [] s))" "snd (setChargePower io (hg_port h) True []) = None"
  | (again) h where "held_at s key = Some h" "hg_gen h = gen" "hg_expires h \<le> t"
      "expire t io key gen s = rearm t key gen chargeGateRestoreRetry (snd (drive io (hg_port h) True [] s))"
      "snd (setChargePower io (hg_port h) True []) \<noteq> None"
proof (cases "held_at s key")
  case None
  then show thesis using that(1) by (simp add: expire_def)
next
  case (Some h)
  obtain b e where d: "setChargePower io (hg_port h) True [] = (b, e)" by fastforce
  obtain s1 where dr: "drive io (hg_port h) True [] s = ((b, e), s1)" by (simp add: drive_def d)
  show thesis
  proof (cases "hg_gen h \<noteq> gen \<or> t < hg_expires h")
    case True
    then show thesis using that(1) Some by (auto simp: expire_def)
  next
    case False
    then show thesis using that(2,3) Some dr d by (cases e) (auto simp: expire_def)
  qed
qed

lemma rearm_simps:
  assumes "held_at s key = Some h" and "hg_gen h = gen"
  shows "held_at (rearm t key gen d s) k = (if k = key then Some (h\<lparr>hg_gen := cg_gen s + 1, hg_power := ChargePowerUnknown,
      hg_expires := t + d, hg_timer := Some (t + d)\<rparr>) else held_at s k)"
    and "cg_flying (rearm t key gen d s) = cg_flying s" "cg_dark (rearm t key gen d s) = cg_dark s"
  using assms by (simp_all add: rearm_def Let_def held_at_def update_conv')

lemma in_take_off: "c \<noteq> d \<Longrightarrow> c \<in> set (cg_flying (take_off d s)) \<longleftrightarrow> c \<in> set (cg_flying s)"
  by (simp add: take_off_def in_set_remove1)

lemma gates_ok_expired:
  assumes ok: "gates_ok t s"
  shows "gates_ok t (expire t io key gen (take_off (key, gen) s))"
proof (cases rule: expire_cases [of t io key gen "take_off (key, gen) s"])
  case stale
  have "guarded t (take_off (key, gen) s) k h" if h: "held_at s k = Some h" for k h
    using gates_okD(3) [OF ok h] stale(2) [of h] h by (cases "(k, hg_gen h) = (key, gen)") (auto simp: guarded_def in_take_off)
  then show ?thesis unfolding stale(1) using ok by (auto simp: gates_ok_def)
next
  case (restored h)
  show ?thesis unfolding restored(4)
    by (rule gates_ok_delete [OF ok, of _ key]) (auto simp: in_take_off)
next
  case (again h)
  have h: "held_at s key = Some h" using again(1) by simp
  have r: "held_at (snd (drive io (hg_port h) True [] (take_off (key, gen) s))) key = Some h" using again(1) by simp
  show ?thesis unfolding again(4)
  proof (rule gates_ok_update [OF ok])
    show "held_at (rearm t key gen chargeGateRestoreRetry (snd (drive io (hg_port h) True [] (take_off (key, gen) s)))) k =
        (if k = key then Some (h\<lparr>hg_gen := cg_gen s + 1, hg_power := ChargePowerUnknown,
           hg_expires := t + chargeGateRestoreRetry, hg_timer := Some (t + chargeGateRestoreRetry)\<rparr>) else held_at s k)" for k
      by (subst rearm_simps(1) [OF r again(2)]) simp
  qed (use gates_okD(1) [OF ok h] rearm_simps(2) [OF r again(2)] in
      \<open>auto simp: in_take_off guarded_def MaxChargeGateHold_def chargeGateRestoreRetry_def Second_def\<close>)
qed

lemma fold_drive_held [simp]: "held_at (fold (\<lambda>p s. snd (drive (ios p) p True [] s)) ps s) k = held_at s k"
  by (induction ps arbitrary: s) simp_all

lemma releaseAll_held [simp]: "held_at (releaseAll ios reached final s) k = None"
  by (simp add: releaseAll_def Let_def held_at_def [of "_\<lparr>cg_held := []\<rparr>"])

lemma gates_ok_step:
  assumes "gate_step sound (t, s) (t', s')" and ok: "gates_ok t s"
  shows "gates_ok t' s'"
  using assms(1)
proof cases
  case tick
  then show ?thesis by (auto intro: gates_ok_cong [OF ok])
next
  case (asked io req r)
  then show ?thesis using gates_ok_asked [OF ok] by simp
next
  case (fired key h due)
  then show ?thesis using gates_ok_fired [OF ok] by simp
next
  case (expired key gen io)
  then show ?thesis using gates_ok_expired [OF ok] by simp
next
  case (released reached ios final)
  then show ?thesis by (simp add: gates_ok_def)
next
  case (superseded devpath port d)
  then show ?thesis by (auto simp: chargeGateSuperseded_def intro!: gates_ok_delete [OF ok])
qed

section \<open>No dark port without a hold\<close>

lemma dark_on:
  assumes "snd (setChargePower io p True ack) = None"
  shows "cg_dark (snd (drive io p True ack s)) = cg_dark s - {port_key p}"
  using assms by (auto simp: drive_dark dark_after_def setChargePower_def split: option.splits prod.splits bool.splits)

lemma dark_on_le: "cg_dark (snd (drive io p True ack s)) \<subseteq> cg_dark s"
  by (auto simp: drive_dark dark_after_def setChargePower_def split: option.splits prod.splits bool.splits if_splits)

lemma dark_off:
  assumes "hw_restore io = None"
  shows "cg_dark (snd (drive io p False ack s)) =
    (if snd (setChargePower io p False ack) = None then insert (port_key p) (cg_dark s)
     else if fst (setChargePower io p False ack) then cg_dark s - {port_key p} else cg_dark s)"
  using assms by (auto simp: drive_dark dark_after_def setChargePower_def split: prod.splits bool.splits option.splits sum.splits)

lemma dark_held_mono:
  assumes "dark_held s" and "cg_dark s' \<subseteq> cg_dark s" and "\<And>k. k \<in> cg_dark s' \<Longrightarrow> held_at s' k = held_at s k \<or> held_at s' k \<noteq> None"
  shows "dark_held s'"
  using assms by (fastforce simp: dark_held_def)

lemma dark_held_asked:
  assumes ok: "dark_held s" and res: "agent_SetChargeGate t io req s = (r, s')" and hw: "hw_restore io = None"
  shows "dark_held s'"
  using res
proof (cases rule: SetChargeGate_cases)
  case same
  then show ?thesis using ok by simp
next
  case (ran port on hold)
  from ran(1) show ?thesis
  proof (cases rule: set_gate_cases)
    case same
    then show ?thesis using ok by simp
  next
    case kept
    have "cg_dark s' \<subseteq> cg_dark s"
    proof (cases on)
      case True
      then show ?thesis using kept(1) dark_on_le by simp
    next
      case False
      then have "snd (setChargePower io port False (gr_Acknowledged req)) \<noteq> None"
        using kept(2) by (auto simp: setChargePower_def split: option.splits sum.splits)
      then show ?thesis using False kept dark_off [OF hw] by auto
    qed
    then show ?thesis using kept(1) by (intro dark_held_mono [OF ok]) auto
  next
    case dropped
    have "cg_dark s' = cg_dark s - {port_key port}"
      using dropped dark_on [of io port "gr_Acknowledged req" s] dark_off [OF hw, of port "gr_Acknowledged req" s]
      by (cases on) auto
    then show ?thesis using dropped(1) by (intro dark_held_mono [OF ok]) auto
  next
    case held
    let ?s1 = "snd (drive io port False (gr_Acknowledged req) s)"
    obtain g where p: "put t port req hold ?s1 = (g, s')" using held(1) by (metis prod.collapse)
    have "cg_dark s' \<subseteq> insert (port_key port) (cg_dark s)"
      using put_simps(3) [OF p] dark_off [OF hw, of port "gr_Acknowledged req" s] by (auto split: if_splits)
    then show ?thesis using ok put_simps(1) [OF p] by (auto simp: dark_held_def)
  qed
qed

lemma fold_drive_dark:
  assumes "\<And>p. snd (setChargePower (ios p) p True []) = None"
  shows "cg_dark (fold (\<lambda>p s. snd (drive (ios p) p True [] s)) ps s) = cg_dark s - port_key ` set ps"
proof (induction ps arbitrary: s)
  case (Cons p ps)
  show ?case using Cons [of "snd (drive (ios p) p True [] s)"] dark_on [OF assms, of p s] by auto
qed simp

lemma dark_held_step:
  assumes "gate_step True (t, s) (t', s')" and ok: "gates_ok t s" and dark: "dark_held s"
  shows "dark_held s'"
  using assms(1)
proof cases
  case (asked io req r)
  then show ?thesis using dark_held_asked [OF dark] by simp
next
  case (fired key h due)
  then show ?thesis by (intro dark_held_mono [OF dark]) (auto simp: fire_def held_at_def update_conv')
next
  case (expired key gen io)
  let ?s = "take_off (key, gen) s"
  show ?thesis
  proof (cases rule: expire_cases [of t io key gen ?s])
    case stale
    then show ?thesis using expired dark by (simp add: dark_held_def)
  next
    case (restored h)
    have "port_key (hg_port h) = key" using gates_okD(1) [OF ok] restored(1) by simp
    then show ?thesis using expired restored(4) dark_on [OF restored(5), of ?s] by (intro dark_held_mono [OF dark]) auto
  next
    case (again h)
    have r: "held_at (snd (drive io (hg_port h) True [] ?s)) key = Some h" using again(1) by simp
    show ?thesis using expired again(4) rearm_simps [OF r again(2)] dark_on_le [of io "hg_port h" "[]" ?s]
      by (intro dark_held_mono [OF dark]) auto
  qed
next
  case (released reached ios final)
  let ?ports = "sort_key cp_Devpath (map (hg_port \<circ> snd) (cg_held s))"
  have all: "takeWhile reached ?ports = ?ports" using released by (auto simp: takeWhile_eq_all_conv)
  have "cg_dark s' = cg_dark s - port_key ` set ?ports"
    using released fold_drive_dark [of ios] by (simp add: releaseAll_def Let_def all)
  moreover have "key \<in> port_key ` set ?ports" if k: "key \<in> cg_dark s" for key
  proof -
    obtain h where h: "held_at s key = Some h" using dark k by (auto simp: dark_held_def)
    then have "(key, h) \<in> set (cg_held s)" by (auto simp: held_at_def dest: map_of_SomeD)
    then show ?thesis using gates_okD(1) [OF ok h] by force
  qed
  ultimately show ?thesis by (auto simp: dark_held_def)
next
  case (superseded devpath port d)
  then show ?thesis by (intro dark_held_mono [OF dark]) (auto simp: chargeGateSuperseded_def)
qed (use dark in simp)

lemma gates_ok_new: "gates_ok t (new_gates host)" "dark_held (new_gates host)"
  by (simp_all add: gates_ok_def dark_held_def new_gates_def held_at_def)

lemma gate_run_ok:
  assumes "gate_run sound (t0, s0) (t, s)" and "gates_ok t0 s0"
  shows "gates_ok t s \<and> (sound \<longrightarrow> dark_held s0 \<longrightarrow> dark_held s)"
  using assms
proof (induction "(t, s)" arbitrary: t s rule: gate_run.induct)
  case (step c t' s')
  obtain t s where c: "c = (t, s)" by fastforce
  show ?case using step gates_ok_step [of sound t s t' s'] dark_held_step [of t s t' s'] by (auto simp: c)
qed simp

section \<open>A table of deadlines\<close>

text \<open>
  What the agent promises: a port is held until an instant or not at all. Somebody asks for a hold of at
  most the cap, somebody takes the port back, or its instant passes and it is given back or, when the
  power-on failed, kept for one more retry. There are no timers and no generations here.
\<close>

inductive deadline_step :: "int \<times> (string \<rightharpoonup> int) \<Rightarrow> int \<times> (string \<rightharpoonup> int) \<Rightarrow> bool" where
  waits: "t \<le> t' \<Longrightarrow> deadline_step (t, m) (t', m)"
| holds: "t < d \<Longrightarrow> d \<le> t + MaxChargeGateHold \<Longrightarrow> deadline_step (t, m) (t, m(key \<mapsto> d))"
| taken_back: "deadline_step (t, m) (t, m(key := None))"
| passes: "m key = Some d \<Longrightarrow> d \<le> t \<Longrightarrow> deadline_step (t, m) (t, m(key := None))"
| retries: "m key = Some d \<Longrightarrow> d \<le> t \<Longrightarrow> deadline_step (t, m) (t, m(key \<mapsto> t + chargeGateRestoreRetry))"
| cleared: "deadline_step (t, m) (t, Map.empty)"

definition deadlines :: "gates \<Rightarrow> string \<rightharpoonup> int" where
  "deadlines s = (\<lambda>key. map_option hg_expires (held_at s key))"

lemma deadlines_same: "(\<And>k. map_option hg_expires (held_at s' k) = map_option hg_expires (held_at s k)) \<Longrightarrow> deadlines s' = deadlines s"
  by (simp add: deadlines_def)

lemma deadlines_drop: "(\<And>k. held_at s' k = (if k = key then None else held_at s k)) \<Longrightarrow> deadlines s' = (deadlines s)(key := None)"
  by (auto simp: deadlines_def)

lemma refines_asked:
  assumes "agent_SetChargeGate t io req s = (r, s')"
  shows "deadline_step (t, deadlines s) (t, deadlines s')"
  using assms
proof (cases rule: SetChargeGate_cases)
  case same
  then show ?thesis by (auto intro: deadline_step.waits)
next
  case (ran port on hold)
  from ran(1) show ?thesis
  proof (cases rule: set_gate_cases)
    case same
    then show ?thesis by (auto intro: deadline_step.waits)
  next
    case kept
    then have "deadlines s' = deadlines s" by (intro deadlines_same) simp
    then show ?thesis by (auto intro: deadline_step.waits)
  next
    case dropped
    then have "deadlines s' = (deadlines s)(port_key port := None)" by (intro deadlines_drop) simp
    then show ?thesis by (auto intro: deadline_step.taken_back)
  next
    case held
    obtain g where p: "put t port req hold (snd (drive io port False (gr_Acknowledged req) s)) = (g, s')"
      using held(1) by (metis prod.collapse)
    have "deadlines s' = (deadlines s)(port_key port \<mapsto> t + hold)"
      using put_simps(1) [OF p] by (auto simp: deadlines_def)
    then show ?thesis using ran(2) held(2) by (auto intro: deadline_step.holds)
  qed
qed

lemma refines_expired: "deadline_step (t, deadlines s) (t, deadlines (expire t io key gen (take_off (key, gen) s)))"
proof (cases rule: expire_cases [of t io key gen "take_off (key, gen) s"])
  case stale
  then have "deadlines (expire t io key gen (take_off (key, gen) s)) = deadlines s" by (intro deadlines_same) simp
  then show ?thesis by (auto intro: deadline_step.waits)
next
  case (restored h)
  then have "deadlines (expire t io key gen (take_off (key, gen) s)) = (deadlines s)(key := None)" by (intro deadlines_drop) simp
  then show ?thesis using restored by (auto simp: deadlines_def intro: deadline_step.passes)
next
  case (again h)
  have r: "held_at (snd (drive io (hg_port h) True [] (take_off (key, gen) s))) key = Some h" using again(1) by simp
  have "deadlines (expire t io key gen (take_off (key, gen) s)) = (deadlines s)(key \<mapsto> t + chargeGateRestoreRetry)"
    unfolding again(4) using rearm_simps(1) [OF r again(2)] by (auto simp: deadlines_def)
  then show ?thesis using again by (auto simp: deadlines_def intro: deadline_step.retries)
qed

lemma gates_refine_deadlines:
  assumes "gate_step sound (t, s) (t', s')"
  shows "deadline_step (t, deadlines s) (t', deadlines s')"
  using assms
proof cases
  case tick
  then show ?thesis by (auto intro: deadline_step.waits)
next
  case (asked io req r)
  then show ?thesis using refines_asked by simp
next
  case (fired key h due)
  then have "deadlines s' = deadlines s" by (intro deadlines_same) (auto simp: fire_def held_at_def update_conv')
  then show ?thesis using fired by (auto intro: deadline_step.waits)
next
  case (expired key gen io)
  then show ?thesis using refines_expired by simp
next
  case (released reached ios final)
  then have "deadlines s' = Map.empty" by (auto simp: deadlines_def)
  then show ?thesis using released by (auto intro: deadline_step.cleared)
next
  case (superseded devpath port d)
  then have "deadlines s' = (deadlines s)(port_key port := None)" by (intro deadlines_drop) (simp add: chargeGateSuperseded_def)
  then show ?thesis using superseded by (auto intro: deadline_step.taken_back)
qed

section \<open>Power comes back\<close>

text \<open>Once the deadline has passed, the timer can fire and its callback, when the power-on works, ends the hold.\<close>

lemma guard_acts:
  assumes ok: "gates_ok t s" and h: "held_at s key = Some h" and late: "hg_expires h \<le> t"
    and hw: "snd (setChargePower io (hg_port h) True []) = None"
  shows "\<exists>s'. gate_run sound (t, s) (t, s') \<and> held_at s' key = None \<and> cg_dark s' = cg_dark s - {key}"
proof -
  have act: "held_at (expire t io key (hg_gen h) (take_off (key, hg_gen h) s1)) key = None \<and>
      cg_dark (expire t io key (hg_gen h) (take_off (key, hg_gen h) s1)) = cg_dark s - {key}"
    if "held_at s1 key = Some h1" "hg_gen h1 = hg_gen h" "hg_expires h1 = hg_expires h" "hg_port h1 = hg_port h" "cg_dark s1 = cg_dark s"
    for s1 h1
    using that late hw dark_on [OF hw, of "take_off (key, hg_gen h) s1"] gates_okD(1) [OF ok h]
    by (auto simp: expire_def drive_def split: prod.splits option.splits)
  have run: "gate_run sound (t, s) (t, expire t io key (hg_gen h) (take_off (key, hg_gen h) s1))"
    if "gate_run sound (t, s) (t, s1)" "(key, hg_gen h) \<in> set (cg_flying s1)" for s1
    by (rule gate_run.step [OF that(1) gate_step.expired [OF that(2)]])
  show ?thesis
  proof (cases "hg_timer h")
    case None
    then have "(key, hg_gen h) \<in> set (cg_flying s)" using gates_okD(3) [OF ok h] by (simp add: guarded_def)
    then show ?thesis using run [OF gate_run.start] act [OF h refl refl refl refl] by blast
  next
    case (Some due)
    then have "due \<le> t" using gates_okD(3) [OF ok h] late by (auto simp: guarded_def)
    from gate_step.fired [OF h Some this, of sound] have r: "gate_run sound (t, s) (t, fire key h s)"
      by (rule gate_run.step [OF gate_run.start])
    have f: "held_at (fire key h s) key = Some (h\<lparr>hg_timer := None\<rparr>)" "(key, hg_gen h) \<in> set (cg_flying (fire key h s))"
      "cg_dark (fire key h s) = cg_dark s" by (simp_all add: fire_def held_at_def update_conv')
    show ?thesis using run [OF r f(2)] act [OF f(1)] f(3) by auto
  qed
qed

end
