(* ===== verification/Charge_Correct.thy ===== *)
theory Charge_Correct
  imports Charge_Loop Charge_Switch
begin

text \<open>
  What a cycle of the charge policy may do: to the farm it parks and unparks under its own name and
  writes one column, to the agents it speaks only through the gate verb. The lemmas follow the loop from
  one statement to the whole cycle.
\<close>

section \<open>One park\<close>

definition ours_park :: "charge_config \<Rightarrow> farm \<Rightarrow> uuid \<Rightarrow> bool" where
  "ours_park cfg db i \<longleftrightarrow> (case open_park db i of None \<Rightarrow> False | Some p \<Rightarrow> pk_auto p \<and> pk_opened_by p = cc_Actor cfg)"

text \<open>The parks that are not this loop's to close.\<close>

definition others_parks :: "charge_config \<Rightarrow> farm \<Rightarrow> park_row list" where
  "others_parks cfg db = filter (\<lambda>p. \<not> (pk_auto p \<and> pk_opened_by p = cc_Actor cfg)) (parks db)"

definition actor_ok :: "charge_config \<Rightarrow> bool" where
  "actor_ok cfg \<longleftrightarrow> btrim (cc_Actor cfg) = cc_Actor cfg"

text \<open>What every statement of the loop keeps, and the devices whose parks it may change.\<close>

definition charge_keeps :: "charge_config \<Rightarrow> uuid set \<Rightarrow> farm \<Rightarrow> farm \<Rightarrow> bool" where
  "charge_keeps cfg ids db db' \<longleftrightarrow> park_only db db' \<and> parks_wf db' \<and> others_parks cfg db' = others_parks cfg db \<and>
     (\<forall>j. j \<notin> ids \<longrightarrow> open_park db' j = open_park db j)"

lemma charge_keeps_refl: "parks_wf db \<Longrightarrow> charge_keeps cfg ids db db"
  by (simp add: charge_keeps_def)

lemma charge_keeps_trans:
  "charge_keeps cfg a db db1 \<Longrightarrow> charge_keeps cfg b db1 db2 \<Longrightarrow> charge_keeps cfg (a \<union> b) db db2"
  by (auto simp: charge_keeps_def intro: park_only_trans)

lemma charge_keeps_mono: "charge_keeps cfg a db db' \<Longrightarrow> a \<subseteq> b \<Longrightarrow> charge_keeps cfg b db db'"
  by (auto simp: charge_keeps_def)

lemma charge_keeps_step:
  assumes "charge_keeps cfg ids db db1" and "charge_keeps cfg ids db1 db2"
  shows "charge_keeps cfg ids db db2"
  using charge_keeps_trans [OF assms] by simp

lemma open_park_of_park:
  assumes "device_park now i actor reason auto' db = Inr (n, db')"
  shows "open_park db' j = (if j = i then Some (new_park now n i actor reason auto') else open_park db j)"
  using device_park_InrD [OF assms] by (auto simp: open_park_def find_append split: option.splits)

lemma open_park_of_unpark:
  assumes wf: "parks_wf db" and res: "device_unpark now i actor reason auto' db = Inr (n, db')"
  shows "open_park db' j = (if j = i then None else open_park db j)"
proof -
  from device_unpark_InrD [OF res] obtain p where p: "open_park db i = Some p"
    and ps: "parks db' = update_where (\<lambda>q. pk_id q = pk_id p) (close_park now actor reason) (parks db)" by blast
  note q = open_parkD [OF p]
  have same: "r = p" if "r \<in> set (parks db)" "pk_id r = pk_id p" for r
    using keyed_eqD [of pk_id "parks db" r p] that q wf by (simp add: parks_wf_def)
  have only: "r = p" if "r \<in> set (parks db)" "is_open r" "pk_device r = i" for r
    using keyed_eqD [of pk_device "filter is_open (parks db)" r p] that q wf by (simp add: parks_wf_def)
  have "List.find (\<lambda>r. pk_device r = j \<and> is_open r) (update_where (\<lambda>q. pk_id q = pk_id p) (close_park now actor reason) rs) =
      (if j = i then None else List.find (\<lambda>r. pk_device r = j \<and> is_open r) rs)" if "set rs \<subseteq> set (parks db)" for rs
    using that same only q by (induction rs) auto
  then show ?thesis by (simp add: open_park_def ps)
qed

lemma keeps_park:
  assumes wf: "parks_wf db" and act: "actor_ok cfg" and res: "device_park now i (cc_Actor cfg) reason True db = Inr (n, db')"
  shows "charge_keeps cfg {i} db db' \<and> ours_park cfg db' i"
proof -
  note r = device_park_InrD [OF res]
  have "others_parks cfg db' = others_parks cfg db" using r act by (simp add: others_parks_def new_park_def actor_ok_def)
  then show ?thesis using r parks_wf_park [OF wf res] open_park_of_park [OF res] act
    by (auto simp: charge_keeps_def ours_park_def new_park_def actor_ok_def)
qed

lemma keeps_unpark:
  assumes wf: "parks_wf db" and act: "actor_ok cfg" and res: "device_unpark now i (cc_Actor cfg) reason True db = Inr (n, db')"
  shows "charge_keeps cfg {i} db db'"
proof -
  from device_unpark_InrD [OF res] obtain p where p: "open_park db i = Some p" "pk_auto p" "pk_opened_by p = cc_Actor cfg"
    and ps: "parks db' = update_where (\<lambda>q. pk_id q = pk_id p) (close_park now (cc_Actor cfg) reason) (parks db)" "park_only db db'"
    using act by (auto simp: actor_ok_def)
  have same: "r = p" if "r \<in> set (parks db)" "pk_id r = pk_id p" for r
    using keyed_eqD [of pk_id "parks db" r p] that open_parkD [OF p(1)] wf by (simp add: parks_wf_def)
  have "filter (\<lambda>p. \<not> (pk_auto p \<and> pk_opened_by p = cc_Actor cfg)) (update_where (\<lambda>q. pk_id q = pk_id p) (close_park now (cc_Actor cfg) reason) rs)
      = filter (\<lambda>p. \<not> (pk_auto p \<and> pk_opened_by p = cc_Actor cfg)) rs" if "set rs \<subseteq> set (parks db)" for rs
    using that same p by (induction rs) (auto simp: close_park_def)
  then have "others_parks cfg db' = others_parks cfg db" by (simp add: others_parks_def ps)
  then show ?thesis using ps(2) parks_wf_unpark [OF wf res] open_park_of_unpark [OF wf res] by (auto simp: charge_keeps_def)
qed

section \<open>Many parks\<close>

lemma keeps_unpark_one:
  assumes "parks_wf db" and "actor_ok cfg" and "unpark_one k io cfg reason i db = (ok, db')"
  shows "charge_keeps cfg {i} db db'"
proof -
  obtain r where rt: "round_trip k (device_unpark (ci_now io) i (cc_Actor cfg) (Some (reasonPrefix @ reason)) True) db = (r, db')"
    using assms(3) by (auto simp: unpark_one_def split: prod.splits)
  from round_trip_db [OF rt] show ?thesis using keeps_unpark [OF assms(1,2)] charge_keeps_refl [OF assms(1)] by fastforce
qed

lemma keeps_unparkAll:
  assumes "parks_wf db" and "actor_ok cfg" and "unparkAll ks io cfg reason is db = (ok, db')"
  shows "charge_keeps cfg (set is) db db'"
  using assms(1,3)
proof (induction "is" arbitrary: db ok)
  case (Cons i "is")
  from Cons.prems(2) obtain ok1 db1 ok2 where a: "unpark_one (ks i) io cfg reason i db = (ok1, db1)"
    "unparkAll ks io cfg reason is db1 = (ok2, db')" by (auto split: prod.splits)
  note b = keeps_unpark_one [OF Cons.prems(1) assms(2) a(1)]
  have "parks_wf db1" using b by (simp add: charge_keeps_def)
  from charge_keeps_trans [OF b Cons.IH [OF this a(2)]] show ?case by simp
qed (simp add: charge_keeps_refl)

lemma keeps_parkAll:
  assumes "parks_wf db" and act: "actor_ok cfg" and "parkAll io cfg reason opened is db = (ok, db')"
  shows "charge_keeps cfg (set opened \<union> set is) db db' \<and>
    (ok \<longrightarrow> charge_keeps cfg (set is) db db' \<and> (\<forall>i\<in>set is. ours_park cfg db' i))"
  using assms(1,3)
proof (induction "is" arbitrary: opened db)
  case (Cons i "is")
  obtain r db1 where rt: "round_trip (ci_park io i) (device_park (ci_now io) i (cc_Actor cfg) (reasonPrefix @ reason) True) db = (r, db1)"
    by fastforce
  have k1: "charge_keeps cfg {i} db db1"
    using round_trip_db [OF rt] keeps_park [OF Cons.prems(1) act] charge_keeps_refl [OF Cons.prems(1)] by fastforce
  then have wf1: "parks_wf db1" by (simp add: charge_keeps_def)
  show ?case
  proof (cases r)
    case (Inl e)
    obtain ok1 where u: "unparkAll (ci_undo io) io cfg ''a neighbour could not be parked'' opened db1 = (ok1, db')" "\<not> ok"
      using Cons.prems(2) rt Inl by (auto simp: prod_eq_iff)
    from charge_keeps_trans [OF k1 keeps_unparkAll [OF wf1 act u(1)]] show ?thesis using u(2) by (auto elim: charge_keeps_mono)
  next
    case (Inr n)
    have "ours_park cfg db1 i" using rt Inr keeps_park [OF Cons.prems(1) act] by (auto simp: round_trip_Inr)
    moreover have "parkAll io cfg reason (opened @ [i]) is db1 = (ok, db')" using Cons.prems(2) rt Inr by simp
    note ih = Cons.IH [OF wf1 this]
    moreover have "charge_keeps cfg (set opened \<union> set (i # is)) db db'"
      using charge_keeps_trans [OF k1 conjunct1 [OF ih]] by (auto elim: charge_keeps_mono)
    moreover have "charge_keeps cfg (set (i # is)) db db'" if ok
      using charge_keeps_trans [OF k1, of "set is" db'] ih that by simp
    ultimately show ?thesis by (auto simp: charge_keeps_def ours_park_def)
  qed
qed (simp add: charge_keeps_refl)

section \<open>The column\<close>

lemma keeps_runtimes: "parks_wf db \<Longrightarrow> charge_keeps cfg ids db (db\<lparr>runtimes := rs\<rparr>)"
proof -
  have "park_only db (db\<lparr>runtimes := rs\<rparr>)" using park_only_refl [of db, unfolded park_only_def] by (simp add: park_only_def)
  then show "parks_wf db \<Longrightarrow> charge_keeps cfg ids db (db\<lparr>runtimes := rs\<rparr>)"
    by (simp add: charge_keeps_def parks_wf_def others_parks_def open_park_def)
qed

lemma keeps_writeGate: "parks_wf db \<Longrightarrow> charge_keeps cfg ids db (writeGate io u state db)"
  by (simp add: writeGate_def write_gate_def keeps_runtimes charge_keeps_refl)

lemma keeps_noteFailure: "parks_wf db \<Longrightarrow> charge_keeps cfg ids db (noteFailure io u e db)"
  by (simp add: noteFailure_def keeps_writeGate charge_keeps_refl)

lemma keeps_markUnreachable: "parks_wf db \<Longrightarrow> charge_keeps cfg ids db (markUnreachable io host db)"
  by (simp add: markUnreachable_def keeps_runtimes charge_keeps_refl)

section \<open>What a request does to the power\<close>

lemma set_gate_dark:
  assumes "set_gate t io req on hold port s = (r, s')"
  shows "on \<Longrightarrow> cg_dark s' \<subseteq> cg_dark s"
    and "\<not> on \<Longrightarrow> hw_restore io = None \<Longrightarrow> isl r \<Longrightarrow> cg_dark s' \<subseteq> cg_dark s"
    and "cg_dark s' \<subseteq> insert (port_key port) (cg_dark s)"
    and "r = Inr g \<Longrightarrow> ga_HostID g = cg_host s"
proof -
  obtain b e where d: "setChargePower io port on (gr_Acknowledged req) = (b, e)" by fastforce
  obtain s1 where dr: "drive io port on (gr_Acknowledged req) s = ((b, e), s1)" by (simp add: drive_def d)
  then have s1: "s1 = snd (drive io port on (gr_Acknowledged req) s)" by simp
  have host: "cg_host s1 = cg_host s" by (simp add: s1)
  have any: "cg_dark s1 \<subseteq> insert (port_key port) (cg_dark s)" by (auto simp: s1 drive_dark)
  have on: "on \<Longrightarrow> cg_dark s1 \<subseteq> cg_dark s" using dark_on_le [of io port "gr_Acknowledged req" s] by (simp add: s1)
  have off: "\<not> on \<Longrightarrow> hw_restore io = None \<Longrightarrow> e \<noteq> None \<Longrightarrow> cg_dark s1 \<subseteq> cg_dark s"
    using dark_off [of io port "gr_Acknowledged req" s] d by (auto simp: s1 split: if_splits)
  have dark: "cg_dark s' = cg_dark s \<or> cg_dark s' = cg_dark s1"
    using assms dr by (cases e) (auto simp: set_gate_def put_def Let_def split: if_splits)
  have err: "\<not> on \<Longrightarrow> isl r \<Longrightarrow> s' = s \<or> e \<noteq> None"
    using assms dr by (cases e) (auto simp: set_gate_def put_def Let_def split: if_splits)
  show "cg_dark s' \<subseteq> insert (port_key port) (cg_dark s)" using dark any by blast
  show "on \<Longrightarrow> cg_dark s' \<subseteq> cg_dark s" using dark on by auto
  show "\<not> on \<Longrightarrow> hw_restore io = None \<Longrightarrow> isl r \<Longrightarrow> cg_dark s' \<subseteq> cg_dark s" using dark off err by auto
  show "r = Inr g \<Longrightarrow> ga_HostID g = cg_host s"
    using assms dr host by (cases e) (auto simp: set_gate_def put_def Let_def gate_status_def split: if_splits)
qed

lemma agent_cases:
  assumes "agent_SetChargeGate t io req s = (r, s')"
  obtains (same) "s' = s" "isl r"
  | (ran) on hold port where "set_gate t io req on hold port s = (r, s')" "gr_Power req = ChargePowerOn \<longrightarrow> on"
    "resolveChargePort (gr_Devpath req) = Inr port" "gr_HostID req = [] \<or> gr_HostID req = cg_host s"
  using assms
  by (auto simp: agent_SetChargeGate_def parseChargePower_def checkHost_def charge_powers split: sum.splits option.splits if_splits)

lemma agent_dark:
  assumes "agent_SetChargeGate t io req s = (r, s')"
  shows "gr_Power req = ChargePowerOn \<Longrightarrow> cg_dark s' \<subseteq> cg_dark s"
    and "hw_restore io = None \<Longrightarrow> isl r \<Longrightarrow> cg_dark s' \<subseteq> cg_dark s"
    and "key \<in> cg_dark s' \<Longrightarrow> key \<in> cg_dark s \<or> (\<exists>port. resolveChargePort (gr_Devpath req) = Inr port \<and> key = port_key port)"
    and "r = Inr g \<Longrightarrow> gr_HostID req \<noteq> [] \<Longrightarrow> ga_HostID g = gr_HostID req"
proof -
  have "(gr_Power req = ChargePowerOn \<longrightarrow> cg_dark s' \<subseteq> cg_dark s) \<and> (hw_restore io = None \<longrightarrow> isl r \<longrightarrow> cg_dark s' \<subseteq> cg_dark s) \<and>
      (key \<in> cg_dark s' \<longrightarrow> key \<in> cg_dark s \<or> (\<exists>port. resolveChargePort (gr_Devpath req) = Inr port \<and> key = port_key port)) \<and>
      (r = Inr g \<longrightarrow> gr_HostID req \<noteq> [] \<longrightarrow> ga_HostID g = gr_HostID req)"
    using assms
  proof (cases rule: agent_cases)
    case (ran on hold port)
    note d = set_gate_dark [OF ran(1)]
    show ?thesis using d ran(2-4) by (cases on) auto
  qed auto
  then show "gr_Power req = ChargePowerOn \<Longrightarrow> cg_dark s' \<subseteq> cg_dark s"
    and "hw_restore io = None \<Longrightarrow> isl r \<Longrightarrow> cg_dark s' \<subseteq> cg_dark s"
    and "key \<in> cg_dark s' \<Longrightarrow> key \<in> cg_dark s \<or> (\<exists>port. resolveChargePort (gr_Devpath req) = Inr port \<and> key = port_key port)"
    and "r = Inr g \<Longrightarrow> gr_HostID req \<noteq> [] \<Longrightarrow> ga_HostID g = gr_HostID req" by blast+
qed

text \<open>The ports without power, over all agents.\<close>

definition dark_ports :: "fleet \<Rightarrow> (string \<times> string) set" where
  "dark_ports w = {(base, key). key \<in> cg_dark (fl_agents w base)}"

lemma dark_ports_db [simp]: "dark_ports (w\<lparr>fl_db := db\<rparr>) = dark_ports w" "dark_ports (on_db f w) = dark_ports w"
  by (simp_all add: dark_ports_def on_db_def)

lemma client_cases:
  assumes "client_SetChargeGate io req w = (r, w')"
  obtains (same) "w' = w" "isl r"
  | (sent) base r' s' where "agent_SetChargeGate (gi_now io) (gi_hw io) req (fl_agents w base) = (r', s')"
      "w' = w\<lparr>fl_agents := (fl_agents w)(base := s')\<rparr>" "gi_link io = LostAfter \<or> (isl r \<longrightarrow> isl r')"
proof (cases "w' = w \<and> isl r")
  case False
  have c1: "trim_space (gr_HostID req) \<noteq> []" using assms False by (auto simp: client_SetChargeGate_def)
  have c2: "trim_space (gr_Devpath req) \<noteq> []" using assms False c1 by (auto simp: client_SetChargeGate_def)
  have c3: "gr_Power req = ChargePowerOn \<or> gr_Power req = ChargePowerOff"
    by (rule ccontr) (use assms False c1 c2 in \<open>auto simp: client_SetChargeGate_def\<close>)
  note c = c1 c2 c3
  obtain base where base: "endpoint io (gr_HostID req) (fl_db w) = Inr base"
    using assms False c by (cases "endpoint io (gr_HostID req) (fl_db w)") (auto simp: client_SetChargeGate_def)
  have up: "gi_link io \<noteq> LostBefore" using assms False c base by (auto simp: client_SetChargeGate_def)
  obtain r' s' where ag: "agent_SetChargeGate (gi_now io) (gi_hw io) req (fl_agents w base) = (r', s')" by fastforce
  have res: "w' = w\<lparr>fl_agents := (fl_agents w)(base := s')\<rparr>"
    "r = (if gi_link io = LostAfter then Inl Unreachable
          else (case r' of Inl e \<Rightarrow> Inl (statusError (chargeGateHTTPStatus e) True e) | Inr g \<Rightarrow> if ga_HostID g \<noteq> gr_HostID req then Inl (OtherHost (ga_HostID g)) else Inr g))"
    using assms c base up ag by (auto simp: client_SetChargeGate_def)
  have "gr_HostID req \<noteq> []" using c(1) by (auto simp: trim_space_def)
  then have "gi_link io = LostAfter \<or> (isl r \<longrightarrow> isl r')"
    using res(2) agent_dark(4) [OF ag] by (cases r') auto
  then show thesis using that(2) ag res(1) by blast
qed (use that in blast)

lemma client_db: "client_SetChargeGate io req w = (r, w') \<Longrightarrow> fl_db w' = fl_db w"
  by (erule client_cases) auto

lemma client_off_dark:
  assumes "client_SetChargeGate io req w = (r, w')" and "hw_restore (gi_hw io) = None" and "gi_link io \<noteq> LostAfter"
  shows "isl r \<Longrightarrow> dark_ports w' \<subseteq> dark_ports w"
    and "(base, key) \<in> dark_ports w' \<Longrightarrow> (base, key) \<in> dark_ports w \<or> (\<exists>port. resolveChargePort (gr_Devpath req) = Inr port \<and> key = port_key port)"
proof -
  have "(isl r \<longrightarrow> dark_ports w' \<subseteq> dark_ports w) \<and> ((base, key) \<in> dark_ports w' \<longrightarrow>
      (base, key) \<in> dark_ports w \<or> (\<exists>port. resolveChargePort (gr_Devpath req) = Inr port \<and> key = port_key port))"
    using assms(1)
  proof (cases rule: client_cases)
    case (sent base' r' s')
    show ?thesis using sent(2,3) assms(3) agent_dark(2,3) [OF sent(1)] assms(2)
      by (fastforce simp: dark_ports_def split: if_splits)
  qed auto
  then show "isl r \<Longrightarrow> dark_ports w' \<subseteq> dark_ports w"
    and "(base, key) \<in> dark_ports w' \<Longrightarrow> (base, key) \<in> dark_ports w \<or> (\<exists>port. resolveChargePort (gr_Devpath req) = Inr port \<and> key = port_key port)"
    by blast+
qed

lemma Release_dark:
  assumes "ReleaseChargeGate io host devpath reason w = (r, w')"
  shows "dark_ports w' \<subseteq> dark_ports w" and "fl_db w' = fl_db w"
proof -
  show "fl_db w' = fl_db w" using assms by (auto simp: ReleaseChargeGate_def dest: client_db)
  from assms show "dark_ports w' \<subseteq> dark_ports w" unfolding ReleaseChargeGate_def
  proof (cases rule: client_cases)
    case (sent base r' s')
    show ?thesis using sent(2) agent_dark(1) [OF sent(1)] by (fastforce simp: dark_ports_def split: if_splits)
  qed auto
qed

lemma releaseGate_dark: "releaseGate io u devpath reason w = (e, w') \<Longrightarrow> dark_ports w' \<subseteq> dark_ports w \<and> fl_db w' = fl_db w"
  by (auto simp: releaseGate_def split: prod.splits sum.splits dest: Release_dark)

section \<open>A plan\<close>

text \<open>What a plan that darkens a port must have: every device of the unit is parked or about to be.\<close>

definition plan_ok :: "string \<Rightarrow> cunit \<Rightarrow> cplan \<Rightarrow> bool" where
  "plan_ok actor u pl \<longleftrightarrow> set (pn_park pl) \<subseteq> set (un_ids u) \<and> set (pn_unpark pl) \<subseteq> set (un_ids u) \<and>
     (pn_verdict pl \<in> {VerdictGate, VerdictRegate, VerdictRenew} \<longrightarrow> pn_anchor pl \<in> set (un_devpaths u) \<and>
       (\<forall>d\<in>set (un_Devices u). \<not> cd_Leased d \<and> (cd_ID d \<in> set (pn_park pl) \<or> is_ours actor d \<and> (pn_reopen pl \<longrightarrow> cd_ID d \<in> set (pn_unpark pl)))))"

lemma hottest_of_devpath:
  assumes "hottest_of ds best = (n, p)"
  shows "p = snd best \<or> p \<in> cd_Devpath ` set ds"
  using assms by (induction ds best rule: hottest_of.induct) (auto split: if_splits)

lemma plan_ok_quiet:
  assumes "pn_verdict pl \<notin> {VerdictGate, VerdictRegate, VerdictRenew}" and "set (pn_park pl) \<subseteq> set (un_ids u)" "set (pn_unpark pl) \<subseteq> set (un_ids u)"
  shows "plan_ok actor u pl"
  using assms by (simp add: plan_ok_def)

lemma plan_ok_dark:
  assumes "pn_anchor pl \<in> set (un_devpaths u)" and "pn_park pl = map cd_ID (filter (is_fresh actor) (un_Devices u))"
    and "pn_unpark pl = (if pn_reopen pl then ourParks u actor else [])"
    and "\<forall>d\<in>set (un_Devices u). \<not> cd_Leased d \<and> (is_fresh actor d \<or> is_ours actor d)"
  shows "plan_ok actor u pl"
  using assms unfolding plan_ok_def un_ids_def ourParks_def by auto

lemma plan_ok_if: "(b \<Longrightarrow> plan_ok actor u pl) \<Longrightarrow> (\<not> b \<Longrightarrow> plan_ok actor u pl') \<Longrightarrow> plan_ok actor u (if b then pl else pl')"
  by simp

lemma ourParks_ids: "set (ourParks u actor) \<subseteq> set (un_ids u)"
  by (auto simp: ourParks_def un_ids_def)

lemma standDown_ok: "plan_ok actor u (standDown u th reason)" if "th_actor th = actor"
  unfolding standDown_def Let_def using that ourParks_ids [of u actor]
  by (intro plan_ok_quiet) (simp_all add: no_plan_def)

lemma decide_held_ok:
  assumes "\<forall>d\<in>set (un_Devices u). \<not> cd_Leased d \<and> (is_fresh (th_actor th) d \<or> is_ours (th_actor th) d)"
    and hot: "hottest \<in> set (un_devpaths u)" and held: "\<And>g. un_Held u = Some g \<Longrightarrow> ga_Devpath g \<in> set (un_devpaths u)"
  shows "plan_ok (th_actor th) u (decide_held u th hottest)"
proof -
  note ids = ourParks_ids [of u "th_actor th"]
  have q: "plan_ok (th_actor th) u pl" if "pn_verdict pl \<notin> {VerdictGate, VerdictRegate, VerdictRenew}" "pn_park pl = []"
      "pn_unpark pl = [] \<or> pn_unpark pl = ourParks u (th_actor th)" for pl using that ids by (intro plan_ok_quiet) auto
  have d: "plan_ok (th_actor th) u pl" if "pn_anchor pl \<in> set (un_devpaths u)"
      "pn_park pl = map cd_ID (filter (is_fresh (th_actor th)) (un_Devices u))"
      "pn_unpark pl = (if pn_reopen pl then ourParks u (th_actor th) else [])" for pl using that assms(1) by (rule plan_ok_dark)
  show ?thesis
  proof (cases "un_Held u")
    case None
    show ?thesis unfolding decide_held_def Let_def None option.case if_False
      by (intro plan_ok_if; (rule q; simp add: no_plan_def; fail)?; rule d; simp add: no_plan_def hot)
  next
    case (Some g)
    show ?thesis unfolding decide_held_def Let_def Some option.case if_True
      by (intro plan_ok_if; (rule q; simp add: no_plan_def; fail)?; rule d; simp add: no_plan_def or_else_def held [OF Some])
  qed
qed

lemma decide_ok:
  assumes held: "\<And>g. un_Held u = Some g \<Longrightarrow> ga_Devpath g \<in> set (un_devpaths u)"
  shows "plan_ok (th_actor th) u (decide u th)"
proof -
  define firstDev where "firstDev = or_else [] (List.find (\<lambda>p. p \<noteq> []) (map cd_Devpath (un_Devices u)))"
  obtain n hot where h: "hottest_of (un_Devices u) (- 1, []) = (n, hot)" by fastforce
  define hottest where "hottest = (if hot = [] then firstDev else hot)"
  have first: "firstDev \<noteq> [] \<Longrightarrow> firstDev \<in> set (un_devpaths u)"
    by (auto simp: firstDev_def or_else_def un_devpaths_def split: option.splits dest!: find_SomeD)
  have hot: "hottest \<in> set (un_devpaths u)" if "firstDev \<noteq> []"
    using hottest_of_devpath [OF h] first [OF that] by (auto simp: hottest_def un_devpaths_def)
  show ?thesis
  proof (cases "list_ex cd_Leased (un_Devices u) \<or> list_ex (is_foreign (th_actor th)) (un_Devices u) \<or> firstDev = []")
    case True
    show ?thesis unfolding decide_def Let_def h prod.case firstDev_def [symmetric]
      by (intro plan_ok_if; (rule standDown_ok; rule refl)?; use True in blast)
  next
    case False
    then have free: "\<not> list_ex cd_Leased (un_Devices u)" "\<not> list_ex (is_foreign (th_actor th)) (un_Devices u)" "firstDev \<noteq> []" by auto
    have all: "\<forall>d\<in>set (un_Devices u). \<not> cd_Leased d \<and> (is_fresh (th_actor th) d \<or> is_ours (th_actor th) d)"
      using free(1,2) by (auto simp: list_ex_iff is_foreign_def is_fresh_def)
    note hh = decide_held_ok [OF all hot [OF free(3)] held]
    have q: "plan_ok (th_actor th) u pl" if "pn_verdict pl \<notin> {VerdictGate, VerdictRegate, VerdictRenew}" "pn_park pl = []" "pn_unpark pl = []" for pl
      using that by (intro plan_ok_quiet) auto
    have d: "plan_ok (th_actor th) u pl" if "pn_anchor pl = hottest" "pn_park pl = map cd_ID (filter (is_fresh (th_actor th)) (un_Devices u))"
      "pn_unpark pl = (if pn_reopen pl then ourParks u (th_actor th) else [])" for pl
      using that hot [OF free(3)] all by (intro plan_ok_dark) simp_all
    show ?thesis unfolding decide_def Let_def h prod.case firstDev_def [symmetric] hottest_def [symmetric]
      by (intro plan_ok_if; (rule standDown_ok; rule refl)?; (rule hh; assumption)?; (rule q; simp add: no_plan_def; fail)?;
          rule d; simp add: no_plan_def)
  qed
qed

section \<open>One unit\<close>

definition view_ok :: "charge_config \<Rightarrow> farm \<Rightarrow> cunit \<Rightarrow> bool" where
  "view_ok cfg db u \<longleftrightarrow> (\<forall>d\<in>set (un_Devices u). is_ours (cc_Actor cfg) d \<longrightarrow> ours_park cfg db (cd_ID d))"

text \<open>The answers of the off-requests arrive, and a gate that fails half-way is undone.\<close>

definition gates_answer :: "charge_io \<Rightarrow> bool" where
  "gates_answer io \<longleftrightarrow> (\<forall>k. gi_link (ci_gate io k) \<noteq> LostAfter \<and> hw_restore (gi_hw (ci_gate io k)) = None)"

definition unit_port :: "cunit \<Rightarrow> string \<Rightarrow> bool" where
  "unit_port u key \<longleftrightarrow> (\<exists>p\<in>set (un_devpaths u). \<exists>port. resolveChargePort p = Inr port \<and> key = port_key port)"

text \<open>Ports that are dark after and were not before are the unit's, and all of its devices are parked.\<close>

definition unit_out :: "charge_config \<Rightarrow> farm \<Rightarrow> cunit \<Rightarrow> bool" where
  "unit_out cfg db u \<longleftrightarrow> (\<forall>d\<in>set (un_Devices u). \<not> cd_Leased d \<and> ours_park cfg db (cd_ID d))"

definition darkens :: "charge_config \<Rightarrow> cunit \<Rightarrow> fleet \<Rightarrow> fleet \<Rightarrow> bool" where
  "darkens cfg u w w' \<longleftrightarrow> (\<forall>(base, key)\<in>dark_ports w' - dark_ports w. unit_port u key \<and> unit_out cfg (fl_db w') u)"

lemma darkens_less: "dark_ports w' \<subseteq> dark_ports w \<Longrightarrow> darkens cfg u w w'"
  by (auto simp: darkens_def)

lemma assert_gate_client:
  assumes "assert_gate io hold u pl w = (e, w')"
  obtains r where "client_SetChargeGate (ci_gate io (un_Key u)) \<lparr>gr_HostID = un_HostID u, gr_Devpath = pn_anchor pl, gr_Power = ChargePowerOff,
      gr_Hold = hold, gr_Acknowledged = pn_ack pl, gr_Reason = reasonPrefix @ pn_reason pl\<rparr> w = (r, w')" "isl r \<longleftrightarrow> e \<noteq> None"
  using assms by (auto simp: assert_gate_def split: prod.splits sum.splits)

lemma assert_gate_db: "assert_gate io hold u pl w = (e, w') \<Longrightarrow> fl_db w' = fl_db w"
  by (erule assert_gate_client) (auto dest: client_db)

lemma assert_gate_dark:
  assumes ans: "gates_answer io" and res: "assert_gate io hold u pl w = (e, w')"
  shows "e \<noteq> None \<Longrightarrow> dark_ports w' \<subseteq> dark_ports w"
    and "pn_anchor pl \<in> set (un_devpaths u) \<Longrightarrow> (base, key) \<in> dark_ports w' - dark_ports w \<Longrightarrow> unit_port u key"
proof -
  obtain r where r: "client_SetChargeGate (ci_gate io (un_Key u)) \<lparr>gr_HostID = un_HostID u, gr_Devpath = pn_anchor pl, gr_Power = ChargePowerOff,
      gr_Hold = hold, gr_Acknowledged = pn_ack pl, gr_Reason = reasonPrefix @ pn_reason pl\<rparr> w = (r, w')" "isl r \<longleftrightarrow> e \<noteq> None"
    using res by (rule assert_gate_client)
  have a: "hw_restore (gi_hw (ci_gate io (un_Key u))) = None" "gi_link (ci_gate io (un_Key u)) \<noteq> LostAfter"
    using ans by (simp_all add: gates_answer_def)
  show "e \<noteq> None \<Longrightarrow> dark_ports w' \<subseteq> dark_ports w" using client_off_dark(1) [OF r(1) a] r(2) by blast
  show "pn_anchor pl \<in> set (un_devpaths u) \<Longrightarrow> (base, key) \<in> dark_ports w' - dark_ports w \<Longrightarrow> unit_port u key"
    using client_off_dark(2) [OF r(1) a, of base key] by (auto simp: unit_port_def intro!: bexI [of _ "pn_anchor pl"])
qed

lemma keeps_wf: "charge_keeps cfg ids db db' \<Longrightarrow> parks_wf db'"
  by (simp add: charge_keeps_def)

text \<open>Release, peek: nothing darkens, and the parks that change are the unit's.\<close>

lemma execute_peek_effect:
  assumes wf: "parks_wf (fl_db w)" and res: "execute_peek io u pl (w, m) = (w', m')"
  shows "charge_keeps cfg ids (fl_db w) (fl_db w') \<and> dark_ports w' \<subseteq> dark_ports w"
proof -
  obtain e w1 where r: "releaseGate io u (pn_anchor pl) ''peek: re-reading the battery'' w = (e, w1)" by fastforce
  note q = releaseGate_dark [OF r]
  show ?thesis using res r q wf keeps_noteFailure keeps_writeGate
    by (cases e) (auto simp: execute_peek_def Let_def on_db_def)
qed

lemma execute_release_effect:
  assumes wf: "parks_wf (fl_db w)" and act: "actor_ok cfg" and pl: "set (pn_unpark pl) \<subseteq> set (un_ids u)"
    and res: "execute_release io cfg u pl (w, m) = (w', m')"
  shows "charge_keeps cfg (set (un_ids u)) (fl_db w) (fl_db w') \<and> dark_ports w' \<subseteq> dark_ports w"
proof -
  obtain e w1 where r: "(if pn_anchor pl = [] then (None, w) else releaseGate io u (pn_anchor pl) (pn_reason pl) w) = (e, w1)" by fastforce
  have q: "dark_ports w1 \<subseteq> dark_ports w" "fl_db w1 = fl_db w" using r releaseGate_dark by (auto split: if_splits)
  obtain ok db1 where u: "unparkAll (ci_unpark io) io cfg (pn_reason pl) (pn_unpark pl) (fl_db w1) = (ok, db1)" by fastforce
  have k: "charge_keeps cfg (set (un_ids u)) (fl_db w) db1"
    using keeps_unparkAll [OF _ act u] wf q(2) pl by (auto elim: charge_keeps_mono)
  have step: "execute_release io cfg u pl (w, m) = (case e of Some e' \<Rightarrow> (on_db (noteFailure io u e') w1, mark u (pn_anchor pl) m)
      | None \<Rightarrow> (w1\<lparr>fl_db := writeGate io u ChargePowerOn db1\<rparr>, forget_peek u (mark u (pn_anchor pl) m)))"
    unfolding execute_release_def Let_def fst_conv snd_conv r prod.case u ..
  show ?thesis using res q wf k keeps_noteFailure [OF wf] charge_keeps_step [OF k keeps_writeGate [OF keeps_wf [OF k]]]
    by (cases e) (auto simp: step on_db_def)
qed

lemma ours_kept:
  assumes "charge_keeps cfg ids db db'" and "ours_park cfg db i" and "i \<in> ids \<Longrightarrow> ours_park cfg db' i"
  shows "ours_park cfg db' i"
  using assms by (cases "i \<in> ids") (auto simp: charge_keeps_def ours_park_def)

lemma ours_writeGate [simp]: "ours_park cfg (writeGate io u state db) i = ours_park cfg db i"
  by (simp add: ours_park_def open_park_def writeGate_def write_gate_def)


text \<open>A gate asserted over a parked unit.\<close>

lemma darkens_parked:
  assumes "dark_ports w' - dark_ports w \<subseteq> {(base, key). unit_port u key}" and "unit_out cfg (fl_db w') u"
  shows "darkens cfg u w w'"
  using assms by (auto simp: darkens_def)

lemma gate_parked_effect:
  assumes wf: "parks_wf (fl_db w)" and act: "actor_ok cfg" and ids: "set parked \<subseteq> set (un_ids u)"
    and res: "gate_parked io cfg hold u pl parked (w, m) = (w', m')"
  shows "charge_keeps cfg (set (un_ids u)) (fl_db w) (fl_db w')"
    and "gates_answer io \<Longrightarrow> pn_anchor pl \<in> set (un_devpaths u) \<Longrightarrow> unit_out cfg (fl_db w) u \<Longrightarrow> darkens cfg u w w'"
proof -
  obtain e w1 where a: "assert_gate io hold u pl w = (e, w1)" by fastforce
  note db = assert_gate_db [OF a] and dark = assert_gate_dark [OF _ a]
  define toClose where "toClose = (if pn_verdict pl = VerdictRegate \<and> \<not> pn_reopen pl then parked @ ourParks u (cc_Actor cfg) else parked)"
  have tc: "set toClose \<subseteq> set (un_ids u)" using ids ourParks_ids [of u "cc_Actor cfg"] by (auto simp: toClose_def)
  have "charge_keeps cfg (set (un_ids u)) (fl_db w) (fl_db w') \<and> (gates_answer io \<longrightarrow> pn_anchor pl \<in> set (un_devpaths u) \<longrightarrow>
      unit_out cfg (fl_db w) u \<longrightarrow> darkens cfg u w w')"
  proof (cases e)
    case None
    have w': "w' = on_db (writeGate io u ChargePowerOff) w1" using res a None by (simp add: gate_parked_def Let_def)
    have "darkens cfg u w w'" if "gates_answer io" "pn_anchor pl \<in> set (un_devpaths u)" "unit_out cfg (fl_db w) u"
      using that db dark(2) [OF that(1,2)] by (intro darkens_parked) (auto simp: w' on_db_def dark_ports_def unit_out_def)
    then show ?thesis using db keeps_writeGate [OF wf] by (auto simp: w' on_db_def)
  next
    case (Some e')
    obtain ok db1 where u: "unparkAll (ci_undo io) io cfg (''the charge gate could not be asserted: '' @ errText io e') toClose (fl_db w1) = (ok, db1)"
      by fastforce
    have w': "w' = w1\<lparr>fl_db := noteFailure io u e' db1\<rparr>" using res a Some u by (simp add: gate_parked_def Let_def toClose_def)
    have k: "charge_keeps cfg (set (un_ids u)) (fl_db w) db1" using keeps_unparkAll [OF _ act u] wf db tc by (auto elim: charge_keeps_mono)
    have "dark_ports w' = dark_ports w1" by (simp add: w' dark_ports_def)
    then have "gates_answer io \<Longrightarrow> darkens cfg u w w'" using dark(1) Some by (auto intro: darkens_less)
    then show ?thesis using charge_keeps_step [OF k keeps_noteFailure [OF keeps_wf [OF k]]] by (auto simp: w')
  qed
  then show "charge_keeps cfg (set (un_ids u)) (fl_db w) (fl_db w')"
    and "gates_answer io \<Longrightarrow> pn_anchor pl \<in> set (un_devpaths u) \<Longrightarrow> unit_out cfg (fl_db w) u \<Longrightarrow> darkens cfg u w w'" by blast+
qed

lemma darkens_db: "darkens cfg u (w\<lparr>fl_db := db\<rparr>) w' = darkens cfg u w w'"
  by (simp add: darkens_def dark_ports_def)

lemma plan_parks:
  assumes "plan_ok (cc_Actor cfg) u pl" and "pn_verdict pl \<in> {VerdictGate, VerdictRegate, VerdictRenew}" and "view_ok cfg db u"
    and keeps: "charge_keeps cfg ids db db'" and parked: "\<forall>i\<in>ids. ours_park cfg db' i" and "set (pn_park pl) \<subseteq> ids"
  shows "unit_out cfg db' u"
  unfolding unit_out_def
proof (intro ballI conjI)
  fix d
  assume d: "d \<in> set (un_Devices u)"
  show "\<not> cd_Leased d" using assms(1,2) d by (auto simp: plan_ok_def)
  consider "cd_ID d \<in> set (pn_park pl)" | "is_ours (cc_Actor cfg) d" using assms(1,2) d by (auto simp: plan_ok_def)
  then show "ours_park cfg db' (cd_ID d)"
  proof cases
    case 2
    then have "ours_park cfg db (cd_ID d)" using assms(3) d by (auto simp: view_ok_def)
    then show ?thesis using ours_kept [OF keeps] parked by blast
  qed (use parked assms(6) in blast)
qed


lemma execute_gate_effect:
  assumes wf: "parks_wf (fl_db w)" and act: "actor_ok cfg" and ok: "plan_ok (cc_Actor cfg) u pl"
    and verdict: "pn_verdict pl \<in> {VerdictGate, VerdictRegate}" and res: "execute_gate io cfg hold u pl (w, m) = (w', m')"
  shows "charge_keeps cfg (set (un_ids u)) (fl_db w) (fl_db w')"
    and "gates_answer io \<Longrightarrow> view_ok cfg (fl_db w) u \<Longrightarrow> darkens cfg u w w'"
proof -
  define ids where "ids = (if pn_reopen pl then pn_park pl @ pn_unpark pl else pn_park pl)"
  obtain ok1 db1 where u: "(if pn_reopen pl then unparkAll (ci_unpark io) io cfg (pn_reason pl) (pn_unpark pl) (fl_db w) else (True, fl_db w)) = (ok1, db1)"
    by fastforce
  obtain ok2 db2 where p: "parkAll io cfg (pn_reason pl) [] ids db1 = (ok2, db2)" by fastforce
  have step: "execute_gate io cfg hold u pl (w, m) = (if \<not> ok1 then (w\<lparr>fl_db := db1\<rparr>, m) else if \<not> ok2 then (w\<lparr>fl_db := db2\<rparr>, m)
      else gate_parked io cfg hold u pl ids (w\<lparr>fl_db := db2\<rparr>, m))"
    unfolding execute_gate_def Let_def prod.case u ids_def [symmetric] p by (cases ok1; cases ok2) auto
  have sub: "set ids \<subseteq> set (un_ids u)" "pn_anchor pl \<in> set (un_devpaths u)" using ok verdict by (auto simp: plan_ok_def ids_def)
  have k1: "charge_keeps cfg (set ids) (fl_db w) db1"
  proof (cases "pn_reopen pl")
    case True
    then have "unparkAll (ci_unpark io) io cfg (pn_reason pl) (pn_unpark pl) (fl_db w) = (ok1, db1)" using u by simp
    from keeps_unparkAll [OF wf act this] show ?thesis by (rule charge_keeps_mono) (simp add: ids_def True)
  qed (use u charge_keeps_refl [OF wf] in auto)
  note pk = keeps_parkAll [OF keeps_wf [OF k1] act p]
  have k2: "charge_keeps cfg (set ids) (fl_db w) db2" using charge_keeps_step [OF k1] pk by simp
  have ours: "unit_out cfg db2 u" if ok2 "view_ok cfg (fl_db w) u"
  proof (rule plan_parks [OF ok _ that(2) k2])
    show "pn_verdict pl \<in> {VerdictGate, VerdictRegate, VerdictRenew}" using verdict by auto
  qed (use pk that(1) in \<open>auto simp: ids_def\<close>)
  have dark: "darkens cfg u w (w\<lparr>fl_db := db\<rparr>)" for db by (rule darkens_less) simp
  note K1 = charge_keeps_mono [OF k1 sub(1)] and K2 = charge_keeps_mono [OF k2 sub(1)]
  have "charge_keeps cfg (set (un_ids u)) (fl_db w) (fl_db w') \<and> (gates_answer io \<longrightarrow> view_ok cfg (fl_db w) u \<longrightarrow> darkens cfg u w w')"
  proof (cases "ok1 \<and> ok2")
    case True
    have g: "gate_parked io cfg hold u pl ids (w\<lparr>fl_db := db2\<rparr>, m) = (w', m')" using res step True by simp
    have "parks_wf (fl_db (w\<lparr>fl_db := db2\<rparr>))" using keeps_wf [OF k2] by simp
    note e = gate_parked_effect [OF this act sub(1) g]
    show ?thesis using charge_keeps_step [OF K2] e(1) e(2) [OF _ sub(2)] ours True by (simp add: darkens_db)
  qed (use res step K1 K2 dark in \<open>auto split: if_splits\<close>)
  then show "charge_keeps cfg (set (un_ids u)) (fl_db w) (fl_db w')"
    and "gates_answer io \<Longrightarrow> view_ok cfg (fl_db w) u \<Longrightarrow> darkens cfg u w w'" by blast+
qed

lemma execute_renew_effect:
  assumes wf: "parks_wf (fl_db w)" and act: "actor_ok cfg" and ok: "plan_ok (cc_Actor cfg) u pl"
    and verdict: "pn_verdict pl = VerdictRenew" and res: "execute_renew io cfg hold u pl (w, m) = (w', m')"
  shows "charge_keeps cfg (set (un_ids u)) (fl_db w) (fl_db w')"
    and "gates_answer io \<Longrightarrow> view_ok cfg (fl_db w) u \<Longrightarrow> darkens cfg u w w'"
proof -
  obtain ok1 db1 where p: "parkAll io cfg (pn_reason pl) [] (pn_park pl) (fl_db w) = (ok1, db1)" by fastforce
  obtain e w1 where a: "assert_gate io hold u pl (w\<lparr>fl_db := db1\<rparr>) = (e, w1)" by fastforce
  obtain e2 w2 where r: "releaseGate io u (pn_anchor pl) (''renewal refused: '' @ errText io (the e)) w1 = (e2, w2)" by fastforce
  obtain ok2 db2 where u: "unparkAll (ci_unpark io) io cfg (''the charge gate was refused: '' @ errText io (the e)) (ourParks u (cc_Actor cfg)) (fl_db w2) = (ok2, db2)"
    by fastforce
  have sub: "set (pn_park pl) \<subseteq> set (un_ids u)" "pn_anchor pl \<in> set (un_devpaths u)" using ok verdict by (auto simp: plan_ok_def)
  note pk = keeps_parkAll [OF wf act p]
  then have k1: "charge_keeps cfg (set (pn_park pl)) (fl_db w) db1" by simp
  note K1 = charge_keeps_mono [OF k1 sub(1)]
  have db: "fl_db w1 = db1" using assert_gate_db [OF a] by simp
  note rel = releaseGate_dark [OF r]
  have "charge_keeps cfg (set (un_ids u)) db1 db2" using keeps_unparkAll [OF _ act u] keeps_wf [OF k1] rel db ourParks_ids [of u "cc_Actor cfg"]
    by (auto elim: charge_keeps_mono)
  note K2 = charge_keeps_step [OF K1 this]
  have step: "w' = (if \<not> ok1 then w\<lparr>fl_db := db1\<rparr> else case e of None \<Rightarrow> on_db (writeGate io u ChargePowerOff) w1
      | Some e' \<Rightarrow> if err_unreachable e' then on_db (writeGate io u ChargePowerUnknown) w1 else w2\<lparr>fl_db := writeGate io u ChargePowerOn db2\<rparr>)"
    using res p a r u by (cases ok1; cases e) (auto simp: execute_renew_def Let_def split: if_splits)
  have W: "charge_keeps cfg (set (un_ids u)) (fl_db w) (writeGate io u state db1)" "charge_keeps cfg (set (un_ids u)) (fl_db w) (writeGate io u state db2)" for state
    using charge_keeps_step [OF K1 keeps_writeGate [OF keeps_wf [OF K1]]] charge_keeps_step [OF K2 keeps_writeGate [OF keeps_wf [OF K2]]] by blast+
  show "charge_keeps cfg (set (un_ids u)) (fl_db w) (fl_db w')"
    unfolding step using K1 W by (auto simp: on_db_def db split: option.split)
  assume ans: "gates_answer io" and view: "view_ok cfg (fl_db w) u"
  note dark = assert_gate_dark [OF ans a, simplified dark_ports_db]
  show "darkens cfg u w w'"
  proof (cases "ok1 \<and> e = None")
    case True
    have "unit_out cfg db1 u"
      by (rule plan_parks [OF ok _ view k1]) (use verdict pk True in auto)
    then show ?thesis using True dark(2) [OF sub(2)] by (intro darkens_parked) (auto simp: step on_db_def db dark_ports_def unit_out_def)
  next
    case False
    have "dark_ports w' \<subseteq> dark_ports w" using False dark(1) rel by (auto simp: step on_db_def split: option.splits if_splits)
    then show ?thesis by (rule darkens_less)
  qed
qed


section \<open>A unit, the units, the cycle\<close>

lemma execute_effect:
  assumes wf: "parks_wf (fl_db w)" and act: "actor_ok cfg" and ok: "plan_ok (cc_Actor cfg) u pl"
    and res: "execute io cfg hold u pl (w, m) = (w', m')"
  shows "charge_keeps cfg (set (un_ids u)) (fl_db w) (fl_db w')"
    and "gates_answer io \<Longrightarrow> view_ok cfg (fl_db w) u \<Longrightarrow> darkens cfg u w w'"
proof -
  have un: "set (pn_unpark pl) \<subseteq> set (un_ids u)" using ok by (simp add: plan_ok_def)
  have "charge_keeps cfg (set (un_ids u)) (fl_db w) (fl_db w') \<and> (gates_answer io \<longrightarrow> view_ok cfg (fl_db w) u \<longrightarrow> darkens cfg u w w')"
  proof (cases "pn_verdict pl")
    case VerdictGate
    with execute_gate_effect [OF wf act ok] show ?thesis using res by (simp add: execute_def)
  next
    case VerdictRegate
    with execute_gate_effect [OF wf act ok] show ?thesis using res by (simp add: execute_def)
  next
    case VerdictRenew
    with execute_renew_effect [OF wf act ok] show ?thesis using res by (simp add: execute_def)
  next
    case VerdictPeek
    with execute_peek_effect [OF wf] show ?thesis using res darkens_less by (auto simp: execute_def)
  next
    case VerdictRelease
    with execute_release_effect [OF wf act un] show ?thesis using res darkens_less by (auto simp: execute_def)
  qed (use res charge_keeps_refl [OF wf] darkens_less [of w w] in \<open>auto simp: execute_def\<close>)
  then show "charge_keeps cfg (set (un_ids u)) (fl_db w) (fl_db w')"
    and "gates_answer io \<Longrightarrow> view_ok cfg (fl_db w) u \<Longrightarrow> darkens cfg u w w'" by blast+
qed

lemma attachPeek_unit:
  assumes "attachPeek clock cfg peeks u = (u', peeks')"
  shows "un_Devices u' = un_Devices u" and "un_Held u' = un_Held u"
  using assms by (auto simp: attachPeek_def Let_def split: if_splits)

lemma attachGates_held: "un_Held (attachGates gs u) = Some g \<Longrightarrow> ga_Devpath g \<in> set (un_devpaths u)"
  by (auto simp: attachGates_def Let_def dest!: find_SomeD)

lemma attachGates_devices [simp]: "un_Devices (attachGates gs u) = un_Devices u"
  by (simp add: attachGates_def Let_def)

text \<open>What the correctness of a unit depends on is its list of devices.\<close>

lemma unit_cong:
  assumes "un_Devices u = un_Devices v"
  shows "un_ids u = un_ids v" and "un_devpaths u = un_devpaths v" and "view_ok cfg db u = view_ok cfg db v" and "darkens cfg u w w' = darkens cfg v w w'"
  using assms by (simp_all add: un_ids_def un_devpaths_def view_ok_def darkens_def unit_port_def unit_out_def)

lemma charge_unit_effect:
  assumes wf: "parks_wf (fl_db w)" and act: "actor_ok cfg" and res: "charge_unit io cfg hold listed u0 (w, m) = (w', m')"
  shows "charge_keeps cfg (set (un_ids u0)) (fl_db w) (fl_db w')"
    and "gates_answer io \<Longrightarrow> view_ok cfg (fl_db w) u0 \<Longrightarrow> darkens cfg u0 w w'"
proof -
  define a where "a = attachGates (or_else [] (map_of listed (un_HostID u0))) (u0\<lparr>un_HasClient := cc_Gates cfg\<rparr>)"
  define th where "th = \<lparr>th_actor = cc_Actor cfg, th_min = cc_MinPct cfg, th_max = cc_MaxPct cfg\<rparr>"
  obtain u peeks where at: "attachPeek (ci_clock io) cfg (cm_peeks m) a = (u, peeks)" by fastforce
  have dev: "un_Devices u = un_Devices u0" using attachPeek_unit(1) [OF at] by (simp add: a_def)
  have same: "un_devpaths (u0\<lparr>un_HasClient := cc_Gates cfg\<rparr>) = un_devpaths u0" by (simp add: un_devpaths_def)
  have held: "ga_Devpath g \<in> set (un_devpaths u)" if "un_Held u = Some g" for g
  proof -
    have "un_Held a = Some g" using that attachPeek_unit(2) [OF at] by simp
    from attachGates_held [OF this [unfolded a_def]] show ?thesis by (simp add: same unit_cong(2) [OF dev])
  qed
  have pl: "plan_ok (cc_Actor cfg) u (decide u th)" using decide_ok [of u th] held by (simp add: th_def)
  have "charge_unit io cfg hold listed u0 (w, m) = (w, m) \<or>
      charge_unit io cfg hold listed u0 (w, m) = execute io cfg hold u (decide u th) (w, m\<lparr>cm_peeks := peeks\<rparr>)"
    unfolding charge_unit_def fst_conv snd_conv a_def [symmetric] at Let_def prod.case th_def by simp
  then have "charge_keeps cfg (set (un_ids u0)) (fl_db w) (fl_db w') \<and> (gates_answer io \<longrightarrow> view_ok cfg (fl_db w) u0 \<longrightarrow> darkens cfg u0 w w')"
  proof
    assume "charge_unit io cfg hold listed u0 (w, m) = (w, m)"
    then have "w' = w" using res by simp
    then show ?thesis using charge_keeps_refl [OF wf] darkens_less [of w w] by simp
  next
    assume "charge_unit io cfg hold listed u0 (w, m) = execute io cfg hold u (decide u th) (w, m\<lparr>cm_peeks := peeks\<rparr>)"
    then have "execute io cfg hold u (decide u th) (w, m\<lparr>cm_peeks := peeks\<rparr>) = (w', m')" using res by simp
    from execute_effect [OF wf act pl this] show ?thesis by (simp add: unit_cong [OF dev])
  qed
  then show "charge_keeps cfg (set (un_ids u0)) (fl_db w) (fl_db w')"
    and "gates_answer io \<Longrightarrow> view_ok cfg (fl_db w) u0 \<Longrightarrow> darkens cfg u0 w w'" by blast+
qed

definition ids_of :: "cunit list \<Rightarrow> uuid set" where
  "ids_of us = (\<Union>u\<in>set us. set (un_ids u))"

definition apart :: "cunit list \<Rightarrow> bool" where
  "apart us \<longleftrightarrow> sorted_wrt (\<lambda>u v. set (un_ids u) \<inter> set (un_ids v) = {}) us"

definition all_darkened :: "charge_config \<Rightarrow> cunit list \<Rightarrow> fleet \<Rightarrow> fleet \<Rightarrow> bool" where
  "all_darkened cfg us w w' \<longleftrightarrow> (\<forall>(base, key)\<in>dark_ports w' - dark_ports w. \<exists>u\<in>set us. unit_port u key \<and> unit_out cfg (fl_db w') u)"

lemma apart_Cons: "apart (u # us) \<longleftrightarrow> set (un_ids u) \<inter> ids_of us = {} \<and> apart us"
  by (auto simp: apart_def ids_of_def)

lemma open_park_ours: "open_park db' i = open_park db i \<Longrightarrow> ours_park cfg db' i = ours_park cfg db i"
  by (simp add: ours_park_def)

lemma view_kept:
  assumes "charge_keeps cfg ids db db'" and "set (un_ids v) \<inter> ids = {}"
  shows "view_ok cfg db v = view_ok cfg db' v" and "unit_out cfg db v = unit_out cfg db' v"
proof -
  have "ours_park cfg db' (cd_ID d) = ours_park cfg db (cd_ID d)" if "d \<in> set (un_Devices v)" for d
    using assms that by (intro open_park_ours) (auto simp: charge_keeps_def un_ids_def)
  then show "view_ok cfg db v = view_ok cfg db' v" and "unit_out cfg db v = unit_out cfg db' v"
    by (auto simp: view_ok_def unit_out_def)
qed

lemma units_effect:
  assumes "parks_wf (fl_db w)" and act: "actor_ok cfg" and "fold (charge_unit io cfg hold listed) us (w, m) = (w', m')"
  shows "charge_keeps cfg (ids_of us) (fl_db w) (fl_db w') \<and>
    (gates_answer io \<longrightarrow> apart us \<longrightarrow> (\<forall>u\<in>set us. view_ok cfg (fl_db w) u) \<longrightarrow> all_darkened cfg us w w')"
  using assms(1,3)
proof (induction us arbitrary: w m)
  case Nil
  then show ?case by (simp add: charge_keeps_refl all_darkened_def)
next
  case (Cons u us)
  obtain w1 m1 where u: "charge_unit io cfg hold listed u (w, m) = (w1, m1)" by fastforce
  note e = charge_unit_effect [OF Cons.prems(1) act u]
  have f: "fold (charge_unit io cfg hold listed) us (w1, m1) = (w', m')" using Cons.prems(2) u by simp
  note ih = Cons.IH [OF keeps_wf [OF e(1)] f]
  have "charge_keeps cfg (ids_of (u # us)) (fl_db w) (fl_db w')"
    using charge_keeps_trans [OF e(1) conjunct1 [OF ih]] by (simp add: ids_of_def)
  moreover have "all_darkened cfg (u # us) w w'" if "gates_answer io" "apart (u # us)" "\<forall>v\<in>set (u # us). view_ok cfg (fl_db w) v"
  proof -
    have ap: "set (un_ids u) \<inter> ids_of us = {}" "apart us" using that(2) by (simp_all add: apart_Cons)
    have "view_ok cfg (fl_db w1) v" if v: "v \<in> set us" for v
      using view_kept(1) [OF e(1), of v] ap(1) v \<open>\<forall>v\<in>set (u # us). view_ok cfg (fl_db w) v\<close> by (auto simp: ids_of_def)
    then have rest: "all_darkened cfg us w1 w'" using ih that(1) ap(2) by blast
    have "darkens cfg u w w1" using e(2) that by simp
    moreover have "unit_out cfg (fl_db w1) u = unit_out cfg (fl_db w') u" using view_kept(2) [OF conjunct1 [OF ih] ap(1)] .
    ultimately show ?thesis using rest by (fastforce simp: all_darkened_def darkens_def)
  qed
  ultimately show ?case by blast
qed


text \<open>The scan and the grouping: the units share no device, and show the parks as they are.\<close>

lemma scan_row_id [simp]: "cd_ID (scan_row now cfg db d) = d_id d"
  by (simp add: scan_row_def Let_def)

lemma scan_row_ours: "is_ours (cc_Actor cfg) (scan_row now cfg db d) \<longleftrightarrow> ours_park cfg db (d_id d)"
  by (simp add: scan_row_def Let_def is_ours_def ours_park_def or_else_def split: option.split)

lemma scan_view: "c \<in> set (scan now cfg db) \<Longrightarrow> is_ours (cc_Actor cfg) c \<Longrightarrow> ours_park cfg db (cd_ID c)"
  by (auto simp: scan_def scan_row_ours)

lemma scan_ids: "set (map cd_ID (scan now cfg db)) \<subseteq> set (map d_id (devices db))"
  by (auto simp: scan_def)

lemma scan_inj:
  assumes "keyed d_id (devices db)"
  shows "inj_on cd_ID (set (scan now cfg db))"
  by (rule inj_onI) (auto simp: scan_def dest: keyed_eqD [OF assms])

lemma distinct_sorted_wrt: "distinct (map f xs) \<Longrightarrow> sorted_wrt (\<lambda>u v. f u \<noteq> f v) xs"
  by (induction xs) force+

lemma group_devices: "u \<in> set (group devs sib) \<Longrightarrow> un_Devices u = filter (\<lambda>d. unit_key d = un_Key u) devs"
  by (auto simp: group_def Let_def)

lemma group_keys: "map un_Key (group devs sib) = rev (remdups (rev (map unit_key devs)))"
  by (simp add: group_def Let_def comp_def)

lemma group_apart:
  assumes "inj_on cd_ID (set devs)"
  shows "apart (group devs sib)"
proof -
  have "distinct (map un_Key (group devs sib))" by (simp add: group_keys)
  then have "sorted_wrt (\<lambda>u v. un_Key u \<noteq> un_Key v) (group devs sib)" by (rule distinct_sorted_wrt)
  then show ?thesis unfolding apart_def
  proof (rule sorted_wrt_mono_rel [rotated])
    fix u v
    assume uv: "u \<in> set (group devs sib)" "v \<in> set (group devs sib)" "un_Key u \<noteq> un_Key v"
    show "set (un_ids u) \<inter> set (un_ids v) = {}"
      using uv(3) inj_onD [OF assms] by (fastforce simp: un_ids_def group_devices [OF uv(1)] group_devices [OF uv(2)])
  qed
qed

lemma group_view: "u \<in> set (group (scan now cfg db) sib) \<Longrightarrow> view_ok cfg db u"
  by (auto simp: view_ok_def group_devices intro: scan_view)

text \<open>Asking the agents and releasing what nobody asked for.\<close>

lemma listGates_effect:
  assumes "parks_wf (fl_db w)" and "listGates io hosts' w = (listed, w')"
  shows "charge_keeps cfg {} (fl_db w) (fl_db w') \<and> dark_ports w' = dark_ports w"
  using assms
proof (induction hosts' arbitrary: w listed)
  case (Cons h hs)
  show ?case
  proof (cases "client_ChargeGates (ci_list io h) h w")
    case (Inl e)
    note k = keeps_markUnreachable [OF Cons.prems(1), of cfg "{}" io h]
    have "parks_wf (fl_db (on_db (markUnreachable io h) w))" using keeps_wf [OF k] by (simp add: on_db_def)
    from Cons.IH [OF this, of listed] show ?thesis using Cons.prems(2) Inl charge_keeps_step [OF k] by (auto simp: on_db_def)
  next
    case (Inr gs)
    then show ?thesis using Cons.prems Cons.IH [OF Cons.prems(1)] by (auto split: prod.splits)
  qed
qed (simp add: charge_keeps_refl)

lemma release_stray_effect:
  assumes "parks_wf (fl_db w)"
  shows "charge_keeps cfg {} (fl_db w) (fl_db (release_stray io hg w)) \<and> dark_ports (release_stray io hg w) \<subseteq> dark_ports w"
proof -
  obtain h g where hg: "hg = (h, g)" by fastforce
  obtain r w1 where r: "ReleaseChargeGate (ci_stray io (h, ga_Devpath g)) h (ga_Devpath g) (reasonPrefix @ ''no device under this hold'') w = (r, w1)"
    by fastforce
  note q = Release_dark [OF r]
  show ?thesis using q assms keeps_runtimes [OF assms] charge_keeps_refl [OF assms]
    by (cases r) (auto simp: release_stray_def hg r write_gate_def on_db_def dark_ports_def)
qed

lemma strays_effect:
  assumes "parks_wf (fl_db w)"
  shows "charge_keeps cfg {} (fl_db w) (fl_db (fold (release_stray io) hgs w)) \<and> dark_ports (fold (release_stray io) hgs w) \<subseteq> dark_ports w"
  using assms
proof (induction hgs arbitrary: w)
  case (Cons hg hgs)
  note e = release_stray_effect [OF Cons.prems, of cfg io hg]
  note ih = Cons.IH [OF keeps_wf [OF conjunct1 [OF e]]]
  show ?case using ih e charge_keeps_step [OF conjunct1 [OF e]] by auto
qed (simp add: charge_keeps_refl)

lemma lead_cycle_effect:
  assumes wf: "parks_wf (fl_db w)" and act: "actor_ok cfg" and res: "lead_cycle io cfg hold peeks w = (w', peeks')"
  shows "charge_keeps cfg (set (map d_id (devices (fl_db w)))) (fl_db w) (fl_db w')"
    and "gates_answer io \<Longrightarrow> all_darkened cfg (group (scan (ci_now io) cfg (fl_db w)) (gangedSiblings (fl_db w))) w w'"
proof -
  define us where "us = group (scan (ci_now io) cfg (fl_db w)) (gangedSiblings (fl_db w))"
  let ?all = "set (map d_id (devices (fl_db w)))"
  obtain listed w1 where l: "(if cc_Gates cfg then listGates io (agentHosts io us (fl_db w)) w else ([], w)) = (listed, w1)" by fastforce
  obtain w2 m where f: "fold (charge_unit io cfg hold listed) us (w1, \<lparr>cm_peeks = peeks, cm_touched = []\<rparr>) = (w2, m)" by fastforce
  have step: "w' = w \<or> w' = fold (release_stray io) (strays listed (cm_touched m)) w2"
    using res unfolding lead_cycle_def Let_def us_def [symmetric] l prod.case f by (auto split: if_splits)
  have L: "charge_keeps cfg {} (fl_db w) (fl_db w1)" "dark_ports w1 = dark_ports w"
    using l listGates_effect [OF wf] charge_keeps_refl [OF wf] by (auto split: if_splits)
  note U = units_effect [OF keeps_wf [OF L(1)] act f]
  note S = strays_effect [OF keeps_wf [OF conjunct1 [OF U]], of cfg io "strays listed (cm_touched m)"]
  have "ids_of us \<subseteq> ?all" using scan_ids [of "ci_now io" cfg "fl_db w"] by (auto simp: ids_of_def us_def un_ids_def group_devices)
  then have "charge_keeps cfg ?all (fl_db w) (fl_db (fold (release_stray io) (strays listed (cm_touched m)) w2))"
    using charge_keeps_trans [OF charge_keeps_trans [OF L(1) conjunct1 [OF U]] conjunct1 [OF S]] by (auto elim: charge_keeps_mono)
  then show "charge_keeps cfg ?all (fl_db w) (fl_db w')" using step charge_keeps_refl [OF wf] by auto
  assume ans: "gates_answer io"
  have ap: "apart us" using group_apart [OF scan_inj] wf by (simp add: us_def parks_wf_def)
  have "\<forall>u\<in>set us. view_ok cfg (fl_db w1) u"
    using group_view [of _ "ci_now io" cfg "fl_db w"] view_kept(1) [OF L(1)] by (simp add: us_def)
  then have "all_darkened cfg us w1 w2" using U ans ap by blast
  moreover have "unit_out cfg (fl_db w2) u = unit_out cfg (fl_db (fold (release_stray io) (strays listed (cm_touched m)) w2)) u" for u
    using view_kept(2) [OF conjunct1 [OF S]] by simp
  ultimately have "all_darkened cfg us w (fold (release_stray io) (strays listed (cm_touched m)) w2)"
    using S L(2) by (fastforce simp: all_darkened_def)
  moreover have "all_darkened cfg us w w" by (simp add: all_darkened_def)
  ultimately show "all_darkened cfg us w w'" using step by blast
qed


text \<open>The heartbeat moves nothing the cycle reads.\<close>

lemma keeps_beat: "parks_wf db \<Longrightarrow> charge_keeps cfg {} db (snd (ComponentBeat k now c db))"
  using park_only_refl [of db, unfolded park_only_def]
  by (auto simp: ComponentBeat_def round_trip_def component_beat_def charge_keeps_def park_only_def parks_wf_def others_parks_def open_park_def
      split: link.split)

lemma lookups_heartbeats:
  "slot_of_device (db\<lparr>heartbeats := hb\<rparr>) = slot_of_device db" "host_by_id (db\<lparr>heartbeats := hb\<rparr>) = host_by_id db"
  "runtime_by_device (db\<lparr>heartbeats := hb\<rparr>) = runtime_by_device db" "open_park (db\<lparr>heartbeats := hb\<rparr>) = open_park db"
  by (simp_all add: fun_eq_iff open_park_def slot_of_device_def host_by_id_def runtime_by_device_def slot_by_id_def [abs_def])

lemma scan_heartbeats: "scan now cfg (db\<lparr>heartbeats := hb\<rparr>) = scan now cfg db" "gangedSiblings (db\<lparr>heartbeats := hb\<rparr>) = gangedSiblings db"
proof -
  have "scan_row now cfg (db\<lparr>heartbeats := hb\<rparr>) = scan_row now cfg db" by (rule ext) (simp add: scan_row_def lookups_heartbeats)
  then show "scan now cfg (db\<lparr>heartbeats := hb\<rparr>) = scan now cfg db" by (simp add: scan_def)
qed (simp add: gangedSiblings_def fun_eq_iff)

lemma scan_beat:
  "scan now cfg (snd (ComponentBeat k t c db)) = scan now cfg db" "gangedSiblings (snd (ComponentBeat k t c db)) = gangedSiblings db"
  by (simp_all add: ComponentBeat_def round_trip_def component_beat_def scan_heartbeats split: link.split)

lemma charge_cycle_effect:
  assumes wf: "parks_wf (fl_db w)" and act: "actor_ok cfg" and res: "charge_cycle io cfg hold st locks w = (w', st', locks')"
  shows "charge_keeps cfg (set (map d_id (devices (fl_db w)))) (fl_db w) (fl_db w')"
    and "gates_answer io \<Longrightarrow> all_darkened cfg (group (scan (ci_now io) cfg (fl_db w)) (gangedSiblings (fl_db w))) w w'"
proof -
  define w0 where "w0 = on_db (\<lambda>db. snd (ComponentBeat (ci_beat io) (ci_now io) (cc_Component cfg) db)) w"
  have k0: "charge_keeps cfg {} (fl_db w) (fl_db w0)" using keeps_beat [OF wf] by (simp add: w0_def on_db_def)
  have dk: "dark_ports w0 = dark_ports w" by (simp add: w0_def on_db_def)
  have ids: "set (map d_id (devices (fl_db w0))) = set (map d_id (devices (fl_db w)))"
    by (simp add: w0_def on_db_def ComponentBeat_def round_trip_def component_beat_def split: link.split)
  have "w' = w0 \<or> (\<exists>peeks'. lead_cycle io cfg hold (cs_peeks st) w0 = (w', peeks'))"
    using res unfolding charge_cycle_def w0_def [symmetric] Let_def by (auto split: prod.splits ensured.splits bool.splits)
  then have "charge_keeps cfg (set (map d_id (devices (fl_db w)))) (fl_db w) (fl_db w') \<and>
      (gates_answer io \<longrightarrow> all_darkened cfg (group (scan (ci_now io) cfg (fl_db w)) (gangedSiblings (fl_db w))) w w')"
  proof
    assume "w' = w0"
    then show ?thesis using k0 dk by (auto simp: all_darkened_def elim: charge_keeps_mono)
  next
    assume "\<exists>peeks'. lead_cycle io cfg hold (cs_peeks st) w0 = (w', peeks')"
    then obtain peeks' where "lead_cycle io cfg hold (cs_peeks st) w0 = (w', peeks')" by blast
    note e = lead_cycle_effect [OF keeps_wf [OF k0] act this, unfolded ids]
    have "scan (ci_now io) cfg (fl_db w0) = scan (ci_now io) cfg (fl_db w)" "gangedSiblings (fl_db w0) = gangedSiblings (fl_db w)"
      by (simp_all add: w0_def on_db_def scan_beat)
    then show ?thesis using charge_keeps_trans [OF k0 e(1)] e(2) dk by (simp add: all_darkened_def)
  qed
  then show "charge_keeps cfg (set (map d_id (devices (fl_db w)))) (fl_db w) (fl_db w')"
    and "gates_answer io \<Longrightarrow> all_darkened cfg (group (scan (ci_now io) cfg (fl_db w)) (gangedSiblings (fl_db w))) w w'" by blast+
qed

end
