(* ===== verification/Charge_Properties.thy ===== *)
theory Charge_Properties
  imports Charge_Correct Farm_Example
begin

text \<open>
  The properties of charge limiting: what a cycle of the policy may do to the farm and to the power of
  its ports, the band it works in, and the dead-man's switch of the agent.
\<close>

section \<open>A cycle\<close>

definition ex_policy :: charge_config where
  "ex_policy = charge_applyDefaults \<lparr>cc_Component = [], cc_Actor = [], cc_MinPct = 0, cc_MaxPct = 0, cc_Interval = 0,
     cc_PeekEvery = 0, cc_PeekFor = 0, cc_HumanCooldown = 0, cc_LockKey = 0, cc_Gates = True\<rparr>"

definition ex_hw :: hw_io where
  "ex_hw = \<lparr>hw_bin = None, hw_kernel = None,
     hw_hubs = Inr [\<lparr>hs_location = ''3-1'', hs_perPort = True, hs_children = [(4, ''3-1.4'')]\<rparr>],
     hw_names = [''3-1'', ''3-1.4'', ''3-1.4:1.0''], hw_present = True, hw_off = None, hw_gone = None, hw_on = None, hw_restore = None\<rparr>"

definition ex_gate_io :: "link \<Rightarrow> gate_io" where
  "ex_gate_io k = \<lparr>gi_resolve = Up, gi_link = k, gi_now = 100, gi_hw = ex_hw\<rparr>"

definition ex_charge_io :: "link \<Rightarrow> charge_io" where
  "ex_charge_io k = \<lparr>ci_now = 100, ci_clock = 100, ci_beat = Up, ci_ensure = \<lparr>io_probe = True, io_pool = Some 7, io_lock = Up\<rparr>,
     ci_scan = Up, ci_siblings = Up, ci_hosts = Up, ci_list = (\<lambda>_. ex_gate_io Up), ci_mark = (\<lambda>_. Up), ci_park = (\<lambda>_. Up),
     ci_undo = (\<lambda>_. Up), ci_unpark = (\<lambda>_. Up), ci_gate = (\<lambda>_. ex_gate_io k), ci_release = (\<lambda>_. ex_gate_io Up), ci_write = (\<lambda>_. Up),
     ci_stray = (\<lambda>_. ex_gate_io Up), ci_stray_write = (\<lambda>_. Up), ci_text = (\<lambda>_. ''unreachable'')\<rparr>"

text \<open>The handset of the example farm at 95 percent, and its host's agent with nothing held.\<close>

definition ex_full :: fleet where
  "ex_full = \<lparr>fl_db = ex_idle\<lparr>runtimes := [ex_runtime\<lparr>r_battery_pct := Some 95\<rparr>]\<rparr>, fl_agents = (\<lambda>_. new_gates ''rack-1'')\<rparr>"

definition ex_charged :: "link \<Rightarrow> fleet" where
  "ex_charged k = fst (charge_cycle (ex_charge_io k) ex_policy (4 * 60 * Second)
     \<lparr>cs_lead = replica 1, cs_peeks = Map.empty\<rparr> (\<lambda>_. None) ex_full)"

lemma ex_charged_run:
  obtains st' locks' where "charge_cycle (ex_charge_io k) ex_policy (4 * 60 * Second)
     \<lparr>cs_lead = replica 1, cs_peeks = Map.empty\<rparr> (\<lambda>_. None) ex_full = (ex_charged k, st', locks')"
  by (metis ex_charged_def prod.collapse)

lemma ex_policy_New: "charge_New \<lparr>cc_Component = [], cc_Actor = [], cc_MinPct = 0, cc_MaxPct = 0, cc_Interval = 0,
     cc_PeekEvery = 0, cc_PeekFor = 0, cc_HumanCooldown = 0, cc_LockKey = 0, cc_Gates = True\<rparr> = Some (ex_policy, 4 * 60 * Second)"
  unfolding ex_policy_def by code_simp

lemma ex_full_wf: "parks_wf (fl_db ex_full)" "lease_wf (fl_db ex_full)" "actor_ok ex_policy"
  by code_simp+

lemma ex_dark: "''3-1/4'' \<in> cg_dark (fl_agents (ex_charged Up) ''http://10.0.0.1:9700'')"
  "''3-1/4'' \<in> cg_dark (fl_agents (ex_charged LostAfter) ''http://10.0.0.1:9700'')"
  by code_simp+

lemma ex_parked: "map d_admin_state (devices (fl_db (ex_charged Up))) = [''parked'']"
  "map d_admin_state (devices (fl_db (ex_charged LostAfter))) = [''enabled'']"
  by code_simp+

text \<open>
C21: charge limiting never takes a phone from anybody. A whole cycle of the policy, on any links and with
whatever the agents answer, leaves the leases, jobs, fences, slots, hosts, recovery attempts and
quarantines as they were and of a device changes at most the administrative state, so it is a step the
lease invariant admits; and every park in the ledger that is not this loop's own is still there,
unchanged and in the same order.
\<close>

theorem charge_never_touches_a_lease:
  assumes "parks_wf (fl_db w)" and "lease_wf (fl_db w)" and "actor_ok cfg"
    and "charge_cycle io cfg hold st locks w = (w', st', locks')"
  shows "park_only (fl_db w) (fl_db w') \<and> farm_step EvOther (fl_db w) (fl_db w') \<and> others_parks cfg (fl_db w') = others_parks cfg (fl_db w)"
  using charge_cycle_effect(1) [OF assms(1,3,4)] park_only_registry [OF _ assms(2)] farm_step.other by (auto simp: charge_keeps_def)

theorem charge_never_touches_a_lease_witness:
  "park_only (fl_db ex_full) (fl_db (ex_charged Up)) \<and> others_parks ex_policy (fl_db (ex_charged Up)) = []"
proof -
  obtain st' locks' where run: "charge_cycle (ex_charge_io Up) ex_policy (4 * 60 * Second)
     \<lparr>cs_lead = replica 1, cs_peeks = Map.empty\<rparr> (\<lambda>_. None) ex_full = (ex_charged Up, st', locks')" by (rule ex_charged_run)
  have "others_parks ex_policy (fl_db ex_full) = []" by code_simp
  then show ?thesis using charge_never_touches_a_lease [OF ex_full_wf run] by simp
qed

text \<open>
C26: the ledger of parks is well-formed after every operation that writes it. Parking and unparking by
anybody, for any reason, and a whole cycle of the policy keep it so: ids are unique and below their
sequence, a device has at most one open park, an open park names a device of the farm, every row passes
the table's checks, and a device is in the administrative state parked exactly when it has an open park.
\<close>

theorem park_ledger_stays_well_formed:
  assumes "parks_wf (fl_db w)" and "actor_ok cfg"
  shows "(device_park now i actor reason auto' (fl_db w) = Inr (n, db1) \<longrightarrow> parks_wf db1) \<and>
    (device_unpark now i actor why auto' (fl_db w) = Inr (n, db2) \<longrightarrow> parks_wf db2) \<and>
    (charge_cycle io cfg hold st locks w = (w', st', locks') \<longrightarrow> parks_wf (fl_db w'))"
  using parks_wf_park [OF assms(1)] parks_wf_unpark [OF assms(1)] charge_cycle_effect(1) [OF assms] by (auto simp: charge_keeps_def)

definition ex_taken :: farm where
  "ex_taken = snd (projr (device_park 5 10 ''ann'' ''screen is cracked'' False (fl_db ex_full)))"

lemma ex_parks: "device_park 5 10 ''ann'' ''screen is cracked'' False (fl_db ex_full) = Inr (1, ex_taken)"
  "filter is_open (parks ex_taken) \<noteq> []"
  by code_simp+

theorem park_ledger_stays_well_formed_witness:
  "parks_wf ex_taken \<and> filter is_open (parks ex_taken) \<noteq> [] \<and> parks_wf (fl_db (ex_charged Up))"
proof -
  obtain st' locks' where run: "charge_cycle (ex_charge_io Up) ex_policy (4 * 60 * Second)
     \<lparr>cs_lead = replica 1, cs_peeks = Map.empty\<rparr> (\<lambda>_. None) ex_full = (ex_charged Up, st', locks')" by (rule ex_charged_run)
  from park_ledger_stays_well_formed [OF ex_full_wf(1,3)] show ?thesis using ex_parks run by blast
qed



text \<open>
a lost answer leaves a schedulable phone in the dark. When the agent takes the gate and its answer is
lost, the loop undoes the park it had opened: after the cycle the device is enabled, its park is closed and
its port has no power.
\<close>

theorem lost_answer_frees_a_dark_phone:
  "''3-1/4'' \<in> cg_dark (fl_agents (ex_charged LostAfter) ''http://10.0.0.1:9700'') \<and>
   map d_admin_state (devices (fl_db (ex_charged LostAfter))) = [''enabled''] \<and> \<not> ours_park ex_policy (fl_db (ex_charged LostAfter)) 10"
proof -
  have "\<not> ours_park ex_policy (fl_db (ex_charged LostAfter)) 10" by code_simp
  then show ?thesis using ex_dark(2) ex_parked(2) by blast
qed

section \<open>The band\<close>










definition ex_th :: thresholds where
  "ex_th = \<lparr>th_actor = ''chargepolicy'', th_min = 40, th_max = 80\<rparr>"

text \<open>The unit of a fleet's only handset, with a gate client.\<close>

definition ex_unit :: "fleet \<Rightarrow> cunit" where
  "ex_unit w = (hd (group (scan 100 ex_policy (fl_db w)) (gangedSiblings (fl_db w))))\<lparr>un_HasClient := True\<rparr>"


text \<open>
  A ganged unit whose readings span the band meets both rules: with one device above the ceiling and one
  at the floor it is gated when it is not held and released when it is.
\<close>

definition ex_wide :: "bool \<Rightarrow> cunit" where
  "ex_wide held = (let u = ex_unit ex_full; d = (hd (un_Devices u))\<lparr>cd_Parked := held, cd_ParkAuto := held, cd_ParkedBy := ''chargepolicy''\<rparr>
     in u\<lparr>un_Ganged := True, un_Devices := [d, d\<lparr>cd_ID := 11, cd_Battery := 40\<rparr>]\<rparr>)"

lemma wide_gang_alternates: "pn_verdict (decide (ex_wide False) ex_th) = VerdictGate" "pn_verdict (decide (ex_wide True) ex_th) = VerdictRelease"
  by code_simp+

section \<open>The dead-man's switch\<close>


definition ex_off :: gate_request where
  "ex_off = \<lparr>gr_HostID = ''rack-1'', gr_Devpath = ''usb:3-1.4'', gr_Power = ChargePowerOff, gr_Hold = 4 * 60 * Second,
     gr_Acknowledged = [], gr_Reason = ''charge policy: 95%''\<rparr>"

definition ex_held :: gates where
  "ex_held = snd (agent_SetChargeGate 100 ex_hw ex_off (new_gates ''rack-1''))"











text \<open>
  A release of everything that is not the end of the process drops a hold before the port has its power
  back: when that power-on fails, the port stays dark and nothing is left that would try again.
\<close>

lemma failed_release_strands_a_port:
  "''3-1/4'' \<in> cg_dark (releaseAll (\<lambda>_. ex_hw\<lparr>hw_on := Some (ToolFailed ''busy'')\<rparr>) (\<lambda>_. True) False ex_held)"
  "cg_held (releaseAll (\<lambda>_. ex_hw\<lparr>hw_on := Some (ToolFailed ''busy'')\<rparr>) (\<lambda>_. True) False ex_held) = []"
  "cg_flying (releaseAll (\<lambda>_. ex_hw\<lparr>hw_on := Some (ToolFailed ''busy'')\<rparr>) (\<lambda>_. True) False ex_held) = []"
  by code_simp+

end
