(* ===== verification/Janitor_Loop.thy ===== *)
theory Janitor_Loop
  imports Leadership Farm_System
begin

text \<open>
  \<^verbatim>\<open>internal/janitor/janitor.go\<close>: the sweeper of records whose process is gone. One definition per
  statement and per pass, and a whole cycle. A scan that fails closes nothing; a write asks its own
  question again. Within a cycle \<^verbatim>\<open>now()\<close> is read once. Counters and log lines are left out.
\<close>

section \<open>Configuration\<close>

record janitor_config =
  jc_Component :: string
  jc_Interval :: duration
  jc_Batch :: int
  jc_CallTimeout :: duration
  jc_Settle :: duration
  jc_VerdictWindow :: duration
  jc_VerdictInterval :: duration
  jc_RecoveryStale :: duration
  jc_LockKey :: int

definition janitor_applyDefaults :: "janitor_config \<Rightarrow> janitor_config" where
  "janitor_applyDefaults c =
     (let settle = or_default (60 * Second) (jc_Settle c);
          window = or_default (48 * 60 * 60 * Second) (jc_VerdictWindow c)
      in \<lparr>jc_Component = (if jc_Component c = [] then ''janitor'' else jc_Component c),
          jc_Interval = or_default (30 * Second) (jc_Interval c),
          jc_Batch = or_default 200 (jc_Batch c),
          jc_CallTimeout = or_default (15 * Second) (jc_CallTimeout c),
          jc_Settle = settle,
          jc_VerdictWindow = (if window \<le> settle then settle + 48 * 60 * 60 * Second else window),
          jc_VerdictInterval = or_default (5 * 60 * Second) (jc_VerdictInterval c),
          jc_RecoveryStale = or_default (900 * Second) (jc_RecoveryStale c),
          jc_LockKey = (if jc_LockKey c = 0 then 0x6661726d4a616e74 else jc_LockKey c)\<rparr>)"

definition janitor_New :: "int \<Rightarrow> janitor_config \<Rightarrow> janitor_config option" where
  "janitor_New maxConns cfg = (if maxConns < 2 then None else Some (janitor_applyDefaults cfg))"

text \<open>How the statements of one cycle fare, and the order an unordered scan comes in.\<close>

record janitor_io =
  ji_now :: timestamp
  ji_clock :: int
  ji_beat :: link
  ji_ensure :: ensure_io
  ji_scan_steps :: link
  ji_step :: "uuid \<times> int \<Rightarrow> link"
  ji_scan_attempts :: link
  ji_attempt :: "int \<Rightarrow> link"
  ji_jobs :: link
  ji_scan_success :: link
  ji_success :: "uuid \<Rightarrow> link"
  ji_success_order :: "uuid \<Rightarrow> nat"
  ji_bulk_targets :: link
  ji_bulk_runs :: link
  ji_recovery :: link
  ji_event :: "string \<times> uuid \<Rightarrow> link"
  ji_stale_text :: string

section \<open>Vocabulary\<close>

definition step_open :: "step_state \<Rightarrow> bool" where
  "step_open s \<longleftrightarrow> s = StepPending \<or> s = StepRunning"

text \<open>\<^verbatim>\<open>stepLiveGuard\<close>: no live lease of the job, that is also the attempt's when the attempt names one.\<close>

definition unprotected :: "farm \<Rightarrow> uuid \<Rightarrow> uuid option \<Rightarrow> bool" where
  "unprotected db job alease \<longleftrightarrow>
     \<not> list_ex (\<lambda>l. l_job l = job \<and> is_live l \<and> (case alease of None \<Rightarrow> True | Some i \<Rightarrow> l_id l = i)) (leases db)"

definition no_live_lease :: "farm \<Rightarrow> uuid \<Rightarrow> bool" where
  "no_live_lease db job \<longleftrightarrow> \<not> list_ex (\<lambda>l. l_job l = job \<and> is_live l) (leases db)"

definition job_attempt :: "farm \<Rightarrow> uuid \<Rightarrow> int \<Rightarrow> job_attempt_row option" where
  "job_attempt db job att = List.find (\<lambda>a. ja_job a = job \<and> ja_attempt a = att) (job_attempts db)"

text \<open>\<^verbatim>\<open>GREATEST\<close> passes over NULLs; an instant that is before every cutoff stands for no instant at all.\<close>

definition before_cutoff :: "timestamp option list \<Rightarrow> timestamp \<Rightarrow> bool" where
  "before_cutoff ts cutoff \<longleftrightarrow> list_all (\<lambda>t. case t of None \<Rightarrow> True | Some x \<Rightarrow> x < cutoff) ts"

definition append_error :: "string option \<Rightarrow> string \<Rightarrow> string option" where
  "append_error e msg = (case e of None \<Rightarrow> Some msg | Some t \<Rightarrow> if t = [] then Some msg else Some (t @ [CHR 0x0A] @ msg))"

definition long_dash :: string where
  "long_dash = [CHR 0xE2, CHR 0x80, CHR 0x94]"

definition leaseVerdict :: "uuid option \<Rightarrow> string \<Rightarrow> string \<Rightarrow> string" where
  "leaseVerdict leaseID state reason =
     (case leaseID of
        None \<Rightarrow> ''this attempt recorded no lease and its job holds no live lease''
      | Some i \<Rightarrow>
          if state = ''gone'' then ''its lease '' @ nat_str i @ '' no longer exists''
          else if reason = [] then ''its lease '' @ nat_str i @ '' is '' @ state
          else ''its lease '' @ nat_str i @ '' is '' @ state @ '' ('' @ reason @ '')'')"

text \<open>What the scans read of the lease an attempt names: its state and the reason it ended.\<close>

definition lease_facts :: "farm \<Rightarrow> uuid option \<Rightarrow> string \<times> string" where
  "lease_facts db alease =
     (case alease of
        None \<Rightarrow> ([], [])
      | Some i \<Rightarrow>
          (case lease_by_id db i of
             None \<Rightarrow> (''gone'', [])
           | Some l \<Rightarrow> (state_text (l_state l), case l_release_reason l of None \<Rightarrow> [] | Some r \<Rightarrow> r)))"

definition released_at :: "farm \<Rightarrow> uuid option \<Rightarrow> timestamp option" where
  "released_at db alease = Option.bind (Option.bind alease (lease_by_id db)) l_released_at"

text \<open>Distinct values in the order they are first met.\<close>

definition first_seen :: "'a list \<Rightarrow> 'a list" where
  "first_seen xs = rev (remdups (rev xs))"

definition sweep_event :: "janitor_io \<Rightarrow> janitor_config \<Rightarrow> string \<Rightarrow> uuid \<Rightarrow> jobject \<Rightarrow> farm \<Rightarrow> farm" where
  "sweep_event io cfg kind job detail db =
     (if ji_event io (kind, job) = LostBefore then db
      else append_event \<lparr>e_at = ji_now io, e_kind = kind, e_device = None, e_slot = None, e_lease = None, e_job = Some job,
             e_actor = Some (jc_Component cfg), e_detail = detail\<rparr> db)"

section \<open>Orphaned steps\<close>

record orphan_step =
  os_job :: uuid
  os_attempt :: int
  os_index :: int
  os_step :: string
  os_kind :: string
  os_lease :: "uuid option"
  os_state :: string
  os_reason :: string

definition step_orphaned :: "timestamp \<Rightarrow> duration \<Rightarrow> farm \<Rightarrow> step_row \<Rightarrow> bool" where
  "step_orphaned now settle db s \<longleftrightarrow>
     (let a = job_attempt db (st_job s) (st_attempt s); alease = Option.bind a ja_lease
      in step_open (st_state s) \<and> (st_started_at s \<noteq> None \<or> a \<noteq> None) \<and> unprotected db (st_job s) alease \<and>
         before_cutoff [st_started_at s, map_option ja_started_at a, released_at db alease] (now - intervalArg settle))"

definition stepScan :: "timestamp \<Rightarrow> duration \<Rightarrow> int \<Rightarrow> farm \<Rightarrow> orphan_step list" where
  "stepScan now settle batch db =
     map (\<lambda>s. let alease = Option.bind (job_attempt db (st_job s) (st_attempt s)) ja_lease
              in \<lparr>os_job = st_job s, os_attempt = st_attempt s, os_index = st_index s, os_step = st_id s, os_kind = st_kind s,
                  os_lease = alease, os_state = fst (lease_facts db alease), os_reason = snd (lease_facts db alease)\<rparr>)
       (order_limit (\<lambda>s. (st_job s, st_attempt s, st_index s)) (nat batch) (filter (step_orphaned now settle db) (job_steps db)))"

definition stepClose :: "timestamp \<Rightarrow> uuid \<Rightarrow> int \<Rightarrow> int list \<Rightarrow> string \<Rightarrow> jobject \<Rightarrow> uuid option \<Rightarrow> farm \<Rightarrow> nat \<times> farm" where
  "stepClose now job att idx msg detail alease db =
     (let hit = (\<lambda>s. st_job s = job \<and> st_attempt s = att \<and> st_index s \<in> set idx \<and> step_open (st_state s) \<and> unprotected db job alease)
      in (length (filter hit (job_steps db)),
          db\<lparr>job_steps := update_where hit (\<lambda>s. s\<lparr>st_state := StepAborted, st_finished_at := Some now,
               st_error := append_error (st_error s) msg, st_detail := jmerge (st_detail s) detail\<rparr>) (job_steps db)\<rparr>))"

definition step_message :: "janitor_config \<Rightarrow> string \<Rightarrow> string" where
  "step_message cfg why = ''aborted by the '' @ jc_Component cfg @ '' sweeper: no process can still be executing this step ''
     @ long_dash @ '' '' @ why @ '', so this attempt cannot be resumed. Its attempt is abandoned and the job ''
     @ ''is placed again if its max_attempts budget allows.''"

text \<open>One placement's abandoned steps, closed by one statement.\<close>

definition close_group :: "janitor_io \<Rightarrow> janitor_config \<Rightarrow> orphan_step list \<Rightarrow> uuid \<times> int \<Rightarrow> nat \<times> farm \<Rightarrow> nat \<times> farm" where
  "close_group io cfg rows k st =
     (let steps = filter (\<lambda>r. (os_job r, os_attempt r) = k) rows; head = hd steps;
          why = leaseVerdict (os_lease head) (os_state head) (os_reason head)
      in case round_trip (ji_step io k) (\<lambda>db. Inr (stepClose (ji_now io) (fst k) (snd k) (map os_index steps) (step_message cfg why)
                [(''swept_by'', JStr (jc_Component cfg)), (''orphan_cause'', JStr why), (''lease_state'', JStr (os_state head))]
                (os_lease head) db)) (snd st) of
           (Inl _, db') \<Rightarrow> (fst st, db')
         | (Inr n, db') \<Rightarrow> (fst st + n, db'))"

definition sweepSteps :: "janitor_io \<Rightarrow> janitor_config \<Rightarrow> farm \<Rightarrow> nat \<times> farm" where
  "sweepSteps io cfg db =
     (if ji_scan_steps io \<noteq> Up then (0, db)
      else (let rows = stepScan (ji_now io) (jc_Settle cfg) (jc_Batch cfg) db
            in fold (close_group io cfg rows) (first_seen (map (\<lambda>r. (os_job r, os_attempt r)) rows)) (0, db)))"

section \<open>Orphaned attempts\<close>

definition attempt_orphaned :: "timestamp \<Rightarrow> duration \<Rightarrow> farm \<Rightarrow> job_attempt_row \<Rightarrow> bool" where
  "attempt_orphaned now settle db a \<longleftrightarrow>
     ja_finished_at a = None \<and> unprotected db (ja_job a) (ja_lease a) \<and>
     before_cutoff [Some (ja_started_at a), released_at db (ja_lease a)] (now - intervalArg settle)"

definition attemptScan :: "timestamp \<Rightarrow> duration \<Rightarrow> int \<Rightarrow> farm \<Rightarrow> job_attempt_row list" where
  "attemptScan now settle batch db =
     order_limit ja_started_at (nat batch) (filter (attempt_orphaned now settle db) (job_attempts db))"

definition attemptClose :: "timestamp \<Rightarrow> int \<Rightarrow> string \<Rightarrow> farm \<Rightarrow> nat \<times> farm" where
  "attemptClose now i msg db =
     (let hit = (\<lambda>a. ja_id a = i \<and> ja_finished_at a = None \<and> unprotected db (ja_job a) (ja_lease a))
      in (length (filter hit (job_attempts db)),
          db\<lparr>job_attempts := update_where hit (\<lambda>a. a\<lparr>ja_finished_at := Some now, ja_outcome := Some ''abandoned'',
               ja_error := append_error (ja_error a) msg\<rparr>) (job_attempts db)\<rparr>))"

definition attempt_message :: "janitor_config \<Rightarrow> string \<Rightarrow> string" where
  "attempt_message cfg why = ''abandoned by the '' @ jc_Component cfg @ '' sweeper: the process that opened this attempt is gone ''
     @ long_dash @ '' '' @ why @ ''. Nothing about the job or the device is claimed by this outcome.''"

text \<open>One attempt of the scan; \<open>facts\<close> is what the scan read of its lease.\<close>

definition close_attempt :: "janitor_io \<Rightarrow> janitor_config \<Rightarrow> job_attempt_row \<times> string \<times> string \<Rightarrow> nat \<times> farm \<Rightarrow> nat \<times> farm" where
  "close_attempt io cfg row st =
     (case row of (a, state, reason) \<Rightarrow>
        (let why = leaseVerdict (ja_lease a) state reason
         in case round_trip (ji_attempt io (ja_id a)) (\<lambda>db. Inr (attemptClose (ji_now io) (ja_id a) (attempt_message cfg why) db)) (snd st) of
              (Inl _, db') \<Rightarrow> (fst st, db')
            | (Inr n, db') \<Rightarrow>
                if n = 0 then (fst st, db')
                else (fst st + 1, sweep_event io cfg ''job_attempt_abandoned'' (ja_job a)
                       [(''attempt'', JInt (ja_attempt a)), (''attempt_row'', JInt (ja_id a)), (''cause'', JStr why)] db')))"

definition sweepAttempts :: "janitor_io \<Rightarrow> janitor_config \<Rightarrow> farm \<Rightarrow> nat \<times> farm" where
  "sweepAttempts io cfg db =
     (if ji_scan_attempts io \<noteq> Up then (0, db)
      else fold (close_attempt io cfg)
             (map (\<lambda>a. (a, lease_facts db (ja_lease a))) (attemptScan (ji_now io) (jc_Settle cfg) (jc_Batch cfg) db)) (0, db))"

section \<open>Jobs left executing nothing\<close>

definition job_clock :: "job_row \<Rightarrow> timestamp" where
  "job_clock j = (case j_started_at j of None \<Rightarrow> j_created_at j | Some t \<Rightarrow> t)"

definition job_idle :: "timestamp \<Rightarrow> duration \<Rightarrow> farm \<Rightarrow> job_row \<Rightarrow> bool" where
  "job_idle now settle db j \<longleftrightarrow>
     j_state j = Running \<and> job_clock j < now - intervalArg settle \<and> no_live_lease db (j_id j) \<and>
     \<not> list_ex (\<lambda>s. st_job s = j_id j \<and> step_open (st_state s)) (job_steps db) \<and>
     \<not> list_ex (\<lambda>a. ja_job a = j_id j \<and> ja_finished_at a = None) (job_attempts db)"

definition move_job :: "timestamp \<Rightarrow> string \<Rightarrow> string \<Rightarrow> job_row \<Rightarrow> job_row" where
  "move_job now requeued failed j =
     (if j_attempt j < j_max_attempts j then j\<lparr>j_state := Queued, j_error := Some requeued\<rparr>
      else j\<lparr>j_state := Failed, j_error := Some failed, j_finished_at := Some now\<rparr>)"

text \<open>The statement and the rows it returns, as they are after it.\<close>

definition jobSweep :: "timestamp \<Rightarrow> duration \<Rightarrow> string \<Rightarrow> string \<Rightarrow> int \<Rightarrow> farm \<Rightarrow> job_row list \<times> farm" where
  "jobSweep now settle requeued failed batch db =
     (let ids = set (map j_id (order_limit job_clock (nat batch) (filter (job_idle now settle db) (jobs db))));
          hit = (\<lambda>j. j_id j \<in> ids \<and> j_state j = Running \<and> no_live_lease db (j_id j))
      in (map (move_job now requeued failed) (filter hit (jobs db)),
          db\<lparr>jobs := update_where hit (move_job now requeued failed) (jobs db)\<rparr>))"

definition requeue_message :: "janitor_config \<Rightarrow> string" where
  "requeue_message cfg = ''the placement running this job disappeared and its attempt was abandoned by the '' @ jc_Component cfg
     @ '' sweeper; the job is queued for another device.''"

definition exhausted_message :: "janitor_config \<Rightarrow> string" where
  "exhausted_message cfg = ''the placement running this job disappeared and its attempt was abandoned by the '' @ jc_Component cfg
     @ '' sweeper; max_attempts is exhausted, so there is no placement left to try.''"

definition job_state_text :: "job_state \<Rightarrow> string" where
  "job_state_text s = (case s of Queued \<Rightarrow> ''queued'' | Allocating \<Rightarrow> ''allocating'' | Running \<Rightarrow> ''running''
     | Succeeded \<Rightarrow> ''succeeded'' | Failed \<Rightarrow> ''failed'' | Cancelled \<Rightarrow> ''cancelled'')"

definition sweepJobs :: "janitor_io \<Rightarrow> janitor_config \<Rightarrow> farm \<Rightarrow> nat \<times> farm" where
  "sweepJobs io cfg db =
     (case round_trip (ji_jobs io)
             (\<lambda>db. Inr (jobSweep (ji_now io) (jc_Settle cfg) (requeue_message cfg) (exhausted_message cfg) (jc_Batch cfg) db)) db of
        (Inl _, db') \<Rightarrow> (0, db')
      | (Inr moved, db') \<Rightarrow>
          (length moved,
           fold (\<lambda>m. sweep_event io cfg (if j_state m = Failed then ''job_orphan_failed'' else ''job_orphan_requeued'') (j_id m)
                  [(''state'', JStr (job_state_text (j_state m))), (''attempt'', JInt (j_attempt m)), (''max_attempts'', JInt (j_max_attempts m))])
             moved db'))"

section \<open>Successes their own rows contradict\<close>

definition tolerated :: "jobject \<Rightarrow> bool" where
  "tolerated d \<longleftrightarrow> jget d ''tolerated'' = Some (JBool True) \<or> jget d ''tolerated'' = Some (JStr ''true'')"

definition stepBeliesSuccess :: "step_row \<Rightarrow> bool" where
  "stepBeliesSuccess s \<longleftrightarrow> st_state s = StepPending \<or> st_state s = StepRunning \<or> st_state s = StepAborted \<or>
     st_state s = StepFailed \<and> \<not> tolerated (st_detail s)"

definition specSteps :: "job_row \<Rightarrow> int" where
  "specSteps j = (case j_spec j of None \<Rightarrow> 0 | Some steps \<Rightarrow> int (length steps))"

definition successClock :: "job_row \<Rightarrow> timestamp" where
  "successClock j = (case j_finished_at j of Some t \<Rightarrow> t | None \<Rightarrow> job_clock j)"

text \<open>The step rows of an attempt at the indexes of a list of \<open>want\<close> steps.\<close>

definition rows_of :: "farm \<Rightarrow> uuid \<Rightarrow> int \<Rightarrow> int \<Rightarrow> step_row list" where
  "rows_of db job att want = filter (\<lambda>s. st_job s = job \<and> st_attempt s = att \<and> 0 \<le> st_index s \<and> st_index s < want) (job_steps db)"

definition first_step :: "(step_row \<Rightarrow> bool) \<Rightarrow> step_row list \<Rightarrow> string" where
  "first_step P rows = (case sort_key st_index (filter P rows) of [] \<Rightarrow> [] | s # _ \<Rightarrow> st_id s)"

record unevidenced =
  ue_JobID :: uuid
  ue_Attempt :: int
  ue_Want :: int
  ue_Have :: nat
  ue_Live :: nat
  ue_Bad :: nat
  ue_LiveStep :: string
  ue_BadStep :: string

definition count_rows :: "farm \<Rightarrow> job_row \<Rightarrow> unevidenced" where
  "count_rows db x =
     (let rows = rows_of db (j_id x) (j_attempt x) (specSteps x)
      in \<lparr>ue_JobID = j_id x, ue_Attempt = j_attempt x, ue_Want = specSteps x, ue_Have = length rows,
          ue_Live = length (filter (\<lambda>s. step_open (st_state s)) rows), ue_Bad = length (filter stepBeliesSuccess rows),
          ue_LiveStep = first_step (\<lambda>s. step_open (st_state s)) rows, ue_BadStep = first_step stepBeliesSuccess rows\<rparr>)"

definition has_attempt :: "farm \<Rightarrow> job_row \<Rightarrow> bool" where
  "has_attempt db x \<longleftrightarrow> list_ex (\<lambda>a. ja_job a = j_id x \<and> ja_attempt a = j_attempt x) (job_attempts db)"

text \<open>Whether the rows of a job's attempt account for every step of its spec.\<close>

definition rows_disagree :: "farm \<Rightarrow> job_row \<Rightarrow> bool" where
  "rows_disagree db x \<longleftrightarrow> ue_Bad (count_rows db x) > 0 \<or> int (ue_Have (count_rows db x)) < specSteps x"

definition successScan :: "(uuid \<Rightarrow> nat) \<Rightarrow> timestamp \<Rightarrow> duration \<Rightarrow> duration \<Rightarrow> int \<Rightarrow> farm \<Rightarrow> unevidenced list" where
  "successScan order now settle window batch db =
     map (count_rows db) (order_limit (order \<circ> j_id) (nat batch)
       (filter (\<lambda>x. j_state x = Succeeded \<and> successClock x < now - intervalArg settle \<and> successClock x > now - intervalArg window \<and>
          has_attempt db x \<and> no_live_lease db (j_id x) \<and> rows_disagree db x) (jobs db)))"

definition successClose :: "timestamp \<Rightarrow> uuid \<Rightarrow> string \<Rightarrow> farm \<Rightarrow> nat \<times> farm" where
  "successClose now i why db =
     (let hit = (\<lambda>j. j_id j = i \<and> j_state j = Succeeded \<and> has_attempt db j \<and> no_live_lease db (j_id j) \<and> rows_disagree db j)
      in (length (filter hit (jobs db)),
          db\<lparr>jobs := update_where hit (\<lambda>j. j\<lparr>j_state := Failed, j_error := append_error (j_error j) why,
               j_finished_at := (case j_finished_at j of None \<Rightarrow> Some now | Some t \<Rightarrow> Some t)\<rparr>) (jobs db)\<rparr>))"

definition unevidenced_why :: "unevidenced \<Rightarrow> string \<Rightarrow> string" where
  "unevidenced_why u component =
     (let what = (if ue_Live u > 0 then nat_str (ue_Live u) @ '' of its step row(s) still say 'pending' or 'running' ('' @ ue_LiveStep u @ '')''
                  else if ue_Bad u > 0 then nat_str (ue_Bad u) @ '' of its step row(s) record work that did not finish ('' @ ue_BadStep u @ '')''
                  else ''only '' @ nat_str (ue_Have u) @ '' of the spec's '' @ int_str (ue_Want u) @ '' step(s) left any record at all'')
      in ''this job was reported succeeded, but '' @ what @ '' for attempt '' @ int_str (ue_Attempt u) @ ''. The '' @ component
         @ '' sweeper cannot evidence that success, and a status that can be wrong is worse than one that is missing, ''
         @ ''so the job is recorded as failed. Its step rows are unchanged: read them for what actually happened.'')"

definition close_success :: "janitor_io \<Rightarrow> janitor_config \<Rightarrow> unevidenced \<Rightarrow> nat \<times> farm \<Rightarrow> nat \<times> farm" where
  "close_success io cfg u st =
     (let why = unevidenced_why u (jc_Component cfg)
      in case round_trip (ji_success io (ue_JobID u)) (\<lambda>db. Inr (successClose (ji_now io) (ue_JobID u) why db)) (snd st) of
           (Inl _, db') \<Rightarrow> (fst st, db')
         | (Inr n, db') \<Rightarrow>
             if n = 0 then (fst st, db')
             else (fst st + 1, sweep_event io cfg ''job_success_unevidenced'' (ue_JobID u)
                    [(''attempt'', JInt (ue_Attempt u)), (''spec_steps'', JInt (ue_Want u)), (''step_rows'', JInt (int (ue_Have u))),
                     (''live_rows'', JInt (int (ue_Live u))), (''contradicting_rows'', JInt (int (ue_Bad u))),
                     (''live_step'', JStr (ue_LiveStep u)), (''contradicting_step'', JStr (ue_BadStep u)), (''reason'', JStr why)] db'))"

definition sweepUnevidencedSuccess :: "janitor_io \<Rightarrow> janitor_config \<Rightarrow> farm \<Rightarrow> nat \<times> farm" where
  "sweepUnevidencedSuccess io cfg db =
     (if ji_scan_success io \<noteq> Up then (0, db)
      else fold (close_success io cfg)
             (successScan (ji_success_order io) (ji_now io) (jc_Settle cfg) (jc_VerdictWindow cfg) (jc_Batch cfg) db) (0, db))"

section \<open>Bulk execution and recovery attempts\<close>

definition bulk_open :: "bulk_target_row \<Rightarrow> bool" where
  "bulk_open t \<longleftrightarrow> bt_state t = ''pending'' \<or> bt_state t = ''running''"

text \<open>\<^verbatim>\<open>bulkMotionGuard\<close>: no target of the run is running inside its timeout, and none has finished inside one.\<close>

definition run_still :: "timestamp \<Rightarrow> farm \<Rightarrow> bulk_run_row \<Rightarrow> bool" where
  "run_still cutoff db r \<longleftrightarrow>
     \<not> list_ex (\<lambda>y. bt_run y = br_id r \<and> bt_state y = ''running'' \<and>
          (case bt_started_at y of None \<Rightarrow> True | Some t \<Rightarrow> t > cutoff - br_timeout r)) (bulk_targets db) \<and>
     \<not> list_ex (\<lambda>y. bt_run y = br_id r \<and> (case bt_finished_at y of None \<Rightarrow> False | Some t \<Rightarrow> t > cutoff - br_timeout r)) (bulk_targets db)"

definition target_dead :: "timestamp \<Rightarrow> farm \<Rightarrow> bulk_target_row \<Rightarrow> bool" where
  "target_dead cutoff db x \<longleftrightarrow> bulk_open x \<and>
     (case List.find (\<lambda>r. br_id r = bt_run x) (bulk_runs db) of
        None \<Rightarrow> False
      | Some r \<Rightarrow>
          br_state r \<noteq> ''running'' \<and> (case br_finished_at r of None \<Rightarrow> br_created_at r | Some t \<Rightarrow> t) < cutoff \<or>
          br_state r = ''running'' \<and> bt_state x = ''running'' \<and>
            (case bt_started_at x of None \<Rightarrow> False | Some t \<Rightarrow> t < cutoff - br_timeout r) \<or>
          br_state r = ''running'' \<and> bt_state x = ''pending'' \<and> br_created_at r < cutoff - br_timeout r \<and> run_still cutoff db r)"

definition bulkTargetSweep :: "timestamp \<Rightarrow> duration \<Rightarrow> string \<Rightarrow> int \<Rightarrow> farm \<Rightarrow> nat \<times> farm" where
  "bulkTargetSweep now settle msg batch db =
     (let keys = set (map (\<lambda>x. (bt_run x, bt_device x)) (order_limit (\<lambda>x. (bt_run x, bt_device x)) (nat batch)
                   (filter (target_dead (now - intervalArg settle) db) (bulk_targets db))));
          hit = (\<lambda>t. (bt_run t, bt_device t) \<in> keys \<and> bulk_open t)
      in (length (filter hit (bulk_targets db)),
          db\<lparr>bulk_targets := update_where hit (\<lambda>t. t\<lparr>bt_state := (if bt_state t = ''running'' then ''error'' else ''skipped''),
               bt_finished_at := Some now, bt_error := append_error (bt_error t) msg\<rparr>) (bulk_targets db)\<rparr>))"

definition run_over :: "timestamp \<Rightarrow> farm \<Rightarrow> bulk_run_row \<Rightarrow> bool" where
  "run_over cutoff db x \<longleftrightarrow> br_state x = ''running'' \<and> br_created_at x < cutoff \<and>
     \<not> list_ex (\<lambda>t. bt_run t = br_id x \<and> bulk_open t) (bulk_targets db) \<and>
     \<not> list_ex (\<lambda>t. bt_run t = br_id x \<and> (case bt_finished_at t of None \<Rightarrow> False | Some f \<Rightarrow> f > cutoff)) (bulk_targets db)"

definition bulkRunClose :: "timestamp \<Rightarrow> duration \<Rightarrow> int \<Rightarrow> farm \<Rightarrow> uuid list \<times> farm" where
  "bulkRunClose now settle batch db =
     (let ids = set (map br_id (order_limit br_created_at (nat batch) (filter (run_over (now - intervalArg settle) db) (bulk_runs db))));
          hit = (\<lambda>r. br_id r \<in> ids \<and> br_state r = ''running'')
      in (map br_id (filter hit (bulk_runs db)),
          db\<lparr>bulk_runs := update_where hit (\<lambda>r. r\<lparr>br_state := ''cancelled'', br_finished_at := Some now\<rparr>) (bulk_runs db)\<rparr>))"

definition bulk_message :: "janitor_config \<Rightarrow> string" where
  "bulk_message cfg = ''closed by the '' @ jc_Component cfg @ '' sweeper: the control-plane process executing this bulk run is gone, ''
     @ ''so no result will ever be recorded for this target.''"

text \<open>A pass that is one statement: what it closed, when the answer arrives.\<close>

definition one_statement :: "link \<Rightarrow> (farm \<Rightarrow> 'a \<times> farm) \<Rightarrow> ('a \<Rightarrow> nat) \<Rightarrow> farm \<Rightarrow> nat \<times> farm" where
  "one_statement k stmt size' db = (case round_trip k (\<lambda>db. Inr (stmt db)) db of (Inl _, db') \<Rightarrow> (0, db') | (Inr x, db') \<Rightarrow> (size' x, db'))"

definition sweepBulkTargets :: "janitor_io \<Rightarrow> janitor_config \<Rightarrow> farm \<Rightarrow> nat \<times> farm" where
  "sweepBulkTargets io cfg = one_statement (ji_bulk_targets io) (bulkTargetSweep (ji_now io) (jc_Settle cfg) (bulk_message cfg) (jc_Batch cfg)) (\<lambda>n. n)"

definition sweepBulkRuns :: "janitor_io \<Rightarrow> janitor_config \<Rightarrow> farm \<Rightarrow> nat \<times> farm" where
  "sweepBulkRuns io cfg = one_statement (ji_bulk_runs io) (bulkRunClose (ji_now io) (jc_Settle cfg) (jc_Batch cfg)) length"

definition recoverySweep :: "timestamp \<Rightarrow> duration \<Rightarrow> jobject \<Rightarrow> int \<Rightarrow> farm \<Rightarrow> nat \<times> farm" where
  "recoverySweep now stale detail batch db =
     (let ids = set (map a_id (order_limit a_started_at (nat batch)
                  (filter (\<lambda>x. a_finished_at x = None \<and> a_started_at x < now - intervalArg stale) (attempts db))));
          hit = (\<lambda>a. a_id a \<in> ids \<and> a_finished_at a = None)
      in (length (filter hit (attempts db)),
          db\<lparr>attempts := update_where hit (\<lambda>a. a\<lparr>a_finished_at := Some now, a_outcome := Some ''aborted'',
               a_detail := jmerge (a_detail a) detail\<rparr>) (attempts db)\<rparr>))"

definition sweepRecoveryAttempts :: "janitor_io \<Rightarrow> janitor_config \<Rightarrow> farm \<Rightarrow> nat \<times> farm" where
  "sweepRecoveryAttempts io cfg = one_statement (ji_recovery io) (recoverySweep (ji_now io) (jc_RecoveryStale cfg)
     [(''swept_by'', JStr (jc_Component cfg)),
      (''reason'', JStr (''no finish was recorded within '' @ ji_stale_text io @ '', so the process running this recovery is gone; the attempt is ''
         @ ''closed as aborted rather than left blocking the ladder on this device''))] (jc_Batch cfg)) (\<lambda>n. n)"

section \<open>A cycle\<close>

record janitor =
  jn_lead :: leadership
  jn_verdictDue :: "int option"

definition sweepUnevidencedSuccessIfDue :: "janitor_io \<Rightarrow> janitor_config \<Rightarrow> int option \<Rightarrow> farm \<Rightarrow> (nat \<times> farm) \<times> int option" where
  "sweepUnevidencedSuccessIfDue io cfg due db =
     (if (case due of None \<Rightarrow> False | Some t \<Rightarrow> ji_clock io < t) then ((0, db), due)
      else (sweepUnevidencedSuccess io cfg db, Some (ji_clock io + jc_VerdictInterval cfg)))"

definition sweep_pass :: "(farm \<Rightarrow> nat \<times> farm) \<Rightarrow> nat \<times> farm \<Rightarrow> nat \<times> farm" where
  "sweep_pass f st = (case f (snd st) of (n, db') \<Rightarrow> (fst st + n, db'))"

definition sweep_all :: "janitor_io \<Rightarrow> janitor_config \<Rightarrow> int option \<Rightarrow> farm \<Rightarrow> (nat \<times> farm) \<times> int option" where
  "sweep_all io cfg due db =
     (let st1 = sweep_pass (sweepJobs io cfg) (sweep_pass (sweepAttempts io cfg) (sweepSteps io cfg db));
          (r, due') = sweepUnevidencedSuccessIfDue io cfg due (snd st1);
          st2 = (fst st1 + fst r, snd r)
      in (sweep_pass (sweepRecoveryAttempts io cfg) (sweep_pass (sweepBulkRuns io cfg) (sweep_pass (sweepBulkTargets io cfg) st2)), due'))"

definition janitor_cycle :: "janitor_io \<Rightarrow> janitor_config \<Rightarrow> janitor \<Rightarrow> pg_locks \<Rightarrow> farm \<Rightarrow> nat \<times> janitor \<times> pg_locks \<times> farm" where
  "janitor_cycle io cfg j locks db0 =
     (let db = snd (ComponentBeat (ji_beat io) (ji_now io) (jc_Component cfg) db0) in
      case ensure (ji_ensure io) (jn_lead j) locks of
        (r, l', locks') \<Rightarrow>
          (case r of
             Ensured _ True \<Rightarrow>
               (case sweep_all io cfg (jn_verdictDue j) db of
                  ((n, db'), due') \<Rightarrow> (n, j\<lparr>jn_lead := l', jn_verdictDue := due'\<rparr>, locks', db'))
           | _ \<Rightarrow> (0, j\<lparr>jn_lead := l'\<rparr>, locks', db)))"

end
