(* ===== verification/Run_Plan.thy ===== *)
theory Run_Plan
  imports Janitor_Loop
begin

text \<open>
  \<^verbatim>\<open>internal/runner/checkpoint.go\<close>: the record of a placement's progress and the plan a process that
  picks the placement up makes from it. The digest of the step list is a parameter, \<open>sha256\<close>; step
  names are made of letters, digits and a few marks, so a quoted name is the name between quotes.
\<close>

section \<open>Placements\<close>

text \<open>As the supervisor hands it over, and as the runner uses it once it was checked.\<close>

record raw_placement =
  rp_JobID :: "uuid option"
  rp_LeaseID :: "uuid option"
  rp_Fence :: int
  rp_DeviceID :: "uuid option"
  rp_SlotID :: "int option"
  rp_Devpath :: string
  rp_Endpoint :: string

record placement =
  p_JobID :: uuid
  p_LeaseID :: "uuid option"
  p_Fence :: int
  p_DeviceID :: uuid
  p_SlotID :: "int option"
  p_Endpoint :: string

datatype placement_error = NoJobID | NoDeviceID | NoDevpath | NoFence

definition placement_validate :: "raw_placement \<Rightarrow> placement_error + placement" where
  "placement_validate p =
     (case rp_JobID p of
        None \<Rightarrow> Inl NoJobID
      | Some j \<Rightarrow>
          (case rp_DeviceID p of
             None \<Rightarrow> Inl NoDeviceID
           | Some d \<Rightarrow>
               if rp_Devpath p = [] then Inl NoDevpath
               else if rp_Fence p \<le> 0 then Inl NoFence
               else Inr \<lparr>p_JobID = j, p_LeaseID = rp_LeaseID p, p_Fence = rp_Fence p, p_DeviceID = d, p_SlotID = rp_SlotID p,
                         p_Endpoint = rp_Endpoint p\<rparr>))"

section \<open>Checkpoints\<close>

definition specHash :: "(string \<Rightarrow> string) \<Rightarrow> spec_step list \<Rightarrow> string" where
  "specHash sha256 steps =
     sha256 (concat (map (\<lambda>(i, st). nat_str i @ [CHR 0x00] @ ss_id st @ [CHR 0x00] @ ss_kind st @ [CHR 0x0A]) (zip [0..<length steps] steps)))"

definition newCheckpoint :: "(string \<Rightarrow> string) \<Rightarrow> int \<Rightarrow> placement \<Rightarrow> spec_step list \<Rightarrow> checkpoint" where
  "newCheckpoint sha256 attempt p steps =
     \<lparr>ck_Version = 1, ck_Attempt = attempt, ck_Fence = p_Fence p, ck_DeviceID = p_DeviceID p, ck_SpecHash = specHash sha256 steps,
      ck_LastIndex = - 1, ck_Completed = [], ck_InFlight = None\<rparr>"

definition belongsTo :: "checkpoint \<Rightarrow> placement \<Rightarrow> bool" where
  "belongsTo c p \<longleftrightarrow> ck_Version c = 1 \<and> ck_Attempt c > 0 \<and> ck_Fence c = p_Fence p \<and> ck_DeviceID c = p_DeviceID p"

definition markInFlight :: "int \<Rightarrow> spec_step \<Rightarrow> checkpoint \<Rightarrow> checkpoint" where
  "markInFlight i st c = c\<lparr>ck_InFlight := Some (i, ss_id st, ss_kind st), ck_LastIndex := i\<rparr>"

definition markDone :: "int \<Rightarrow> spec_step \<Rightarrow> checkpoint \<Rightarrow> checkpoint" where
  "markDone i st c =
     (if list_ex (\<lambda>d. fst d = i) (ck_Completed c) then c\<lparr>ck_InFlight := None, ck_LastIndex := i\<rparr>
      else c\<lparr>ck_Completed := ck_Completed c @ [(i, ss_id st)], ck_InFlight := None, ck_LastIndex := i\<rparr>)"

section \<open>The plan of a resumed attempt\<close>

type_synonym kind_map = "string \<rightharpoonup> bool \<times> bool"

definition stepIsIdempotent :: "spec_step \<Rightarrow> kind_map \<Rightarrow> bool" where
  "stepIsIdempotent st kinds \<longleftrightarrow> (case kinds (ss_kind st) of None \<Rightarrow> False | Some info \<Rightarrow> fst info)"

record run_plan =
  rp_skip :: "int list"
  rp_reattach :: "int list"
  rp_idem :: "bool list"
  rp_refusedIndex :: int

definition plan_idempotent :: "run_plan \<Rightarrow> nat \<Rightarrow> bool" where
  "plan_idempotent pl i \<longleftrightarrow> i < length (rp_idem pl) \<and> rp_idem pl ! i"

datatype resume_error =
    SpecChanged int                       \<comment> \<open>the attempt that recorded the progress\<close>
  | CompletedOutside int nat              \<comment> \<open>an index recorded complete, the length of the spec\<close>
  | CompletedRenamed string int string    \<comment> \<open>the name recorded, its index, the name in the spec\<close>
  | InFlightOutside int nat
  | InFlightRenamed string int string
  | NotRepeatable int string string       \<comment> \<open>the index, the name and the kind of the step in flight\<close>

definition quoted :: "string \<Rightarrow> string" where
  "quoted s = [CHR 0x22] @ s @ [CHR 0x22]"

fun resume_error_text :: "resume_error \<Rightarrow> string" where
  "resume_error_text (SpecChanged a) = ''runner: the job spec changed since attempt '' @ int_str a
     @ '' recorded its progress; refusing to resume into a different step list''"
| "resume_error_text (CompletedOutside i n) = ''runner: checkpoint records step '' @ int_str i @ '' as complete but the spec has ''
     @ nat_str n @ '' steps; refusing to resume''"
| "resume_error_text (CompletedRenamed was i got) = ''runner: checkpoint records '' @ quoted was @ '' as complete at index '' @ int_str i
     @ '' but the spec has '' @ quoted got @ '' there; refusing to resume''"
| "resume_error_text (InFlightOutside i n) = ''runner: checkpoint records step '' @ int_str i @ '' as in flight but the spec has ''
     @ nat_str n @ '' steps; refusing to resume''"
| "resume_error_text (InFlightRenamed was i got) = ''runner: checkpoint records '' @ quoted was @ '' as in flight at index '' @ int_str i
     @ '' but the spec has '' @ quoted got @ '' there; refusing to resume''"
| "resume_error_text (NotRepeatable i name kind) = ''runner: step '' @ int_str i @ '' ('' @ name @ '') of kind '' @ kind
     @ '' was interrupted and cannot be repeated safely (farm.step_kinds says it is not idempotent); refusing to run it a second time ''
     @ long_dash @ '' a job whose long work runs in a shell_detached step resumes here instead, because ''
     @ ''the device, not this process, owns that result''"

text \<open>The loop over the steps recorded complete: the first that does not fit the spec, or every index.\<close>

fun completed_skips :: "spec_step list \<Rightarrow> (int \<times> string) list \<Rightarrow> int list \<Rightarrow> int list \<times> resume_error option" where
  "completed_skips steps [] skip = (skip, None)"
| "completed_skips steps ((i, name) # ds) skip =
     (if i < 0 \<or> i \<ge> int (length steps) then (skip, Some (CompletedOutside i (length steps)))
      else if ss_id (steps ! nat i) \<noteq> name then (skip, Some (CompletedRenamed name i (ss_id (steps ! nat i))))
      else completed_skips steps ds (skip @ [i]))"

definition planResume :: "(string \<Rightarrow> string) \<Rightarrow> spec_step list \<Rightarrow> checkpoint \<Rightarrow> kind_map \<Rightarrow> bool \<Rightarrow> run_plan \<times> resume_error option" where
  "planResume sha256 steps ckpt kinds resuming =
     (let pl = \<lparr>rp_skip = [], rp_reattach = [], rp_idem = map (\<lambda>st. stepIsIdempotent st kinds) steps, rp_refusedIndex = - 1\<rparr> in
      if \<not> resuming then (pl, None)
      else if ck_SpecHash ckpt \<noteq> [] \<and> ck_SpecHash ckpt \<noteq> specHash sha256 steps then (pl, Some (SpecChanged (ck_Attempt ckpt)))
      else
        (case completed_skips steps (ck_Completed ckpt) [] of
           (skip, Some e) \<Rightarrow> (pl\<lparr>rp_skip := skip\<rparr>, Some e)
         | (skip, None) \<Rightarrow>
             (let pl' = pl\<lparr>rp_skip := skip\<rparr> in
              case ck_InFlight ckpt of
                None \<Rightarrow> (pl', None)
              | Some (i, name, kind) \<Rightarrow>
                  if i < 0 \<or> i \<ge> int (length steps) then (pl', Some (InFlightOutside i (length steps)))
                  else
                    (let st = steps ! nat i in
                     if ss_id st \<noteq> name then (pl'\<lparr>rp_refusedIndex := i\<rparr>, Some (InFlightRenamed name i (ss_id st)))
                     else if i \<in> set skip then (pl', None)
                     else if ss_kind st = ''shell_detached'' then (pl'\<lparr>rp_reattach := [i]\<rparr>, None)
                     else if plan_idempotent pl' (nat i) then (pl', None)
                     else (pl'\<lparr>rp_refusedIndex := i\<rparr>, Some (NotRepeatable i (ss_id st) (ss_kind st)))))))"

section \<open>Saving progress\<close>

text \<open>The statement, fenced: the rows it touched and the new table. The update instant inside the object is not kept.\<close>

definition checkpointWrite :: "placement \<Rightarrow> checkpoint \<Rightarrow> farm \<Rightarrow> nat \<times> farm" where
  "checkpointWrite p c db =
     (let hit = (\<lambda>j. j_id j = p_JobID p \<and> (case j_checkpoint j of None \<Rightarrow> 0 | Some old \<Rightarrow> ck_Fence old) \<le> p_Fence p)
      in (length (filter hit (jobs db)), db\<lparr>jobs := update_where hit (\<lambda>j. j\<lparr>j_checkpoint := Some c\<rparr>) (jobs db)\<rparr>))"

text \<open>A statement whose failure is logged and nothing else.\<close>

definition logged :: "link \<Rightarrow> (farm \<Rightarrow> 'a \<times> farm) \<Rightarrow> farm \<Rightarrow> farm" where
  "logged k stmt db = snd (round_trip k (\<lambda>db. Inr (stmt db)) db)"

definition saveCheckpoint :: "link \<Rightarrow> placement \<Rightarrow> checkpoint \<Rightarrow> farm \<Rightarrow> farm" where
  "saveCheckpoint k p c = logged k (checkpointWrite p c)"

end
