(* ===== verification/Run_Loop.thy ===== *)
theory Run_Loop
  imports Run_Plan Lease_Holder
begin

text \<open>
  \<^verbatim>\<open>internal/runner/runner.go\<close>: one placement of a job, from the load of its row to the write of its
  verdict. What a device answers to a step, how each statement fares, how the run's context stands and
  where the process dies are inputs, one record \<open>run_io\<close> per run. A process that dies between two
  statements is a process whose later statements are all lost, so only the deaths around the start of a
  step are spelled out. What the executors do on the device is not modelled: a step is a sequence of
  tries. \<^verbatim>\<open>jobspec.Parse\<close> is an input: it refuses the document, or the steps are the row's.
\<close>

section \<open>Configuration\<close>

record runner_config =
  rc_WorkRoot :: string
  rc_MaxOutput :: int
  rc_StepTimeout :: duration
  rc_RetryBase :: duration
  rc_RetryMax :: duration
  rc_PollInterval :: duration
  rc_CallTimeout :: duration

text \<open>Two passes over the cap of the back-off: an unset or nonsensical one, then one below a raised floor.\<close>

definition runner_applyDefaults :: "runner_config \<Rightarrow> runner_config" where
  "runner_applyDefaults c =
     (let base = or_default (1 * Second) (rc_RetryBase c);
          cap = (if rc_RetryMax c < base then 30 * Second else rc_RetryMax c)
      in \<lparr>rc_WorkRoot = (if rc_WorkRoot c = [] then ''/data/local/tmp/device-farmer'' else rc_WorkRoot c),
          rc_MaxOutput = or_default (64 * 1024) (rc_MaxOutput c),
          rc_StepTimeout = or_default (30 * 60 * Second) (rc_StepTimeout c),
          rc_RetryBase = base,
          rc_RetryMax = (if cap < base then base else cap),
          rc_PollInterval = or_default (5 * Second) (rc_PollInterval c),
          rc_CallTimeout = or_default (10 * Second) (rc_CallTimeout c)\<rparr>)"

definition runner_New :: "bool \<Rightarrow> runner_config \<Rightarrow> runner_config option" where
  "runner_New pool cfg = (if \<not> pool then None else Some (runner_applyDefaults cfg))"

definition runner_backoff :: "runner_config \<Rightarrow> (int \<Rightarrow> int) \<Rightarrow> int \<Rightarrow> duration" where
  "runner_backoff cfg rnd attempt =
     (let n = nat ((if attempt < 1 then 1 else attempt) - 1);
          d0 = backoff_window n (rc_RetryMax cfg) (rc_RetryBase cfg);
          d = (if d0 > rc_RetryMax cfg \<or> d0 \<le> 0 then rc_RetryMax cfg else d0);
          half = d div 2
      in if half \<le> 0 then d else half + rnd (half + 1))"

text \<open>The step's own budget, or the default; \<open>own\<close> is what the spec says of the step.\<close>

definition stepTimeout :: "runner_config \<Rightarrow> duration \<Rightarrow> duration" where
  "stepTimeout cfg own = (if own > 0 then own else rc_StepTimeout cfg)"

section \<open>Errors and retries\<close>

datatype run_err =
    NotRetryable string
  | StepTimeout
  | MaxRuntime
  | Fenced
  | Declared bool string     \<comment> \<open>an error with a \<open>Retryable()\<close> method, and its answer\<close>
  | Cancelled_by string      \<comment> \<open>the cause of a shutdown\<close>
  | Plain string

fun run_err_text :: "run_err \<Rightarrow> string" where
  "run_err_text (NotRetryable s) = ''runner: not retryable: '' @ s"
| "run_err_text StepTimeout = ''runner: step timeout elapsed''"
| "run_err_text MaxRuntime = ''runner: job max_runtime elapsed''"
| "run_err_text Fenced = ''lease: fenced''"
| "run_err_text (Declared b s) = s"
| "run_err_text (Cancelled_by s) = s"
| "run_err_text (Plain s) = s"

fun isRetryable :: "run_err \<Rightarrow> bool" where
  "isRetryable (NotRetryable s) = False"
| "isRetryable StepTimeout = False"
| "isRetryable MaxRuntime = False"
| "isRetryable Fenced = False"
| "isRetryable (Declared b s) = b"
| "isRetryable (Cancelled_by s) = True"
| "isRetryable (Plain s) = True"

record step_result =
  res_ExitCode :: "int option"
  res_Output :: string
  res_Failure :: string
  res_Detail :: jobject

datatype probe = ProbeFailed run_err | Found step_result | Absent

text \<open>
  One pass of the retry loop: what the search for an earlier start finds, what the executor returns,
  and the cause of the step's context when it has ended after the call or during the pause.
\<close>

record one_try =
  t_probe :: probe
  t_exec :: "step_result option \<times> run_err option"
  t_after :: "run_err option"
  t_pause :: "run_err option"

text \<open>The answer of a step: its result, the retries it took and its error.\<close>

type_synonym step_answer = "step_result option \<times> nat \<times> run_err option"

text \<open>
  The closure of \<^verbatim>\<open>runStep\<close>: whether the next pass still looks for an earlier start, the last result,
  the error, and how often the executor was called.
\<close>

definition try_once :: "bool \<Rightarrow> one_try \<Rightarrow> step_result option \<Rightarrow> nat \<Rightarrow> bool \<times> step_result option \<times> run_err option \<times> nat" where
  "try_once reattach t latest starts =
     (let exec = (False, fst (t_exec t), snd (t_exec t), starts + 1) in
      if \<not> reattach then exec
      else (case t_probe t of
              ProbeFailed e \<Rightarrow> (True, latest, Some e, starts)
            | Found r \<Rightarrow> (True, Some r, None, starts)
            | Absent \<Rightarrow> exec))"

text \<open>\<^verbatim>\<open>runStep\<close> over \<^verbatim>\<open>retry\<close>. No answer means the loop was still going when the passes ran out.\<close>

fun runStep :: "bool \<Rightarrow> one_try list \<Rightarrow> nat \<Rightarrow> step_result option \<Rightarrow> nat \<Rightarrow> nat \<times> step_answer option" where
  "runStep reattach [] retries latest starts = (starts, None)"
| "runStep reattach (t # ts) retries latest starts =
     (case try_once reattach t latest starts of
        (reattach', latest', err, starts') \<Rightarrow>
          (case err of
             None \<Rightarrow> (starts', Some (latest', retries, None))
           | Some e \<Rightarrow>
               (case t_after t of
                  Some c \<Rightarrow> (starts', Some (latest', retries, Some c))
                | None \<Rightarrow>
                    if \<not> isRetryable e then (starts', Some (latest', retries, Some e))
                    else (case t_pause t of
                            Some c \<Rightarrow> (starts', Some (latest', retries + 1, Some c))
                          | None \<Rightarrow> runStep reattach' ts (retries + 1) latest' starts'))))"

section \<open>Bookkeeping\<close>

definition checkKindsAgainstSchema :: "spec_step list \<Rightarrow> kind_map \<Rightarrow> string option" where
  "checkKindsAgainstSchema steps kinds =
     (case List.find (\<lambda>(i, st). kinds (ss_kind st) = None) (zip [0..<length steps] steps) of
        None \<Rightarrow> None
      | Some (i, st) \<Rightarrow> Some (''runner: step '' @ nat_str i @ '' ('' @ ss_id st @ '') has kind '' @ quoted (ss_kind st)
          @ '', which is not in farm.step_kinds''))"

definition kinds_of :: "farm \<Rightarrow> kind_map" where
  "kinds_of db = map_of (map (\<lambda>k. (sk_kind k, (sk_idempotent k, sk_needs_artifact k))) (step_kinds db))"

datatype run_error =
    BadPlacement placement_error | NoJob | AlreadyEnded job_state | NoKinds | DbFailed string

definition loadJob :: "link \<Rightarrow> uuid \<Rightarrow> farm \<Rightarrow> run_error + job_row" where
  "loadJob k i db =
     (if k \<noteq> Up then Inl (DbFailed ''load job'')
      else case List.find (\<lambda>j. j_id j = i) (jobs db) of None \<Rightarrow> Inl NoJob | Some j \<Rightarrow> Inr j)"

text \<open>What Postgres computes of \<^verbatim>\<open>max_runtime\<close>: what is left of it, when there is one.\<close>

definition remaining :: "timestamp \<Rightarrow> job_row \<Rightarrow> interval option" where
  "remaining now j = map_option (\<lambda>m. m - (now - (case j_started_at j of None \<Rightarrow> now | Some t \<Rightarrow> t))) (j_max_runtime j)"

definition loadKinds :: "link \<Rightarrow> farm \<Rightarrow> run_error + kind_map" where
  "loadKinds k db =
     (if k \<noteq> Up then Inl (DbFailed ''load step kinds'') else if step_kinds db = [] then Inl NoKinds else Inr (kinds_of db))"

definition claim_stmt :: "uuid \<Rightarrow> farm \<Rightarrow> sql_error + int option \<times> farm" where
  "claim_stmt i db =
     Inr (map_option (\<lambda>j. j_attempt j + 1) (List.find (\<lambda>j. j_id j = i) (jobs db)),
          db\<lparr>jobs := update_where (\<lambda>j. j_id j = i) (\<lambda>j. j\<lparr>j_attempt := j_attempt j + 1\<rparr>) (jobs db)\<rparr>)"

definition claimAttempt :: "link \<Rightarrow> uuid \<Rightarrow> farm \<Rightarrow> (run_error + int) \<times> farm" where
  "claimAttempt k i db =
     (case round_trip k (claim_stmt i) db of
        (Inr (Some n), db') \<Rightarrow> (Inr n, db')
      | (_, db') \<Rightarrow> (Inl (DbFailed ''claim attempt''), db'))"

definition attemptUpsert :: "timestamp \<Rightarrow> placement \<Rightarrow> int \<Rightarrow> farm \<Rightarrow> int \<times> farm" where
  "attemptUpsert now p att db =
     (case List.find (\<lambda>a. ja_job a = p_JobID p \<and> ja_attempt a = att) (job_attempts db) of
        Some a \<Rightarrow>
          (ja_id a, db\<lparr>job_attempts := update_where (\<lambda>a. ja_job a = p_JobID p \<and> ja_attempt a = att)
             (\<lambda>a. a\<lparr>ja_device := Some (p_DeviceID p), ja_lease := p_LeaseID p, ja_fence := Some (p_Fence p),
                ja_finished_at := None, ja_outcome := None, ja_error := None\<rparr>) (job_attempts db)\<rparr>)
      | None \<Rightarrow>
          (job_attempt_seq db + 1,
           db\<lparr>job_attempts := job_attempts db @ [\<lparr>ja_id = job_attempt_seq db + 1, ja_job = p_JobID p, ja_attempt = att,
                ja_device = Some (p_DeviceID p), ja_lease = p_LeaseID p, ja_fence = Some (p_Fence p), ja_started_at = now,
                ja_finished_at = None, ja_outcome = None, ja_error = None\<rparr>],
              job_attempt_seq := job_attempt_seq db + 1\<rparr>))"

definition openAttempt :: "link \<Rightarrow> timestamp \<Rightarrow> placement \<Rightarrow> int \<Rightarrow> farm \<Rightarrow> (run_error + int) \<times> farm" where
  "openAttempt k now p att db =
     (case round_trip k (\<lambda>db. Inr (attemptUpsert now p att db)) db of
        (Inr i, db') \<Rightarrow> (Inr i, db')
      | (Inl _, db') \<Rightarrow> (Inl (DbFailed ''open attempt''), db'))"

datatype verdict = StateSucceeded | StateFailed | StateCancelled | StateAbandoned

definition verdict_text :: "verdict \<Rightarrow> string" where
  "verdict_text v = (case v of StateSucceeded \<Rightarrow> ''succeeded'' | StateFailed \<Rightarrow> ''failed''
     | StateCancelled \<Rightarrow> ''cancelled'' | StateAbandoned \<Rightarrow> ''abandoned'')"

definition closeAttempt :: "link \<Rightarrow> timestamp \<Rightarrow> int \<Rightarrow> verdict \<Rightarrow> string \<Rightarrow> farm \<Rightarrow> farm" where
  "closeAttempt k now i v err = logged k (\<lambda>db. ((), db\<lparr>job_attempts := update_where (\<lambda>a. ja_id a = i)
     (\<lambda>a. a\<lparr>ja_finished_at := Some now, ja_outcome := Some (verdict_text v), ja_error := nullif_empty err\<rparr>) (job_attempts db)\<rparr>))"

text \<open>\<^verbatim>\<open>INSERT ... ON CONFLICT (job_id, attempt, step_index) DO UPDATE\<close>.\<close>

definition at_step :: "placement \<Rightarrow> int \<Rightarrow> int \<Rightarrow> step_row \<Rightarrow> bool" where
  "at_step p att i s \<longleftrightarrow> st_job s = p_JobID p \<and> st_attempt s = att \<and> st_index s = i"

definition upsert_step :: "placement \<Rightarrow> int \<Rightarrow> int \<Rightarrow> step_row \<Rightarrow> (step_row \<Rightarrow> step_row) \<Rightarrow> farm \<Rightarrow> farm" where
  "upsert_step p att i new upd db =
     db\<lparr>job_steps := (if list_ex (at_step p att i) (job_steps db) then update_where (at_step p att i) upd (job_steps db)
                      else job_steps db @ [new])\<rparr>"

definition recordStepStart :: "link \<Rightarrow> timestamp \<Rightarrow> placement \<Rightarrow> int \<Rightarrow> int \<Rightarrow> spec_step \<Rightarrow> farm \<Rightarrow> farm" where
  "recordStepStart k now p att i st =
     (let new = \<lparr>st_job = p_JobID p, st_attempt = att, st_index = i, st_id = ss_id st, st_kind = ss_kind st, st_state = StepRunning,
            st_started_at = Some now, st_finished_at = None, st_exit_code = None, st_output = None, st_error = None, st_detail = ss_detail st\<rparr>
      in logged k (\<lambda>db. ((), upsert_step p att i new (\<lambda>s. new) db)))"

text \<open>The keys of the step's payload are added where the detail does not have them.\<close>

definition with_payload :: "spec_step \<Rightarrow> jobject \<Rightarrow> jobject" where
  "with_payload st d = d @ filter (\<lambda>(k, v). jget d k = None) (ss_detail st)"

definition recordStep ::
  "link \<Rightarrow> timestamp \<Rightarrow> placement \<Rightarrow> int \<Rightarrow> int \<Rightarrow> spec_step \<Rightarrow> step_state \<Rightarrow> int option \<Rightarrow> string option \<Rightarrow> string \<Rightarrow> jobject \<Rightarrow> farm \<Rightarrow> farm" where
  "recordStep k now p att i st state exit output err detail =
     (let d = with_payload st detail;
          new = \<lparr>st_job = p_JobID p, st_attempt = att, st_index = i, st_id = ss_id st, st_kind = ss_kind st, st_state = state,
            st_started_at = Some now, st_finished_at = Some now, st_exit_code = exit, st_output = output, st_error = nullif_empty err, st_detail = d\<rparr>
      in logged k (\<lambda>db. ((), upsert_step p att i new
           (\<lambda>s. new\<lparr>st_started_at := (case st_started_at s of None \<Rightarrow> Some now | Some t \<Rightarrow> Some t), st_detail := jmerge (st_detail s) d\<rparr>) db)))"

datatype stepEnding = EndedByFailure | EndedByStop | EndedByRefusal

definition ending_text :: "stepEnding \<Rightarrow> string" where
  "ending_text how = (case how of EndedByFailure \<Rightarrow> ''failed and ended the attempt''
     | EndedByStop \<Rightarrow> ''was stopped mid-run and ended the attempt''
     | EndedByRefusal \<Rightarrow> ''could not be resumed safely and ended the attempt'')"

record skippedRow =
  sr_Index :: int
  sr_ID :: string
  sr_Kind :: string
  sr_Detail :: jobject

definition skippedAfter :: "spec_step list \<Rightarrow> int \<Rightarrow> stepEnding \<Rightarrow> skippedRow list" where
  "skippedAfter steps ended how =
     (if ended < 0 \<or> ended + 1 \<ge> int (length steps) then []
      else (let cause = steps ! nat ended;
                reason = ''not run: step '' @ int_str ended @ '' ('' @ ss_id cause @ ''/'' @ ss_kind cause @ '') '' @ ending_text how
            in map (\<lambda>i. let st = steps ! i in
                 \<lparr>sr_Index = int i, sr_ID = ss_id st, sr_Kind = ss_kind st,
                  sr_Detail = jmerge (ss_detail st) [(''reason'', JStr reason), (''failed_step'', JStr (ss_id cause)), (''failed_step_index'', JInt ended)]\<rparr>)
                 [nat ended + 1..<length steps]))"

definition skipped_row :: "timestamp \<Rightarrow> placement \<Rightarrow> int \<Rightarrow> skippedRow \<Rightarrow> step_row" where
  "skipped_row now p att r =
     \<lparr>st_job = p_JobID p, st_attempt = att, st_index = sr_Index r, st_id = sr_ID r, st_kind = sr_Kind r, st_state = StepSkipped,
      st_started_at = None, st_finished_at = Some now, st_exit_code = None, st_output = None, st_error = None, st_detail = sr_Detail r\<rparr>"

definition recordSkipped :: "link \<Rightarrow> timestamp \<Rightarrow> placement \<Rightarrow> int \<Rightarrow> spec_step list \<Rightarrow> int \<Rightarrow> stepEnding \<Rightarrow> farm \<Rightarrow> farm" where
  "recordSkipped k now p att steps ended how db =
     (let rows = skippedAfter steps ended how in
      if rows = [] then db
      else logged k (\<lambda>db. ((), fold (\<lambda>r. upsert_step p att (sr_Index r) (skipped_row now p att r) (\<lambda>_. skipped_row now p att r)) rows db)) db)"

definition runner_event :: "link \<Rightarrow> timestamp \<Rightarrow> placement \<Rightarrow> string \<Rightarrow> jobject \<Rightarrow> farm \<Rightarrow> farm" where
  "runner_event k now p kind detail = logged k (\<lambda>db. ((), append_event \<lparr>e_at = now, e_kind = kind, e_device = Some (p_DeviceID p),
     e_slot = p_SlotID p, e_lease = p_LeaseID p, e_job = Some (p_JobID p), e_actor = Some ''runner'', e_detail = detail\<rparr> db))"

text \<open>The guard both writes to the job carry: not over yet, and a live lease of the job with this fence.\<close>

definition job_over :: "job_state \<Rightarrow> bool" where
  "job_over s \<longleftrightarrow> s = Succeeded \<or> s = Failed \<or> s = Cancelled"

definition may_write_job :: "placement \<Rightarrow> farm \<Rightarrow> job_row \<Rightarrow> bool" where
  "may_write_job p db j \<longleftrightarrow> j_id j = p_JobID p \<and> \<not> job_over (j_state j) \<and>
     list_ex (\<lambda>l. l_job l = j_id j \<and> l_fence l = p_Fence p \<and> is_live l) (leases db)"

definition writeJobState :: "link \<Rightarrow> timestamp \<Rightarrow> placement \<Rightarrow> job_state \<Rightarrow> string \<Rightarrow> bool \<Rightarrow> farm \<Rightarrow> farm" where
  "writeJobState k now p state err finish = logged k (\<lambda>db. ((), db\<lparr>jobs := update_where (may_write_job p db)
     (\<lambda>j. j\<lparr>j_state := state, j_error := nullif_empty err, j_finished_at := (if finish then Some now else None)\<rparr>) (jobs db)\<rparr>))"

definition noteJobError :: "link \<Rightarrow> placement \<Rightarrow> string \<Rightarrow> farm \<Rightarrow> farm" where
  "noteJobError k p text = logged k (\<lambda>db. ((), db\<lparr>jobs := update_where (may_write_job p db) (\<lambda>j. j\<lparr>j_error := Some text\<rparr>) (jobs db)\<rparr>))"

section \<open>Whether the rows support a success\<close>

record agreement =
  ag_live :: nat
  ag_liveStep :: string
  ag_belies :: nat
  ag_beliesStep :: string
  ag_have :: nat

definition agreementRead :: "placement \<Rightarrow> int \<Rightarrow> int \<Rightarrow> farm \<Rightarrow> agreement" where
  "agreementRead p att want db =
     (let rows = rows_of db (p_JobID p) att want in
      \<lparr>ag_live = length (filter (\<lambda>s. step_open (st_state s)) rows), ag_liveStep = first_step (\<lambda>s. step_open (st_state s)) rows,
       ag_belies = length (filter stepBeliesSuccess rows), ag_beliesStep = first_step stepBeliesSuccess rows, ag_have = length rows\<rparr>)"

text \<open>Three reads at most, the later two only while the process is not stopping. The driver's text is left out of the sentence. \<open>n\<close> counts what is left.\<close>

fun agreement_tries :: "(nat \<Rightarrow> link) \<Rightarrow> (nat \<Rightarrow> bool) \<Rightarrow> nat \<Rightarrow> nat \<Rightarrow> agreement \<Rightarrow> agreement option" where
  "agreement_tries ks stopping t 0 a = None"
| "agreement_tries ks stopping t (Suc n) a =
     (if ks t = Up then Some a else if stopping t then None else agreement_tries ks stopping (t + 1) n a)"

definition attemptStepsAgree :: "(nat \<Rightarrow> link) \<Rightarrow> (nat \<Rightarrow> bool) \<Rightarrow> placement \<Rightarrow> int \<Rightarrow> int \<Rightarrow> farm \<Rightarrow> string" where
  "attemptStepsAgree ks stopping p att want db =
     (case agreement_tries ks stopping 1 3 (agreementRead p att want db) of
        None \<Rightarrow> ''the step rows of attempt '' @ int_str att @ '' could not be read, so nothing here can say the whole spec ran''
      | Some a \<Rightarrow>
          if ag_live a > 0 then nat_str (ag_live a) @ '' step row(s) of attempt '' @ int_str att @ '' still say 'pending' or 'running' (''
            @ ag_liveStep a @ ''); a job has not succeeded while a step of it is still recorded as executing''
          else if ag_belies a > 0 then nat_str (ag_belies a) @ '' step row(s) of attempt '' @ int_str att @ '' record work that did not finish (''
            @ ag_beliesStep a @ ''); this attempt ran to the end, so those rows are from an earlier run of it that was never overwritten''
          else if int (ag_have a) < want then ''attempt '' @ int_str att @ '' recorded a verdict for '' @ nat_str (ag_have a) @ '' of the spec's ''
            @ int_str want @ '' step(s); '' @ int_str (want - int (ag_have a)) @ '' step(s) left no record of what happened to them''
          else [])"

section \<open>The steps of one placement\<close>

text \<open>Where a process may die around a step: before anything of it, or with its start recorded and the step not begun.\<close>

datatype kill = KillBefore | KillStarting

text \<open>
  Everything a run meets: the statements, by the step they are about where there is one; the passes of
  each step; the run's context after a step (\<open>ri_abort\<close>, at the length of the spec after the last one) and
  what the holder says then; deaths; and what other processes do to the database before each step
  (\<open>ri_world\<close>) and after the loop.
\<close>

record run_io =
  ri_now :: timestamp
  ri_load :: link
  ri_kinds :: link
  ri_parse_error :: "string option"
  ri_claim :: link
  ri_open :: link
  ri_event :: "string \<Rightarrow> link"
  ri_close :: link
  ri_state :: link
  ri_note :: link
  ri_agree :: "nat \<Rightarrow> link"
  ri_stopping :: "nat \<Rightarrow> bool"
  ri_work_dir :: string
  ri_work_root :: string
  ri_prepare :: "one_try list"
  ri_prepare_abort :: "run_err option"
  ri_prepare_fenced :: bool
  ri_refused :: link
  ri_skips :: link
  ri_mark :: "nat \<Rightarrow> link"
  ri_start :: "nat \<Rightarrow> link"
  ri_end :: "nat \<Rightarrow> link"
  ri_done :: "nat \<Rightarrow> link"
  ri_tries :: "nat \<Rightarrow> one_try list"
  ri_abort :: "nat \<Rightarrow> run_err option"
  ri_fenced :: "nat \<Rightarrow> bool"
  ri_kill :: "nat \<Rightarrow> kill option"
  ri_world :: "nat \<Rightarrow> farm \<Rightarrow> farm"
  ri_world_after :: "farm \<Rightarrow> farm"

text \<open>The database, the checkpoint in memory, the steps begun on the device and the two counters of the outcome.\<close>

record run_state =
  rs_db :: farm
  rs_ckpt :: checkpoint
  rs_begun :: "int list"
  rs_steps :: nat
  rs_skipped :: nat

text \<open>How the loop ended: the part of the outcome it decides, and whether another device would fail the same way.\<close>

record run_end =
  re_State :: verdict
  re_Error :: string
  re_Fenced :: bool
  re_ReleaseReason :: string
  re_permanent :: bool

definition classifyAbort :: "bool \<Rightarrow> run_err \<Rightarrow> string \<Rightarrow> run_end" where
  "classifyAbort fenced cause where' =
     (if fenced \<or> cause = Fenced then
        \<lparr>re_State = StateAbandoned, re_Error = ''lease fenced during '' @ where', re_Fenced = True, re_ReleaseReason = [], re_permanent = False\<rparr>
      else if cause = MaxRuntime then
        \<lparr>re_State = StateFailed, re_Error = ''job max_runtime elapsed during '' @ where', re_Fenced = False, re_ReleaseReason = ''max_runtime'',
         re_permanent = True\<rparr>
      else
        \<lparr>re_State = StateAbandoned, re_Error = ''run stopped during '' @ where' @ '': '' @ run_err_text cause, re_Fenced = False,
         re_ReleaseReason = [], re_permanent = False\<rparr>)"

definition failed_end :: "string \<Rightarrow> bool \<Rightarrow> run_end" where
  "failed_end err permanent = \<lparr>re_State = StateFailed, re_Error = err, re_Fenced = False, re_ReleaseReason = ''failed'', re_permanent = permanent\<rparr>"

definition exitOf :: "step_result option \<Rightarrow> int option" where
  "exitOf r = Option.bind r res_ExitCode"

definition outputOf :: "step_result option \<Rightarrow> string option" where
  "outputOf r = Option.bind r (\<lambda>x. nullif_empty (res_Output x))"

definition step_detail_of :: "nat \<Rightarrow> bool \<Rightarrow> step_result option \<Rightarrow> jobject" where
  "step_detail_of retries reattached r =
     jmerge ((''transport_retries'', JInt (int retries)) # (if reattached then [(''reattached'', JBool True)] else []))
       (case r of None \<Rightarrow> [] | Some x \<Rightarrow> res_Detail x)"

text \<open>A write, and a checkpoint that replaces the one in memory and goes to the database.\<close>

definition writing :: "(farm \<Rightarrow> farm) \<Rightarrow> run_state \<Rightarrow> run_state" where
  "writing f s = s\<lparr>rs_db := f (rs_db s)\<rparr>"

definition save_progress :: "link \<Rightarrow> placement \<Rightarrow> checkpoint \<Rightarrow> run_state \<Rightarrow> run_state" where
  "save_progress k p c s = s\<lparr>rs_ckpt := c, rs_db := saveCheckpoint k p c (rs_db s)\<rparr>"

text \<open>What every step's end writes: its row, and its place in the checkpoint when the run goes on.\<close>

definition note_step :: "run_io \<Rightarrow> placement \<Rightarrow> int \<Rightarrow> nat \<Rightarrow> spec_step \<Rightarrow> step_state \<Rightarrow> step_result option \<Rightarrow> string \<Rightarrow> jobject \<Rightarrow> run_state \<Rightarrow> run_state" where
  "note_step io p att i st state r err detail =
     writing (recordStep (ri_end io i) (ri_now io) p att (int i) st state (exitOf r) (outputOf r) err detail)"

definition note_done :: "run_io \<Rightarrow> placement \<Rightarrow> nat \<Rightarrow> spec_step \<Rightarrow> run_state \<Rightarrow> run_state" where
  "note_done io p i st s = save_progress (ri_done io i) p (markDone (int i) st (rs_ckpt s)) s"

definition note_skipped :: "run_io \<Rightarrow> placement \<Rightarrow> int \<Rightarrow> spec_step list \<Rightarrow> int \<Rightarrow> stepEnding \<Rightarrow> run_state \<Rightarrow> run_state" where
  "note_skipped io p att steps i how = writing (recordSkipped (ri_skips io) (ri_now io) p att steps i how)"

definition count_step :: "run_state \<Rightarrow> run_state" where
  "count_step s = s\<lparr>rs_steps := rs_steps s + 1\<rparr>"

text \<open>The write before a step that cannot be repeated, and the row of its start.\<close>

definition mark_step :: "run_io \<Rightarrow> placement \<Rightarrow> run_plan \<Rightarrow> nat \<Rightarrow> spec_step \<Rightarrow> run_state \<Rightarrow> run_state" where
  "mark_step io p pl i st s =
     (if plan_idempotent pl i then s else save_progress (ri_mark io i) p (markInFlight (int i) st (rs_ckpt s)) s)"

definition begin_step :: "run_io \<Rightarrow> placement \<Rightarrow> int \<Rightarrow> run_plan \<Rightarrow> nat \<Rightarrow> spec_step \<Rightarrow> run_state \<Rightarrow> run_state" where
  "begin_step io p att pl i st s = writing (recordStepStart (ri_start io i) (ri_now io) p att (int i) st) (mark_step io p pl i st s)"

definition step_error :: "nat \<Rightarrow> spec_step \<Rightarrow> string \<Rightarrow> string" where
  "step_error i st what = ''step '' @ nat_str i @ '' ('' @ ss_id st @ ''/'' @ ss_kind st @ ''): '' @ what"

text \<open>A step that ended badly: tolerated by the spec, or the end of the attempt.\<close>

definition step_failed ::
  "run_io \<Rightarrow> placement \<Rightarrow> int \<Rightarrow> spec_step list \<Rightarrow> nat \<Rightarrow> spec_step \<Rightarrow> step_result option \<Rightarrow> string \<Rightarrow> jobject \<Rightarrow> run_state \<Rightarrow> run_end option \<times> run_state" where
  "step_failed io p att steps i st r what detail s =
     (if ss_continue st
      then (None, note_done io p i st (note_step io p att i st StepFailed r what (jset ''tolerated'' (JBool True) detail) (count_step s)))
      else (Some (failed_end (step_error i st what) False),
            note_skipped io p att steps (int i) EndedByFailure (note_step io p att i st StepFailed r what detail (count_step s))))"

text \<open>A step the end of the run's context stopped.\<close>

definition step_stopped ::
  "run_io \<Rightarrow> placement \<Rightarrow> int \<Rightarrow> spec_step list \<Rightarrow> nat \<Rightarrow> spec_step \<Rightarrow> step_result option \<Rightarrow> string \<Rightarrow> jobject \<Rightarrow> run_err \<Rightarrow> run_state \<Rightarrow> run_end option \<times> run_state" where
  "step_stopped io p att steps i st r what detail cause s =
     (case classifyAbort (ri_fenced io i) cause (''step '' @ ss_id st) of en \<Rightarrow>
        (Some en,
         (if re_State en \<noteq> StateAbandoned then note_skipped io p att steps (int i) EndedByStop else (\<lambda>s. s))
           (note_step io p att i st (if cause = MaxRuntime then StepFailed else StepAborted) r what detail s)))"

text \<open>What follows a step's answer: an ending, or the next step.\<close>

definition after_step ::
  "run_io \<Rightarrow> placement \<Rightarrow> int \<Rightarrow> spec_step list \<Rightarrow> nat \<Rightarrow> spec_step \<Rightarrow> bool \<Rightarrow> step_answer \<Rightarrow> run_state \<Rightarrow> run_end option \<times> run_state" where
  "after_step io p att steps i st reattached ans s =
     (case ans of (r, retries, err) \<Rightarrow>
        (case err of
           Some e \<Rightarrow>
             (case ri_abort io i of
                Some cause \<Rightarrow> step_stopped io p att steps i st r (run_err_text e) (step_detail_of retries reattached r) cause s
              | None \<Rightarrow> step_failed io p att steps i st r (run_err_text e) (step_detail_of retries reattached r) s)
         | None \<Rightarrow>
             (case r of
                Some x \<Rightarrow>
                  if res_Failure x \<noteq> [] then step_failed io p att steps i st r (res_Failure x) (step_detail_of retries reattached r) s
                  else (None, note_done io p i st (note_step io p att i st StepOk r [] (step_detail_of retries reattached r) (count_step s)))
              | None \<Rightarrow> (None, s))))"

text \<open>
  One turn of the loop: the process dies in it, the run ends with it, or the next turn follows. A process
  dies too on an answer with neither a result nor an error.
\<close>

datatype turn = Died | Ended run_end | Onward

definition with_begun :: "nat \<Rightarrow> nat \<Rightarrow> run_state \<Rightarrow> run_state" where
  "with_begun i starts s = (if starts > 0 then s\<lparr>rs_begun := rs_begun s @ [int i]\<rparr> else s)"

definition carry_out :: "run_io \<Rightarrow> placement \<Rightarrow> int \<Rightarrow> run_plan \<Rightarrow> spec_step list \<Rightarrow> nat \<Rightarrow> spec_step \<Rightarrow> run_state \<Rightarrow> turn \<times> run_state" where
  "carry_out io p att pl steps i st s =
     (case runStep (int i \<in> set (rp_reattach pl)) (ri_tries io i) 0 None 0 of
        (starts, ended) \<Rightarrow>
          (case ended of
             None \<Rightarrow> (Died, with_begun i starts s)
           | Some ans \<Rightarrow>
               if fst ans = None \<and> snd (snd ans) = None then (Died, with_begun i starts s)
               else (case after_step io p att steps i st (int i \<in> set (rp_reattach pl)) ans (with_begun i starts s) of
                       (Some en, s') \<Rightarrow> (Ended en, s')
                     | (None, s') \<Rightarrow> (Onward, s'))))"

definition skip_step :: "run_io \<Rightarrow> placement \<Rightarrow> int \<Rightarrow> nat \<Rightarrow> spec_step \<Rightarrow> run_state \<Rightarrow> run_state" where
  "skip_step io p att i st s =
     writing (recordStep (ri_end io i) (ri_now io) p att (int i) st StepSkipped None None []
       [(''reason'', JStr ''completed in an earlier attempt of this placement'')]) (s\<lparr>rs_skipped := rs_skipped s + 1\<rparr>)"

definition one_step :: "run_io \<Rightarrow> placement \<Rightarrow> int \<Rightarrow> run_plan \<Rightarrow> spec_step list \<Rightarrow> nat \<Rightarrow> spec_step \<Rightarrow> run_state \<Rightarrow> turn \<times> run_state" where
  "one_step io p att pl steps i st s =
     (if ri_kill io i = Some KillBefore then (Died, s)
      else if int i \<in> set (rp_skip pl) then (Onward, skip_step io p att i st s)
      else if ri_kill io i = Some KillStarting then (Died, begin_step io p att pl i st s)
      else carry_out io p att pl steps i st (begin_step io p att pl i st s))"

definition last_turn :: "run_io \<Rightarrow> nat \<Rightarrow> run_end option" where
  "last_turn io i =
     (if ri_kill io i \<noteq> None then None
      else (case ri_abort io i of
              Some cause \<Rightarrow> Some (classifyAbort (ri_fenced io i) cause ''after the last step'')
            | None \<Rightarrow> Some \<lparr>re_State = StateSucceeded, re_Error = [], re_Fenced = False, re_ReleaseReason = ''completed'', re_permanent = False\<rparr>))"

text \<open>The loop; no ending means the process died in it.\<close>

fun run_steps :: "run_io \<Rightarrow> placement \<Rightarrow> int \<Rightarrow> run_plan \<Rightarrow> spec_step list \<Rightarrow> nat \<Rightarrow> spec_step list \<Rightarrow> run_state \<Rightarrow> run_end option \<times> run_state" where
  "run_steps io p att pl steps i [] s = (last_turn io i, writing (ri_world io i) s)"
| "run_steps io p att pl steps i (st # rest) s =
     (case one_step io p att pl steps i st (writing (ri_world io i) s) of
        (Died, s') \<Rightarrow> (None, s')
      | (Ended en, s') \<Rightarrow> (Some en, s')
      | (Onward, s') \<Rightarrow> run_steps io p att pl steps (i + 1) rest s')"

text \<open>A resume the plan refuses: the row of the step in flight, and the steps after it.\<close>

definition refuse_resume :: "run_io \<Rightarrow> placement \<Rightarrow> int \<Rightarrow> spec_step list \<Rightarrow> int \<Rightarrow> string \<Rightarrow> run_state \<Rightarrow> run_end option \<times> run_state" where
  "refuse_resume io p att steps i err s =
     (Some (failed_end err True),
      if 0 \<le> i \<and> i < int (length steps)
      then note_skipped io p att steps i EndedByRefusal
             (writing (recordStep (ri_refused io) (ri_now io) p att i (steps ! nat i) StepFailed None None err [(''resume_refused'', JBool True)]) s)
      else s)"

text \<open>
  The scratch directory, retried like a step; a stream without an exit status is an error of its try, and
  the line an error quotes is the output of the try. No value means the process died in it.
\<close>

definition prepare :: "run_io \<Rightarrow> run_err option option" where
  "prepare io =
     (case snd (runStep False (ri_prepare io) 0 None 0) of
        None \<Rightarrow> None
      | Some (r, n, Some e) \<Rightarrow> Some (Some e)
      | Some (None, n, None) \<Rightarrow> None
      | Some (Some x, n, None) \<Rightarrow>
          if res_ExitCode x = Some 0 then Some None
          else Some (Some (NotRetryable (''could not create the device work directory '' @ ri_work_dir io @ '' (exit status ''
            @ int_str (case res_ExitCode x of None \<Rightarrow> 0 | Some c \<Rightarrow> c) @ '': '' @ res_Output x @ ''); check that the shell user can write under ''
            @ ri_work_root io @ '' on this device, or point Config.WorkRoot somewhere it can''))))"

definition run_execute ::
  "(string \<Rightarrow> string) \<Rightarrow> run_io \<Rightarrow> placement \<Rightarrow> int \<Rightarrow> spec_step list \<Rightarrow> kind_map \<Rightarrow> bool \<Rightarrow> run_state \<Rightarrow> run_end option \<times> run_state" where
  "run_execute sha256 io p att steps kinds resuming s =
     (case planResume sha256 steps (rs_ckpt s) kinds resuming of
        (pl, Some e) \<Rightarrow> refuse_resume io p att steps (rp_refusedIndex pl) (resume_error_text e) s
      | (pl, None) \<Rightarrow>
          (case prepare io of
             None \<Rightarrow> (None, s)
           | Some (Some e) \<Rightarrow>
               (case ri_prepare_abort io of
                  Some cause \<Rightarrow> (Some (classifyAbort (ri_prepare_fenced io) cause ''preparing the device work directory''), s)
                | None \<Rightarrow> (Some (failed_end (''preparing the device work directory '' @ ri_work_dir io @ '': '' @ run_err_text e) False), s))
           | Some None \<Rightarrow> run_steps io p att pl steps 0 steps s))"

section \<open>A placement\<close>

record outcome =
  o_State :: verdict
  o_Attempt :: int
  o_Steps :: nat
  o_Skipped :: nat
  o_Error :: string
  o_VerdictWithheld :: bool
  o_Fenced :: bool
  o_ReleaseReason :: string

text \<open>What a run hands back: its answer (none when the process died), the steps it began, the database.\<close>

type_synonym run_answer = "(run_error + outcome) option \<times> int list \<times> farm"

definition refuseUnevidencedSuccess :: "run_io \<Rightarrow> placement \<Rightarrow> int \<Rightarrow> string \<Rightarrow> farm \<Rightarrow> farm" where
  "refuseUnevidencedSuccess io p att why db =
     runner_event (ri_event io ''job_success_not_asserted'') (ri_now io) p ''job_success_not_asserted'' [(''attempt'', JInt att), (''reason'', JStr why)]
       (noteJobError (ri_note io) p (''attempt '' @ int_str att @ '' ran every step it was given, but its farm.job_steps rows do not support ''
          @ ''reporting this job as succeeded: '' @ why @ ''. The verdict was withheld rather than guessed, so this job is still running and ''
          @ ''will be placed again while its max_attempts allows.'') db)"

text \<open>A placement refused before its first step; \<open>tell\<close> is whether the ending is announced as an event.\<close>

definition refuse_placement :: "run_io \<Rightarrow> placement \<Rightarrow> int \<Rightarrow> int \<Rightarrow> string \<Rightarrow> string \<Rightarrow> bool \<Rightarrow> farm \<Rightarrow> run_answer" where
  "refuse_placement io p att row err reason tell db =
     (Some (Inr \<lparr>o_State = StateFailed, o_Attempt = att, o_Steps = 0, o_Skipped = 0, o_Error = err, o_VerdictWithheld = False, o_Fenced = False,
        o_ReleaseReason = reason\<rparr>), [],
      (if tell then runner_event (ri_event io ''job_attempt_finished'') (ri_now io) p ''job_attempt_finished''
         [(''attempt'', JInt att), (''outcome'', JStr ''failed''), (''error'', JStr err)] else (\<lambda>db. db))
       (writeJobState (ri_state io) (ri_now io) p Failed err True (closeAttempt (ri_close io) (ri_now io) row StateFailed err db)))"

text \<open>The end of \<^verbatim>\<open>Run\<close>: the attempt's row, and the job's state on the verdict.\<close>

definition close_run :: "run_io \<Rightarrow> placement \<Rightarrow> int \<Rightarrow> int \<Rightarrow> run_end \<Rightarrow> run_state \<Rightarrow> farm" where
  "close_run io p att row en s =
     runner_event (ri_event io ''job_attempt_finished'') (ri_now io) p ''job_attempt_finished''
       [(''attempt'', JInt att), (''outcome'', JStr (verdict_text (re_State en))), (''steps'', JInt (int (rs_steps s))),
        (''skipped'', JInt (int (rs_skipped s))), (''error'', JStr (re_Error en))]
       (closeAttempt (ri_close io) (ri_now io) row (re_State en) (re_Error en) (ri_world_after io (rs_db s)))"

definition outcome_of :: "int \<Rightarrow> run_end \<Rightarrow> run_state \<Rightarrow> outcome" where
  "outcome_of att en s =
     \<lparr>o_State = re_State en, o_Attempt = att, o_Steps = rs_steps s, o_Skipped = rs_skipped s, o_Error = re_Error en,
      o_VerdictWithheld = False, o_Fenced = re_Fenced en, o_ReleaseReason = re_ReleaseReason en\<rparr>"

definition assert_success :: "run_io \<Rightarrow> placement \<Rightarrow> int \<Rightarrow> outcome \<Rightarrow> int list \<Rightarrow> string \<Rightarrow> farm \<Rightarrow> run_answer" where
  "assert_success io p att out begun why db =
     (if why \<noteq> [] then (Some (Inr (out\<lparr>o_VerdictWithheld := True, o_Error := why\<rparr>)), begun, refuseUnevidencedSuccess io p att why db)
      else (Some (Inr out), begun, writeJobState (ri_state io) (ri_now io) p Succeeded [] False db))"

definition report_run :: "run_io \<Rightarrow> placement \<Rightarrow> int \<Rightarrow> int \<Rightarrow> nat \<Rightarrow> run_end \<Rightarrow> run_state \<Rightarrow> farm \<Rightarrow> run_answer" where
  "report_run io p att maxAttempts nsteps en s db =
     (case re_State en of
        StateSucceeded \<Rightarrow>
          assert_success io p att (outcome_of att en s) (rs_begun s) (attemptStepsAgree (ri_agree io) (ri_stopping io) p att (int nsteps) db) db
      | StateFailed \<Rightarrow>
          (Some (Inr (outcome_of att en s)), rs_begun s,
           if \<not> re_permanent en \<and> att < maxAttempts then writeJobState (ri_state io) (ri_now io) p Queued (re_Error en) False db
           else writeJobState (ri_state io) (ri_now io) p Failed (re_Error en) True db)
      | _ \<Rightarrow> (Some (Inr (outcome_of att en s)), rs_begun s, db))"

definition conclude :: "run_io \<Rightarrow> placement \<Rightarrow> int \<Rightarrow> int \<Rightarrow> int \<Rightarrow> nat \<Rightarrow> run_end \<Rightarrow> run_state \<Rightarrow> run_answer" where
  "conclude io p att row maxAttempts nsteps en s = report_run io p att maxAttempts nsteps en s (close_run io p att row en s)"

text \<open>\<^verbatim>\<open>jobspec.Parse\<close>: whatever else it refuses, a document without steps is refused.\<close>

definition parse_spec :: "run_io \<Rightarrow> job_row \<Rightarrow> string + spec_step list" where
  "parse_spec io job =
     (case ri_parse_error io of
        Some e \<Rightarrow> Inl e
      | None \<Rightarrow>
          (case j_spec job of
             Some (st # ss) \<Rightarrow> Inr (st # ss)
           | _ \<Rightarrow> Inl (''jobspec: invalid spec: steps: a spec must contain at least one step; a job with nothing to do ''
               @ ''would hold a device for its whole lease and change nothing'')))"

definition spec_of :: "run_io \<Rightarrow> job_row \<Rightarrow> spec_step list" where
  "spec_of io job = (case parse_spec io job of Inl _ \<Rightarrow> [] | Inr ss \<Rightarrow> ss)"

definition spec_err :: "run_io \<Rightarrow> job_row \<Rightarrow> kind_map \<Rightarrow> string option" where
  "spec_err io job kinds = (case parse_spec io job of Inl e \<Rightarrow> Some e | Inr ss \<Rightarrow> checkKindsAgainstSchema ss kinds)"

text \<open>The checkpoint a run resumes, the attempt number it runs under, and the state it starts in.\<close>

definition resumed_of :: "run_io \<Rightarrow> placement \<Rightarrow> job_row \<Rightarrow> kind_map \<Rightarrow> checkpoint option" where
  "resumed_of io p job kinds =
     (case j_checkpoint job of Some c \<Rightarrow> if spec_err io job kinds = None \<and> j_resumable job \<and> belongsTo c p then Some c else None | None \<Rightarrow> None)"

definition claimed_of :: "run_io \<Rightarrow> placement \<Rightarrow> checkpoint option \<Rightarrow> farm \<Rightarrow> (run_error + int) \<times> farm" where
  "claimed_of io p resumed db = (case resumed of Some c \<Rightarrow> (Inr (ck_Attempt c), db) | None \<Rightarrow> claimAttempt (ri_claim io) (p_JobID p) db)"

definition first_state :: "(string \<Rightarrow> string) \<Rightarrow> run_io \<Rightarrow> placement \<Rightarrow> job_row \<Rightarrow> kind_map \<Rightarrow> int \<Rightarrow> farm \<Rightarrow> run_state" where
  "first_state sha256 io p job kinds att db =
     \<lparr>rs_db = db, rs_ckpt = (case resumed_of io p job kinds of Some c \<Rightarrow> c | None \<Rightarrow> newCheckpoint sha256 att p (spec_of io job)),
      rs_begun = [], rs_steps = 0, rs_skipped = 0\<rparr>"

text \<open>With the attempt's row open: the refusals, then the steps.\<close>

definition placed :: "(string \<Rightarrow> string) \<Rightarrow> run_io \<Rightarrow> placement \<Rightarrow> job_row \<Rightarrow> kind_map \<Rightarrow> int \<Rightarrow> int \<Rightarrow> farm \<Rightarrow> run_answer" where
  "placed sha256 io p job kinds att row db =
     (if resumed_of io p job kinds = None \<and> att > j_max_attempts job then
        refuse_placement io p att row (''attempt '' @ int_str att @ '' exceeds the job's max_attempts of '' @ int_str (j_max_attempts job)) ''failed'' True db
      else (case spec_err io job kinds of
              Some e \<Rightarrow> refuse_placement io p att row e ''failed'' True db
            | None \<Rightarrow>
                if (case remaining (ri_now io) job of None \<Rightarrow> False | Some d \<Rightarrow> d \<le> 0) then
                  refuse_placement io p att row ''job max_runtime had already elapsed when this placement started'' ''max_runtime'' False db
                else (case run_execute sha256 io p att (spec_of io job) kinds (resumed_of io p job kinds \<noteq> None) (first_state sha256 io p job kinds att db) of
                        (None, s) \<Rightarrow> (None, rs_begun s, rs_db s)
                      | (Some en, s) \<Rightarrow> conclude io p att row (j_max_attempts job) (length (spec_of io job)) en s)))"

text \<open>From the job's row and the kinds on: the attempt number and the attempt's row.\<close>

definition run_loaded :: "(string \<Rightarrow> string) \<Rightarrow> run_io \<Rightarrow> placement \<Rightarrow> job_row \<Rightarrow> kind_map \<Rightarrow> farm \<Rightarrow> run_answer" where
  "run_loaded sha256 io p job kinds db =
     (case claimed_of io p (resumed_of io p job kinds) db of
        (Inl e, db1) \<Rightarrow> (Some (Inl e), [], db1)
      | (Inr att, db1) \<Rightarrow>
          (case openAttempt (ri_open io) (ri_now io) p att db1 of
             (Inl e, db2) \<Rightarrow> (Some (Inl e), [], db2)
           | (Inr row, db2) \<Rightarrow>
               placed sha256 io p job kinds att row
                 (runner_event (ri_event io ''job_attempt_started'') (ri_now io) p ''job_attempt_started''
                    [(''attempt'', JInt att), (''resumed'', JBool (resumed_of io p job kinds \<noteq> None)), (''endpoint'', JStr (p_Endpoint p))] db2)))"

definition Run :: "(string \<Rightarrow> string) \<Rightarrow> run_io \<Rightarrow> raw_placement \<Rightarrow> farm \<Rightarrow> run_answer" where
  "Run sha256 io raw db =
     (case placement_validate raw of
        Inl e \<Rightarrow> (Some (Inl (BadPlacement e)), [], db)
      | Inr p \<Rightarrow>
          (case loadJob (ri_load io) (p_JobID p) db of
             Inl e \<Rightarrow> (Some (Inl e), [], db)
           | Inr job \<Rightarrow>
               if j_state job = Cancelled then
                 (Some (Inr \<lparr>o_State = StateCancelled, o_Attempt = j_attempt job, o_Steps = 0, o_Skipped = 0,
                    o_Error = ''job was cancelled before this placement ran'', o_VerdictWithheld = False, o_Fenced = False,
                    o_ReleaseReason = ''job_cancelled''\<rparr>), [], db)
               else if j_state job = Succeeded \<or> j_state job = Failed then (Some (Inl (AlreadyEnded (j_state job))), [], db)
               else (case loadKinds (ri_kinds io) db of
                       Inl e \<Rightarrow> (Some (Inl e), [], db)
                     | Inr kinds \<Rightarrow> run_loaded sha256 io p job kinds db)))"

text \<open>The runs of one placement, one process after another, and what happens to the database before each.\<close>

fun placements :: "(string \<Rightarrow> string) \<Rightarrow> raw_placement \<Rightarrow> ((farm \<Rightarrow> farm) \<times> run_io) list \<Rightarrow> farm \<Rightarrow> int list \<times> farm" where
  "placements sha256 raw [] db = ([], db)"
| "placements sha256 raw ((world, io) # runs) db =
     (case Run sha256 io raw (world db) of
        (_, begun, db') \<Rightarrow> (case placements sha256 raw runs db' of (begun', db'') \<Rightarrow> (begun @ begun', db'')))"

end
