(* ===== verification/Janitor_Correct.thy ===== *)
theory Janitor_Correct
  imports Janitor_Loop Recovery_Correct
begin

text \<open>
  What a cycle of the sweeper may do to the records: which rows it may close, on what evidence, and that
  a pass over the steps gets through its backlog.
\<close>

section \<open>What a sweep keeps\<close>

definition attempt_view :: "job_attempt_row \<Rightarrow> int \<times> uuid \<times> int \<times> uuid option \<times> uuid option \<times> int option \<times> timestamp" where
  "attempt_view a = (ja_id a, ja_job a, ja_attempt a, ja_device a, ja_lease a, ja_fence a, ja_started_at a)"

definition step_key :: "step_row \<Rightarrow> uuid \<times> int \<times> int" where
  "step_key s = (st_job s, st_attempt s, st_index s)"

definition lease_of_step :: "farm \<Rightarrow> step_row \<Rightarrow> uuid option" where
  "lease_of_step db s = Option.bind (job_attempt db (st_job s) (st_attempt s)) ja_lease"

text \<open>A row stays as it is, or it is closed on the evidence of the leases.\<close>

definition step_swept :: "farm \<Rightarrow> step_row \<Rightarrow> step_row \<Rightarrow> bool" where
  "step_swept db s s' \<longleftrightarrow> s' = s \<or>
     step_open (st_state s) \<and> unprotected db (st_job s) (lease_of_step db s) \<and> st_state s' = StepAborted \<and> step_key s' = step_key s \<and>
     st_started_at s' = st_started_at s"

definition attempt_swept :: "farm \<Rightarrow> job_attempt_row \<Rightarrow> job_attempt_row \<Rightarrow> bool" where
  "attempt_swept db a a' \<longleftrightarrow> a' = a \<or>
     ja_finished_at a = None \<and> unprotected db (ja_job a) (ja_lease a) \<and> ja_finished_at a' \<noteq> None \<and>
     ja_outcome a' = Some ''abandoned'' \<and> attempt_view a' = attempt_view a"

definition job_swept :: "farm \<Rightarrow> job_row \<Rightarrow> job_row \<Rightarrow> bool" where
  "job_swept db j j' \<longleftrightarrow> j' = j \<or>
     no_live_lease db (j_id j) \<and>
     (j_state j = Running \<and> j_state j' = (if j_attempt j < j_max_attempts j then Queued else Failed) \<or>
      j_state j = Succeeded \<and> rows_disagree db j \<and> j_state j' = Failed) \<and>
     (\<exists>st e f. j' = j\<lparr>j_state := st, j_error := e, j_finished_at := f\<rparr>)"

definition swept :: "farm \<Rightarrow> farm \<Rightarrow> bool" where
  "swept db db' \<longleftrightarrow>
     leases db' = leases db \<and> fence_seq db' = fence_seq db \<and> devices db' = devices db \<and> slots db' = slots db \<and>
     runtimes db' = runtimes db \<and> quarantines db' = quarantines db \<and> parks db' = parks db \<and> reaper_state db' = reaper_state db \<and>
     gaps db' = gaps db \<and> list_all2 (step_swept db) (job_steps db) (job_steps db') \<and>
     list_all2 (attempt_swept db) (job_attempts db) (job_attempts db') \<and> list_all2 (job_swept db) (jobs db) (jobs db')"

lemma list_all2_self: "(\<And>x. R x x) \<Longrightarrow> list_all2 R xs xs"
  by (simp add: list_all2_same)

lemma list_all2_update: "(\<And>x. R x x) \<Longrightarrow> (\<And>x. x \<in> set xs \<Longrightarrow> P x \<Longrightarrow> R x (f x)) \<Longrightarrow> list_all2 R xs (update_where P f xs)"
  by (induction xs) auto

lemma swept_refl [simp]: "swept db db"
  by (auto simp: swept_def step_swept_def attempt_swept_def job_swept_def intro!: list_all2_self)

lemma attempts_view:
  assumes "list_all2 (attempt_swept db) as as'"
  shows "map attempt_view as' = map attempt_view as"
  using assms by (induction rule: list_all2_induct) (auto simp: attempt_swept_def)

lemma job_attempt_lease:
  assumes "map attempt_view (job_attempts db') = map attempt_view (job_attempts db)"
  shows "map_option ja_lease (job_attempt db' i n) = map_option ja_lease (job_attempt db i n)"
    and "map_option ja_started_at (job_attempt db' i n) = map_option ja_started_at (job_attempt db i n)"
proof -
  have "map_option attempt_view (List.find (\<lambda>a. ja_job a = i \<and> ja_attempt a = n) as') = map_option attempt_view (List.find (\<lambda>a. ja_job a = i \<and> ja_attempt a = n) as)"
    if "map attempt_view as' = map attempt_view as" for as as'
    using that
  proof (induction as arbitrary: as')
    case (Cons a as)
    then obtain b bs where b: "as' = b # bs" "attempt_view b = attempt_view a" "map attempt_view bs = map attempt_view as" by auto
    have "ja_job b = ja_job a" "ja_attempt b = ja_attempt a" using b(2) by (simp_all add: attempt_view_def)
    then show ?case using Cons.IH [OF b(3)] b(1,2) by simp
  qed simp
  from this [OF assms] have v: "map_option attempt_view (job_attempt db' i n) = map_option attempt_view (job_attempt db i n)"
    by (simp add: job_attempt_def)
  show "map_option ja_lease (job_attempt db' i n) = map_option ja_lease (job_attempt db i n)"
    and "map_option ja_started_at (job_attempt db' i n) = map_option ja_started_at (job_attempt db i n)"
    using v by (cases "job_attempt db' i n"; cases "job_attempt db i n"; simp add: attempt_view_def)+
qed

lemma bind_map_option: "Option.bind x f = Option.bind (map_option f x) (\<lambda>y. y)"
  by (cases x) auto

lemma bind_lease_cong:
  assumes "map attempt_view (job_attempts db') = map attempt_view (job_attempts db)"
  shows "Option.bind (job_attempt db' i n) ja_lease = Option.bind (job_attempt db i n) ja_lease"
  using job_attempt_lease(1) [OF assms] by (metis bind_map_option)

lemma lease_of_step_cong:
  assumes "map attempt_view (job_attempts db') = map attempt_view (job_attempts db)"
  shows "lease_of_step db' s = lease_of_step db s"
  using bind_lease_cong [OF assms] by (simp add: lease_of_step_def)

lemma guards_cong: "leases db' = leases db \<Longrightarrow> unprotected db' = unprotected db" "leases db' = leases db \<Longrightarrow> no_live_lease db' = no_live_lease db"
  by (simp_all add: fun_eq_iff unprotected_def no_live_lease_def)

text \<open>Aborting an open row does not change what the rows say of a success: an open row belies it already.\<close>

lemma swept_belies: "step_swept db s s' \<Longrightarrow> stepBeliesSuccess s' = stepBeliesSuccess s"
  by (auto simp: step_swept_def step_open_def stepBeliesSuccess_def)

lemma step_swept_key: "step_swept db s s' \<Longrightarrow> step_key s' = step_key s"
  by (auto simp: step_swept_def)

lemma list_all2_filter_length:
  assumes "list_all2 R xs ys" and "\<And>x y. R x y \<Longrightarrow> P y = P x"
  shows "length (filter P ys) = length (filter P xs)"
  using assms by (induction rule: list_all2_induct) auto

lemma rows_disagree_cong:
  assumes "list_all2 (step_swept db) (job_steps db) (job_steps db')"
  shows "rows_disagree db' j = rows_disagree db j"
proof -
  note c = list_all2_filter_length [OF assms]
  have "ue_Bad (count_rows db' j) = ue_Bad (count_rows db j)"
    unfolding count_rows_def rows_of_def Let_def unevidenced.simps filter_filter
    by (rule c) (use swept_belies step_swept_key in \<open>auto simp: step_key_def\<close>)
  moreover have "ue_Have (count_rows db' j) = ue_Have (count_rows db j)"
    unfolding count_rows_def rows_of_def Let_def unevidenced.simps
    by (rule c) (use step_swept_key in \<open>auto simp: step_key_def\<close>)
  ultimately show ?thesis by (simp add: rows_disagree_def)
qed

lemma swept_cong:
  assumes "swept db db'"
  shows "step_swept db' = step_swept db" and "attempt_swept db' = attempt_swept db" and "job_swept db' = job_swept db"
proof -
  have l: "leases db' = leases db" and v: "map attempt_view (job_attempts db') = map attempt_view (job_attempts db)"
    using assms attempts_view by (auto simp: swept_def)
  have s: "rows_disagree db' j = rows_disagree db j" for j using assms rows_disagree_cong by (auto simp: swept_def)
  note g = guards_cong [OF l] lease_of_step_cong [OF v] s
  show "step_swept db' = step_swept db" "attempt_swept db' = attempt_swept db" "job_swept db' = job_swept db"
    by (auto simp: fun_eq_iff step_swept_def attempt_swept_def job_swept_def g)
qed

text \<open>A row that was closed is not touched again.\<close>

lemma step_swept_trans: "step_swept db a b \<Longrightarrow> step_swept db b c \<Longrightarrow> step_swept db a c"
  by (cases "b = a") (simp_all add: step_swept_def step_open_def)

lemma attempt_swept_trans: "attempt_swept db a b \<Longrightarrow> attempt_swept db b c \<Longrightarrow> attempt_swept db a c"
  by (cases "b = a") (auto simp: attempt_swept_def)

lemma job_swept_trans:
  assumes "job_swept db a b" and "job_swept db b c"
  shows "job_swept db a c"
proof (cases "b = a")
  case False
  then have "j_state b \<noteq> Running \<and> j_state b \<noteq> Succeeded" using assms(1) by (auto simp: job_swept_def split: if_splits)
  then have "c = b" using assms(2) by (simp add: job_swept_def)
  then show ?thesis using assms(1) by simp
qed (use assms in simp)

lemma swept_trans:
  assumes ab: "swept a b" and bc: "swept b c"
  shows "swept a c"
proof -
  note bc' = bc [unfolded swept_def swept_cong [OF ab]]
  show ?thesis using ab bc' unfolding swept_def
    by (auto intro: list_all2_trans [OF step_swept_trans] list_all2_trans [OF attempt_swept_trans] list_all2_trans [OF job_swept_trans])
qed

context frame
begin

lemma trip_stmt:
  assumes "round_trip k (\<lambda>db. Inr (stmt db)) db = (r, db')" and "R db (snd (stmt db))"
  shows "R db db'"
  by (rule trip [OF assms(1)]) (use assms(2) in auto)

lemma fold_frame:
  assumes "\<And>x st. x \<in> set xs \<Longrightarrow> R db0 (snd st) \<Longrightarrow> R (snd st) (snd (f x st))" and "R db0 (snd st)"
  shows "R db0 (snd (fold f xs st))"
  using assms
proof (induction xs arbitrary: st)
  case (Cons x xs)
  have "R db0 (snd (f x st))" using Cons.prems frame_trans by (meson list.set_intros(1))
  then show ?case using Cons.IH [of "f x st"] Cons.prems(1) by simp
qed simp

end

interpretation sw: frame swept
  by unfold_locales (auto intro: swept_trans)

text \<open>The statements.\<close>

lemma swept_events: "swept db (db\<lparr>events := es\<rparr>)" "swept db (append_event e db)" "swept db (sweep_event io cfg kind job detail db)"
  using swept_refl [of db, unfolded swept_def] by (simp_all add: swept_def sweep_event_def append_event_def)

lemma swept_steps:
  assumes "list_all2 (step_swept db) (job_steps db) ss"
  shows "swept db (db\<lparr>job_steps := ss\<rparr>)"
  using assms swept_refl [of db, unfolded swept_def] by (simp add: swept_def)

lemma swept_attempts:
  assumes "list_all2 (attempt_swept db) (job_attempts db) as"
  shows "swept db (db\<lparr>job_attempts := as\<rparr>)"
  using assms swept_refl [of db, unfolded swept_def] by (simp add: swept_def)

lemma swept_jobs:
  assumes "list_all2 (job_swept db) (jobs db) js"
  shows "swept db (db\<lparr>jobs := js\<rparr>)"
  using assms swept_refl [of db, unfolded swept_def] by (simp add: swept_def)

lemma swept_elsewhere:
  "swept db (db\<lparr>bulk_targets := ts\<rparr>)" "swept db (db\<lparr>bulk_runs := rs\<rparr>)" "swept db (db\<lparr>attempts := as\<rparr>)" "swept db (db\<lparr>heartbeats := hb\<rparr>)"
  using swept_refl [of db, unfolded swept_def] by (simp_all add: swept_def)

lemma swept_stepClose:
  assumes "\<And>s. s \<in> set (job_steps db) \<Longrightarrow> st_job s = job \<Longrightarrow> st_attempt s = att \<Longrightarrow> lease_of_step db s = alease"
  shows "swept db (snd (stepClose now job att idx msg detail alease db))"
  unfolding stepClose_def Let_def snd_conv
  by (intro swept_steps list_all2_update) (use assms in \<open>auto simp: step_swept_def step_key_def\<close>)

lemma swept_attemptClose: "swept db (snd (attemptClose now i msg db))"
  unfolding attemptClose_def Let_def snd_conv
  by (intro swept_attempts list_all2_update) (auto simp: attempt_swept_def attempt_view_def)

lemma move_job_swept:
  assumes "j_state j = Running" and "no_live_lease db (j_id j)"
  shows "job_swept db j (move_job now rq fl j)"
proof -
  have "\<exists>st e f. move_job now rq fl j = j\<lparr>j_state := st, j_error := e, j_finished_at := f\<rparr>"
  proof (cases "j_attempt j < j_max_attempts j")
    case True
    then have "move_job now rq fl j = j\<lparr>j_state := Queued, j_error := Some rq, j_finished_at := j_finished_at j\<rparr>" by (simp add: move_job_def)
    then show ?thesis by blast
  next
    case False
    then have "move_job now rq fl j = j\<lparr>j_state := Failed, j_error := Some fl, j_finished_at := Some now\<rparr>" by (simp add: move_job_def)
    then show ?thesis by blast
  qed
  then show ?thesis using assms by (simp add: job_swept_def move_job_def)
qed

lemma swept_jobSweep: "swept db (snd (jobSweep now settle rq fl batch db))"
  unfolding jobSweep_def Let_def snd_conv
  by (intro swept_jobs list_all2_update) (use move_job_swept in \<open>simp_all add: job_swept_def [of _ j j for j]\<close>)

lemma swept_successClose: "swept db (snd (successClose now i why db))"
  unfolding successClose_def Let_def snd_conv
  by (intro swept_jobs list_all2_update) (auto simp: job_swept_def)

section \<open>The passes\<close>

lemma scan_group_lease:
  assumes "r \<in> set (stepScan now settle batch db)" and "s \<in> set (job_steps db)" and "st_job s = os_job r" and "st_attempt s = os_attempt r"
  shows "lease_of_step db s = os_lease r"
  using assms by (auto simp: stepScan_def lease_of_step_def Let_def)

text \<open>What a key of \<^const>\<open>first_seen\<close> stands for: at least one row.\<close>

lemma set_first_seen [simp]: "set (first_seen xs) = set xs"
  by (simp add: first_seen_def)

lemma distinct_first_seen [simp]: "distinct (first_seen xs)"
  by (simp add: first_seen_def)

lemma swept_close_group:
  assumes rows: "rows = stepScan now settle batch db0" and k: "k \<in> (\<lambda>r. (os_job r, os_attempt r)) ` set rows" and sw: "swept db0 (snd st)"
  shows "swept (snd st) (snd (close_group io cfg rows k st))"
proof -
  define head where "head = hd (filter (\<lambda>r. (os_job r, os_attempt r) = k) rows)"
  have ne: "filter (\<lambda>r. (os_job r, os_attempt r) = k) rows \<noteq> []" using k by (auto simp: filter_empty_conv)
  have "head \<in> set (filter (\<lambda>r. (os_job r, os_attempt r) = k) rows)" unfolding head_def using ne by (rule hd_in_set)
  then have head: "head \<in> set rows" "os_job head = fst k" "os_attempt head = snd k" by auto
  have v: "map attempt_view (job_attempts (snd st)) = map attempt_view (job_attempts db0)"
    using sw attempts_view by (auto simp: swept_def)
  have same: "lease_of_step (snd st) s = os_lease head" if "s \<in> set (job_steps (snd st))" "st_job s = fst k" "st_attempt s = snd k" for s
    using that head by (auto simp: rows stepScan_def Let_def bind_lease_cong [OF v] lease_of_step_def)
  obtain r db' where rt: "round_trip (ji_step io k) (\<lambda>db. Inr (stepClose (ji_now io) (fst k) (snd k) (map os_index (filter (\<lambda>r. (os_job r, os_attempt r) = k) rows))
      (step_message cfg (leaseVerdict (os_lease head) (os_state head) (os_reason head)))
      [(''swept_by'', JStr (jc_Component cfg)), (''orphan_cause'', JStr (leaseVerdict (os_lease head) (os_state head) (os_reason head))),
       (''lease_state'', JStr (os_state head))] (os_lease head) db)) (snd st) = (r, db')" by fastforce
  have "swept (snd st) db'" by (rule sw.trip_stmt [OF rt]) (rule swept_stepClose [OF same])
  moreover have "snd (close_group io cfg rows k st) = db'" unfolding close_group_def Let_def head_def [symmetric] rt by (cases r) auto
  ultimately show ?thesis by simp
qed

lemma swept_sweepSteps: "swept db (snd (sweepSteps io cfg db))"
proof -
  have "swept db (snd (fold (close_group io cfg rows) (first_seen (map (\<lambda>r. (os_job r, os_attempt r)) rows)) (0, db)))"
    if "rows = stepScan (ji_now io) (jc_Settle cfg) (jc_Batch cfg) db" for rows
    by (rule sw.fold_frame) (use swept_close_group [OF that] in auto)
  then show ?thesis by (simp add: sweepSteps_def Let_def)
qed

lemma swept_close_attempt: "swept (snd st) (snd (close_attempt io cfg row st))"
proof -
  obtain a state reason where row: "row = (a, state, reason)" by (metis prod_cases3)
  obtain r db' where rt: "round_trip (ji_attempt io (ja_id a)) (\<lambda>db. Inr (attemptClose (ji_now io) (ja_id a)
      (attempt_message cfg (leaseVerdict (ja_lease a) state reason)) db)) (snd st) = (r, db')" by fastforce
  have "swept (snd st) db'" by (rule sw.trip_stmt [OF rt]) (rule swept_attemptClose)
  then show ?thesis using swept_trans swept_events(3) by (cases r) (auto simp: close_attempt_def row rt Let_def)
qed

lemma swept_sweepAttempts: "swept db (snd (sweepAttempts io cfg db))"
  unfolding sweepAttempts_def by (auto intro: sw.fold_frame swept_close_attempt)

lemma swept_close_success: "swept (snd st) (snd (close_success io cfg u st))"
proof -
  obtain r db' where rt: "round_trip (ji_success io (ue_JobID u)) (\<lambda>db. Inr (successClose (ji_now io) (ue_JobID u) (unevidenced_why u (jc_Component cfg)) db)) (snd st) = (r, db')"
    by fastforce
  have "swept (snd st) db'" by (rule sw.trip_stmt [OF rt]) (rule swept_successClose)
  then show ?thesis using swept_trans swept_events(3) by (cases r) (auto simp: close_success_def rt Let_def)
qed

lemma swept_sweepJobs: "swept db (snd (sweepJobs io cfg db))"
proof -
  obtain r db' where rt: "round_trip (ji_jobs io) (\<lambda>db. Inr (jobSweep (ji_now io) (jc_Settle cfg) (requeue_message cfg) (exhausted_message cfg) (jc_Batch cfg) db)) db = (r, db')"
    by fastforce
  have 1: "swept db db'" by (rule sw.trip_stmt [OF rt]) (rule swept_jobSweep)
  have 2: "swept db (fold (\<lambda>m. sweep_event io cfg (kind m) (j_id m) (detail m)) ms db')" if "swept db db'" for kind detail ms db'
    using that
  proof (induction ms arbitrary: db')
    case (Cons m ms)
    show ?case using Cons.IH [OF swept_trans [OF Cons.prems swept_events(3)]] by simp
  qed simp
  show ?thesis using 1 2 [OF 1] by (cases r) (auto simp: sweepJobs_def rt)
qed

lemma swept_one_statement: "(\<And>db. swept db (snd (stmt db))) \<Longrightarrow> swept db (snd (one_statement k stmt size' db))"
proof -
  assume st: "\<And>db. swept db (snd (stmt db))"
  obtain r db' where rt: "round_trip k (\<lambda>db. Inr (stmt db)) db = (r, db')" by fastforce
  have "swept db db'" by (rule sw.trip_stmt [OF rt]) (rule st)
  then show ?thesis by (cases r) (auto simp: one_statement_def rt)
qed

lemma swept_sweep_all: "swept db (snd (fst (sweep_all io cfg due db)))"
proof -
  have pass: "swept db (snd (sweep_pass f st))" if "swept db (snd st)" "\<And>db. swept db (snd (f db))" for f st
    using that swept_trans by (auto simp: sweep_pass_def split: prod.splits) (metis snd_conv)
  have succ: "swept db (snd (fst (sweepUnevidencedSuccessIfDue io cfg due db)))" for due db
    by (auto simp: sweepUnevidencedSuccessIfDue_def sweepUnevidencedSuccess_def intro: sw.fold_frame swept_close_success split: option.split)
  have bulk: "swept db (snd (sweepBulkTargets io cfg db))" "swept db (snd (sweepBulkRuns io cfg db))" "swept db (snd (sweepRecoveryAttempts io cfg db))" for db
    unfolding sweepBulkTargets_def sweepBulkRuns_def sweepRecoveryAttempts_def
    by (rule swept_one_statement; simp add: bulkTargetSweep_def bulkRunClose_def recoverySweep_def Let_def swept_elsewhere)+
  define st1 where "st1 = sweep_pass (sweepJobs io cfg) (sweep_pass (sweepAttempts io cfg) (sweepSteps io cfg db))"
  have 1: "swept db (snd st1)" unfolding st1_def by (intro pass swept_sweepSteps swept_sweepAttempts swept_sweepJobs)
  obtain r due' where r: "sweepUnevidencedSuccessIfDue io cfg due (snd st1) = (r, due')" by fastforce
  have 2: "swept db (snd r)" using swept_trans [OF 1 succ [where db = "snd st1" and due = due, unfolded r fst_conv]] .
  show ?thesis unfolding sweep_all_def Let_def st1_def [symmetric] r prod.case fst_conv
    by (intro pass bulk) (simp add: 2)
qed

lemma janitor_cycle_swept:
  assumes "janitor_cycle io cfg j locks db = (n, j', locks', db')"
  shows "swept db db'"
proof -
  define db1 where "db1 = snd (ComponentBeat (ji_beat io) (ji_now io) (jc_Component cfg) db)"
  have 1: "swept db db1" by (auto simp: db1_def ComponentBeat_def round_trip_def component_beat_def swept_elsewhere split: link.split)
  have "db' = db1 \<or> db' = snd (fst (sweep_all io cfg (jn_verdictDue j) db1))"
    using assms unfolding janitor_cycle_def Let_def db1_def [symmetric] by (auto split: prod.splits ensured.splits bool.splits)
  then show ?thesis using 1 swept_trans [OF 1 swept_sweep_all] by blast
qed

lemma swept_registry:
  assumes "swept db db'" and "lease_wf db"
  shows "registry_step db db'"
proof -
  have "list_all job_ok (jobs db')"
  proof -
    have "list_all2 (\<lambda>j j'. job_ok j \<longrightarrow> job_ok j') (jobs db) (jobs db')"
      using assms(1) by (auto simp: swept_def job_swept_def job_ok_def elim!: list_all2_mono)
    moreover have "list_all job_ok (jobs db)" using assms(2) by (simp add: lease_wf_def)
    ultimately show ?thesis by (simp add: list_all_length list_all2_conv_all_nth)
  qed
  then show ?thesis using assms lease_wfD(3,8) [OF assms(2)]
    by (auto simp: swept_def registry_step_def keyed_def list_all_iff intro: exI [of _ "[]"])
qed

text \<open>Cycle after cycle.\<close>

fun janitor_cycles :: "(janitor_io \<times> janitor_config) list \<Rightarrow> janitor \<Rightarrow> pg_locks \<Rightarrow> farm \<Rightarrow> farm" where
  "janitor_cycles [] j locks db = db"
| "janitor_cycles ((io, cfg) # cs) j locks db = (case janitor_cycle io cfg j locks db of (n, j', locks', db') \<Rightarrow> janitor_cycles cs j' locks' db')"

lemma janitor_cycles_swept: "swept db (janitor_cycles cs j locks db)"
proof (induction cs j locks db rule: janitor_cycles.induct)
  case (2 io cfg cs j locks db)
  obtain n j' locks' db' where c: "janitor_cycle io cfg j locks db = (n, j', locks', db')" by (metis prod_cases4)
  show ?case using swept_trans [OF janitor_cycle_swept [OF c] "2.IH" [OF c [symmetric] refl refl]] c by simp
qed simp

text \<open>A success the rows agree with is never taken back.\<close>

lemma agreed_success_stays:
  assumes "swept db db'" and "j \<in> set (jobs db)" and "j_state j = Succeeded" and "\<not> rows_disagree db j"
  shows "j \<in> set (jobs db')"
proof -
  have "list_all2 (job_swept db) (jobs db) (jobs db')" using assms(1) by (simp add: swept_def)
  then obtain j' where "j' \<in> set (jobs db')" "job_swept db j j'" using assms(2) by (metis in_set_conv_nth list_all2_conv_all_nth)
  then show ?thesis using assms(3,4) by (auto simp: job_swept_def)
qed

section \<open>The backlog of orphaned steps\<close>

lemma filter_update_where:
  assumes "\<And>s. P s \<Longrightarrow> \<not> Q (f s)"
  shows "filter Q (update_where P f xs) = filter (\<lambda>s. Q s \<and> \<not> P s) xs"
  using assms by (induction xs) auto

text \<open>The rows a group's statement aims at, and the two tables the question is asked of.\<close>

definition in_group :: "orphan_step list \<Rightarrow> uuid \<times> int \<Rightarrow> step_row \<Rightarrow> bool" where
  "in_group rows k s \<longleftrightarrow> (st_job s, st_attempt s) = k \<and>
     st_index s \<in> set (map os_index (filter (\<lambda>r. (os_job r, os_attempt r) = k) rows))"

definition same_evidence :: "farm \<Rightarrow> farm \<Rightarrow> bool" where
  "same_evidence db db' \<longleftrightarrow> leases db' = leases db \<and> job_attempts db' = job_attempts db"

lemma orphaned_cong: "same_evidence db db' \<Longrightarrow> step_orphaned now settle db' = step_orphaned now settle db"
  by (simp add: fun_eq_iff same_evidence_def step_orphaned_def job_attempt_def unprotected_def released_at_def lease_by_id_def)

lemma orphaned_open: "step_orphaned now settle db s \<Longrightarrow> step_open (st_state s)"
  by (simp add: step_orphaned_def Let_def)

lemma close_group_filter:
  assumes rows: "rows = stepScan now settle batch db0" and k: "k \<in> (\<lambda>r. (os_job r, os_attempt r)) ` set rows"
    and ev: "same_evidence db0 (snd st)" and up: "ji_step io k = Up" and Q: "\<And>s. Q s \<Longrightarrow> step_open (st_state s)"
  shows "same_evidence db0 (snd (close_group io cfg rows k st))"
    and "filter Q (job_steps (snd (close_group io cfg rows k st))) = filter (\<lambda>s. Q s \<and> \<not> in_group rows k s) (job_steps (snd st))"
proof -
  define steps where "steps = filter (\<lambda>r. (os_job r, os_attempt r) = k) rows"
  have "steps \<noteq> []" using k by (auto simp: steps_def filter_empty_conv)
  then have "hd steps \<in> set steps" by (rule hd_in_set)
  then have head: "hd steps \<in> set rows" "(os_job (hd steps), os_attempt (hd steps)) = k" by (simp_all add: steps_def)
  then have "unprotected db0 (fst k) (os_lease (hd steps))"
    unfolding rows by (cases k) (auto simp: stepScan_def Let_def step_orphaned_def dest!: in_order_limitD)
  then have un: "unprotected (snd st) (fst k) (os_lease (hd steps))" using ev by (simp add: same_evidence_def unprotected_def)
  note eq = close_group_def Let_def steps_def [symmetric] round_trip_def up stepClose_def link.case
  show "same_evidence db0 (snd (close_group io cfg rows k st))" using ev by (simp add: eq same_evidence_def)
  have "filter Q (update_where (\<lambda>s. st_job s = fst k \<and> st_attempt s = snd k \<and> st_index s \<in> set (map os_index steps) \<and> step_open (st_state s)) f ss) =
      filter (\<lambda>s. Q s \<and> \<not> (st_job s = fst k \<and> st_attempt s = snd k \<and> st_index s \<in> set (map os_index steps) \<and> step_open (st_state s))) ss"
    if "\<And>s. st_state (f s) = StepAborted" for f ss
    by (rule filter_update_where) (use Q that in \<open>fastforce simp: step_open_def\<close>)
  then have "filter Q (job_steps (snd (close_group io cfg rows k st))) =
      filter (\<lambda>s. Q s \<and> \<not> (st_job s = fst k \<and> st_attempt s = snd k \<and> st_index s \<in> set (map os_index steps) \<and> step_open (st_state s)))
        (job_steps (snd st))"
    by (simp add: eq un)
  also have "\<dots> = filter (\<lambda>s. Q s \<and> \<not> in_group rows k s) (job_steps (snd st))"
    using Q by (auto simp: in_group_def steps_def prod_eq_iff intro!: filter_cong)
  finally show "filter Q (job_steps (snd (close_group io cfg rows k st))) = filter (\<lambda>s. Q s \<and> \<not> in_group rows k s) (job_steps (snd st))" .
qed

lemma close_groups_filter:
  assumes rows: "rows = stepScan now settle batch db0" and up: "\<And>k. ji_step io k = Up"
  shows "set ks \<subseteq> (\<lambda>r. (os_job r, os_attempt r)) ` set rows \<Longrightarrow> same_evidence db0 (snd st) \<Longrightarrow> (\<And>s. Q s \<Longrightarrow> step_open (st_state s)) \<Longrightarrow>
     same_evidence db0 (snd (fold (close_group io cfg rows) ks st)) \<and>
     filter Q (job_steps (snd (fold (close_group io cfg rows) ks st))) =
       filter (\<lambda>s. Q s \<and> \<not> (\<exists>k\<in>set ks. in_group rows k s)) (job_steps (snd st))"
proof (induction ks arbitrary: st)
  case (Cons k ks)
  have k: "k \<in> (\<lambda>r. (os_job r, os_attempt r)) ` set rows" using Cons.prems(1) by simp
  have sub: "set ks \<subseteq> (\<lambda>r. (os_job r, os_attempt r)) ` set rows" using Cons.prems(1) by simp
  note one = close_group_filter [OF rows k Cons.prems(2) up, where cfg = cfg]
  note ih = Cons.IH [OF sub one(1) Cons.prems(3)]
  have "filter (\<lambda>s. Q s \<and> \<not> (\<exists>k\<in>set ks. in_group rows k s)) (job_steps (snd (close_group io cfg rows k st))) =
      filter (\<lambda>s. (Q s \<and> \<not> (\<exists>k\<in>set ks. in_group rows k s)) \<and> \<not> in_group rows k s) (job_steps (snd st))"
    by (rule one(2)) (use Cons.prems(3) in blast)+
  also have "\<dots> = filter (\<lambda>s. Q s \<and> \<not> (\<exists>k\<in>set (k # ks). in_group rows k s)) (job_steps (snd st))" by (auto intro!: filter_cong)
  finally show ?case using ih Cons.prems(3) by simp
qed simp

lemma length_filter_not_in:
  assumes "distinct xs" and "set ys \<subseteq> set xs" and "distinct ys"
  shows "length (filter (\<lambda>x. x \<notin> set ys) xs) = length xs - length ys"
proof -
  have "length (filter (\<lambda>x. x \<notin> set ys) xs) = card (set xs - set ys)"
    using assms(1) by (metis distinct_card distinct_filter set_diff_eq set_filter)
  then show ?thesis using assms by (simp add: card_Diff_subset distinct_card)
qed

definition orphans :: "timestamp \<Rightarrow> duration \<Rightarrow> farm \<Rightarrow> nat" where
  "orphans now settle db = length (filter (step_orphaned now settle db) (job_steps db))"

lemma sweepSteps_drains:
  assumes scan: "ji_scan_steps io = Up" and up: "\<And>k. ji_step io k = Up" and keyed: "distinct (map step_key (job_steps db))"
  shows "orphans (ji_now io) (jc_Settle cfg) (snd (sweepSteps io cfg db)) = orphans (ji_now io) (jc_Settle cfg) db - nat (jc_Batch cfg)"
proof -
  let ?Q = "step_orphaned (ji_now io) (jc_Settle cfg) db"
  define rows where "rows = stepScan (ji_now io) (jc_Settle cfg) (jc_Batch cfg) db"
  define ss where "ss = order_limit (\<lambda>s. (st_job s, st_attempt s, st_index s)) (nat (jc_Batch cfg)) (filter ?Q (job_steps db))"
  define ks where "ks = first_seen (map (\<lambda>r. (os_job r, os_attempt r)) rows)"
  define db' where "db' = snd (sweepSteps io cfg db)"
  have db': "db' = snd (fold (close_group io cfg rows) ks (0, db))" by (simp add: db'_def sweepSteps_def scan rows_def ks_def Let_def)
  have ks: "set ks = (\<lambda>s. (st_job s, st_attempt s)) ` set ss" by (simp add: ks_def rows_def ss_def stepScan_def Let_def image_image)
  have all: "same_evidence db db'" "filter ?Q (job_steps db') = filter (\<lambda>s. ?Q s \<and> \<not> (\<exists>k\<in>set ks. in_group rows k s)) (job_steps db)"
    using close_groups_filter [OF rows_def up, of ks "(0, db)" ?Q cfg] orphaned_open by (auto simp: db' ks_def same_evidence_def)
  have hit: "(\<exists>k\<in>set ks. in_group rows k s) \<longleftrightarrow> s \<in> set ss" if "s \<in> set (job_steps db)" for s
  proof -
    have "(\<exists>k\<in>set ks. in_group rows k s) \<longleftrightarrow> step_key s \<in> step_key ` set ss"
      by (auto simp: ks in_group_def rows_def stepScan_def ss_def [symmetric] Let_def step_key_def image_iff Bex_def) 
    moreover have "set ss \<subseteq> set (job_steps db)" unfolding ss_def using set_order_limit by fastforce
    ultimately show ?thesis using keyed that by (auto simp: distinct_map inj_on_def)
  qed
  have dj: "distinct (job_steps db)" using keyed by (simp add: distinct_map)
  have "filter ?Q (job_steps db') = filter (\<lambda>s. s \<notin> set ss) (filter ?Q (job_steps db))"
    unfolding all(2) filter_filter by (rule filter_cong) (use hit in auto)
  moreover have "set ss \<subseteq> set (filter ?Q (job_steps db))" unfolding ss_def by (rule set_order_limit)
  moreover have "distinct ss" using dj by (simp add: ss_def order_limit_def)
  ultimately have "length (filter ?Q (job_steps db')) = length (filter ?Q (job_steps db)) - length ss"
    using length_filter_not_in dj by (metis distinct_filter)
  moreover have "length ss = min (nat (jc_Batch cfg)) (length (filter ?Q (job_steps db)))" by (simp add: ss_def order_limit_def)
  ultimately show ?thesis unfolding orphans_def db'_def [symmetric] orphaned_cong [OF all(1)] by (simp add: min_def)
qed

lemma swept_keys:
  assumes "swept db db'"
  shows "map step_key (job_steps db') = map step_key (job_steps db)"
proof -
  have "list_all2 (step_swept db) (job_steps db) (job_steps db')" using assms by (simp add: swept_def)
  then show ?thesis by (induction rule: list_all2_induct) (auto simp: step_swept_def)
qed

text \<open>Sweep after sweep the backlog shrinks by a batch, until nothing is left.\<close>

lemma sweepSteps_iterated:
  assumes "ji_scan_steps io = Up" and "\<And>k. ji_step io k = Up" and "distinct (map step_key (job_steps db))"
  shows "orphans (ji_now io) (jc_Settle cfg) (((snd \<circ> sweepSteps io cfg) ^^ n) db) = orphans (ji_now io) (jc_Settle cfg) db - n * nat (jc_Batch cfg) \<and>
     map step_key (job_steps (((snd \<circ> sweepSteps io cfg) ^^ n) db)) = map step_key (job_steps db)"
proof (induction n)
  case (Suc n)
  define dbn where "dbn = ((snd \<circ> sweepSteps io cfg) ^^ n) db"
  have ih: "orphans (ji_now io) (jc_Settle cfg) dbn = orphans (ji_now io) (jc_Settle cfg) db - n * nat (jc_Batch cfg)"
    "map step_key (job_steps dbn) = map step_key (job_steps db)" using Suc unfolding dbn_def by blast+
  have k: "distinct (map step_key (job_steps dbn))" using ih(2) assms(3) by simp
  have next_db: "((snd \<circ> sweepSteps io cfg) ^^ Suc n) db = snd (sweepSteps io cfg dbn)" by (simp add: dbn_def)
  show ?case unfolding next_db using ih sweepSteps_drains [OF assms(1,2) k, where cfg = cfg] swept_keys [OF swept_sweepSteps [of dbn io cfg]]
    by (simp add: add.commute)
qed simp

end
