(* ===== verification/Run_Correct.thy ===== *)
theory Run_Correct
  imports Run_Loop Janitor_Correct
begin

text \<open>
  What a run may do to its job's row, on what evidence it reports a success, and how often it begins a
  step that cannot be repeated.
\<close>

section \<open>The pause between tries\<close>

text \<open>It is the holder's back-off at the runner's own bounds.\<close>

lemma runner_backoff_bounds:
  assumes "is_rand rnd"
  shows "0 < runner_backoff (runner_applyDefaults c) rnd n \<and> runner_backoff (runner_applyDefaults c) rnd n \<le> rc_RetryMax (runner_applyDefaults c)"
proof -
  let ?c = "runner_applyDefaults c"
  define h :: holder_config where "h = (applyDefaults undefined)\<lparr>RetryBase := rc_RetryBase ?c, RetryMax := rc_RetryMax ?c\<rparr>"
  have "0 < rc_RetryBase ?c" "rc_RetryBase ?c \<le> rc_RetryMax ?c" by (auto simp: runner_applyDefaults_def Let_def or_default_def Second_def)
  then have ok: "config_ok h" using config_ok_applyDefaults [of undefined] by (auto simp: config_ok_def h_def)
  have "runner_backoff ?c rnd n = backoff h rnd n" "RetryMax h = rc_RetryMax ?c" by (simp_all add: runner_backoff_def backoff_def h_def Let_def)
  then show ?thesis using backoff_bounds [OF ok assms, of n] by simp
qed

section \<open>The statements\<close>

lemma logged_eq: "logged k stmt db = (if k = LostBefore then db else snd (stmt db))"
  by (cases k) (auto simp: logged_def round_trip_def split: prod.splits)

text \<open>The three tables the runner's guards and its plan read.\<close>

definition same_ground :: "farm \<Rightarrow> farm \<Rightarrow> bool" where
  "same_ground db db' \<longleftrightarrow> jobs db' = jobs db \<and> leases db' = leases db \<and> step_kinds db' = step_kinds db"

lemma same_ground_refl [simp]: "same_ground db db"
  by (simp add: same_ground_def)

lemma same_ground_trans: "same_ground a b \<Longrightarrow> same_ground b c \<Longrightarrow> same_ground a c"
  by (simp add: same_ground_def)

lemma same_ground_upsert [simp]: "same_ground db (upsert_step p att i new upd db)"
  by (simp add: same_ground_def upsert_step_def)

lemma same_ground_upserts [simp]: "same_ground db (fold (\<lambda>r. upsert_step p att (idx r) (new r) (upd r)) rows db)"
proof (induction rows arbitrary: db)
  case (Cons r rows)
  show ?case using same_ground_trans [OF same_ground_upsert Cons.IH] by simp
qed simp

lemma same_ground_writes [simp]:
  "same_ground db (recordStepStart k now p att i st db)"
  "same_ground db (recordStep k now p att i st state ex output err detail db)"
  "same_ground db (recordSkipped k now p att steps ended how db)"
  "same_ground db (runner_event k now p kind detail db)"
  "same_ground db (closeAttempt k now n v err db)"
  by (simp_all add: recordStepStart_def recordStep_def recordSkipped_def runner_event_def closeAttempt_def logged_eq Let_def)
     (simp_all add: same_ground_def append_event_def)

lemma same_ground_openAttempt [simp]: "same_ground db (snd (openAttempt k now p att db))"
proof -
  have "same_ground db (snd (attemptUpsert now p att db))" by (auto simp: same_ground_def attemptUpsert_def split: option.split)
  then show ?thesis by (cases k) (auto simp: openAttempt_def round_trip_def split: prod.splits)
qed

section \<open>What holds of every run\<close>

text \<open>
  A relation on databases that every statement of a run keeps, and every interference, holds between
  the database before a run and after it.
\<close>

locale step_frame = frame R for R :: "farm \<Rightarrow> farm \<Rightarrow> bool" +
  fixes p :: placement and io :: run_io
  assumes ground: "same_ground db db' \<Longrightarrow> R db db'"
    and ckpt: "R db (saveCheckpoint k p c db)"
    and world: "R db (ri_world io i db)"
begin

lemmas ground_writes = same_ground_writes [THEN ground] same_ground_openAttempt [THEN ground]

lemma begin_step_R: "R (rs_db s) (rs_db (begin_step io p att pl i st s))"
  by (auto simp: begin_step_def mark_step_def save_progress_def writing_def intro: frame_trans ckpt ground_writes)

lemma note_R:
  "R (rs_db s) (rs_db (note_step io p att i st state r err detail s))"
  "R (rs_db s) (rs_db (note_done io p i st s))"
  "R (rs_db s) (rs_db (note_skipped io p att steps ended how s))"
  "R (rs_db s) (rs_db (note_step io p att i st state r err detail (count_step s)))"
  by (simp_all add: note_step_def note_done_def note_skipped_def save_progress_def writing_def count_step_def ckpt ground_writes)

lemma step_failed_R: "R (rs_db s) (rs_db (snd (step_failed io p att steps i st r what detail s)))"
  using frame_trans [OF note_R(4) note_R(2)] frame_trans [OF note_R(4) note_R(3)] by (simp add: step_failed_def)

lemma after_step_R: "R (rs_db s) (rs_db (snd (after_step io p att steps i st re ans s)))"
  using step_failed_R frame_refl frame_trans [OF note_R(1) note_R(3)] note_R(1) frame_trans [OF note_R(4) note_R(2)]
  by (auto simp: after_step_def step_stopped_def split: prod.split option.split)

lemma with_begun_db [simp]: "rs_db (with_begun i starts s) = rs_db s"
  by (simp add: with_begun_def)

lemma carry_out_R: "R (rs_db s) (rs_db (snd (carry_out io p att pl steps i st s)))"
proof -
  have "R (rs_db s) (rs_db (snd (after_step io p att steps i st re ans (with_begun i starts s))))" for re ans starts
    using after_step_R [of "with_begun i starts s"] by simp
  then show ?thesis using frame_refl by (auto simp: carry_out_def split: prod.split option.split) (metis snd_conv)+
qed

lemma one_step_R: "R (rs_db s) (rs_db (snd (one_step io p att pl steps i st s)))"
proof -
  have "R (rs_db s) (rs_db (skip_step io p att i st s))" by (simp add: skip_step_def writing_def ground_writes)
  then show ?thesis using begin_step_R frame_trans [OF begin_step_R carry_out_R] frame_refl by (auto simp: one_step_def)
qed

lemma run_steps_R: "R (rs_db s) (rs_db (snd (run_steps io p att pl steps i rest s)))"
proof (induction rest arbitrary: i s)
  case Nil
  show ?case using world by (simp add: writing_def)
next
  case (Cons st rest)
  obtain t s' where t: "one_step io p att pl steps i st (writing (ri_world io i) s) = (t, s')" by fastforce
  have "R (rs_db (writing (ri_world io i) s)) (rs_db s')" using one_step_R [of "writing (ri_world io i) s"] t by (metis snd_conv)
  then have "R (rs_db s) (rs_db s')" using frame_trans [OF world] by (simp add: writing_def)
  then show ?case using frame_trans [OF _ Cons.IH] by (simp add: t split: turn.split)
qed

lemma run_execute_R: "R (rs_db s) (rs_db (snd (run_execute sha256 io p att steps kinds resuming s)))"
proof -
  have "R (rs_db s) (rs_db (snd (refuse_resume io p att steps j err s)))" for j err
    using frame_trans [OF ground_writes(2) ground_writes(3)] frame_refl by (simp add: refuse_resume_def note_skipped_def writing_def)
  then show ?thesis using run_steps_R frame_refl by (auto simp: run_execute_def split: prod.split option.split)
qed

end

locale run_frame = step_frame +
  assumes verdict: "R db (writeJobState k now p state err final db)"
    and noted: "R db (noteJobError k p text db)"
    and claim: "R db (snd (claimAttempt k (p_JobID p) db))"
    and world_after: "R db (ri_world_after io db)"
begin

lemma report_run_R: "R db (snd (snd (report_run io p att mx n en s db)))"
proof -
  have "R db (refuseUnevidencedSuccess io p att why db)" for why
    unfolding refuseUnevidencedSuccess_def by (rule frame_trans [OF noted ground_writes(4)])
  then show ?thesis using verdict frame_refl by (auto simp: report_run_def assert_success_def split: verdict.split)
qed

lemma conclude_R: "R (rs_db s) (snd (snd (conclude io p att row mx n en s)))"
  unfolding conclude_def close_run_def
  by (rule frame_trans [OF frame_trans [OF frame_trans [OF world_after ground_writes(5)] ground_writes(4)] report_run_R])

lemma refuse_placement_R: "R db (snd (snd (refuse_placement io p att row err reason tell db)))"
  using frame_trans [OF ground_writes(5) verdict] frame_trans [OF frame_trans [OF ground_writes(5) verdict] ground_writes(4)]
  by (simp add: refuse_placement_def)

lemma placed_R: "R db (snd (snd (placed sha256 io p job kinds att row db)))"
proof -
  obtain en s where ex: "run_execute sha256 io p att (spec_of io job) kinds (resumed_of io p job kinds \<noteq> None) (first_state sha256 io p job kinds att db) = (en, s)" by fastforce
  have "R db (rs_db s)" using run_execute_R [of "first_state sha256 io p job kinds att db"] ex by (metis first_state_def run_state.select_convs(1) snd_conv)
  then show ?thesis using frame_trans [OF _ conclude_R] refuse_placement_R
    unfolding placed_def ex by (auto split: option.split)
qed

lemma run_loaded_R: "R db (snd (snd (run_loaded sha256 io p job kinds db)))"
proof -
  obtain claimed db1 where c: "claimed_of io p (resumed_of io p job kinds) db = (claimed, db1)" by fastforce
  have 1: "R db db1" using c claim [of db "ri_claim io"] frame_refl by (auto simp: claimed_of_def split: option.splits)
  have 2: "R db (snd (openAttempt (ri_open io) (ri_now io) p att db1))" for att by (rule frame_trans [OF 1 ground_writes(6)])
  have 3: "R db (snd (snd (placed sha256 io p job kinds att row (runner_event k now p kind d (snd (openAttempt (ri_open io) (ri_now io) p att db1))))))" for att row k now kind d
    by (rule frame_trans [OF frame_trans [OF 2 ground_writes(4)] placed_R])
  show ?thesis
  proof (cases claimed)
    case (Inr att)
    obtain opened db2 where o: "openAttempt (ri_open io) (ri_now io) p att db1 = (opened, db2)" by fastforce
    show ?thesis using 2 [of att] 3 [of att] o by (simp add: run_loaded_def c Inr split: sum.split)
  qed (use 1 c in \<open>simp add: run_loaded_def\<close>)
qed

lemma Run_R:
  assumes "placement_validate raw = Inr p"
  shows "R db (snd (snd (Run sha256 io raw db)))"
  using run_loaded_R frame_refl by (auto simp: Run_def assms split: sum.split)

end

section \<open>The job's own row\<close>

definition jobs_of :: "placement \<Rightarrow> farm \<Rightarrow> job_row list" where
  "jobs_of p db = filter (\<lambda>j. j_id j = p_JobID p) (jobs db)"

definition holds_lease :: "placement \<Rightarrow> farm \<Rightarrow> bool" where
  "holds_lease p db \<longleftrightarrow> list_ex (\<lambda>l. l_job l = p_JobID p \<and> l_fence l = p_Fence p \<and> is_live l) (leases db)"

definition ckpt_fence :: "job_row \<Rightarrow> int" where
  "ckpt_fence j = (case j_checkpoint j of None \<Rightarrow> 0 | Some c \<Rightarrow> ck_Fence c)"

definition job_verdict :: "job_row \<Rightarrow> job_state \<times> string option \<times> timestamp option" where
  "job_verdict j = (j_state j, j_error j, j_finished_at j)"

lemma jobs_of_ground: "same_ground db db' \<Longrightarrow> jobs_of p db' = jobs_of p db" "same_ground db db' \<Longrightarrow> holds_lease p db' = holds_lease p db"
  by (simp_all add: same_ground_def jobs_of_def holds_lease_def)

lemma leases_writes [simp]:
  "leases (saveCheckpoint k p c db) = leases db" "leases (writeJobState k now p st err fi db) = leases db"
  "leases (noteJobError k p text db) = leases db" "leases (snd (claimAttempt k n db)) = leases db"
  by (auto simp: saveCheckpoint_def checkpointWrite_def writeJobState_def noteJobError_def claimAttempt_def claim_stmt_def logged_eq Let_def
      round_trip_def split: link.splits option.splits sum.splits)

lemma jobs_of_update:
  assumes "\<And>j. P j \<Longrightarrow> j_id j = p_JobID p" and "\<And>j. j_id (f j) = j_id j"
  shows "jobs_of p (db\<lparr>jobs := update_where P f (jobs db)\<rparr>) = update_where P f (jobs_of p db)"
proof -
  have "filter (\<lambda>j. j_id j = p_JobID p) (update_where P f js) = update_where P f (filter (\<lambda>j. j_id j = p_JobID p) js)" for js
    using assms by (induction js) auto
  then show ?thesis by (simp add: jobs_of_def)
qed

lemma jobs_of_saveCheckpoint:
  "jobs_of p (saveCheckpoint k p c db) =
     (if k = LostBefore then jobs_of p db
      else update_where (\<lambda>j. j_id j = p_JobID p \<and> ckpt_fence j \<le> p_Fence p) (\<lambda>j. j\<lparr>j_checkpoint := Some c\<rparr>) (jobs_of p db))"
  unfolding saveCheckpoint_def checkpointWrite_def logged_eq Let_def snd_conv ckpt_fence_def [symmetric]
  by (auto intro: jobs_of_update)

lemma jobs_of_writeJobState:
  "jobs_of p (writeJobState k now p st err fi db) =
     (if k = LostBefore then jobs_of p db
      else update_where (may_write_job p db) (\<lambda>j. j\<lparr>j_state := st, j_error := nullif_empty err, j_finished_at := (if fi then Some now else None)\<rparr>) (jobs_of p db))"
  unfolding writeJobState_def logged_eq snd_conv by (auto intro!: jobs_of_update simp: may_write_job_def)

lemma jobs_of_noteJobError:
  "jobs_of p (noteJobError k p text db) =
     (if k = LostBefore then jobs_of p db else update_where (may_write_job p db) (\<lambda>j. j\<lparr>j_error := Some text\<rparr>) (jobs_of p db))"
  unfolding noteJobError_def logged_eq snd_conv by (auto intro!: jobs_of_update simp: may_write_job_def)

lemma jobs_of_claim:
  "jobs_of p (snd (claimAttempt k (p_JobID p) db)) =
     (if k = LostBefore then jobs_of p db else update_where (\<lambda>j. j_id j = p_JobID p) (\<lambda>j. j\<lparr>j_attempt := j_attempt j + 1\<rparr>) (jobs_of p db))"
proof -
  have "jobs_of p (db\<lparr>jobs := update_where (\<lambda>j. j_id j = p_JobID p) (\<lambda>j. j\<lparr>j_attempt := j_attempt j + 1\<rparr>) (jobs db)\<rparr>) =
    update_where (\<lambda>j. j_id j = p_JobID p) (\<lambda>j. j\<lparr>j_attempt := j_attempt j + 1\<rparr>) (jobs_of p db)" by (rule jobs_of_update) simp_all
  then show ?thesis by (cases k) (auto simp: claimAttempt_def claim_stmt_def round_trip_def split: option.split)
qed

lemma may_write_holds: "may_write_job p db j \<Longrightarrow> holds_lease p db \<and> \<not> job_over (j_state j)"
  by (auto simp: may_write_job_def holds_lease_def list_ex_iff)

text \<open>
  What a run may do to the row: a verdict only while the lease of its fence lives and the job is open,
  a checkpoint only over one of no higher fence, and nothing of what was asked for.
\<close>

definition job_ran :: "placement \<Rightarrow> bool \<Rightarrow> job_row \<Rightarrow> job_row \<Rightarrow> bool" where
  "job_ran p held j j' \<longleftrightarrow>
     (job_verdict j' = job_verdict j \<or> held \<and> \<not> job_over (j_state j)) \<and>
     (j_checkpoint j' = j_checkpoint j \<or> ckpt_fence j \<le> p_Fence p) \<and>
     (j_id j', j_spec j', j_resumable j', j_max_attempts j') = (j_id j, j_spec j, j_resumable j, j_max_attempts j)"

definition ran :: "placement \<Rightarrow> farm \<Rightarrow> farm \<Rightarrow> bool" where
  "ran p db db' \<longleftrightarrow> (holds_lease p db' \<longrightarrow> holds_lease p db) \<and> list_all2 (job_ran p (holds_lease p db)) (jobs_of p db) (jobs_of p db')"

definition stands_by :: "placement \<Rightarrow> (farm \<Rightarrow> farm) \<Rightarrow> bool" where
  "stands_by p f \<longleftrightarrow> (\<forall>db. (holds_lease p (f db) \<longrightarrow> holds_lease p db) \<and> jobs_of p (f db) = jobs_of p db)"

definition steady :: "placement \<Rightarrow> run_io \<Rightarrow> bool" where
  "steady p io \<longleftrightarrow> (\<forall>i. stands_by p (ri_world io i)) \<and> stands_by p (ri_world_after io)"

lemma job_ran_refl [simp]: "job_ran p held j j"
  by (simp add: job_ran_def)

lemma job_ran_trans: "job_ran p held a b \<Longrightarrow> job_ran p held' b c \<Longrightarrow> (held' \<longrightarrow> held) \<Longrightarrow> job_ran p held a c"
  by (auto simp: job_ran_def job_verdict_def ckpt_fence_def split: option.splits)

lemma ran_refl [simp]: "ran p db db"
  by (simp add: ran_def list_all2_same)

lemma ran_trans:
  assumes "ran p a b" and "ran p b c"
  shows "ran p a c"
proof -
  have "list_all2 (job_ran p (holds_lease p a)) (jobs_of p a) (jobs_of p c)"
    by (rule list_all2_trans [of "job_ran p (holds_lease p a)" "job_ran p (holds_lease p b)"])
       (use assms in \<open>auto simp: ran_def intro: job_ran_trans\<close>)
  then show ?thesis using assms by (auto simp: ran_def)
qed

lemma ran_update:
  assumes "jobs_of p db' = (if same then jobs_of p db else update_where P f (jobs_of p db))" and "leases db' = leases db"
    and "\<And>j. P j \<Longrightarrow> job_ran p (holds_lease p db) j (f j)"
  shows "ran p db db'"
  using assms(2,3) list_all2_update [of "job_ran p (holds_lease p db)" "jobs_of p db" P f]
  by (auto simp: ran_def holds_lease_def assms(1) list_all2_same)

lemma ran_writes:
  "ran p db (saveCheckpoint k p c db)" "ran p db (writeJobState k now p st err fi db)" "ran p db (noteJobError k p text db)"
  "ran p db (snd (claimAttempt k (p_JobID p) db))"
  by (rule ran_update [OF jobs_of_saveCheckpoint] ran_update [OF jobs_of_writeJobState] ran_update [OF jobs_of_noteJobError] ran_update [OF jobs_of_claim],
      simp, auto simp: job_ran_def job_verdict_def dest: may_write_holds)+

lemma ran_ground: "same_ground db db' \<Longrightarrow> ran p db db'"
  by (simp add: ran_def jobs_of_ground list_all2_same)

lemma ran_world: "stands_by p f \<Longrightarrow> ran p db (f db)"
  by (simp add: ran_def stands_by_def list_all2_same)

text \<open>Every run: what it does to its job's row, and that it has no hand in any lease.\<close>

interpretation rn: run_frame "\<lambda>db db'. steady p io \<longrightarrow> ran p db db'" p io for p io
proof unfold_locales
  fix a b c
  assume "steady p io \<longrightarrow> ran p a b" and "steady p io \<longrightarrow> ran p b c"
  then show "steady p io \<longrightarrow> ran p a c" using ran_trans by blast
qed (simp_all add: ran_ground ran_writes ran_world steady_def)

interpretation rl: run_frame
  "\<lambda>db db'. (\<forall>i d. leases (ri_world io i d) = leases d) \<and> (\<forall>d. leases (ri_world_after io d) = leases d) \<longrightarrow> leases db' = leases db" p io for p io
  by unfold_locales (auto simp: same_ground_def)

section \<open>A success is evidenced\<close>

definition evidenced :: "placement \<Rightarrow> int \<Rightarrow> int \<Rightarrow> farm \<Rightarrow> bool" where
  "evidenced p att want db \<longleftrightarrow>
     filter stepBeliesSuccess (rows_of db (p_JobID p) att want) = [] \<and> want \<le> int (length (rows_of db (p_JobID p) att want))"

lemma agreement_tries_Some: "agreement_tries ks stopping t n a = Some b \<Longrightarrow> b = a"
  by (induction ks stopping t n a rule: agreement_tries.induct) (auto split: if_splits)

lemma agree_evidenced:
  assumes "attemptStepsAgree ks stopping p att want db = []"
  shows "evidenced p att want db"
proof (cases "agreement_tries ks stopping 1 3 (agreementRead p att want db)")
  case None
  then show ?thesis using assms by (simp add: attemptStepsAgree_def)
next
  case (Some a)
  then have a: "a = agreementRead p att want db" by (rule agreement_tries_Some)
  have "ag_belies a = 0" "want \<le> int (ag_have a)"
    using assms Some by (auto simp: attemptStepsAgree_def split: if_splits)
  then show ?thesis by (simp add: a agreementRead_def Let_def evidenced_def)
qed

definition job_core :: "job_row \<Rightarrow> job_state \<times> spec_step list option \<times> int" where
  "job_core j = (j_state j, j_spec j, j_attempt j)"

lemma core_saveCheckpoint: "map job_core (jobs_of p (saveCheckpoint k p c db)) = map job_core (jobs_of p db)"
  by (simp add: jobs_of_saveCheckpoint) (rule impI, rule map_update_where, simp add: job_core_def)

interpretation kc: step_frame "\<lambda>db db'. steady p io \<longrightarrow> map job_core (jobs_of p db') = map job_core (jobs_of p db)" p io for p io
proof unfold_locales
  fix db db'
  assume "same_ground db db'"
  then show "steady p io \<longrightarrow> map job_core (jobs_of p db') = map job_core (jobs_of p db)" using jobs_of_ground(1) by metis
next
  fix db i
  show "steady p io \<longrightarrow> map job_core (jobs_of p (ri_world io i db)) = map job_core (jobs_of p db)" by (simp add: steady_def stands_by_def)
qed (simp_all add: core_saveCheckpoint)

lemma job_steps_writeJobState [simp]: "job_steps (writeJobState k now p st err fi db) = job_steps db"
  by (simp add: writeJobState_def logged_eq)

lemma in_update_whereD: "x \<in> set (update_where P f xs) \<Longrightarrow> x \<in> set xs \<or> (\<exists>y\<in>set xs. P y \<and> x = f y)"
  by (auto simp: set_update_where)

lemma no_success_write:
  assumes "j' \<in> set (jobs_of p (writeJobState k now p st err fi db))" and "j_state j' = Succeeded" and "\<forall>j\<in>set (jobs_of p db). j_state j \<noteq> Succeeded"
  shows "st = Succeeded \<and> (\<exists>j\<in>set (jobs_of p db). j_spec j' = j_spec j \<and> j_attempt j' = j_attempt j)"
  using assms by (auto simp: jobs_of_writeJobState split: if_splits dest!: in_update_whereD)

lemma conclude_succeeded:
  assumes "steady p io" and old: "\<forall>j\<in>set (jobs_of p (rs_db s)). j_state j \<noteq> Succeeded"
    and res: "conclude io p att row mx n en s = (out, begun, db')" and j': "j' \<in> set (jobs_of p db')" "j_state j' = Succeeded"
  shows "evidenced p att (int n) db' \<and> (\<exists>j\<in>set (jobs_of p (rs_db s)). j_spec j' = j_spec j \<and> j_attempt j' = j_attempt j)"
proof -
  define db2 where "db2 = close_run io p att row en s"
  have "same_ground (ri_world_after io (rs_db s)) db2"
    unfolding db2_def close_run_def by (rule same_ground_trans [OF same_ground_writes(5) same_ground_writes(4)])
  then have jobs2: "jobs_of p db2 = jobs_of p (rs_db s)" using assms(1) by (simp add: jobs_of_ground steady_def stands_by_def)
  have old2: "\<forall>j\<in>set (jobs_of p db2). j_state j \<noteq> Succeeded" using old jobs2 by simp
  let ?why = "attemptStepsAgree (ri_agree io) (ri_stopping io) p att (int n) db2"
  consider (won) "re_State en = StateSucceeded" "?why = []" "db' = writeJobState (ri_state io) (ri_now io) p Succeeded [] False db2"
    | (withheld) "db' = refuseUnevidencedSuccess io p att ?why db2"
    | (lost) st err fi where "db' = writeJobState (ri_state io) (ri_now io) p st err fi db2" "st \<noteq> Succeeded"
    | (left) "db' = db2"
    using res unfolding conclude_def report_run_def assert_success_def db2_def [symmetric] by (auto split: verdict.splits if_splits)
  then show ?thesis
  proof cases
    case won
    then have "evidenced p att (int n) db'" using agree_evidenced [OF won(2)] by (simp add: evidenced_def rows_of_def)
    then show ?thesis using no_success_write [OF j'(1) [unfolded won(3)] j'(2) old2] jobs2 by simp
  next
    case withheld
    then have "j' \<in> set (jobs_of p (noteJobError (ri_note io) p t db2)) \<longrightarrow> False" for t
      using old2 j'(2) by (auto simp: jobs_of_noteJobError split: if_splits dest!: in_update_whereD)
    then show ?thesis using j'(1) unfolding withheld refuseUnevidencedSuccess_def jobs_of_ground(1) [OF same_ground_writes(4)] by blast
  next
    case lost
    then show ?thesis using no_success_write [OF j'(1) [unfolded lost(1)] j'(2) old2] by simp
  next
    case left
    then show ?thesis using j' old2 by simp
  qed
qed

lemma find_filter_one: "filter P xs = [x] \<Longrightarrow> List.find P xs = Some x"
  by (induction xs) (auto split: if_splits)

lemma find_jobs_of: "jobs_of p db = [job] \<Longrightarrow> List.find (\<lambda>j. j_id j = p_JobID p) (jobs db) = Some job"
  unfolding jobs_of_def by (rule find_filter_one)

lemma claimAttempt_one:
  assumes "jobs_of p db = [job]" and "claimAttempt k (p_JobID p) db = (Inr att, db1)"
  shows "att = j_attempt job + 1" and "jobs_of p db1 = [job\<lparr>j_attempt := att\<rparr>]"
proof -
  have "job \<in> set (jobs_of p db)" using assms(1) by simp
  then have id: "j_id job = p_JobID p" by (simp add: jobs_of_def)
  have k: "k = Up" "att = j_attempt job + 1" using assms(2) find_jobs_of [OF assms(1)]
    by (cases k; auto simp: claimAttempt_def claim_stmt_def round_trip_def split: option.splits)+
  then show "att = j_attempt job + 1" by simp
  show "jobs_of p db1 = [job\<lparr>j_attempt := att\<rparr>]" using jobs_of_claim [of p k db] assms k id by simp
qed

lemma refuse_placement_no_success:
  assumes "refuse_placement io p att row err reason tell db = (out, begun, db')" and "\<forall>j\<in>set (jobs_of p db). j_state j \<noteq> Succeeded" and "j' \<in> set (jobs_of p db')"
  shows "j_state j' \<noteq> Succeeded"
proof
  assume su: "j_state j' = Succeeded"
  define db1 where "db1 = closeAttempt (ri_close io) (ri_now io) row StateFailed err db"
  have jobs1: "jobs_of p db1 = jobs_of p db" unfolding db1_def by (rule jobs_of_ground(1) [OF same_ground_writes(5)])
  have "jobs_of p db' = jobs_of p (writeJobState (ri_state io) (ri_now io) p Failed err True db1)"
    using assms(1) jobs_of_ground(1) [OF same_ground_writes(4)] unfolding refuse_placement_def db1_def [symmetric] by (auto split: if_splits)
  then show False using no_success_write [of j' p _ _ Failed err True db1] assms(2,3) su jobs1 by fastforce
qed

text \<open>The ways through \<^const>\<open>run_loaded\<close>.\<close>

lemma run_loaded_cases:
  assumes "run_loaded sha256 io p job kinds db = (out, begun, db')"
  obtains (unclaimed) e where "claimed_of io p (resumed_of io p job kinds) db = (Inl e, db')" "begun = []"
  | (unopened) att db1 where "claimed_of io p (resumed_of io p job kinds) db = (Inr att, db1)" "same_ground db1 db'" "begun = []"
  | (refused) att db1 db3 row err reason tell where "claimed_of io p (resumed_of io p job kinds) db = (Inr att, db1)" "same_ground db1 db3"
      "refuse_placement io p att row err reason tell db3 = (out, begun, db')"
  | (died) att db1 db3 s where "claimed_of io p (resumed_of io p job kinds) db = (Inr att, db1)" "same_ground db1 db3" "spec_err io job kinds = None"
      "run_execute sha256 io p att (spec_of io job) kinds (resumed_of io p job kinds \<noteq> None) (first_state sha256 io p job kinds att db3) = (None, s)"
      "begun = rs_begun s" "db' = rs_db s"
  | (ended) att db1 db3 row en s where "claimed_of io p (resumed_of io p job kinds) db = (Inr att, db1)" "same_ground db1 db3" "spec_err io job kinds = None"
      "run_execute sha256 io p att (spec_of io job) kinds (resumed_of io p job kinds \<noteq> None) (first_state sha256 io p job kinds att db3) = (Some en, s)"
      "conclude io p att row (j_max_attempts job) (length (spec_of io job)) en s = (out, begun, db')"
proof -
  define resumed where "resumed = resumed_of io p job kinds"
  note un = assms [unfolded run_loaded_def resumed_def [symmetric]]
  obtain claimed db1 where c: "claimed_of io p resumed db = (claimed, db1)" by fastforce
  show ?thesis
  proof (cases claimed)
    case (Inl e)
    then show ?thesis using unclaimed c un unfolding resumed_def by simp
  next
    case (Inr att)
    obtain opened db2 where o: "openAttempt (ri_open io) (ri_now io) p att db1 = (opened, db2)" by fastforce
    have g2: "same_ground db1 db2" using same_ground_openAttempt [of db1 "ri_open io" "ri_now io" p att] o by simp
    show ?thesis
    proof (cases opened)
      case (Inl e)
      then show ?thesis using unopened c g2 un Inr o unfolding resumed_def by simp
    next
      case r: (Inr row)
      define db3 where "db3 = runner_event (ri_event io ''job_attempt_started'') (ri_now io) p ''job_attempt_started''
        [(''attempt'', JInt att), (''resumed'', JBool (resumed \<noteq> None)), (''endpoint'', JStr (p_Endpoint p))] db2"
      have g3: "same_ground db1 db3" unfolding db3_def by (rule same_ground_trans [OF g2 same_ground_writes(4)])
      have pl: "placed sha256 io p job kinds att row db3 = (out, begun, db')" using un c Inr o r by (simp add: db3_def)
      obtain en s where ex: "run_execute sha256 io p att (spec_of io job) kinds (resumed_of io p job kinds \<noteq> None) (first_state sha256 io p job kinds att db3) = (en, s)" by fastforce
      consider (no) err reason tell where "refuse_placement io p att row err reason tell db3 = (out, begun, db')"
        | (go) "spec_err io job kinds = None" "(case en of None \<Rightarrow> (None, rs_begun s, rs_db s)
            | Some en \<Rightarrow> conclude io p att row (j_max_attempts job) (length (spec_of io job)) en s) = (out, begun, db')"
        using pl unfolding placed_def ex by (auto split: if_splits option.splits)
      then show ?thesis
      proof cases
        case no
        then show ?thesis using refused c Inr g3 unfolding resumed_def by blast
      next
        case go
        then show ?thesis using died ended c Inr g3 ex unfolding resumed_def by (cases en) auto
      qed
    qed
  qed
qed

lemma run_loaded_succeeded:
  assumes st: "steady p io" and one: "jobs_of p db = [job]" and open': "j_state job \<noteq> Succeeded"
    and again: "\<And>c. j_checkpoint job = Some c \<Longrightarrow> belongsTo c p \<Longrightarrow> ck_Attempt c = j_attempt job"
    and res: "run_loaded sha256 io p job kinds db = (out, begun, db')" and j': "j' \<in> set (jobs_of p db')" "j_state j' = Succeeded"
  shows "evidenced p (j_attempt j') (specSteps j') db'"
proof -
  have claimed: "\<exists>job1. jobs_of p db1 = [job1] \<and> j_attempt job1 = att \<and> j_state job1 \<noteq> Succeeded \<and> j_spec job1 = j_spec job"
    if "claimed_of io p (resumed_of io p job kinds) db = (Inr att, db1)" for att db1
  proof (cases "resumed_of io p job kinds")
    case None
    then show ?thesis using claimAttempt_one [OF one] that open' by (auto simp: claimed_of_def intro!: exI [of _ "job\<lparr>j_attempt := att\<rparr>"])
  next
    case (Some x)
    then have "j_checkpoint job = Some x" "belongsTo x p" by (auto simp: resumed_of_def split: option.splits if_splits)
    then show ?thesis using again Some that one open' by (auto simp: claimed_of_def)
  qed
  from res show ?thesis
  proof (cases rule: run_loaded_cases)
    case (unclaimed e)
    have "jobs_of p db' = jobs_of p (snd (claimAttempt (ri_claim io) (p_JobID p) db))" using unclaimed by (auto simp: claimed_of_def split: option.splits)
    then show ?thesis using one open' j' by (auto simp: jobs_of_claim split: if_splits)
  next
    case (unopened att db1)
    then show ?thesis using claimed [OF unopened(1)] j' jobs_of_ground(1) [OF unopened(2), of p] by auto
  next
    case (refused att db1 db3 row err reason tell)
    have "\<forall>j\<in>set (jobs_of p db3). j_state j \<noteq> Succeeded" using claimed [OF refused(1)] jobs_of_ground(1) [OF refused(2), of p] by auto
    then show ?thesis using refuse_placement_no_success [OF refused(3) _ j'(1)] j'(2) by simp
  next
    case (died att db1 db3 s)
    have "map job_core (jobs_of p (rs_db s)) = map job_core (jobs_of p db3)"
      using kc.run_execute_R [of p io sha256 att _ kinds _ "first_state sha256 io p job kinds att db3"] died(4) st by (metis first_state_def run_state.select_convs(1) snd_conv)
    then have "map job_core (jobs_of p db') = map job_core (jobs_of p db1)" using died(6) jobs_of_ground(1) [OF died(2), of p] by simp
    then show ?thesis using claimed [OF died(1)] j' by (auto simp: job_core_def)
  next
    case (ended att db1 db3 row en s)
    obtain job1 where job1: "jobs_of p db1 = [job1]" "j_attempt job1 = att" "j_state job1 \<noteq> Succeeded" "j_spec job1 = j_spec job"
      using claimed [OF ended(1)] by blast
    have "map job_core (jobs_of p (rs_db s)) = map job_core (jobs_of p db3)"
      using kc.run_execute_R [of p io sha256 att _ kinds _ "first_state sha256 io p job kinds att db3"] ended(4) st by (metis first_state_def run_state.select_convs(1) snd_conv)
    then have core: "map job_core (jobs_of p (rs_db s)) = [job_core job1]" using jobs_of_ground(1) [OF ended(2), of p] job1(1) by simp
    then have old: "\<forall>j\<in>set (jobs_of p (rs_db s)). j_state j \<noteq> Succeeded" using job1(3) by (auto simp: job_core_def)
    have spec: "specSteps j = int (length (spec_of io job))" if "j_spec j = j_spec job1" for j
      using that ended(3) job1(4) by (auto simp: specSteps_def spec_of_def spec_err_def parse_spec_def split: option.splits list.splits)
    have "evidenced p att (int (length (spec_of io job))) db' \<and> (\<exists>j\<in>set (jobs_of p (rs_db s)). j_spec j' = j_spec j \<and> j_attempt j' = j_attempt j)"
      by (rule conclude_succeeded [OF st old ended(5) j'])
    then show ?thesis using core job1(2) spec by (auto simp: job_core_def)
  qed
qed

lemma Run_succeeded:
  assumes "placement_validate raw = Inr p" and "steady p io" and "jobs_of p db = [job]" and "j_state job \<noteq> Succeeded"
    and "\<And>c. j_checkpoint job = Some c \<Longrightarrow> belongsTo c p \<Longrightarrow> ck_Attempt c = j_attempt job"
    and res: "Run sha256 io raw db = (out, begun, db')" and j': "j' \<in> set (jobs_of p db')" "j_state j' = Succeeded"
  shows "\<not> rows_disagree db' j'"
proof -
  have nil: "db' \<noteq> db" using j' assms(3,4) by auto
  then obtain kinds where "run_loaded sha256 io p job kinds db = (out, begun, db')"
    using res find_jobs_of [OF assms(3)] assms(1) by (auto simp: Run_def loadJob_def split: sum.splits if_splits)
  from run_loaded_succeeded [OF assms(2-5) this j'] have ev: "evidenced p (j_attempt j') (specSteps j') db'" by blast
  have "j_id j' = p_JobID p" using j'(1) by (simp add: jobs_of_def)
  then show ?thesis using ev by (simp add: evidenced_def rows_disagree_def count_rows_def Let_def)
qed

end
