(* ===== verification/Run_Once.thy ===== *)
theory Run_Once
  imports Run_Correct
begin

text \<open>
  How often the runs of one placement begin a step that cannot be repeated: the record the plan reads
  is written before the step, so a run that finds a step begun never begins it again.
\<close>

section \<open>The record of progress\<close>

definition tracked :: "spec_step list \<Rightarrow> kind_map \<Rightarrow> int \<Rightarrow> bool" where
  "tracked steps kinds i \<longleftrightarrow> 0 \<le> i \<and> i < int (length steps) \<and> \<not> stepIsIdempotent (steps ! nat i) kinds \<and> ss_kind (steps ! nat i) \<noteq> ''shell_detached''"

definition done_in :: "checkpoint \<Rightarrow> int \<Rightarrow> bool" where
  "done_in c i \<longleftrightarrow> i \<in> set (map fst (ck_Completed c))"

definition knows :: "checkpoint \<Rightarrow> int \<Rightarrow> bool" where
  "knows c i \<longleftrightarrow> done_in c i \<or> (\<exists>name kind. ck_InFlight c = Some (i, name, kind))"

type_synonym progress = "(spec_step list option \<times> bool \<times> checkpoint option \<times> bool) list \<times> step_kind_row list"

definition pview :: "placement \<Rightarrow> farm \<Rightarrow> progress" where
  "pview p db = (map (\<lambda>j. (j_spec j, j_resumable j, j_checkpoint j, 0 \<le> j_attempt j)) (jobs_of p db), step_kinds db)"

definition saved :: "placement \<Rightarrow> spec_step list \<Rightarrow> step_kind_row list \<Rightarrow> (int \<Rightarrow> bool) \<Rightarrow> int list \<Rightarrow> progress \<Rightarrow> bool" where
  "saved p steps ks T B v \<longleftrightarrow>
     (\<exists>ck. v = ([(Some steps, True, ck, True)], ks) \<and> (case ck of None \<Rightarrow> 0 | Some c \<Rightarrow> ck_Fence c) \<le> p_Fence p \<and>
        (\<forall>i\<in>set B. T i \<longrightarrow> (\<exists>c. ck = Some c \<and> belongsTo c p \<and> knows c i)))"

definition keeps_progress :: "placement \<Rightarrow> (farm \<Rightarrow> farm) \<Rightarrow> bool" where
  "keeps_progress p f \<longleftrightarrow> (\<forall>db. pview p (f db) = pview p db)"

definition marks_arrive :: "placement \<Rightarrow> run_io \<Rightarrow> bool" where
  "marks_arrive p io \<longleftrightarrow> (\<forall>i. keeps_progress p (ri_world io i) \<and> ri_mark io i \<noteq> LostBefore) \<and> keeps_progress p (ri_world_after io)"

lemma saved_mono: "saved p steps ks T B v \<Longrightarrow> set B' \<subseteq> set B \<Longrightarrow> saved p steps ks T B' v"
  unfolding saved_def by blast

lemma saved_untracked: "saved p steps ks T B v \<Longrightarrow> \<forall>i\<in>set C. \<not> T i \<Longrightarrow> saved p steps ks T (B @ C) v"
  unfolding saved_def by auto

lemma pview_ground: "same_ground db db' \<Longrightarrow> pview p db' = pview p db"
  by (simp add: pview_def same_ground_def jobs_of_def)

lemma pview_writes [simp]:
  "pview p (recordStepStart k now p' att i st db) = pview p db"
  "pview p (recordStep k now p' att i st state ex output err detail db) = pview p db"
  "pview p (recordSkipped k now p' att steps ended how db) = pview p db"
  "pview p (runner_event k now p' kind detail db) = pview p db"
  "pview p (closeAttempt k now n v err db) = pview p db"
  by (rule pview_ground, simp)+

lemma step_kinds_writes [simp]:
  "step_kinds (saveCheckpoint k p c db) = step_kinds db" "step_kinds (writeJobState k now p st err fi db) = step_kinds db"
  "step_kinds (noteJobError k p text db) = step_kinds db" "step_kinds (snd (claimAttempt k n db)) = step_kinds db"
  by (auto simp: saveCheckpoint_def checkpointWrite_def writeJobState_def noteJobError_def claimAttempt_def claim_stmt_def logged_eq Let_def
      round_trip_def split: link.splits option.splits sum.splits)

lemma pview_verdict [simp]:
  "pview p (writeJobState k now p st err fi db) = pview p db" "pview p (noteJobError k p text db) = pview p db"
  by (auto simp: pview_def jobs_of_writeJobState jobs_of_noteJobError intro!: map_update_where)

lemma map_singleD: "map f xs = [y] \<Longrightarrow> \<exists>x. xs = [x] \<and> f x = y"
  by (cases xs) auto

text \<open>A checkpoint of this placement that arrives is the one the database has.\<close>

lemma saved_save:
  assumes "saved p steps ks T B (pview p db)" and "belongsTo c p" and "\<And>i. i \<in> set B' \<Longrightarrow> T i \<Longrightarrow> knows c i" and "set B' \<subseteq> set B \<or> k \<noteq> LostBefore"
  shows "saved p steps ks T B' (pview p (saveCheckpoint k p c db))"
proof (cases "k = LostBefore")
  case True
  then have "pview p (saveCheckpoint k p c db) = pview p db" by (simp add: pview_def jobs_of_saveCheckpoint)
  then show ?thesis using saved_mono [OF assms(1)] assms(4) True by simp
next
  case False
  from assms(1) obtain ck where v: "pview p db = ([(Some steps, True, ck, True)], ks)" and fence: "(case ck of None \<Rightarrow> 0 | Some c \<Rightarrow> ck_Fence c) \<le> p_Fence p"
    by (auto simp: saved_def)
  then obtain j where j: "jobs_of p db = [j]" "j_spec j = Some steps" "j_resumable j" "j_checkpoint j = ck" "0 \<le> j_attempt j" and ks: "step_kinds db = ks"
    by (auto simp: pview_def)
  have "j \<in> set (jobs_of p db)" using j(1) by simp
  then have "j_id j = p_JobID p" by (simp add: jobs_of_def)
  moreover have "ckpt_fence j \<le> p_Fence p" using fence j(4) by (simp add: ckpt_fence_def)
  ultimately have "pview p (saveCheckpoint k p c db) = ([(Some steps, True, Some c, True)], ks)"
    using False j ks by (simp add: pview_def jobs_of_saveCheckpoint)
  then show ?thesis using assms(2,3) by (auto simp: saved_def belongsTo_def)
qed

lemma marks [simp]:
  "belongsTo (markInFlight i st c) p = belongsTo c p" "belongsTo (markDone i st c) p = belongsTo c p"
  "done_in (markInFlight i st c) j = done_in c j" "done_in (markDone i st c) j = (j = i \<or> done_in c j)"
  by (auto simp: markInFlight_def markDone_def belongsTo_def done_in_def list_ex_iff)

lemma knows_mark [simp]: "knows (markInFlight i st c) j = (j = i \<or> done_in c j)"
  by (auto simp: knows_def done_in_def markInFlight_def)

lemma knows_done: "knows (markDone i st c) j = (j = i \<or> done_in c j)"
  unfolding knows_def marks by (auto simp: markDone_def)

section \<open>The loop\<close>

definition going :: "placement \<Rightarrow> spec_step list \<Rightarrow> step_kind_row list \<Rightarrow> (int \<Rightarrow> bool) \<Rightarrow> int list \<Rightarrow> run_state \<Rightarrow> bool" where
  "going p steps ks T P s \<longleftrightarrow>
     belongsTo (rs_ckpt s) p \<and> saved p steps ks T (P @ rs_begun s) (pview p (rs_db s)) \<and>
     (\<forall>j\<in>set (P @ rs_begun s). T j \<longrightarrow> done_in (rs_ckpt s) j)"

text \<open>After the write that comes before a step, the step may begin.\<close>

lemma begin_step_saved:
  assumes "going p steps ks T P s" and "marks_arrive p io" and "T (int i) \<longrightarrow> \<not> plan_idempotent pl i"
    and s'_def: "s' = begin_step io p att pl i st s"
  shows "belongsTo (rs_ckpt s') p" and "saved p steps ks T (P @ rs_begun s @ [int i]) (pview p (rs_db s'))"
    and "\<forall>j\<in>set (P @ rs_begun s). T j \<longrightarrow> done_in (rs_ckpt s') j" and "rs_begun s' = rs_begun s"
proof -
  have g: "belongsTo (rs_ckpt s) p" "saved p steps ks T (P @ rs_begun s) (pview p (rs_db s))" "\<forall>j\<in>set (P @ rs_begun s). T j \<longrightarrow> done_in (rs_ckpt s) j"
    using assms(1) unfolding going_def by blast+
  show "belongsTo (rs_ckpt s') p" "\<forall>j\<in>set (P @ rs_begun s). T j \<longrightarrow> done_in (rs_ckpt s') j" "rs_begun s' = rs_begun s"
    using g(1,3) by (auto simp: s'_def begin_step_def mark_step_def save_progress_def writing_def)
  show "saved p steps ks T (P @ rs_begun s @ [int i]) (pview p (rs_db s'))"
  proof (cases "plan_idempotent pl i")
    case True
    then show ?thesis using saved_untracked [OF g(2), of "[int i]"] assms(3) by (simp add: s'_def begin_step_def mark_step_def writing_def)
  next
    case False
    have "saved p steps ks T (P @ rs_begun s @ [int i]) (pview p (saveCheckpoint (ri_mark io i) p (markInFlight (int i) st (rs_ckpt s)) (rs_db s)))"
      by (rule saved_save [OF g(2)]) (use g(1,3) assms(2) in \<open>auto simp: marks_arrive_def\<close>)
    then show ?thesis using False by (simp add: s'_def begin_step_def mark_step_def save_progress_def writing_def)
  qed
qed

lemma note_done_saved:
  assumes "belongsTo (rs_ckpt s) p" and "saved p steps ks T B (pview p (rs_db s))" and "\<forall>j\<in>set B. T j \<longrightarrow> j = int i \<or> done_in (rs_ckpt s) j"
  shows "belongsTo (rs_ckpt (note_done io p i st s)) p" and "saved p steps ks T B (pview p (rs_db (note_done io p i st s)))"
    and "\<forall>j\<in>set B. T j \<longrightarrow> done_in (rs_ckpt (note_done io p i st s)) j" and "rs_begun (note_done io p i st s) = rs_begun s"
proof -
  have "saved p steps ks T B (pview p (saveCheckpoint (ri_done io i) p (markDone (int i) st (rs_ckpt s)) (rs_db s)))"
    by (rule saved_save [OF assms(2)]) (use assms in \<open>auto simp: knows_done\<close>)
  then show "saved p steps ks T B (pview p (rs_db (note_done io p i st s)))" by (simp add: note_done_def save_progress_def)
qed (use assms in \<open>auto simp: note_done_def save_progress_def\<close>)

lemma note_same [simp]:
  "pview p (rs_db (note_step io p' att i st state r err detail s)) = pview p (rs_db s)" "rs_ckpt (note_step io p' att i st state r err detail s) = rs_ckpt s"
  "rs_begun (note_step io p' att i st state r err detail s) = rs_begun s"
  "pview p (rs_db (note_skipped io p' att steps n how s)) = pview p (rs_db s)" "rs_begun (note_skipped io p' att steps n how s) = rs_begun s"
  by (simp_all add: note_step_def note_skipped_def writing_def)

lemma count_same [simp]: "rs_db (count_step s) = rs_db s" "rs_ckpt (count_step s) = rs_ckpt s" "rs_begun (count_step s) = rs_begun s"
  by (simp_all add: count_step_def)

lemma step_failed_saved:
  assumes "belongsTo (rs_ckpt s) p" and "saved p steps ks T B (pview p (rs_db s))" and "\<forall>j\<in>set B. T j \<longrightarrow> j = int i \<or> done_in (rs_ckpt s) j"
    and "step_failed io p att sl i st r what detail s = (en, s')"
  shows "rs_begun s' = rs_begun s \<and> saved p steps ks T B (pview p (rs_db s')) \<and>
    (en = None \<longrightarrow> belongsTo (rs_ckpt s') p \<and> (\<forall>j\<in>set B. T j \<longrightarrow> done_in (rs_ckpt s') j))"
proof -
  let ?s = "\<lambda>d. note_step io p att i st StepFailed r what d (count_step s)"
  have s1: "belongsTo (rs_ckpt (?s d)) p" "saved p steps ks T B (pview p (rs_db (?s d)))" "\<forall>j\<in>set B. T j \<longrightarrow> j = int i \<or> done_in (rs_ckpt (?s d)) j" for d
    using assms(1-3) by simp_all
  show ?thesis
  proof (cases "ss_continue st")
    case True
    then show ?thesis using assms(4) note_done_saved [OF s1] by (auto simp: step_failed_def)
  next
    case False
    then show ?thesis using assms(2,4) by (auto simp: step_failed_def)
  qed
qed

lemma after_step_saved:
  assumes "belongsTo (rs_ckpt s) p" and "saved p steps ks T B (pview p (rs_db s))" and "\<forall>j\<in>set B. T j \<longrightarrow> j = int i \<or> done_in (rs_ckpt s) j"
    and "after_step io p att sl i st re ans s = (en, s')" and "\<not> (fst ans = None \<and> snd (snd ans) = None)"
  shows "rs_begun s' = rs_begun s \<and> saved p steps ks T B (pview p (rs_db s')) \<and>
    (en = None \<longrightarrow> belongsTo (rs_ckpt s') p \<and> (\<forall>j\<in>set B. T j \<longrightarrow> done_in (rs_ckpt s') j))"
proof -
  obtain r retries err where ans: "ans = (r, retries, err)" by (metis prod_cases3)
  consider (failed) what where "step_failed io p att sl i st r what (step_detail_of retries re r) s = (en, s')"
    | (aborted) state msg en' where "en = Some en'" "s' = note_step io p att i st state r msg (step_detail_of retries re r) s \<or>
        s' = note_skipped io p att sl (int i) EndedByStop (note_step io p att i st state r msg (step_detail_of retries re r) s)"
    | (ok) "en = None" "s' = note_done io p i st (note_step io p att i st StepOk r [] (step_detail_of retries re r) (count_step s))"
    using assms(4,5) unfolding after_step_def step_stopped_def ans by (auto split: option.splits if_splits)
  then show ?thesis
  proof cases
    case failed
    then show ?thesis using step_failed_saved [OF assms(1-3)] by simp
  next
    case aborted
    then show ?thesis using assms(2) by auto
  next
    case ok
    let ?s = "note_step io p att i st StepOk r [] (step_detail_of retries re r) (count_step s)"
    have "belongsTo (rs_ckpt ?s) p" "saved p steps ks T B (pview p (rs_db ?s))" "\<forall>j\<in>set B. T j \<longrightarrow> j = int i \<or> done_in (rs_ckpt ?s) j"
      using assms(1-3) by simp_all
    from note_done_saved [OF this] show ?thesis unfolding ok by simp
  qed
qed

lemma one_step_saved:
  assumes "marks_arrive p io" and plan: "\<forall>i. T i \<longrightarrow> \<not> plan_idempotent pl (nat i)" and g1: "going p steps ks T P s"
    and b1: "\<forall>j\<in>set (rs_begun s). j < int i \<and> j \<notin> set (rp_skip pl)" "distinct (rs_begun s)" and res: "one_step io p att pl sl i st s = (t, s')"
  shows "saved p steps ks T (P @ rs_begun s') (pview p (rs_db s'))" and "distinct (rs_begun s')"
    and "\<forall>j\<in>set (rs_begun s'). j < int (i + 1) \<and> j \<notin> set (rp_skip pl)" and "t = Onward \<longrightarrow> going p steps ks T P s'"
proof -
  define s2 where "s2 = begin_step io p att pl i st s"
  have T: "T (int i) \<longrightarrow> \<not> plan_idempotent pl i" using plan by (metis nat_int)
  note b = begin_step_saved [OF g1 assms(1) T s2_def]
  have s2: "saved p steps ks T (P @ rs_begun s2) (pview p (rs_db s2))" by (rule saved_mono [OF b(2)]) (use b(4) in auto)
  consider (early) "t \<noteq> Onward" "s' = s" | (skip) "t = Onward" "s' = skip_step io p att i st s" | (starting) "t \<noteq> Onward" "s' = s2"
    | (out) "int i \<notin> set (rp_skip pl)" "carry_out io p att pl sl i st s2 = (t, s')"
    using res unfolding one_step_def s2_def [symmetric] by (auto split: if_splits)
  then have "saved p steps ks T (P @ rs_begun s') (pview p (rs_db s')) \<and> distinct (rs_begun s') \<and>
      (\<forall>j\<in>set (rs_begun s'). j < int (i + 1) \<and> j \<notin> set (rp_skip pl)) \<and> (t = Onward \<longrightarrow> going p steps ks T P s')"
  proof cases
    case early
    then show ?thesis using g1 b1 by (auto simp: going_def)
  next
    case skip
    then show ?thesis using g1 b1 by (auto simp: going_def skip_step_def writing_def)
  next
    case starting
    then show ?thesis using s2 b(4) b1 by auto
  next
    case out
    obtain starts ended where run: "runStep (int i \<in> set (rp_reattach pl)) (ri_tries io i) 0 None 0 = (starts, ended)" by fastforce
    define s3 where "s3 = with_begun i starts s2"
    have sub: "set (P @ rs_begun s3) \<subseteq> set (P @ rs_begun s @ [int i])" using b(4) by (auto simp: s3_def with_begun_def)
    have s3: "belongsTo (rs_ckpt s3) p" "saved p steps ks T (P @ rs_begun s3) (pview p (rs_db s3))"
      "\<forall>j\<in>set (P @ rs_begun s3). T j \<longrightarrow> j = int i \<or> done_in (rs_ckpt s3) j"
      using b(1,3) saved_mono [OF b(2) sub] b(4) by (auto simp: s3_def with_begun_def)
    have begun3: "distinct (rs_begun s3)" "\<forall>j\<in>set (rs_begun s3). j < int (i + 1) \<and> j \<notin> set (rp_skip pl)"
      using b1 b(4) out(1) by (auto simp: s3_def with_begun_def)
    consider (died) "t \<noteq> Onward" "s' = s3"
      | (after) ans en where "\<not> (fst ans = None \<and> snd (snd ans) = None)" "after_step io p att sl i st (int i \<in> set (rp_reattach pl)) ans s3 = (en, s')"
          "t = Onward \<longrightarrow> en = None"
    proof (cases "\<exists>ans. ended = Some ans \<and> \<not> (fst ans = None \<and> snd (snd ans) = None)")
      case True
      then obtain ans where ans: "ended = Some ans" "\<not> (fst ans = None \<and> snd (snd ans) = None)" by blast
      obtain en s4 where a: "after_step io p att sl i st (int i \<in> set (rp_reattach pl)) ans s3 = (en, s4)" by fastforce
      have "s' = s4 \<and> (t = Onward \<longrightarrow> en = None)"
        using out(2) ans a unfolding carry_out_def run prod.case s3_def [symmetric] by (cases en) auto
      then show ?thesis using that(2) [OF ans(2)] a by simp
    next
      case False
      then show ?thesis using that(1) out(2) unfolding carry_out_def run prod.case s3_def [symmetric] by (auto split: option.splits if_splits)
    qed
    then show ?thesis
    proof cases
      case died
      then show ?thesis using s3(2) begun3 by auto
    next
      case after
      then show ?thesis using after_step_saved [OF s3 after(2,1)] begun3 by (auto simp: going_def)
    qed
  qed
  then show "saved p steps ks T (P @ rs_begun s') (pview p (rs_db s'))" and "distinct (rs_begun s')"
    and "\<forall>j\<in>set (rs_begun s'). j < int (i + 1) \<and> j \<notin> set (rp_skip pl)" and "t = Onward \<longrightarrow> going p steps ks T P s'" by blast+
qed

lemma run_steps_saved:
  assumes "marks_arrive p io" and plan: "\<forall>i. T i \<longrightarrow> \<not> plan_idempotent pl (nat i)"
  shows "going p steps ks T P s \<Longrightarrow> \<forall>j\<in>set (rs_begun s). j < int i \<and> j \<notin> set (rp_skip pl) \<Longrightarrow> distinct (rs_begun s) \<Longrightarrow>
    run_steps io p att pl sl i rest s = (en, s') \<Longrightarrow>
    saved p steps ks T (P @ rs_begun s') (pview p (rs_db s')) \<and> distinct (rs_begun s') \<and> (\<forall>j\<in>set (rs_begun s'). j \<notin> set (rp_skip pl))"
proof (induction rest arbitrary: i s)
  case Nil
  then show ?case using assms(1) by (auto simp: going_def writing_def marks_arrive_def keeps_progress_def)
next
  case (Cons st rest)
  define s1 where "s1 = writing (ri_world io i) s"
  have g1: "going p steps ks T P s1" "rs_begun s1 = rs_begun s"
    using Cons.prems(1) assms(1) by (simp_all add: s1_def writing_def going_def marks_arrive_def keeps_progress_def)
  obtain t s2 where t: "one_step io p att pl sl i st s1 = (t, s2)" by fastforce
  note one = one_step_saved [OF assms(1) plan g1(1) _ _ t]
  have b: "\<forall>j\<in>set (rs_begun s1). j < int i \<and> j \<notin> set (rp_skip pl)" "distinct (rs_begun s1)" using g1(2) Cons.prems(2,3) by simp_all
  show ?case
  proof (cases t)
    case Onward
    then have "run_steps io p att pl sl (i + 1) rest s2 = (en, s')" using Cons.prems(4) t by (simp add: s1_def)
    then show ?thesis using Cons.IH [of s2 "i + 1"] one [OF b] Onward by blast
  qed (use one [OF b] Cons.prems(4) t in \<open>auto simp: s1_def\<close>)
qed

section \<open>The plan\<close>

lemma completed_skips_all: "completed_skips steps ds skip = (sk, None) \<Longrightarrow> sk = skip @ map fst ds"
  by (induction steps ds skip rule: completed_skips.induct) (auto split: if_splits)

lemma planResume_fresh: "planResume sha256 steps c kinds False = (pl, None) \<Longrightarrow> rp_skip pl = [] \<and> rp_idem pl = map (\<lambda>st. stepIsIdempotent st kinds) steps"
  by (auto simp: planResume_def Let_def)

lemma planResume_accepts:
  assumes "planResume sha256 steps c kinds True = (pl, None)"
  shows "rp_idem pl = map (\<lambda>st. stepIsIdempotent st kinds) steps" and "rp_skip pl = map fst (ck_Completed c)"
    and "tracked steps kinds i \<Longrightarrow> knows c i \<Longrightarrow> i \<in> set (rp_skip pl)"
proof -
  obtain sk e where sk: "completed_skips steps (ck_Completed c) [] = (sk, e)" by fastforce
  have e: "e = None" using assms sk by (auto simp: planResume_def Let_def split: if_splits option.splits)
  then have all: "sk = map fst (ck_Completed c)" using completed_skips_all sk by fastforce
  show idem: "rp_idem pl = map (\<lambda>st. stepIsIdempotent st kinds) steps" and skip: "rp_skip pl = map fst (ck_Completed c)"
    using assms sk e all by (auto simp: planResume_def Let_def split: if_splits option.splits)
  assume t: "tracked steps kinds i" and "knows c i"
  then consider "done_in c i" | name kind where "ck_InFlight c = Some (i, name, kind)" unfolding knows_def by blast
  then show "i \<in> set (rp_skip pl)"
  proof cases
    case 1
    then show ?thesis by (simp add: skip done_in_def)
  next
    case 2
    then show ?thesis using assms t sk e all skip
      by (auto simp: planResume_def Let_def tracked_def plan_idempotent_def split: if_splits)
  qed
qed

lemma plan_tracked:
  assumes "rp_idem pl = map (\<lambda>st. stepIsIdempotent st kinds) steps" and "tracked steps kinds i"
  shows "\<not> plan_idempotent pl (nat i)"
  using assms by (auto simp: tracked_def plan_idempotent_def)

section \<open>Runs\<close>

definition once :: "(int \<Rightarrow> bool) \<Rightarrow> int list \<Rightarrow> int list \<Rightarrow> bool" where
  "once T P B \<longleftrightarrow> distinct B \<and> (\<forall>j\<in>set B. T j \<longrightarrow> j \<notin> set P)"

lemma once_Nil [simp]: "once T P []"
  by (simp add: once_def)

lemma pview_refuse:
  assumes "refuse_placement io p att row err reason tell db = (out, begun, db')"
  shows "begun = [] \<and> pview p db' = pview p db"
  using assms by (auto simp: refuse_placement_def)

lemma pview_conclude:
  assumes "conclude io p att row mx n en s = (out, begun, db')" and "marks_arrive p io"
  shows "begun = rs_begun s \<and> pview p db' = pview p (rs_db s)"
  using assms by (auto simp: conclude_def report_run_def assert_success_def close_run_def refuseUnevidencedSuccess_def marks_arrive_def keeps_progress_def split: verdict.splits if_splits)

lemma run_execute_saved:
  assumes "marks_arrive p io" and sv: "saved p steps ks (tracked steps kinds) P (pview p (rs_db s))" and s: "belongsTo (rs_ckpt s) p" "rs_begun s = []"
    and fresh: "\<not> resuming \<longrightarrow> (\<forall>j\<in>set P. \<not> tracked steps kinds j)" and again: "resuming \<longrightarrow> (\<forall>j\<in>set P. tracked steps kinds j \<longrightarrow> knows (rs_ckpt s) j)"
    and ex: "run_execute sha256 io p att steps kinds resuming s = (en, s')"
  shows "saved p steps ks (tracked steps kinds) (P @ rs_begun s') (pview p (rs_db s')) \<and> once (tracked steps kinds) P (rs_begun s')"
proof -
  obtain pl e where pl: "planResume sha256 steps (rs_ckpt s) kinds resuming = (pl, e)" by fastforce
  have same: ?thesis if "pview p (rs_db s') = pview p (rs_db s)" "rs_begun s' = []" using that sv by simp
  show ?thesis
  proof (cases "e = None \<and> prepare io = Some None")
    case False
    then show ?thesis using ex s(2) by (intro same) (auto simp: run_execute_def pl refuse_resume_def note_skipped_def writing_def split: option.splits)
  next
    case True
    then have run: "run_steps io p att pl steps 0 steps s = (en, s')" using ex pl by (simp add: run_execute_def)
    have idem: "rp_idem pl = map (\<lambda>st. stepIsIdempotent st kinds) steps"
      using pl True planResume_fresh planResume_accepts(1) by (cases resuming) auto
    have skip: "\<forall>j\<in>set P. tracked steps kinds j \<longrightarrow> j \<in> set (rp_skip pl) \<and> done_in (rs_ckpt s) j"
    proof (cases resuming)
      case r: True
      then have pr: "planResume sha256 steps (rs_ckpt s) kinds True = (pl, None)" using pl True by simp
      show ?thesis using again r planResume_accepts(3) [OF pr] planResume_accepts(2) [OF pr] by (auto simp: done_in_def)
    qed (use fresh in blast)
    then have "going p steps ks (tracked steps kinds) P s" using sv s by (simp add: going_def)
    moreover have "\<forall>i. tracked steps kinds i \<longrightarrow> \<not> plan_idempotent pl (nat i)" using plan_tracked [OF idem] by blast
    ultimately show ?thesis using run_steps_saved [OF assms(1) _ _ _ _ run] s(2) skip by (auto simp: once_def)
  qed
qed

lemma checkKinds_parsed: "spec_err io job kinds = None \<Longrightarrow> j_spec job = Some (spec_of io job)"
  by (auto simp: spec_err_def spec_of_def parse_spec_def split: option.splits list.splits)

lemma Run_once:
  assumes val: "placement_validate raw = Inr p" and arr: "marks_arrive p io" and sv: "saved p steps ks T P (pview p db)"
    and T: "T = tracked steps (map_of (map (\<lambda>k. (sk_kind k, (sk_idempotent k, sk_needs_artifact k))) ks))"
    and res: "Run sha256 io raw db = (out, begun, db')"
  shows "saved p steps ks T (P @ begun) (pview p db') \<and> once T P begun"
proof -
  from sv obtain ck where v: "pview p db = ([(Some steps, True, ck, True)], ks)" and cov: "\<forall>i\<in>set P. T i \<longrightarrow> (\<exists>c. ck = Some c \<and> belongsTo c p \<and> knows c i)"
    by (auto simp: saved_def)
  then obtain job where job: "jobs_of p db = [job]" "j_spec job = Some steps" "j_resumable job" "j_checkpoint job = ck" "0 \<le> j_attempt job" and ks: "step_kinds db = ks"
    by (auto simp: pview_def)
  have same: ?thesis if "begun = []" "pview p db' = pview p db" using that sv by simp
  have kinds: "kinds_of db = map_of (map (\<lambda>k. (sk_kind k, (sk_idempotent k, sk_needs_artifact k))) ks)" by (simp add: kinds_of_def ks)
  have TK: "T = tracked steps (kinds_of db)" by (simp only: T kinds)
  consider (out) "begun = []" "db' = db" | (loaded) "run_loaded sha256 io p job (kinds_of db) db = (out, begun, db')"
    using res find_jobs_of [OF job(1)] val by (auto simp: Run_def loadJob_def loadKinds_def split: if_splits)
  then show ?thesis
  proof cases
    case out
    then show ?thesis using same by simp
  next
    case loaded
    have claimed: "pview p db1 = pview p db \<and> att > 0 \<and> (resumed_of io p job (kinds_of db) = None \<or> (\<exists>c. ck = Some c \<and> resumed_of io p job (kinds_of db) = Some c \<and> belongsTo c p))"
      if "claimed_of io p (resumed_of io p job (kinds_of db)) db = (Inr att, db1)" for att db1
    proof (cases "resumed_of io p job (kinds_of db)")
      case None
      then have cl: "claimAttempt (ri_claim io) (p_JobID p) db = (Inr att, db1)" using that by (simp add: claimed_of_def)
      then have "step_kinds db1 = step_kinds db" by (metis snd_conv step_kinds_writes(4))
      then show ?thesis using None claimAttempt_one [OF job(1) cl] job by (simp add: pview_def)
    next
      case (Some c)
      then have "ck = Some c" "belongsTo c p" using job(4) by (auto simp: resumed_of_def split: option.splits if_splits)
      then show ?thesis using Some that by (auto simp: claimed_of_def belongsTo_def)
    qed
    have ran: "saved p steps ks T (P @ rs_begun s) (pview p (rs_db s)) \<and> once T P (rs_begun s)"
      if c: "claimed_of io p (resumed_of io p job (kinds_of db)) db = (Inr att, db1)" and g: "same_ground db1 db3" and e: "spec_err io job (kinds_of db) = None"
        and ex: "run_execute sha256 io p att (spec_of io job) (kinds_of db) (resumed_of io p job (kinds_of db) \<noteq> None)
          (first_state sha256 io p job (kinds_of db) att db3) = (en, s)" for att db1 db3 en s
    proof -
      have spec: "spec_of io job = steps" using checkKinds_parsed [OF e] job(2) by simp
      have fresh: "resumed_of io p job (kinds_of db) = None \<longrightarrow> (\<forall>j\<in>set P. \<not> T j)"
        using cov e job(3,4) by (auto simp: resumed_of_def split: option.splits)
      define s0 where "s0 = first_state sha256 io p job (kinds_of db) att db3"
      have "saved p steps ks T P (pview p (rs_db s0))" using sv claimed [OF c] pview_ground [OF g] by (simp add: s0_def first_state_def)
      then have a: "saved p steps ks (tracked steps (kinds_of db)) P (pview p (rs_db s0))" by (simp add: TK)
      have b: "belongsTo (rs_ckpt s0) p" "rs_begun s0 = []"
        using claimed [OF c] by (auto simp: s0_def first_state_def newCheckpoint_def belongsTo_def split: option.splits)
      have f: "\<not> resumed_of io p job (kinds_of db) \<noteq> None \<longrightarrow> (\<forall>j\<in>set P. \<not> tracked steps (kinds_of db) j)" using fresh by (simp add: TK)
      have r: "resumed_of io p job (kinds_of db) \<noteq> None \<longrightarrow> (\<forall>j\<in>set P. tracked steps (kinds_of db) j \<longrightarrow> knows (rs_ckpt s0) j)"
        using claimed [OF c] cov by (auto simp: s0_def first_state_def TK)
      show ?thesis using run_execute_saved [OF arr a b f r ex [unfolded spec, folded s0_def]] by (simp add: TK)
    qed
    from loaded show ?thesis
    proof (cases rule: run_loaded_cases)
      case (unclaimed e)
      have cl: "claimAttempt (ri_claim io) (p_JobID p) db = (Inl e, db')" using unclaimed by (auto simp: claimed_of_def split: option.splits)
      then have "db' = snd (claimAttempt (ri_claim io) (p_JobID p) db)" by simp
      then have "pview p db' = pview p db" using job by (auto simp: pview_def jobs_of_claim)
      then show ?thesis using same unclaimed(2) by simp
    next
      case (unopened att db1)
      then show ?thesis using same claimed [OF unopened(1)] pview_ground [OF unopened(2)] by simp
    next
      case (refused att db1 db3 row err reason tell)
      then show ?thesis using same pview_refuse [OF refused(3)] claimed [OF refused(1)] pview_ground [OF refused(2)] by simp
    next
      case (died att db1 db3 s)
      then show ?thesis using ran [OF died(1-4)] by simp
    next
      case (ended att db1 db3 row en s)
      then show ?thesis using ran [OF ended(1-4)] pview_conclude [OF ended(5) arr] by simp
    qed
  qed
qed

lemma placements_once:
  assumes "placement_validate raw = Inr p" and T: "T = tracked steps (map_of (map (\<lambda>k. (sk_kind k, (sk_idempotent k, sk_needs_artifact k))) ks))"
  shows "\<forall>(world, io)\<in>set runs. keeps_progress p world \<and> marks_arrive p io \<Longrightarrow> saved p steps ks T P (pview p db) \<Longrightarrow> distinct (filter T P) \<Longrightarrow>
    distinct (filter T (P @ fst (placements sha256 raw runs db)))"
proof (induction runs arbitrary: db P)
  case (Cons r runs)
  obtain world io where r: "r = (world, io)" by fastforce
  obtain out begun db' where run: "Run sha256 io raw (world db) = (out, begun, db')" by (metis prod_cases3)
  have w: "saved p steps ks T P (pview p (world db))" using Cons.prems(1,2) by (simp add: r keeps_progress_def)
  have arr: "marks_arrive p io" using Cons.prems(1) by (simp add: r)
  note one = Run_once [OF assms(1) arr w T run]
  then have "distinct (filter T (P @ begun))" using Cons.prems(3) by (auto simp: once_def)
  then show ?case using Cons.IH [of "P @ begun" db'] one Cons.prems(1) by (auto simp: r run split: prod.splits)
qed simp

end
