(* ===== verification/Work_Properties.thy ===== *)
theory Work_Properties
  imports Run_Once Farm_Example
begin

text \<open>
  The properties of the job runner and of the sweeper of dead work, with the inputs of their witnesses:
  the example farm's job on its device, a run that ends, a run that dies in the middle of a step, and a
  farm whose process is gone.
\<close>

section \<open>Inputs\<close>

definition ex_raw :: raw_placement where
  "ex_raw = \<lparr>rp_JobID = Some 20, rp_LeaseID = Some 30, rp_Fence = 1, rp_DeviceID = Some 10, rp_SlotID = Some 1, rp_Devpath = ''usb:3-1.4'',
     rp_Endpoint = ''10.0.0.1:5037''\<rparr>"

definition ex_place :: placement where
  "ex_place = \<lparr>p_JobID = 20, p_LeaseID = Some 30, p_Fence = 1, p_DeviceID = 10, p_SlotID = Some 1, p_Endpoint = ''10.0.0.1:5037''\<rparr>"

definition ex_ok :: one_try where
  "ex_ok = \<lparr>t_probe = Absent, t_exec = (Some \<lparr>res_ExitCode = Some 0, res_Output = [], res_Failure = [], res_Detail = []\<rparr>, None), t_after = None, t_pause = None\<rparr>"

definition ex_cut :: one_try where
  "ex_cut = ex_ok\<lparr>t_exec := (None, Some (Plain ''shell stream ended without an exit status''))\<rparr>"

text \<open>Every call but the announcements goes through and every step answers.\<close>

definition ex_run :: run_io where
  "ex_run = \<lparr>ri_now = minutes 1, ri_load = Up, ri_kinds = Up, ri_parse_error = None, ri_claim = Up, ri_open = Up, ri_event = \<lambda>_. LostBefore, ri_close = Up,
     ri_state = Up, ri_note = Up, ri_agree = \<lambda>_. Up, ri_stopping = \<lambda>_. False, ri_work_dir = ''/data/local/tmp/device-farmer/20'', ri_work_root = ''/data/local/tmp/device-farmer'', ri_prepare = [ex_ok],
     ri_prepare_abort = None, ri_prepare_fenced = False, ri_refused = Up, ri_skips = Up, ri_mark = \<lambda>_. Up, ri_start = \<lambda>_. Up, ri_end = \<lambda>_. Up,
     ri_done = \<lambda>_. Up, ri_tries = \<lambda>_. [ex_ok], ri_abort = \<lambda>_. None, ri_fenced = \<lambda>_. False, ri_kill = \<lambda>_. None, ri_world = \<lambda>_ db. db,
     ri_world_after = \<lambda>db. db\<rparr>"

text \<open>The process dies with the step begun and unanswered.\<close>

definition ex_run_dies :: run_io where
  "ex_run_dies = ex_run\<lparr>ri_tries := \<lambda>_. [ex_cut]\<rparr>"

definition ex_shell :: spec_step where
  "ex_shell = \<lparr>ss_id = ''run'', ss_kind = ''shell'', ss_continue = False, ss_detail = []\<rparr>"

definition ex_shell_job :: job_row where
  "ex_shell_job = ex_job\<lparr>j_state := Running, j_started_at := Some 0, j_spec := Some [ex_shell]\<rparr>"

definition ex_running :: farm where
  "ex_running = ex_idle\<lparr>hosts := [], hubs := [], slots := [], devices := [], runtimes := [], tenants := [], queues := [],
     step_kinds := [\<lparr>sk_kind = ''shell'', sk_idempotent = False, sk_needs_artifact = False\<rparr>], jobs := [ex_shell_job], leases := [ex_lease]\<rparr>"

definition ex_dead_step :: "int \<Rightarrow> step_row" where
  "ex_dead_step i = \<lparr>st_job = 20, st_attempt = 1, st_index = i, st_id = ''run'', st_kind = ''shell'', st_state = StepRunning, st_started_at = Some 0,
     st_finished_at = None, st_exit_code = None, st_output = None, st_error = None, st_detail = []\<rparr>"

definition ex_dead :: farm where
  "ex_dead = ex_idle\<lparr>jobs := [ex_job\<lparr>j_state := Running, j_started_at := Some 0, j_attempt := 1\<rparr>],
     job_steps := [ex_dead_step 0, ex_dead_step 1],
     job_attempts := [\<lparr>ja_id = 1, ja_job = 20, ja_attempt = 1, ja_device = Some 10, ja_lease = Some 30, ja_fence = Some 1, ja_started_at = 0,
       ja_finished_at = None, ja_outcome = None, ja_error = None\<rparr>], job_attempt_seq := 1\<rparr>"

definition ex_sweep :: janitor_io where
  "ex_sweep = \<lparr>ji_now = hours 1, ji_clock = 0, ji_beat = Up, ji_ensure = \<lparr>io_probe = True, io_pool = Some 7, io_lock = Up\<rparr>, ji_scan_steps = Up,
     ji_step = \<lambda>_. Up, ji_scan_attempts = Up, ji_attempt = \<lambda>_. Up, ji_jobs = Up, ji_scan_success = Up, ji_success = \<lambda>_. Up, ji_success_order = \<lambda>_. 0,
     ji_bulk_targets = Up, ji_bulk_runs = Up, ji_recovery = Up, ji_event = \<lambda>_. Up, ji_stale_text = ''15m0s''\<rparr>"

definition ex_sweeper :: janitor_config where
  "ex_sweeper = janitor_applyDefaults \<lparr>jc_Component = [], jc_Interval = 0, jc_Batch = 1, jc_CallTimeout = 0, jc_Settle = 0, jc_VerdictWindow = 0,
     jc_VerdictInterval = 0, jc_RecoveryStale = 0, jc_LockKey = 0\<rparr>"

definition ex_janitor :: janitor where
  "ex_janitor = \<lparr>jn_lead = replica (jc_LockKey ex_sweeper), jn_verdictDue = None\<rparr>"

lemma ex_valid: "placement_validate ex_raw = Inr ex_place"
  by code_simp

lemma ex_running_job: "jobs_of ex_place ex_running = [ex_shell_job]"
  by code_simp

lemma ex_steady: "steady ex_place ex_run" "steady ex_place ex_run_dies" "marks_arrive ex_place ex_run" "marks_arrive ex_place ex_run_dies"
  by (simp_all add: steady_def stands_by_def marks_arrive_def keeps_progress_def ex_run_dies_def ex_run_def)



section \<open>The runner\<close>



text \<open>
When the mark is lost the step begins all the same, nothing tells the next process of it, and the next
process begins it again.
\<close>

lemma lost_mark_repeats_the_step:
  "fst (placements (\<lambda>s. []) ex_raw [(\<lambda>db. db, ex_run_dies\<lparr>ri_mark := \<lambda>_. LostBefore\<rparr>), (\<lambda>db. db, ex_run)] ex_running) = [0, 0]"
  by code_simp

text \<open>
C6: A success the runner reports stands. When a run leaves its job succeeded, the rows of the attempt
account for every step of the spec and none of them belies the success; and the sweeper, which takes back
successes their rows contradict, keeps this one through any number of cycles on any links.
\<close>

theorem reported_success_stands:
  assumes "placement_validate raw = Inr p" and "steady p io" and "jobs_of p db = [job]" and "j_state job \<noteq> Succeeded"
    and "\<forall>c. j_checkpoint job = Some c \<longrightarrow> belongsTo c p \<longrightarrow> ck_Attempt c = j_attempt job"
    and "Run sha256 io raw db = (out, begun, db')" and "j' \<in> set (jobs_of p db')" and "j_state j' = Succeeded"
  shows "\<not> rows_disagree db' j' \<and> j' \<in> set (jobs (janitor_cycles cycles jn locks db'))"
proof -
  have agree: "\<not> rows_disagree db' j'" by (rule Run_succeeded [OF assms(1-4) _ assms(6-8)]) (use assms(5) in blast)
  have "j' \<in> set (jobs db')" using assms(7) by (simp add: jobs_of_def)
  from agreed_success_stays [OF janitor_cycles_swept this assms(8) agree] show ?thesis using agree by blast
qed

theorem reported_success_stands_witness:
  "\<exists>out begun db' j'. Run (\<lambda>s. []) ex_run ex_raw ex_running = (out, begun, db') \<and> j_state j' = Succeeded \<and> \<not> rows_disagree db' j' \<and>
     j' \<in> set (jobs (janitor_cycles [(ex_sweep, ex_sweeper)] ex_janitor (\<lambda>_. None) db'))"
proof -
  obtain out begun db' where r: "Run (\<lambda>s. []) ex_run ex_raw ex_running = (out, begun, db')" by (metis prod_cases3)
  have "map j_state (jobs_of ex_place (snd (snd (Run (\<lambda>s. []) ex_run ex_raw ex_running)))) = [Succeeded]" by code_simp
  then obtain j' where j': "j' \<in> set (jobs_of ex_place db')" "j_state j' = Succeeded" using r by (auto dest: map_singleD)
  have "j_state ex_shell_job \<noteq> Succeeded" by (simp add: ex_shell_job_def)
  from reported_success_stands [OF ex_valid ex_steady(1) ex_running_job this _ r j', of "[(ex_sweep, ex_sweeper)]" ex_janitor "\<lambda>_. None"] r j'
  show ?thesis by (auto simp: ex_shell_job_def ex_job_def)
qed

text \<open>
C8: A runner that has lost its lease has no say over the job. When no live lease of the job carries the
placement's fence, a whole run, whatever it does and whatever is lost, leaves the job's state, its error
and its finish as they were; and a checkpoint recorded under a higher fence is never overwritten.
\<close>

theorem stale_runner_leaves_the_job:
  assumes "placement_validate raw = Inr p" and "steady p io" and "\<not> holds_lease p db" and "Run sha256 io raw db = (out, begun, db')"
  shows "list_all2 (\<lambda>j j'. job_verdict j' = job_verdict j \<and> (p_Fence p < ckpt_fence j \<longrightarrow> j_checkpoint j' = j_checkpoint j)) (jobs_of p db) (jobs_of p db')"
proof -
  have "ran p db db'" using rn.Run_R [OF assms(1), of io db sha256] assms(2,4) by simp
  then have "list_all2 (job_ran p False) (jobs_of p db) (jobs_of p db')" using assms(3) by (simp add: ran_def)
  then show ?thesis by (rule list_all2_mono) (auto simp: job_ran_def)
qed

theorem stale_runner_leaves_the_job_witness:
  "\<exists>out begun db'. Run (\<lambda>s. []) ex_run ex_raw (ex_running\<lparr>leases := []\<rparr>) = (out, begun, db') \<and> begun = [0] \<and>
     map j_state (jobs_of ex_place db') = [Running]"
proof -
  obtain out begun db' where r: "Run (\<lambda>s. []) ex_run ex_raw (ex_running\<lparr>leases := []\<rparr>) = (out, begun, db')" by (metis prod_cases3)
  have "fst (snd (Run (\<lambda>s. []) ex_run ex_raw (ex_running\<lparr>leases := []\<rparr>))) = [0]" by code_simp
  moreover have "jobs_of ex_place (ex_running\<lparr>leases := []\<rparr>) = [ex_shell_job]" using ex_running_job by (simp add: jobs_of_def)
  ultimately show ?thesis using stale_runner_leaves_the_job [OF ex_valid ex_steady(1) _ r] r
    by (auto simp: holds_lease_def job_verdict_def list_all2_Cons1 ex_shell_job_def)
qed

text \<open>
C10: A transport failure never ends a step. When the runner gives a step up with an error, that error is
the cause with which the step's or the run's context ended, or one that says of itself that retrying is
useless; an error that may be retried is retried.
\<close>

theorem transport_failure_never_ends_a_step:
  assumes "runStep reattach tries n latest k = (starts, Some (r, retries, Some e))"
  shows "\<not> isRetryable e \<or> (\<exists>t\<in>set tries. t_after t = Some e \<or> t_pause t = Some e)"
  using assms
  by (induction reattach tries n latest k rule: runStep.induct) (auto split: prod.splits option.splits if_splits)

theorem transport_failure_never_ends_a_step_witness:
  "runStep False [ex_cut, ex_cut\<lparr>t_after := Some (Cancelled_by ''stop'')\<rparr>] 0 None 0 = (2, Some (None, 1, Some (Cancelled_by ''stop''))) \<and>
   (\<exists>t\<in>set [ex_cut, ex_cut\<lparr>t_after := Some (Cancelled_by ''stop'')\<rparr>]. t_after t = Some (Cancelled_by ''stop'') \<or> t_pause t = Some (Cancelled_by ''stop''))"
proof -
  have "runStep False [ex_cut, ex_cut\<lparr>t_after := Some (Cancelled_by ''stop'')\<rparr>] 0 None 0 = (2, Some (None, 1, Some (Cancelled_by ''stop'')))"
    by (simp add: try_once_def ex_cut_def ex_ok_def)
  with transport_failure_never_ends_a_step [OF this] show ?thesis using isRetryable.simps(6) by blast
qed

section \<open>The sweeper\<close>

lemma ex_up: "ji_scan_steps ex_sweep = Up" "ji_step ex_sweep k = Up"
  by (simp_all add: ex_sweep_def)



text \<open>
C9: Sweeping ends. With answers that arrive, each pass over the orphaned steps takes a batch of them off
the backlog, whatever the backlog is, and adds nothing to it; so with a batch of at least one no orphaned
step is left after as many passes as there were orphaned steps.
\<close>

theorem sweeping_ends:
  assumes "ji_scan_steps io = Up" and "\<forall>k. ji_step io k = Up" and "distinct (map step_key (job_steps db))" and "0 < jc_Batch cfg"
  shows "orphans (ji_now io) (jc_Settle cfg) (((snd \<circ> sweepSteps io cfg) ^^ n) db) = orphans (ji_now io) (jc_Settle cfg) db - n * nat (jc_Batch cfg) \<and>
    orphans (ji_now io) (jc_Settle cfg) (((snd \<circ> sweepSteps io cfg) ^^ orphans (ji_now io) (jc_Settle cfg) db) db) = 0"
proof -
  have "orphans (ji_now io) (jc_Settle cfg) (((snd \<circ> sweepSteps io cfg) ^^ m) db) = orphans (ji_now io) (jc_Settle cfg) db - m * nat (jc_Batch cfg)" for m
    using sweepSteps_iterated [of io db cfg m] assms by simp
  moreover have "1 \<le> nat (jc_Batch cfg)" using assms(4) by simp
  ultimately show ?thesis by simp
qed

theorem sweeping_ends_witness:
  "orphans (ji_now ex_sweep) (jc_Settle ex_sweeper) ex_dead = 2 \<and>
   orphans (ji_now ex_sweep) (jc_Settle ex_sweeper) (((snd \<circ> sweepSteps ex_sweep ex_sweeper) ^^ 2) ex_dead) = 0"
proof -
  have two: "orphans (ji_now ex_sweep) (jc_Settle ex_sweeper) ex_dead = 2" by code_simp
  have batch: "0 < jc_Batch ex_sweeper" by code_simp
  have "distinct (map step_key (job_steps ex_dead))" by (simp add: ex_dead_def ex_dead_step_def step_key_def)
  from sweeping_ends [of ex_sweep, OF _ _ this batch, of 2] two show ?thesis using batch by (simp add: ex_up)
qed

end
