(* ===== verification/Spec2Isabelle.thy ===== *)
theory Spec2Isabelle
  imports Lease_Properties Lease_Calls Loop_Properties Health_Properties Recovery_Properties Adb_Properties Fence_Properties Charge_Properties
    Work_Properties
begin

text \<open>
  A model of the device farm's control plane, and what makes it correct.

  \<^bold>\<open>The program.\<close> The farm lends USB-attached phones to jobs. Its truth is a PostgreSQL schema
  (\<^verbatim>\<open>migrations/\<close>) whose functions hand out, renew, witness, release and reclaim leases under a
  global fence sequence. Around it run the lease client (\<^verbatim>\<open>internal/lease\<close>), the scheduler, the
  reaper, the watchdog, the recovery ladder and the API, each a loop of statements over connections
  that may fail before or after the server has acted; \<^verbatim>\<open>internal/adbwire\<close> speaks to the ADB servers
  of the hosts, the fence proxy stands in front of each of them and lets a connection through only under
  a current fence, and the charge policy takes idle phones out of service and asks the host agents to
  switch their ports off. A placed job is carried out by the runner (\<^verbatim>\<open>internal/runner\<close>), step by step under
  its lease and with a checkpoint the next placement resumes from; the janitor
  (\<^verbatim>\<open>internal/janitor\<close>) closes the rows that no process can be working on any more.

  \<^bold>\<open>The library.\<close>
  \<^item> \<^verbatim>\<open>Farm_Prelude\<close>: the types every theory shares (times, JSON details, results), calls over a link
    that loses the request or the answer, text helpers.
  \<^item> \<^verbatim>\<open>Farm_Schema\<close>: the tables of \<^verbatim>\<open>00001_core.sql\<close>, \<^verbatim>\<open>00003_ops.sql\<close> and \<^verbatim>\<open>00004_operate.sql\<close> as
    records, the farm as one record of them.
  \<^item> \<^verbatim>\<open>Lease_Sql\<close>: the SQL functions and triggers on leases, each at the last migration that redefines it.
    \<^verbatim>\<open>Lease_Invariant\<close> states well-formedness and proves every statement keeps it; \<^verbatim>\<open>Lease_Correct\<close> says
    what each function returns and changes; \<^verbatim>\<open>Lease_Evolution\<close> what no statement can do to a lease.
  \<^item> \<^verbatim>\<open>Lease_Store\<close>: \<^verbatim>\<open>internal/lease/store.go\<close>, every method with its error classification.
    \<^verbatim>\<open>Lease_Holder\<close>: \<^verbatim>\<open>holder.go\<close>, the renewal goroutine as a step relation.
  \<^item> \<^verbatim>\<open>Leadership\<close>, \<^verbatim>\<open>Reaper_Loop\<close>, \<^verbatim>\<open>Scheduler_Loop\<close>: the advisory-lock election and the two loops that
    need it, one definition per method and a whole cycle composed as the code composes it.
  \<^item> \<^verbatim>\<open>Watchdog_Damper\<close>, \<^verbatim>\<open>Watchdog_Loop\<close>: the flap damper, in Go and as the SQL fragment the code sends,
    and the folding of a device listing into \<^verbatim>\<open>farm.device_runtime\<close>.
  \<^item> \<^verbatim>\<open>Lease_Api\<close>: the operator's revoke with its transaction.
  \<^item> \<^verbatim>\<open>Farm_System\<close>: the components together, as a step relation on the farm; reachability and the
    invariants of every interleaving.
  \<^item> \<^verbatim>\<open>Recovery_Outcome\<close>, \<^verbatim>\<open>Recovery_Ladder\<close>, \<^verbatim>\<open>Recovery_Attempt\<close>, \<^verbatim>\<open>Recovery_Correct\<close>: the recovery ladder,
    from its vocabulary of verdicts to a whole cycle, with the actuator a parameter.
    \<^verbatim>\<open>Recovery_Actuator\<close>, \<^verbatim>\<open>Recovery_Verdicts\<close>: the actuator itself and what its verdicts rest on.
  \<^item> \<^verbatim>\<open>Adb_Wire\<close>, \<^verbatim>\<open>Adb_Listing\<close>: the bytes of the ADB protocol and the device listing.
  \<^item> \<^verbatim>\<open>Go_Text\<close>: the parts of Go's \<^verbatim>\<open>strings\<close> and \<^verbatim>\<open>strconv\<close> the parsers use.
  \<^item> \<^verbatim>\<open>Fence_Proxy\<close>, \<^verbatim>\<open>Fence_Session\<close>, \<^verbatim>\<open>Fence_Source\<close>, \<^verbatim>\<open>Fence_Correct\<close>: \<^verbatim>\<open>internal/fenceproxy\<close>, from the
    service strings and the admission rule to the cache of floors and a whole session, and the query
    that feeds it; what a session forwards, and how a lease's end reaches it.
  \<^item> \<^verbatim>\<open>Park_Sql\<close>: \<^verbatim>\<open>device_park\<close> and \<^verbatim>\<open>device_unpark\<close> of \<^verbatim>\<open>00008_parked.sql\<close> and the ledger's invariant.
    \<^verbatim>\<open>Charge_Gate\<close>, \<^verbatim>\<open>Charge_Switch\<close>: the host agent's charge gate and, as a step relation, its dead-man's
    switch, with its refinement of a table of deadlines. \<^verbatim>\<open>Charge_Plan\<close>, \<^verbatim>\<open>Charge_Loop\<close>,
    \<^verbatim>\<open>Charge_Correct\<close>: \<^verbatim>\<open>internal/chargepolicy\<close>, the decision, the calls to database and agents, and a
    whole cycle with what it may do.
  \<^item> \<^verbatim>\<open>Janitor_Loop\<close>, \<^verbatim>\<open>Janitor_Correct\<close>: the janitor's sweeps of steps, attempts, bulk targets, staging
    paths and unsupported successes, a whole cycle of them, and what they may touch, close and leave.
  \<^item> \<^verbatim>\<open>Run_Plan\<close>: \<^verbatim>\<open>checkpoint.go\<close>, where an attempt starts and what the interrupted one left behind.
    \<^verbatim>\<open>Run_Loop\<close>: \<^verbatim>\<open>runner.go\<close>, from one try of a step to a whole placement with its bookkeeping.
    \<^verbatim>\<open>Run_Correct\<close>: what a run leaves of the farm and what a reported success rests on.
    \<^verbatim>\<open>Run_Once\<close>: over several placements, how often a step that must not be repeated runs.
  \<^item> \<^verbatim>\<open>Lease_Properties\<close>, \<^verbatim>\<open>Lease_Calls\<close>, \<^verbatim>\<open>Loop_Properties\<close>, \<^verbatim>\<open>Health_Properties\<close>, \<^verbatim>\<open>Recovery_Properties\<close>,
    \<^verbatim>\<open>Adb_Properties\<close>, \<^verbatim>\<open>Fence_Properties\<close>, \<^verbatim>\<open>Charge_Properties\<close>, \<^verbatim>\<open>Work_Properties\<close>: the
    properties, each with a witness on a concrete farm (\<^verbatim>\<open>Farm_Example\<close>).

  \<^bold>\<open>How the code is read.\<close> A transaction is one step: PostgreSQL's row locks and the \<^verbatim>\<open>FOR UPDATE\<close> clauses
  are what make it so, and the model takes that from the database. A call carries its link: the
  server did not run it, ran it and answered, or ran it and the answer was lost. \<^verbatim>\<open>now()\<close> and every
  random draw are arguments. Times and durations are integers (microseconds in the database,
  nanoseconds in Go), the back-off is computed at sixty-four bits with its wrap-around. Loops are
  structural recursions, so they end; no fuel is used. Interleavings are the step relations of
  \<^verbatim>\<open>Farm_System\<close>, \<^verbatim>\<open>Lease_Holder\<close>, \<^verbatim>\<open>Leadership\<close>, the fence cache and \<^verbatim>\<open>Charge_Switch\<close>. A process that
  dies in the middle of a run is one whose later statements are all lost, so every theorem over the
  links covers its death; what the rest of the farm does during a step of a run is a function of
  the farm that the run is given. Parsing a job's spec and SHA-256 are arguments of the
  definitions that use them.

  \<^bold>\<open>Not modelled.\<close> Metrics, logging and timers; the configuration loader, the command line, the user
  interface and the demonstration farm; of the node agent everything but the charge gate, and
  enrolment, topology discovery, artifacts and video, which are input and output to hardware and
  services; certificates and the TLS handshake in front of the fence proxy; the executors of the kinds of
  step (\<^verbatim>\<open>runner/steps.go\<close>, \<^verbatim>\<open>runner/witness.go\<close>, whose outcome is an argument of a run), the supervisor
  that starts runs (\<^verbatim>\<open>internal/jobrunner\<close>) and the parser and validator of specs (\<^verbatim>\<open>internal/jobspec\<close>). Row-level privileges of the database roles are not modelled.
\<close>

end
